(* ===== verification/Go_Prelude.thy ===== *)
theory Go_Prelude
  imports Complex_Main "HOL-Library.Sublist" "HOL-Library.Char_ord" "HOL-Library.List_Lexorder"
    "HOL-Library.Multiset"
begin

text \<open>
  Shared vocabulary of the development: Go's error returns, slices that may be nil, maps seen
  as association lists in iteration order, and the functions of packages \<open>strings\<close>,
  \<open>strconv\<close> and \<open>sort\<close> that the modelled code calls. A Go string is its
  list of bytes.
\<close>

named_theorems res_simps \<open>inversion of results that are not errors\<close>
named_theorems key_simps \<open>composed map keys\<close>

section \<open>Error returns\<close>

text \<open>A Go function returning \<open>(T, error)\<close> gives \<open>Inl\<close> of the error or \<open>Inr\<close> of the value.\<close>

definition rbind :: "'e + 'a \<Rightarrow> ('a \<Rightarrow> 'e + 'b) \<Rightarrow> 'e + 'b" where
  "rbind m f = (case m of Inl e \<Rightarrow> Inl e | Inr a \<Rightarrow> f a)"

definition check :: "bool \<Rightarrow> 'e \<Rightarrow> 'e + unit" where
  "check b e = (if b then Inr () else Inl e)"

lemma rbind_simps [simp]:
  "rbind (Inl e) f = Inl e"
  "rbind (Inr a) f = f a"
  by (simp_all add: rbind_def)

lemma rbind_Inr_iff [res_simps]:
  "rbind m f = Inr b \<longleftrightarrow> (\<exists>a. m = Inr a \<and> f a = Inr b)"
  by (cases m) simp_all

lemma check_Inr_iff [res_simps]: "check b e = Inr u \<longleftrightarrow> b"
  by (simp add: check_def)

lemma check_simps [simp]: "check True e = Inr ()" "check False e = Inl e"
  by (simp_all add: check_def)

text \<open>A loop whose body may return an error, threading a state.\<close>

fun rfold :: "('a \<Rightarrow> 's \<Rightarrow> 'e + 's) \<Rightarrow> 'a list \<Rightarrow> 's \<Rightarrow> 'e + 's" where
  "rfold f [] s = Inr s"
| "rfold f (x # xs) s = rbind (f x s) (rfold f xs)"

lemma rfold_append: "rfold f (xs @ ys) s = rbind (rfold f xs s) (rfold f ys)"
proof (induction xs arbitrary: s)
  case Nil
  then show ?case by simp
next
  case (Cons x xs)
  then show ?case by (cases "f x s") simp_all
qed

text \<open>The invariant rule of such a loop: what every successful step keeps, the loop keeps.\<close>

lemma rfold_invariant:
  assumes "rfold f xs s = Inr s'" and "P s"
    and "\<And>x s s'. x \<in> set xs \<Longrightarrow> P s \<Longrightarrow> f x s = Inr s' \<Longrightarrow> P s'"
  shows "P s'"
  using assms
proof (induction xs arbitrary: s)
  case Nil
  then show ?case by simp
next
  case (Cons x xs)
  from Cons.prems(1) obtain t where t: "f x s = Inr t" "rfold f xs t = Inr s'"
    by (auto simp: rbind_Inr_iff)
  have "P t" using Cons.prems(2) t(1) Cons.prems(3) [of x s t] by simp
  with t(2) show ?case using Cons.IH Cons.prems(3) by (metis list.set_intros(2))
qed

section \<open>Slices and maps\<close>

text \<open>A slice whose nil-ness the code tests; ranging over nil is ranging over no element.\<close>

definition elems :: "'a list option \<Rightarrow> 'a list" where
  "elems xs = (case xs of None \<Rightarrow> [] | Some ys \<Rightarrow> ys)"

lemma elems_simps [simp]: "elems None = []" "elems (Some ys) = ys"
  by (simp_all add: elems_def)

text \<open>Reading a missing key of a \<open>map[string]string\<close> gives the empty string.\<close>

definition get0 :: "(string \<times> string) list \<Rightarrow> string \<Rightarrow> string" where
  "get0 m k = (case map_of m k of None \<Rightarrow> [] | Some v \<Rightarrow> v)"

text \<open>A map that indexes a list of records by a key, no key occurring twice.\<close>

definition indexed :: "('a \<Rightarrow> string) \<Rightarrow> (string \<rightharpoonup> 'a) \<Rightarrow> 'a list \<Rightarrow> bool" where
  "indexed key m xs \<longleftrightarrow> distinct (map key xs) \<and> (\<forall>k x. m k = Some x \<longleftrightarrow> x \<in> set xs \<and> key x = k)"

lemma indexed_empty [simp]: "indexed key Map.empty []"
  by (simp add: indexed_def)

lemma indexed_insert:
  assumes "indexed key m xs" and "m (key x) = None"
  shows "indexed key (m(key x \<mapsto> x)) (xs @ [x])"
proof -
  have "y \<notin> set xs" if "key y = key x" for y
    using assms that by (metis indexed_def option.distinct(1))
  then show ?thesis using assms(1) by (auto simp: indexed_def)
qed

lemma indexed_Some_iff: "indexed key m xs \<Longrightarrow> m k = Some x \<longleftrightarrow> x \<in> set xs \<and> key x = k"
  by (simp add: indexed_def)

lemma indexed_member: "indexed key m xs \<Longrightarrow> x \<in> set xs \<Longrightarrow> m (key x) = Some x"
  by (simp add: indexed_def)

lemma indexed_sort_key [simp]:
  fixes f :: "'a \<Rightarrow> 'b::linorder"
  shows "indexed key m (sort_key f xs) \<longleftrightarrow> indexed key m xs"
proof -
  have "mset (map key (sort_key f xs)) = mset (map key xs)" by simp
  then have "distinct (map key (sort_key f xs)) \<longleftrightarrow> distinct (map key xs)"
    by (rule mset_eq_imp_distinct_iff)
  then show ?thesis by (simp add: indexed_def)
qed

lemma indexed_fresh:
  assumes "indexed key m ps" "distinct (map key (ps @ q # qs))"
  shows "m (key q) = None"
proof (rule ccontr)
  assume "m (key q) \<noteq> None"
  then obtain p where "p \<in> set ps" "key p = key q" using assms(1) by (auto simp: indexed_def)
  with assms(2) show False by (auto simp: image_iff)
qed

lemma indexed_determined:
  assumes "indexed key m xs" "indexed key m' ys" "set xs = set ys"
  shows "m = m'"
proof
  fix k
  have "m k = Some x \<longleftrightarrow> m' k = Some x" for x using assms by (simp add: indexed_def)
  then show "m k = m' k" by (metis not_None_eq)
qed

text \<open>The contract of a kind of record that is normalised, checked and then indexed.\<close>

locale registration =
  fixes norm :: "'a \<Rightarrow> 'e + 'a"
    and normal :: "'a \<Rightarrow> bool"
  assumes norm_normal: "norm x = Inr y \<Longrightarrow> normal y"
    and norm_fixed: "normal x \<Longrightarrow> norm x = Inr x"
begin

lemma norm_idem: "norm x = Inr y \<Longrightarrow> norm y = Inr y"
  by (blast intro: norm_fixed norm_normal)

lemma register_ok:
  fixes key :: "'a \<Rightarrow> string"
  assumes "indexed key m xs" "\<forall>y\<in>set xs. normal y" "norm x = Inr y" "m (key y) = None"
  shows "indexed key (m(key y \<mapsto> y)) (xs @ [y]) \<and> (\<forall>z\<in>set (xs @ [y]). normal z)"
  using assms norm_normal indexed_insert by auto

end

text \<open>A loop that maps each element, refuses a result seen before and collects the results.\<close>

definition collect :: "('a \<Rightarrow> 'e + 'b) \<Rightarrow> 'e \<Rightarrow> 'a \<Rightarrow> 'b list \<Rightarrow> 'e + 'b list" where
  "collect f dup raw acc =
     rbind (f raw) (\<lambda>k. if k \<in> set acc then Inl dup else Inr (acc @ [k]))"

lemma collect_Inr_iff [res_simps]:
  "collect f dup raw acc = Inr x \<longleftrightarrow> (\<exists>k. f raw = Inr k \<and> k \<notin> set acc \<and> x = acc @ [k])"
  by (auto simp: collect_def rbind_Inr_iff)

lemma collect_result:
  assumes "rfold (collect f dup) raws acc = Inr ks" and "distinct acc"
  shows "distinct ks \<and> (\<forall>k\<in>set ks. k \<in> set acc \<or> (\<exists>raw\<in>set raws. f raw = Inr k))"
  using assms
proof (induction raws arbitrary: acc)
  case Nil
  then show ?case by auto
next
  case (Cons r raws)
  from Cons.prems obtain k where k: "f r = Inr k" "k \<notin> set acc"
    "rfold (collect f dup) raws (acc @ [k]) = Inr ks"
    by (auto simp: res_simps)
  from Cons.IH [OF k(3)] Cons.prems(2) k show ?case by fastforce
qed

lemma collect_fixed:
  assumes "distinct (acc @ ks)" and "\<forall>k\<in>set ks. f k = Inr k"
  shows "rfold (collect f dup) ks acc = Inr (acc @ ks)"
  using assms by (induction ks arbitrary: acc) (auto simp: collect_def [of f dup])

lemma collect_length:
  "rfold (collect f dup) raws acc = Inr ks \<Longrightarrow> length ks = length acc + length raws"
proof (induction raws arbitrary: acc)
  case Nil
  then show ?case by simp
next
  case (Cons r raws)
  then show ?case by (auto simp: res_simps dest!: Cons.IH)
qed

section \<open>Package strings\<close>

text \<open>
  The UTF-8 encodings of the code points with \<open>unicode.IsSpace\<close>. Every encoding starts
  with a byte that starts a rune, so cutting an encoding off either end of the byte string is
  what decoding the first or the last rune does.
\<close>

definition space_runes :: "string list" where
  "space_runes =
     [[CHR 0x20], [CHR 0x09], [CHR 0x0A], [CHR 0x0B], [CHR 0x0C], [CHR 0x0D],
      [CHR 0xC2, CHR 0x85], [CHR 0xC2, CHR 0xA0], [CHR 0xE1, CHR 0x9A, CHR 0x80],
      [CHR 0xE2, CHR 0x80, CHR 0x80], [CHR 0xE2, CHR 0x80, CHR 0x81],
      [CHR 0xE2, CHR 0x80, CHR 0x82], [CHR 0xE2, CHR 0x80, CHR 0x83],
      [CHR 0xE2, CHR 0x80, CHR 0x84], [CHR 0xE2, CHR 0x80, CHR 0x85],
      [CHR 0xE2, CHR 0x80, CHR 0x86], [CHR 0xE2, CHR 0x80, CHR 0x87],
      [CHR 0xE2, CHR 0x80, CHR 0x88], [CHR 0xE2, CHR 0x80, CHR 0x89],
      [CHR 0xE2, CHR 0x80, CHR 0x8A], [CHR 0xE2, CHR 0x80, CHR 0xA8],
      [CHR 0xE2, CHR 0x80, CHR 0xA9], [CHR 0xE2, CHR 0x80, CHR 0xAF],
      [CHR 0xE2, CHR 0x81, CHR 0x9F], [CHR 0xE3, CHR 0x80, CHR 0x80]]"

fun strip_first :: "string list \<Rightarrow> string \<Rightarrow> string option" where
  "strip_first [] s = None"
| "strip_first (r # rs) s =
     (if r \<noteq> [] \<and> prefix r s then Some (drop (length r) s) else strip_first rs s)"

lemma strip_first_Some:
  "strip_first rs s = Some t \<Longrightarrow> \<exists>r\<in>set rs. r \<noteq> [] \<and> s = r @ t"
  by (induction rs) (auto split: if_splits simp: prefix_def)

lemma strip_first_None:
  "strip_first rs s = None \<longleftrightarrow> (\<forall>r\<in>set rs. r \<noteq> [] \<longrightarrow> \<not> prefix r s)"
  by (induction rs) auto

lemma strip_first_shorter: "strip_first rs s = Some t \<Longrightarrow> length t < length s"
  by (drule strip_first_Some) auto

function strip_runes :: "string list \<Rightarrow> string \<Rightarrow> string" where
  "strip_runes rs s = (case strip_first rs s of None \<Rightarrow> s | Some t \<Rightarrow> strip_runes rs t)"
  by pat_completeness auto
termination
  by (relation "measure (\<lambda>(rs, s). length s)") (auto dest: strip_first_shorter)

declare strip_runes.simps [simp del]

definition trim_left :: "string \<Rightarrow> string" where
  "trim_left s = strip_runes space_runes s"

definition trim_right :: "string \<Rightarrow> string" where
  "trim_right s = rev (strip_runes (map rev space_runes) (rev s))"

definition trim_space :: "string \<Rightarrow> string" where
  "trim_space s = trim_right (trim_left s)"

lemma strip_runes_stripped: "strip_first rs (strip_runes rs s) = None"
proof (induction rs s rule: strip_runes.induct)
  case (1 rs s)
  then show ?case by (cases "strip_first rs s") (simp_all add: strip_runes.simps [of rs s])
qed

lemma strip_runes_fixed: "strip_first rs s = None \<Longrightarrow> strip_runes rs s = s"
  by (simp add: strip_runes.simps)

lemma strip_runes_suffix: "suffix (strip_runes rs s) s"
proof (induction rs s rule: strip_runes.induct)
  case (1 rs s)
  show ?case
  proof (cases "strip_first rs s")
    case None
    then show ?thesis by (simp add: strip_runes.simps [of rs s])
  next
    case (Some t)
    with strip_first_Some [OF Some] have "suffix t s" by (auto simp: suffix_def)
    with Some "1.IH" [OF Some] show ?thesis
      by (auto simp: strip_runes.simps [of rs s] intro: suffix_order.trans)
  qed
qed

lemma trim_right_prefix: "prefix (trim_right s) s"
  using strip_runes_suffix [of "map rev space_runes" "rev s"]
  by (simp add: trim_right_def suffix_to_prefix)

lemma trim_left_fixed_prefix:
  assumes "trim_left s = s" and "prefix t s"
  shows "trim_left t = t"
proof -
  have "strip_first space_runes s = None"
    using strip_runes_stripped [of space_runes s] assms(1) by (simp add: trim_left_def)
  then have "strip_first space_runes t = None"
    using assms(2) by (auto simp: strip_first_None intro: prefix_order.trans)
  then show ?thesis by (simp add: trim_left_def strip_runes_fixed)
qed

lemma trim_left_idem [simp]: "trim_left (trim_left s) = trim_left s"
  by (simp add: trim_left_def strip_runes_fixed strip_runes_stripped)

lemma trim_right_idem [simp]: "trim_right (trim_right s) = trim_right s"
  by (simp add: trim_right_def strip_runes_fixed strip_runes_stripped)

lemma trim_space_idem [simp]: "trim_space (trim_space s) = trim_space s"
proof -
  have "trim_left (trim_space s) = trim_space s"
    unfolding trim_space_def
    by (rule trim_left_fixed_prefix [of "trim_left s"]) (simp_all add: trim_right_prefix)
  then show ?thesis by (simp add: trim_space_def)
qed

lemma set_trim_space: "set (trim_space s) \<subseteq> set s"
proof -
  have "set (trim_right (trim_left s)) \<subseteq> set (trim_left s)"
    using trim_right_prefix by (metis prefix_def set_append sup_ge1)
  moreover have "set (trim_left s) \<subseteq> set s"
    using strip_runes_suffix [of space_runes s] by (metis set_mono_suffix trim_left_def)
  ultimately show ?thesis by (auto simp: trim_space_def)
qed

lemma trim_space_Nil [simp]: "trim_space [] = []"
  using set_trim_space [of "[]"] by simp

text \<open>
  \<open>strings.ToLower\<close>. Of the runes beyond ASCII exactly U+0130 and U+212A lower to ASCII
  letters; the other ones stay beyond ASCII and are left as they are, because the modelled code
  only compares lowered strings with ASCII words.
\<close>

definition lower_byte :: "char \<Rightarrow> char" where
  "lower_byte c = (let n = of_char c :: nat in if 65 \<le> n \<and> n \<le> 90 then char_of (n + 32) else c)"

fun to_lower :: "string \<Rightarrow> string" where
  "to_lower [] = []"
| "to_lower (c # s) =
     (if c = CHR 0xC4 \<and> prefix [CHR 0xB0] s then CHR ''i'' # to_lower (drop 1 s)
      else if c = CHR 0xE2 \<and> prefix [CHR 0x84, CHR 0xAA] s then CHR ''k'' # to_lower (drop 2 s)
      else lower_byte c # to_lower s)"

text \<open>\<open>strings.ToLower(strings.TrimSpace(s))\<close>.\<close>

definition fold_key :: "string \<Rightarrow> string" where
  "fold_key s = to_lower (trim_space s)"

definition lower_letter :: "char \<Rightarrow> bool" where
  "lower_letter c \<longleftrightarrow> (let n = of_char c :: nat in 97 \<le> n \<and> n \<le> 122)"

lemma lower_byte_cases: "lower_byte c = c \<or> lower_letter (lower_byte c)"
  by (auto simp: lower_byte_def lower_letter_def Let_def)

lemma lower_byte_idem [simp]: "lower_byte (lower_byte c) = lower_byte c"
  by (auto simp: lower_byte_def Let_def)

lemma lower_byte_other: "\<not> lower_letter b \<Longrightarrow> lower_byte c = b \<Longrightarrow> c = b"
  using lower_byte_cases [of c] by auto

lemma lower_letter_simps [simp]:
  "lower_letter (CHR ''i'')" "lower_letter (CHR ''k'')"
  by (simp_all add: lower_letter_def)

lemma to_lower_Nil_iff [simp]: "to_lower s = [] \<longleftrightarrow> s = []"
  by (cases s) auto

text \<open>A byte of the result that is no lower-case letter was there before, at the same place.\<close>

lemma to_lower_Cons:
  "to_lower s = b # u \<Longrightarrow> \<not> lower_letter b \<Longrightarrow> \<exists>t. s = b # t \<and> u = to_lower t"
  by (cases s) (auto split: if_splits dest: lower_byte_other)

lemma to_lower_prefix:
  "prefix r (to_lower s) \<Longrightarrow> \<forall>b\<in>set r. \<not> lower_letter b \<Longrightarrow> prefix r s"
proof (induction r arbitrary: s)
  case Nil
  then show ?case by simp
next
  case (Cons b r)
  then obtain u where "to_lower s = b # u" "prefix r u"
    by (cases "to_lower s") auto
  with to_lower_Cons [of s b u] Cons show ?case by auto
qed

lemma to_lower_fixed: "to_lower s = r \<Longrightarrow> \<forall>b\<in>set r. \<not> lower_letter b \<Longrightarrow> s = r"
proof (induction r arbitrary: s)
  case Nil
  then show ?case by simp
next
  case (Cons b r)
  with to_lower_Cons [of s b r] show ?case by auto
qed

lemma to_lower_suffix:
  "to_lower s = u @ r \<Longrightarrow> \<forall>b\<in>set r. \<not> lower_letter b \<Longrightarrow> suffix r s"
proof (induction s arbitrary: u rule: to_lower.induct)
  case 1
  then show ?case by simp
next
  case (2 c s)
  show ?case
  proof (cases u)
    case Nil
    with "2.prems" to_lower_fixed [of "c # s" r] show ?thesis by simp
  next
    case (Cons x v)
    then have "(\<exists>n. to_lower (drop n s) = v @ r \<and> suffix r (drop n s))"
      using "2.prems" "2.IH" by (auto split: if_splits intro: exI [of _ 0])
    then show ?thesis by (meson suffix_ConsI suffix_drop suffix_order.trans)
  qed
qed

lemma to_lower_idem [simp]: "to_lower (to_lower s) = to_lower s"
proof (induction s rule: to_lower.induct)
  case 1
  then show ?case by simp
next
  case (2 c s)
  have "prefix [CHR 0xB0] (to_lower s) \<Longrightarrow> prefix [CHR 0xB0] s"
    "prefix [CHR 0x84, CHR 0xAA] (to_lower s) \<Longrightarrow> prefix [CHR 0x84, CHR 0xAA] s"
    by (rule to_lower_prefix; simp add: lower_letter_def)+
  moreover have "lower_byte c = CHR 0xC4 \<Longrightarrow> c = CHR 0xC4" "lower_byte c = CHR 0xE2 \<Longrightarrow> c = CHR 0xE2"
    by (rule lower_byte_other; simp add: lower_letter_def)+
  moreover have "lower_byte (CHR ''i'') = CHR ''i''" "lower_byte (CHR ''k'') = CHR ''k''"
    by (simp_all add: lower_byte_def)
  ultimately show ?case using 2 by auto
qed

lemma space_runes_no_letter: "\<forall>r\<in>set space_runes. \<forall>b\<in>set r. \<not> lower_letter b"
  by (simp add: space_runes_def lower_letter_def)

lemma trim_left_fixed_iff: "trim_left s = s \<longleftrightarrow> (\<forall>r\<in>set space_runes. r \<noteq> [] \<longrightarrow> \<not> prefix r s)"
  using strip_runes_stripped [of space_runes s]
  by (metis strip_first_None strip_runes_fixed trim_left_def)

lemma trim_right_fixed_iff: "trim_right s = s \<longleftrightarrow> (\<forall>r\<in>set space_runes. r \<noteq> [] \<longrightarrow> \<not> suffix r s)"
proof -
  have "trim_right s = s \<longleftrightarrow> strip_first (map rev space_runes) (rev s) = None"
    using strip_runes_stripped [of "map rev space_runes" "rev s"]
    by (metis rev_rev_ident strip_runes_fixed trim_right_def)
  then show ?thesis by (simp add: strip_first_None suffix_to_prefix)
qed

lemma trim_space_fixed_iff: "trim_space s = s \<longleftrightarrow> trim_left s = s \<and> trim_right s = s"
proof
  assume t: "trim_space s = s"
  then have "length (trim_left s) = length s"
    using prefix_length_le [OF trim_right_prefix [of "trim_left s"]]
      suffix_length_le [OF strip_runes_suffix [of space_runes s]]
    by (simp add: trim_space_def trim_left_def)
  then have "trim_left s = s"
    using strip_runes_suffix [of space_runes s] by (metis suffix_order.order_iff_strict suffix_length_less trim_left_def less_irrefl)
  with t show "trim_left s = s \<and> trim_right s = s" by (simp add: trim_space_def)
qed (simp add: trim_space_def)

lemma trim_space_lower:
  assumes "trim_space s = s"
  shows "trim_space (to_lower s) = to_lower s"
proof -
  have "\<not> prefix r (to_lower s)" "\<not> suffix r (to_lower s)" if "r \<in> set space_runes" "r \<noteq> []" for r
    using that assms space_runes_no_letter to_lower_prefix [of r s] to_lower_suffix [of s _ r]
    by (auto simp: trim_space_fixed_iff trim_left_fixed_iff trim_right_fixed_iff suffix_def)
  then show ?thesis
    by (simp add: trim_space_fixed_iff trim_left_fixed_iff trim_right_fixed_iff)
qed

lemma fold_key_idem [simp]: "fold_key (fold_key s) = fold_key s"
  by (simp add: fold_key_def trim_space_lower)

lemma trim_fold_key [simp]: "trim_space (fold_key s) = fold_key s"
  by (simp add: fold_key_def trim_space_lower)

fun split_on :: "char \<Rightarrow> string \<Rightarrow> string list" where
  "split_on c [] = [[]]"
| "split_on c (x # xs) =
     (if x = c then [] # split_on c xs
      else (case split_on c xs of [] \<Rightarrow> [[x]] | y # ys \<Rightarrow> (x # y) # ys))"

fun join_with :: "string \<Rightarrow> string list \<Rightarrow> string" where
  "join_with sep [] = []"
| "join_with sep [x] = x"
| "join_with sep (x # y # ys) = x @ sep @ join_with sep (y # ys)"

lemma split_on_nonempty [simp]: "split_on c s \<noteq> []"
  by (induction s) (auto split: list.split)

lemma join_split: "join_with [c] (split_on c s) = s"
proof (induction s)
  case Nil
  then show ?case by simp
next
  case (Cons x xs)
  then show ?case by (cases "split_on c xs"; cases "tl (split_on c xs)") auto
qed

lemma split_on_no_sep: "c \<notin> set s \<Longrightarrow> split_on c s = [s]"
  by (induction s) auto

lemma split_on_append: "c \<notin> set s \<Longrightarrow> split_on c (s @ c # t) = s # split_on c t"
  by (induction s) auto

lemma split_on_parts: "p \<in> set (split_on c s) \<Longrightarrow> c \<notin> set p"
proof (induction s arbitrary: p)
  case Nil
  then show ?case by simp
next
  case (Cons x xs)
  then show ?case by (cases "split_on c xs") (auto split: if_splits)
qed

text \<open>\<open>strings.ContainsAny\<close>, \<open>strings.TrimPrefix\<close> and the trimming of one byte from both ends.\<close>

definition contains_any :: "string \<Rightarrow> string \<Rightarrow> bool" where
  "contains_any s cs = list_ex (\<lambda>c. c \<in> set cs) s"

definition trim_prefix :: "string \<Rightarrow> string \<Rightarrow> string" where
  "trim_prefix p s = (if prefix p s then drop (length p) s else s)"

definition trim_char :: "char \<Rightarrow> string \<Rightarrow> string" where
  "trim_char c s = rev (dropWhile (\<lambda>x. x = c) (rev (dropWhile (\<lambda>x. x = c) s)))"

lemma set_trim_char: "set (trim_char c s) \<subseteq> set s"
  unfolding trim_char_def by (auto dest!: set_dropWhileD)

text \<open>Two trimmed strings around a slash are trimmed.\<close>

lemma trim_space_around:
  assumes "trim_space a = a" and "trim_space b = b" and "\<forall>r\<in>set space_runes. c \<notin> set r"
  shows "trim_space (a @ c # b) = a @ c # b"
proof -
  have "prefix r a" if "prefix r (a @ c # b)" "r \<in> set space_runes" for r
    using that assms(3) by (auto simp: prefix_append prefix_Cons)
  moreover have "suffix r b" if "suffix r (a @ c # b)" "r \<in> set space_runes" for r
  proof -
    from that(1) have "prefix (rev r) (rev b @ c # rev a)" by (simp add: suffix_to_prefix)
    with that(2) assms(3) have "prefix (rev r) (rev b)"
      by (auto simp: prefix_append prefix_Cons) (metis in_set_conv_decomp set_rev)
    then show ?thesis by (simp add: suffix_to_prefix)
  qed
  ultimately show ?thesis
    using assms(1,2) by (auto simp: trim_space_fixed_iff trim_left_fixed_iff trim_right_fixed_iff)
qed

lemma slash_no_space: "\<forall>r\<in>set space_runes. CHR ''/'' \<notin> set r"
  by (simp add: space_runes_def)

section \<open>Rows with a key\<close>

lemma unique_key: "distinct (map f xs) \<Longrightarrow> x \<in> set xs \<Longrightarrow> filter (\<lambda>y. f y = f x) xs = [x]"
proof (induction xs)
  case (Cons a xs)
  then show ?case by (cases "a = x") (auto simp: filter_empty_conv, metis imageI)
qed simp

lemma find_filter: "find P xs = (case filter P xs of [] \<Rightarrow> None | x # _ \<Rightarrow> Some x)"
  by (induction xs) auto

lemma find_set: "find P xs = Some x \<Longrightarrow> x \<in> set xs \<and> P x"
  by (induction xs) (auto split: if_splits)

lemma find_key: "distinct (map f xs) \<Longrightarrow> x \<in> set xs \<Longrightarrow> find (\<lambda>y. f y = f x) xs = Some x"
  by (simp add: find_filter unique_key)

section \<open>Package sort\<close>

text \<open>
  \<open>sort.SearchStrings\<close> and the membership test built on it: the first index whose entry is
  not below the wanted string, found by bisection.
\<close>

function search_from :: "string list \<Rightarrow> string \<Rightarrow> nat \<Rightarrow> nat \<Rightarrow> nat" where
  "search_from xs w i j =
     (if i < j
      then (let h = (i + j) div 2
            in if \<not> (w \<le> xs ! h) then search_from xs w (h + 1) j else search_from xs w i h)
      else i)"
  by pat_completeness auto
termination
  by (relation "measure (\<lambda>(xs, w, i, j). j - i)") auto

declare search_from.simps [simp del]

definition search_strings :: "string list \<Rightarrow> string \<Rightarrow> nat" where
  "search_strings xs w = search_from xs w 0 (length xs)"

definition sorted_member :: "string list \<Rightarrow> string \<Rightarrow> bool" where
  "sorted_member xs w = (let i = search_strings xs w in i < length xs \<and> xs ! i = w)"

text \<open>On a sorted list the bisection finds the boundary.\<close>

lemma search_from_boundary:
  assumes "sorted xs" "i \<le> j" "j \<le> length xs"
    and "\<forall>k<i. xs ! k < w" and "\<forall>k. j \<le> k \<and> k < length xs \<longrightarrow> w \<le> xs ! k"
  shows "(\<forall>k<search_from xs w i j. xs ! k < w)
    \<and> (\<forall>k. search_from xs w i j \<le> k \<and> k < length xs \<longrightarrow> w \<le> xs ! k)"
  using assms
proof (induction xs w i j rule: search_from.induct)
  case (1 xs w i j)
  show ?case
  proof (cases "i < j")
    case True
    define h where "h = (i + j) div 2"
    have h: "i \<le> h" "h < j" "h < length xs" using True "1.prems"(3) by (auto simp: h_def)
    show ?thesis
    proof (cases "w \<le> xs ! h")
      case le: True
      have "\<forall>k. h \<le> k \<and> k < length xs \<longrightarrow> w \<le> xs ! k"
        using le "1.prems"(1) by (meson order_trans sorted_nth_mono)
      with "1.IH"(2) [OF True h_def] le h "1.prems" show ?thesis
        by (auto simp: search_from.simps [of xs w i j] Let_def h_def [symmetric])
    next
      case gt: False
      have "xs ! k < w" if "k < h + 1" for k
      proof -
        have "xs ! k \<le> xs ! h" using that "1.prems"(1) h(3) by (intro sorted_nth_mono) auto
        with gt show ?thesis by simp
      qed
      with "1.IH"(1) [OF True h_def] gt h "1.prems" show ?thesis
        by (auto simp: search_from.simps [of xs w i j] Let_def h_def [symmetric])
    qed
  next
    case False
    then have "search_from xs w i j = i" by (simp add: search_from.simps [of xs w i j])
    with False "1.prems" show ?thesis by auto
  qed
qed

lemma sorted_member_iff: "sorted xs \<Longrightarrow> sorted_member xs w \<longleftrightarrow> w \<in> set xs"
proof
  assume "sorted_member xs w"
  then show "w \<in> set xs" by (metis nth_mem sorted_member_def)
next
  assume s: "sorted xs" and "w \<in> set xs"
  then obtain k where k: "k < length xs" "xs ! k = w" by (auto simp: in_set_conv_nth)
  define i where "i = search_strings xs w"
  have b: "\<forall>k<i. xs ! k < w" "\<forall>k. i \<le> k \<and> k < length xs \<longrightarrow> w \<le> xs ! k"
  proof -
    have "\<forall>k. length xs \<le> k \<and> k < length xs \<longrightarrow> w \<le> xs ! k" by auto
    from search_from_boundary [OF s le0 le_refl _ this]
    show "\<forall>k<i. xs ! k < w" "\<forall>k. i \<le> k \<and> k < length xs \<longrightarrow> w \<le> xs ! k"
      unfolding i_def search_strings_def by blast+
  qed
  have "i \<le> k" using b(1) k(2) by (metis leI order_less_irrefl)
  then have "i < length xs" "w \<le> xs ! i" "xs ! i \<le> xs ! k"
    using k(1) b(2) s by (auto intro: sorted_nth_mono)
  with k(2) show "sorted_member xs w"
    by (simp add: sorted_member_def i_def [symmetric])
qed

section \<open>Package strconv\<close>

definition digit_of :: "char \<Rightarrow> int option" where
  "digit_of c = (let n = of_char c :: int in if 48 \<le> n \<and> n \<le> 57 then Some (n - 48) else None)"

definition digit_char :: "int \<Rightarrow> char" where
  "digit_char d = char_of (48 + d)"

fun digits_val :: "int \<Rightarrow> string \<Rightarrow> int option" where
  "digits_val acc [] = Some acc"
| "digits_val acc (c # s) =
     (case digit_of c of None \<Rightarrow> None | Some d \<Rightarrow> digits_val (10 * acc + d) s)"

text \<open>\<open>strconv.ParseInt(s, 10, 64)\<close>: an optional sign, then at least one digit, in range.\<close>

definition parse_int64 :: "string \<Rightarrow> int option" where
  "parse_int64 s =
     (let neg = (s \<noteq> [] \<and> hd s = CHR ''-'');
          body = (if s \<noteq> [] \<and> (hd s = CHR ''-'' \<or> hd s = CHR ''+'') then tl s else s)
      in if body = [] then None
         else case digits_val 0 body of
                None \<Rightarrow> None
              | Some n \<Rightarrow>
                  (if neg then if n \<le> 2 ^ 63 then Some (- n) else None
                   else if n < 2 ^ 63 then Some n else None))"

function format_digits :: "int \<Rightarrow> string" where
  "format_digits n =
     (if n < 10 then [digit_char n] else format_digits (n div 10) @ [digit_char (n mod 10)])"
  by pat_completeness auto
termination
  by (relation "measure nat") auto

declare format_digits.simps [simp del]

text \<open>\<open>strconv.FormatInt(i, 10)\<close>.\<close>

definition format_int :: "int \<Rightarrow> string" where
  "format_int i = (if i < 0 then CHR ''-'' # format_digits (- i) else format_digits i)"

lemma digit_of_char [simp]: "0 \<le> d \<Longrightarrow> d < 10 \<Longrightarrow> digit_of (digit_char d) = Some d"
  by (simp add: digit_of_def digit_char_def Let_def)

lemma digit_of_range: "digit_of c = Some d \<Longrightarrow> 0 \<le> d \<and> d < 10"
  by (auto simp: digit_of_def Let_def split: if_splits)

lemma digits_val_append:
  "digits_val acc (s @ t) = (case digits_val acc s of None \<Rightarrow> None | Some n \<Rightarrow> digits_val n t)"
  by (induction s arbitrary: acc) (auto split: option.splits)

lemma digits_val_format: "0 \<le> n \<Longrightarrow> digits_val 0 (format_digits n) = Some n"
proof (induction n rule: format_digits.induct)
  case (1 n)
  show ?case
  proof (cases "n < 10")
    case True
    with "1.prems" show ?thesis by (simp add: format_digits.simps [of n])
  next
    case False
    then show ?thesis
      using "1.IH" by (simp add: format_digits.simps [of n] digits_val_append)
  qed
qed

lemma format_digits_nonempty [simp]: "format_digits n \<noteq> []"
  by (subst format_digits.simps) simp

lemma format_digits_digits: "0 \<le> n \<Longrightarrow> \<forall>c\<in>set (format_digits n). digit_of c \<noteq> None"
proof (induction n rule: format_digits.induct)
  case (1 n)
  then show ?case by (cases "n < 10") (auto simp: format_digits.simps [of n])
qed

lemma format_digits_hd:
  "0 \<le> n \<Longrightarrow> hd (format_digits n) \<noteq> CHR ''-'' \<and> hd (format_digits n) \<noteq> CHR ''+''"
  using format_digits_digits [of n]
  by (cases "format_digits n") (auto simp: digit_of_def Let_def split: if_splits)

lemma parse_format_int:
  assumes "0 \<le> i" "i < 2 ^ 63"
  shows "parse_int64 (format_int i) = Some i"
  using assms format_digits_hd [of i]
  by (simp add: parse_int64_def format_int_def digits_val_format Let_def)

text \<open>The canonical decimal form of a positive number does not start with a zero.\<close>

lemma hd_format_digits: "0 < n \<Longrightarrow> hd (format_digits n) \<noteq> CHR ''0''"
proof (induction n rule: format_digits.induct)
  case (1 n)
  show ?case
  proof (cases "n < 10")
    case True
    with "1.prems" have "digit_of (hd (format_digits n)) = Some n"
      by (simp add: format_digits.simps [of n])
    with "1.prems" show ?thesis by (auto simp: digit_of_def Let_def split: if_splits)
  next
    case False
    then have "hd (format_digits n) = hd (format_digits (n div 10))"
      by (simp add: format_digits.simps [of n])
    with "1.IH" False show ?thesis by simp
  qed
qed

end
