(* ===== verification/Operation_Catalog.thy ===== *)
theory Operation_Catalog
  imports Go_Prelude
begin

text \<open>
  \<open>internal/operationcatalog/catalog.go\<close>: the operations the service knows and their risk
  class. The Go map is the list of its entries; every reader either looks a key up or sorts.
\<close>

section \<open>Model\<close>

datatype risk = RiskStandard | RiskPrivileged

definition access_role_maintainer :: string where
  "access_role_maintainer = ''maintainer''"

definition access_role_admin :: string where
  "access_role_admin = ''admin''"

definition is_pr_merge_role :: "string \<Rightarrow> bool" where
  "is_pr_merge_role v = (let r = fold_key v in r = access_role_maintainer \<or> r = access_role_admin)"

definition catalog :: "(string \<times> risk) list" where
  "catalog =
     [(''repo.read'', RiskStandard), (''git.read'', RiskStandard), (''git.push'', RiskStandard),
      (''pr.read'', RiskStandard), (''pr.create'', RiskStandard), (''pr.comment'', RiskStandard),
      (''pr.edit'', RiskStandard), (''pr.close'', RiskStandard), (''pr.reopen'', RiskStandard),
      (''pr.rebase'', RiskStandard), (''review.read'', RiskStandard),
      (''review.write'', RiskStandard), (''ci.read'', RiskStandard),
      (''pr.merge'', RiskPrivileged), (''review.dismiss'', RiskPrivileged),
      (''git.force_push'', RiskPrivileged), (''protected_ref.write'', RiskPrivileged),
      (''ref.delete'', RiskPrivileged), (''repo.create'', RiskPrivileged),
      (''repo.delete'', RiskPrivileged), (''repo.admin'', RiskPrivileged),
      (''branch_protection.write'', RiskPrivileged), (''webhook.write'', RiskPrivileged),
      (''review.submit'', RiskStandard)]"

definition risk_of :: "string \<Rightarrow> risk option" where
  "risk_of op = map_of catalog (trim_space op)"

definition is_known :: "string \<Rightarrow> bool" where
  "is_known op \<longleftrightarrow> risk_of op \<noteq> None"

definition is_standard :: "string \<Rightarrow> bool" where
  "is_standard op \<longleftrightarrow> risk_of op = Some RiskStandard"

definition is_privileged :: "string \<Rightarrow> bool" where
  "is_privileged op \<longleftrightarrow> risk_of op = Some RiskPrivileged"

definition canonical_name :: "string \<Rightarrow> string" where
  "canonical_name op0 =
     (let op = trim_space op0 in if op = ''review.submit'' then ''review.write'' else op)"

definition operations_with_risk :: "risk \<Rightarrow> string list" where
  "operations_with_risk r =
     sort (map fst (filter (\<lambda>(n, c). c = r \<and> n \<noteq> ''review.submit'') catalog))"

definition standard_operations :: "string list" where
  "standard_operations = operations_with_risk RiskStandard"

definition privileged_operations :: "string list" where
  "privileged_operations = operations_with_risk RiskPrivileged"

definition all_operations :: "string list" where
  "all_operations = sort (map fst catalog)"

section \<open>Properties\<close>

lemma catalog_keys_distinct: "distinct (map fst catalog)"
  by code_simp

lemma catalog_trimmed: "\<forall>k\<in>set (map fst catalog). trim_space k = k"
  by code_simp

lemma risk_of_Some_iff: "risk_of op = Some r \<longleftrightarrow> (trim_space op, r) \<in> set catalog"
  using catalog_keys_distinct by (simp add: risk_of_def)

lemma set_operations_with_risk:
  "set (operations_with_risk r) = {n. (n, r) \<in> set catalog \<and> n \<noteq> ''review.submit''}"
  by (force simp: operations_with_risk_def)

lemma alias_standard: "(''review.submit'', r) \<in> set catalog \<longleftrightarrow> r = RiskStandard"
  by (auto simp: catalog_def)

lemma target_standard: "(''review.write'', r) \<in> set catalog \<longleftrightarrow> r = RiskStandard"
  by (auto simp: catalog_def)

lemma risk_of_canonical: "risk_of (canonical_name op) = risk_of op"
proof (cases "trim_space op = ''review.submit''")
  case True
  have "trim_space ''review.write'' = ''review.write''" by code_simp
  moreover have "map_of catalog ''review.write'' = map_of catalog ''review.submit''" by code_simp
  ultimately show ?thesis using True by (simp add: risk_of_def canonical_name_def)
next
  case False
  then show ?thesis by (simp add: risk_of_def canonical_name_def)
qed

lemma canonical_name_not_alias: "canonical_name op \<noteq> ''review.submit''"
  by (simp add: canonical_name_def Let_def)

lemma trim_canonical: "trim_space (canonical_name op) = canonical_name op"
proof -
  have "trim_space ''review.write'' = ''review.write''" by code_simp
  then show ?thesis by (simp add: canonical_name_def Let_def)
qed

lemma advertised_iff: "canonical_name op \<in> set (operations_with_risk r) \<longleftrightarrow> risk_of op = Some r"
  using risk_of_Some_iff [of "canonical_name op" r]
  by (simp add: set_operations_with_risk canonical_name_not_alias trim_canonical risk_of_canonical)

text \<open>
  The advertised operation lists are exactly the catalog: an operation (after its alias is
  resolved) is listed as standard precisely when it is classified standard and as privileged
  precisely when it is classified privileged, the two lists are sorted, free of repetitions and
  disjoint, and the alias is in neither.
\<close>

theorem advertised_operations_exact:
  "(canonical_name op \<in> set standard_operations \<longleftrightarrow> is_standard op)
   \<and> (canonical_name op \<in> set privileged_operations \<longleftrightarrow> is_privileged op)
   \<and> (is_known op \<longleftrightarrow> is_standard op \<noteq> is_privileged op)
   \<and> sorted standard_operations \<and> distinct standard_operations
   \<and> sorted privileged_operations \<and> distinct privileged_operations
   \<and> set standard_operations \<inter> set privileged_operations = {}
   \<and> ''review.submit'' \<notin> set standard_operations \<union> set privileged_operations"
proof (intro conjI)
  show "canonical_name op \<in> set standard_operations \<longleftrightarrow> is_standard op"
    by (simp add: standard_operations_def is_standard_def advertised_iff)
  show "canonical_name op \<in> set privileged_operations \<longleftrightarrow> is_privileged op"
    by (simp add: privileged_operations_def is_privileged_def advertised_iff)
  show "is_known op \<longleftrightarrow> is_standard op \<noteq> is_privileged op"
    by (auto simp: is_known_def is_standard_def is_privileged_def) (metis risk.exhaust)
  show "sorted standard_operations" "sorted privileged_operations"
    by (simp_all add: standard_operations_def privileged_operations_def operations_with_risk_def)
  show "distinct standard_operations" "distinct privileged_operations"
    "set standard_operations \<inter> set privileged_operations = {}"
    "''review.submit'' \<notin> set standard_operations \<union> set privileged_operations"
    by code_simp+
qed

end
