(* ===== verification/Go_Time.thy ===== *)
theory Go_Time
  imports Go_Prelude
begin

text \<open>
  The part of package \<open>time\<close> the modelled code uses: durations as nanoseconds, instants as
  nanoseconds since the zero \<open>time.Time\<close> (0001-01-01 UTC), \<open>time.ParseDuration\<close>,
  \<open>time.Parse(time.RFC3339, s)\<close> and the UTC \<open>Format(time.RFC3339)\<close>.
\<close>

type_synonym duration = int
type_synonym instant = int

definition second :: duration where "second = 1000000000"
definition minute :: duration where "minute = 60 * second"
definition hour :: duration where "hour = 3600 * second"

definition is_zero_time :: "instant \<Rightarrow> bool" where
  "is_zero_time t \<longleftrightarrow> t = 0"

text \<open>\<open>Time.Unix\<close>: whole seconds since 1970-01-01, rounded towards the past.\<close>

definition unix :: "instant \<Rightarrow> int" where
  "unix t = t div second - 62135596800"

text \<open>\<open>Time.Truncate\<close> rounds down to a multiple of \<open>d\<close> since the zero time.\<close>

definition truncate :: "instant \<Rightarrow> duration \<Rightarrow> instant" where
  "truncate t d = (if d \<le> 0 then t else t - t mod d)"

text \<open>\<open>Time.Sub\<close> answers the nearest 64-bit duration.\<close>

definition sub_time :: "instant \<Rightarrow> instant \<Rightarrow> duration" where
  "sub_time t u = max (- (2 ^ 63)) (min (2 ^ 63 - 1) (t - u))"

section \<open>ParseDuration\<close>

fun leading_int :: "int \<Rightarrow> string \<Rightarrow> (int \<times> string) option" where
  "leading_int x [] = Some (x, [])"
| "leading_int x (c # s) =
     (case digit_of c of
        None \<Rightarrow> Some (x, c # s)
      | Some d \<Rightarrow>
          (if x > 2 ^ 63 div 10 then None
           else let y = 10 * x + d in if y > 2 ^ 63 then None else leading_int y s))"

fun leading_fraction :: "bool \<Rightarrow> int \<Rightarrow> int \<Rightarrow> string \<Rightarrow> int \<times> int \<times> string" where
  "leading_fraction ovf x scale [] = (x, scale, [])"
| "leading_fraction ovf x scale (c # s) =
     (case digit_of c of
        None \<Rightarrow> (x, scale, c # s)
      | Some d \<Rightarrow>
          (if ovf \<or> x > (2 ^ 63 - 1) div 10 \<or> 10 * x + d > 2 ^ 63
           then leading_fraction True x scale s
           else leading_fraction False (10 * x + d) (10 * scale) s))"

definition unit_map :: "(string \<times> int) list" where
  "unit_map =
     [(''ns'', 1), (''us'', 1000), ([CHR 0xC2, CHR 0xB5, CHR ''s''], 1000),
      ([CHR 0xCE, CHR 0xBC, CHR ''s''], 1000), (''ms'', 1000000), (''s'', 1000000000),
      (''m'', 60000000000), (''h'', 3600000000000)]"

definition numeric_byte :: "char \<Rightarrow> bool" where
  "numeric_byte c \<longleftrightarrow> c = CHR ''.'' \<or> digit_of c \<noteq> None"

text \<open>
  One number with its unit. The fraction is computed exactly; the source does it in
  \<open>float64\<close>, which agrees unless digits beyond one nanosecond are written.
\<close>

definition duration_item :: "string \<Rightarrow> (int \<times> string) option" where
  "duration_item s =
     (if s = [] \<or> \<not> numeric_byte (hd s) then None
      else case leading_int 0 s of
        None \<Rightarrow> None
      | Some (v, s1) \<Rightarrow>
          let pre = length s1 \<noteq> length s;
              dot = (s1 \<noteq> [] \<and> hd s1 = CHR ''.'');
              (f, scale, s2) = (if dot then leading_fraction False 0 1 (tl s1) else (0, 1, s1));
              post = (dot \<and> length s2 \<noteq> length (tl s1));
              u = takeWhile (\<lambda>c. \<not> numeric_byte c) s2;
              rest = dropWhile (\<lambda>c. \<not> numeric_byte c) s2
          in if \<not> pre \<and> \<not> post \<or> u = [] then None
             else case map_of unit_map u of
                    None \<Rightarrow> None
                  | Some n \<Rightarrow>
                      (if v > 2 ^ 63 div n then None
                       else let w = v * n + f * n div scale
                            in if w > 2 ^ 63 then None else Some (w, rest)))"

lemma leading_int_length: "leading_int x s = Some (v, r) \<Longrightarrow> length r \<le> length s"
  by (induction x s rule: leading_int.induct)
    (auto simp: Let_def split: option.splits if_splits intro: le_SucI)

lemma leading_fraction_length: "leading_fraction b x c s = (f, k, r) \<Longrightarrow> length r \<le> length s"
  by (induction b x c s rule: leading_fraction.induct)
    (auto split: option.splits if_splits intro: le_SucI)

lemma duration_item_shorter: "duration_item s = Some (w, r) \<Longrightarrow> length r < length s"
proof -
  assume item: "duration_item s = Some (w, r)"
  then obtain v s1 where s1: "leading_int 0 s = Some (v, s1)"
    by (auto simp: duration_item_def split: if_splits option.splits)
  obtain f k s2 where s2:
    "(if s1 \<noteq> [] \<and> hd s1 = CHR ''.'' then leading_fraction False 0 1 (tl s1) else (0, 1, s1)) = (f, k, s2)"
    by (metis prod_cases3)
  have "length s2 \<le> length s1"
    using s2 leading_fraction_length [of False 0 1 "tl s1" f k s2] by (auto split: if_splits)
  moreover have "length s1 \<le> length s" using s1 by (rule leading_int_length)
  moreover have cut: "r = dropWhile (\<lambda>c. \<not> numeric_byte c) s2 \<and> takeWhile (\<lambda>c. \<not> numeric_byte c) s2 \<noteq> []"
    using item s1 s2 by (auto simp: duration_item_def Let_def split: if_splits option.splits)
  moreover have "length (takeWhile (\<lambda>c. \<not> numeric_byte c) s2)
    + length (dropWhile (\<lambda>c. \<not> numeric_byte c) s2) = length s2"
    by (metis length_append takeWhile_dropWhile_id)
  moreover have "0 < length (takeWhile (\<lambda>c. \<not> numeric_byte c) s2)" using cut by blast
  moreover have "length r = length (dropWhile (\<lambda>c. \<not> numeric_byte c) s2)" using cut by simp
  ultimately show ?thesis by linarith
qed

function duration_loop :: "int \<Rightarrow> string \<Rightarrow> int option" where
  "duration_loop d s =
     (if s = [] then Some d
      else case duration_item s of
             None \<Rightarrow> None
           | Some (w, r) \<Rightarrow> (if d + w > 2 ^ 63 then None else duration_loop (d + w) r))"
  by pat_completeness auto
termination
  by (relation "measure (\<lambda>(d, s). length s)") (auto dest: duration_item_shorter)

declare duration_loop.simps [simp del]

definition parse_duration :: "string \<Rightarrow> duration option" where
  "parse_duration s0 =
     (let neg = (s0 \<noteq> [] \<and> hd s0 = CHR ''-'');
          s = (if s0 \<noteq> [] \<and> (hd s0 = CHR ''-'' \<or> hd s0 = CHR ''+'') then tl s0 else s0)
      in if s = ''0'' then Some 0
         else if s = [] then None
         else case duration_loop 0 s of
                None \<Rightarrow> None
              | Some d \<Rightarrow> (if neg then Some (- d)
                           else if d > 2 ^ 63 - 1 then None else Some d))"

lemma parse_duration_30m: "parse_duration ''30m'' = Some (30 * minute)"
  by code_simp

lemma parse_duration_fraction: "parse_duration ''1h15m30.5s'' = Some 4530500000000"
  by code_simp

lemma parse_duration_bad: "parse_duration ''soon'' = None" "parse_duration ''10'' = None"
  by code_simp+

section \<open>RFC 3339\<close>

definition leap :: "int \<Rightarrow> bool" where
  "leap y \<longleftrightarrow> y mod 4 = 0 \<and> (y mod 100 \<noteq> 0 \<or> y mod 400 = 0)"

definition days_in :: "int \<Rightarrow> int \<Rightarrow> int" where
  "days_in y m = (if m = 2 then if leap y then 29 else 28
                  else if m = 4 \<or> m = 6 \<or> m = 9 \<or> m = 11 then 30 else 31)"

definition days_before :: "int \<Rightarrow> int \<Rightarrow> int \<Rightarrow> int" where
  "days_before y m d =
     365 * (y - 1) + (y - 1) div 4 - (y - 1) div 100 + (y - 1) div 400
     + sum_list (map (days_in y) [1..m - 1]) + (d - 1)"

fun fixed_num :: "int \<Rightarrow> nat \<Rightarrow> string \<Rightarrow> (int \<times> string) option" where
  "fixed_num acc 0 s = Some (acc, s)"
| "fixed_num acc (Suc n) [] = None"
| "fixed_num acc (Suc n) (c # s) =
     (case digit_of c of None \<Rightarrow> None | Some d \<Rightarrow> fixed_num (10 * acc + d) n s)"

definition literal_byte :: "char \<Rightarrow> string \<Rightarrow> string option" where
  "literal_byte c s = (case s of [] \<Rightarrow> None | x # r \<Rightarrow> if x = c then Some r else None)"

text \<open>The hour may have one digit (\<open>getnum\<close> without the fixed flag).\<close>

definition hour_num :: "string \<Rightarrow> (int \<times> string) option" where
  "hour_num s = (case fixed_num 0 2 s of Some r \<Rightarrow> Some r | None \<Rightarrow> fixed_num 0 1 s)"

text \<open>A fraction after a period or a comma, cut after nine digits.\<close>

definition nanos :: "string \<Rightarrow> int \<times> string" where
  "nanos s =
     (case s of
        p # c # r \<Rightarrow>
          (if (p = CHR ''.'' \<or> p = CHR '','') \<and> digit_of c \<noteq> None
           then let ds = takeWhile (\<lambda>x. digit_of x \<noteq> None) (c # r); k = take 9 ds
                in (the (digits_val 0 k) * 10 ^ (9 - length k), drop (length ds) (c # r))
           else (0, s))
      | _ \<Rightarrow> (0, s))"

definition zone_offset :: "string \<Rightarrow> int option" where
  "zone_offset s =
     (if s = ''Z'' then Some 0
      else case s of
        [] \<Rightarrow> None
      | g # r \<Rightarrow>
          Option.bind (fixed_num 0 2 r) (\<lambda>(h, r).
          Option.bind (literal_byte (CHR '':'') r) (\<lambda>r.
          Option.bind (fixed_num 0 2 r) (\<lambda>(m, r).
            if r \<noteq> [] \<or> h > 24 \<or> m > 60 then None
            else if g = CHR ''+'' then Some ((h * 60 + m) * 60)
            else if g = CHR ''-'' then Some (- ((h * 60 + m) * 60))
            else None))))"

definition parse_rfc3339 :: "string \<Rightarrow> instant option" where
  "parse_rfc3339 s =
     Option.bind (fixed_num 0 4 s) (\<lambda>(y, s).
     Option.bind (literal_byte (CHR ''-'') s) (\<lambda>s.
     Option.bind (fixed_num 0 2 s) (\<lambda>(mo, s).
     Option.bind (literal_byte (CHR ''-'') s) (\<lambda>s.
     Option.bind (fixed_num 0 2 s) (\<lambda>(d, s).
     Option.bind (literal_byte (CHR ''T'') s) (\<lambda>s.
     Option.bind (hour_num s) (\<lambda>(h, s).
     Option.bind (literal_byte (CHR '':'') s) (\<lambda>s.
     Option.bind (fixed_num 0 2 s) (\<lambda>(mi, s).
     Option.bind (literal_byte (CHR '':'') s) (\<lambda>s.
     Option.bind (fixed_num 0 2 s) (\<lambda>(sec, s).
     (let (ns, s) = nanos s in
     Option.bind (zone_offset s) (\<lambda>off.
       if mo < 1 \<or> mo > 12 \<or> d < 1 \<or> d > days_in y mo \<or> h > 23 \<or> mi > 59 \<or> sec > 59
       then None
       else Some ((days_before y mo d * 86400 + h * 3600 + mi * 60 + sec - off)
                    * second + ns))))))))))))))"

definition pad :: "nat \<Rightarrow> string \<Rightarrow> string" where
  "pad n s = replicate (n - length s) (CHR ''0'') @ s"

text \<open>The calendar date of a day number, counted from 0001-01-01, in eras of 400 years.\<close>

definition civil :: "int \<Rightarrow> int \<times> int \<times> int" where
  "civil days =
     (let z = days + 306;
          doe = z mod 146097;
          yoe = (doe - doe div 1460 + doe div 36524 - doe div 146096) div 365;
          doy = doe - (365 * yoe + yoe div 4 - yoe div 100);
          mp = (5 * doy + 2) div 153;
          m = (if mp < 10 then mp + 3 else mp - 9)
      in (yoe + (z div 146097) * 400 + (if m \<le> 2 then 1 else 0), m, doy - (153 * mp + 2) div 5 + 1))"

definition format_rfc3339 :: "instant \<Rightarrow> string" where
  "format_rfc3339 t =
     (let s = t div second;
          (y, m, d) = civil (s div 86400);
          r = s mod 86400;
          num = (\<lambda>n i. pad n (format_int i))
      in (if y < 0 then ''-'' @ num 4 (- y) else num 4 y) @ ''-'' @ num 2 m @ ''-'' @ num 2 d
         @ ''T'' @ num 2 (r div 3600) @ '':'' @ num 2 (r mod 3600 div 60) @ '':'' @ num 2 (r mod 60)
         @ ''Z'')"

lemma parse_rfc3339_epoch: "parse_rfc3339 ''1970-01-01T00:00:00Z'' = Some (62135596800 * second)"
  by code_simp

lemma parse_rfc3339_offset:
  "parse_rfc3339 ''2026-02-28T23:59:59.5-01:00''
   = map_option ((+) 3600500000000) (parse_rfc3339 ''2026-02-28T23:59:59Z'')"
  by code_simp

lemma format_rfc3339_leap_day:
  "map_option format_rfc3339 (parse_rfc3339 ''2028-02-29T01:02:03+02:00'') = Some ''2028-02-28T23:02:03Z''"
  by code_simp

end
