(* ===== verification/Yaml_Node.thy ===== *)
theory Yaml_Node
  imports Go_Prelude
begin

text \<open>
  The document tree the configuration decoders walk. The YAML parser that builds it and the
  typed decoding of a checked tree are library code and are arguments where they are used.
\<close>

datatype yaml_kind = DocumentNode | SequenceNode | MappingNode | ScalarNode | AliasNode

datatype yaml_node = Node (y_kind: yaml_kind) (y_value: string) (y_content: "yaml_node list")

text \<open>
  The loop \<open>for i := 0; i+1 < len(node.Content); i += 2\<close>: a key without a value is not visited.
\<close>

fun pairs_of :: "'a list \<Rightarrow> ('a \<times> 'a) list" where
  "pairs_of (k # v # rest) = (k, v) # pairs_of rest"
| "pairs_of _ = []"

lemma pairs_of_elems: "(k, v) \<in> set (pairs_of xs) \<Longrightarrow> k \<in> set xs \<and> v \<in> set xs"
  by (induction xs rule: pairs_of.induct) auto

end
