(* ===== verification/Authority_Model.thy ===== *)
theory Authority_Model
  imports Go_Time Yaml_Node
begin

text \<open>
  \<open>internal/sessionauthority/authority.go\<close>, first part: the configuration records, the
  operation registry, the recogniser of secret-shaped values, the composed map keys and the
  normalisation of each kind of record. Indices and quoted values in error messages are left out.
\<close>

section \<open>Data\<close>

definition current_version :: int where "current_version = 2"

definition contract_revision :: string where
  "contract_revision = ''2026-07-24.team-authority-v4''"

definition legacy_contract_revision :: string where
  "legacy_contract_revision = ''2026-07-19.principal-session-v2''"

definition legacy_subject_mode :: string where
  "legacy_subject_mode = ''legacy-subject-v2''"

definition maximum_session_ttl :: duration where
  "maximum_session_ttl = 2 * hour"

definition default_dynamic_policy_class :: string where
  "default_dynamic_policy_class = ''multica.workspace.default.v1''"

datatype permission = PermissionRead | PermissionWrite | PermissionAdmin

record trusted_issuer =
  ti_id :: string
  ti_issuer :: string
  ti_key_ids :: "string list"
  ti_status :: string
  ti_trust_revision :: string

record principal_binding =
  pb_id :: string
  pb_issuer_instance_id :: string
  pb_subject :: string
  pb_principal_id :: nat
  pb_status :: string
  pb_binding_revision :: string
  pb_expires_at :: string
  pb_revoked_at :: string
  pb_expires :: "instant option"

record team_binding =
  tb_id :: string
  tb_issuer_instance_id :: string
  tb_workspace_id :: string
  tb_team_identity_id :: string
  tb_policy_class :: string
  tb_principal_id :: nat
  tb_status :: string
  tb_binding_revision :: string
  tb_epoch_floor :: int

record policy_class =
  pc_id :: string
  pc_status :: string
  pc_policy_revision :: string
  pc_operations :: "string list"

record resource_default =
  rd_id :: string
  rd_target :: string
  rd_service :: string
  rd_status :: string
  rd_max_session_ttl :: string
  rd_policy_revision :: string
  rd_ttl :: duration

record resource_policy =
  rp_id :: string
  rp_target :: string
  rp_service :: string
  rp_repository :: string
  rp_status :: string
  rp_max_session_ttl :: string
  rp_policy_revision :: string
  rp_ttl :: duration

record auth_config =
  ac_version :: int
  ac_contract_revision :: string
  ac_trusted_issuers :: "trusted_issuer list option"
  ac_legacy_mode :: string
  ac_bindings :: "principal_binding list option"
  ac_team_bindings :: "team_binding list option"
  ac_policy_classes :: "policy_class list option"
  ac_resource_defaults :: "resource_default list option"
  ac_resources :: "resource_policy list option"

record operation =
  op_name :: string
  op_required :: permission
  op_capabilities :: "string list"

section \<open>Operation registry\<close>

definition default_dynamic_policy_operations :: "string list" where
  "default_dynamic_policy_operations =
     [''ci.read'', ''git.push'', ''git.read'', ''pr.create'', ''pr.read'', ''pr.rebase'',
      ''repo.read'', ''review.read'']"

definition mk_op :: "string \<Rightarrow> permission \<Rightarrow> string list \<Rightarrow> string \<times> operation" where
  "mk_op n p cs = (n, \<lparr>op_name = n, op_required = p, op_capabilities = cs\<rparr>)"

definition operations :: "(string \<times> operation) list" where
  "operations =
     [mk_op ''repo.read'' PermissionRead [''repo:read''],
      mk_op ''git.push'' PermissionWrite [''repo:read'', ''repo:write''],
      mk_op ''git.force_push'' PermissionWrite [''repo:read'', ''repo:write''],
      mk_op ''pr.create'' PermissionWrite [''repo:read'', ''pr:create''],
      mk_op ''pr.comment'' PermissionWrite [''repo:read'', ''repo:write''],
      mk_op ''pr.edit'' PermissionWrite [''repo:read'', ''repo:write''],
      mk_op ''pr.close'' PermissionWrite [''repo:read'', ''repo:write''],
      mk_op ''pr.reopen'' PermissionWrite [''repo:read'', ''repo:write''],
      mk_op ''pr.rebase'' PermissionWrite [''repo:read'', ''repo:write''],
      mk_op ''pr.read'' PermissionRead [''repo:read''],
      mk_op ''pr.merge'' PermissionWrite [''repo:read'', ''repo:write''],
      mk_op ''ci.read'' PermissionRead [''repo:read''],
      mk_op ''review.read'' PermissionRead [''repo:read''],
      mk_op ''review.write'' PermissionWrite [''repo:read'', ''repo:write''],
      mk_op ''review.dismiss'' PermissionWrite [''repo:read'', ''repo:write''],
      mk_op ''git.read'' PermissionRead [''repo:read''],
      mk_op ''repo.admin'' PermissionAdmin [''repo:read'', ''repo:write''],
      mk_op ''repo.create'' PermissionAdmin [''repo:read'', ''repo:write''],
      mk_op ''repo.delete'' PermissionAdmin [''repo:read'', ''repo:write''],
      mk_op ''protected_ref.write'' PermissionAdmin [''repo:read'', ''repo:write''],
      mk_op ''ref.delete'' PermissionWrite [''repo:read'', ''repo:write''],
      mk_op ''branch_protection.write'' PermissionAdmin [''repo:read'', ''repo:write''],
      mk_op ''webhook.write'' PermissionAdmin [''repo:read'', ''repo:write''],
      mk_op ''review.submit'' PermissionWrite [''repo:read'', ''repo:write'']]"

definition normalize_operation :: "string \<Rightarrow> string" where
  "normalize_operation raw = fold_key raw"

definition lookup_operation :: "string \<Rightarrow> operation option" where
  "lookup_operation raw = map_of operations (normalize_operation raw)"

definition registered_operations :: "operation list" where
  "registered_operations =
     map (\<lambda>n. case lookup_operation n of Some oper \<Rightarrow> oper
                | None \<Rightarrow> \<lparr>op_name = [], op_required = PermissionRead, op_capabilities = []\<rparr>)
       (sort (map fst operations))"

definition normalize_caps :: "string list \<Rightarrow> string list" where
  "normalize_caps vs = sort (filter (\<lambda>v. v \<noteq> []) (map (\<lambda>v. fold_key v) vs))"

definition nul :: string where "nul = [CHR 0x00]"

definition default_operation_for_capabilities :: "string list \<Rightarrow> string" where
  "default_operation_for_capabilities cs =
     (let j = join_with nul (normalize_caps cs)
      in if j = ''repo:read'' then ''repo.read''
         else if j = ''repo:read'' @ nul @ ''repo:write'' then ''git.push''
         else if j = ''pr:create'' \<or> j = ''pr:create'' @ nul @ ''repo:read'' then ''pr.create''
         else [])"

definition operation_capability_scopes :: "operation \<Rightarrow> string list list" where
  "operation_capability_scopes oper =
     (if op_name oper = ''pr.create'' then [[''pr:create''], op_capabilities oper]
      else [op_capabilities oper])"

definition operation_supports_capabilities :: "string \<Rightarrow> string list \<Rightarrow> bool" where
  "operation_supports_capabilities raw cs =
     (case lookup_operation raw of
        None \<Rightarrow> False
      | Some oper \<Rightarrow>
          (let requested = join_with nul (normalize_caps cs)
           in list_ex (\<lambda>scope. requested = join_with nul (normalize_caps scope))
                (operation_capability_scopes oper)))"

section \<open>Secret-shaped values\<close>

definition is_secret_shaped :: "string \<Rightarrow> bool" where
  "is_secret_shaped v0 =
     (let v = trim_space v0; lower = to_lower v
      in if sublist ''mat_'' lower \<or> sublist ''ags_sess_'' lower \<or> sublist ''-----begin'' lower
            \<or> sublist ''private key'' lower
         then True
         else prefix ''eyJ'' v \<and> count_list v (CHR ''.'') = 2)"

definition config_values :: "auth_config \<Rightarrow> string list" where
  "config_values c =
     [ac_contract_revision c, ac_legacy_mode c]
     @ concat (map (\<lambda>i. [ti_id i, ti_issuer i, ti_status i, ti_trust_revision i] @ ti_key_ids i)
         (elems (ac_trusted_issuers c)))
     @ concat (map (\<lambda>b. [pb_id b, pb_issuer_instance_id b, pb_subject b, pb_status b,
           pb_binding_revision b, pb_expires_at b, pb_revoked_at b]) (elems (ac_bindings c)))
     @ concat (map (\<lambda>b. [tb_id b, tb_issuer_instance_id b, tb_workspace_id b,
           tb_team_identity_id b, tb_policy_class b, tb_status b, tb_binding_revision b])
         (elems (ac_team_bindings c)))
     @ concat (map (\<lambda>p. [pc_id p, pc_status p, pc_policy_revision p] @ pc_operations p)
         (elems (ac_policy_classes c)))
     @ concat (map (\<lambda>d. [rd_id d, rd_target d, rd_service d, rd_status d, rd_max_session_ttl d,
           rd_policy_revision d]) (elems (ac_resource_defaults c)))
     @ concat (map (\<lambda>r. [rp_id r, rp_target r, rp_service r, rp_repository r, rp_status r,
           rp_max_session_ttl r, rp_policy_revision r]) (elems (ac_resources c)))"

definition has_secret_value :: "auth_config \<Rightarrow> bool" where
  "has_secret_value c = list_ex is_secret_shaped (config_values c)"

section \<open>Composed keys\<close>

definition issuer_key :: "string \<Rightarrow> string \<Rightarrow> string" where
  "issuer_key issuer key_id = trim_space issuer @ nul @ trim_space key_id"

definition binding_key :: "string \<Rightarrow> string \<Rightarrow> string" where
  "binding_key issuer_instance subject = trim_space issuer_instance @ nul @ trim_space subject"

definition team_binding_key :: "string \<Rightarrow> string \<Rightarrow> string \<Rightarrow> string" where
  "team_binding_key issuer_instance team cls =
     trim_space issuer_instance @ nul @ trim_space team @ nul @ trim_space cls"

definition normalize_repo :: "string \<Rightarrow> string" where
  "normalize_repo raw =
     (case split_on (CHR ''/'') (trim_space raw) of
        [a, b] \<Rightarrow> (if trim_space a = [] \<or> trim_space b = [] then []
                   else trim_space a @ ''/'' @ trim_space b)
      | _ \<Rightarrow> [])"

definition resource_default_key :: "string \<Rightarrow> string \<Rightarrow> string" where
  "resource_default_key target service = trim_space target @ nul @ fold_key service"

definition resource_key :: "string \<Rightarrow> string \<Rightarrow> string \<Rightarrow> string" where
  "resource_key target service repository =
     resource_default_key target service @ nul @ normalize_repo repository"

section \<open>Normalisation of the records\<close>

datatype item_error =
    RequiredFields | BadStatus | EmptyKeyId | DuplicateKeyId | BadRevokedAt | RevokedNeedsTime
  | TimeNeedsRevoked | BadExpiresAt | NegativeEpochFloor | UnsupportedOperation
  | DuplicateOperation | NoOperations | CeilingMismatch | BadService | BadSessionTtl

definition active :: string where "active = ''active''"
definition disabled :: string where "disabled = ''disabled''"
definition revoked :: string where "revoked = ''revoked''"

text \<open>One step of the loop over \<open>KeyIDs\<close>; the keys kept so far are also the keys seen.\<close>

definition key_id_step :: "string \<Rightarrow> string list \<Rightarrow> item_error + string list" where
  "key_id_step raw keys =
     (let k = trim_space raw
      in if k = [] then Inl EmptyKeyId
         else if k \<in> set keys then Inl DuplicateKeyId
         else Inr (keys @ [k]))"

definition normalize_issuer :: "trusted_issuer \<Rightarrow> item_error + trusted_issuer" where
  "normalize_issuer i =
     (let o1 = i\<lparr>ti_id := trim_space (ti_id i), ti_issuer := trim_space (ti_issuer i),
                ti_status := fold_key (ti_status i),
                ti_trust_revision := trim_space (ti_trust_revision i)\<rparr>
      in rbind (rfold key_id_step (ti_key_ids i) []) (\<lambda>keys.
         let o2 = o1\<lparr>ti_key_ids := sort keys\<rparr>
         in if ti_id o2 = [] \<or> ti_issuer o2 = [] \<or> ti_trust_revision o2 = [] \<or> ti_key_ids o2 = []
            then Inl RequiredFields
            else if ti_status o2 \<noteq> active \<and> ti_status o2 \<noteq> disabled then Inl BadStatus
            else Inr o2))"

definition trimmed_binding :: "principal_binding \<Rightarrow> principal_binding" where
  "trimmed_binding b =
     b\<lparr>pb_id := trim_space (pb_id b),
       pb_issuer_instance_id := trim_space (pb_issuer_instance_id b),
       pb_subject := trim_space (pb_subject b),
       pb_status := fold_key (pb_status b),
       pb_binding_revision := trim_space (pb_binding_revision b),
       pb_expires_at := trim_space (pb_expires_at b),
       pb_revoked_at := trim_space (pb_revoked_at b)\<rparr>"

definition stamp_revoked :: "principal_binding \<Rightarrow> item_error + principal_binding" where
  "stamp_revoked b =
     rbind (if pb_revoked_at b = [] then Inr b
            else case parse_rfc3339 (pb_revoked_at b) of
                   None \<Rightarrow> Inl BadRevokedAt
                 | Some t \<Rightarrow> Inr (b\<lparr>pb_revoked_at := format_rfc3339 t\<rparr>)) (\<lambda>o2.
     if pb_status o2 = revoked \<and> pb_revoked_at o2 = [] then Inl RevokedNeedsTime
     else if pb_status o2 \<noteq> revoked \<and> pb_revoked_at o2 \<noteq> [] then Inl TimeNeedsRevoked
     else Inr o2)"

definition stamp_expiry :: "principal_binding \<Rightarrow> item_error + principal_binding" where
  "stamp_expiry b =
     (if pb_expires_at b = [] then Inr b
      else case parse_rfc3339 (pb_expires_at b) of
             None \<Rightarrow> Inl BadExpiresAt
           | Some t \<Rightarrow> Inr (b\<lparr>pb_expires_at := format_rfc3339 t, pb_expires := Some t\<rparr>))"

definition normalize_binding :: "principal_binding \<Rightarrow> item_error + principal_binding" where
  "normalize_binding b =
     (let o1 = trimmed_binding b
      in if pb_id o1 = [] \<or> pb_issuer_instance_id o1 = [] \<or> pb_subject o1 = []
            \<or> pb_principal_id o1 = 0 \<or> pb_binding_revision o1 = []
         then Inl RequiredFields
         else if pb_status o1 \<noteq> active \<and> pb_status o1 \<noteq> disabled \<and> pb_status o1 \<noteq> revoked
         then Inl BadStatus
         else rbind (stamp_revoked o1) stamp_expiry)"

definition normalize_team_binding :: "team_binding \<Rightarrow> item_error + team_binding" where
  "normalize_team_binding b =
     (let o1 = b\<lparr>tb_id := trim_space (tb_id b),
                tb_issuer_instance_id := trim_space (tb_issuer_instance_id b),
                tb_workspace_id := trim_space (tb_workspace_id b),
                tb_team_identity_id := trim_space (tb_team_identity_id b),
                tb_policy_class := trim_space (tb_policy_class b),
                tb_status := fold_key (tb_status b),
                tb_binding_revision := trim_space (tb_binding_revision b)\<rparr>
      in if tb_id o1 = [] \<or> tb_issuer_instance_id o1 = [] \<or> tb_workspace_id o1 = []
            \<or> tb_team_identity_id o1 = [] \<or> tb_policy_class o1 = [] \<or> tb_principal_id o1 = 0
            \<or> tb_binding_revision o1 = []
         then Inl RequiredFields
         else if tb_status o1 \<noteq> active \<and> tb_status o1 \<noteq> disabled \<and> tb_status o1 \<noteq> revoked
         then Inl BadStatus
         else if tb_epoch_floor o1 < 0 then Inl NegativeEpochFloor
         else Inr o1)"

fun same_operations :: "string list \<Rightarrow> string list \<Rightarrow> bool" where
  "same_operations [] [] = True"
| "same_operations (x # xs) (y # ys) = (x = y \<and> same_operations xs ys)"
| "same_operations _ _ = False"

definition class_operation_step :: "string \<Rightarrow> string list \<Rightarrow> item_error + string list" where
  "class_operation_step raw names =
     (let n = normalize_operation raw
      in if lookup_operation n = None \<or> n = [] then Inl UnsupportedOperation
         else if n \<in> set names then Inl DuplicateOperation
         else Inr (names @ [n]))"

definition normalize_policy_class :: "policy_class \<Rightarrow> item_error + policy_class" where
  "normalize_policy_class p =
     (let o1 = p\<lparr>pc_id := trim_space (pc_id p), pc_status := fold_key (pc_status p),
                pc_policy_revision := trim_space (pc_policy_revision p)\<rparr>
      in if pc_id o1 = [] \<or> pc_policy_revision o1 = []
            \<or> (pc_status o1 \<noteq> active \<and> pc_status o1 \<noteq> disabled)
         then Inl RequiredFields
         else rbind (rfold class_operation_step (pc_operations o1) []) (\<lambda>names.
         if names = [] then Inl NoOperations
         else if pc_id o1 = default_dynamic_policy_class
                 \<and> \<not> same_operations (sort names) default_dynamic_policy_operations
         then Inl CeilingMismatch
         else Inr (o1\<lparr>pc_operations := sort names\<rparr>)))"

text \<open>The shared tail of the two resource normalisers: \<open>max_session_ttl\<close> within the maximum.\<close>

definition session_ttl :: "string \<Rightarrow> item_error + duration" where
  "session_ttl s =
     (case parse_duration s of
        None \<Rightarrow> Inl BadSessionTtl
      | Some d \<Rightarrow> if d \<le> 0 \<or> d > maximum_session_ttl then Inl BadSessionTtl else Inr d)"

definition normalize_resource_default :: "resource_default \<Rightarrow> item_error + resource_default" where
  "normalize_resource_default d =
     (let o1 = d\<lparr>rd_id := trim_space (rd_id d), rd_target := trim_space (rd_target d),
                rd_service := fold_key (rd_service d),
                rd_status := fold_key (rd_status d),
                rd_max_session_ttl := trim_space (rd_max_session_ttl d),
                rd_policy_revision := trim_space (rd_policy_revision d)\<rparr>
      in if rd_id o1 = [] \<or> rd_target o1 = [] \<or> rd_service o1 = [] \<or> rd_max_session_ttl o1 = []
            \<or> rd_policy_revision o1 = []
         then Inl RequiredFields
         else if rd_service o1 \<noteq> ''ags'' then Inl BadService
         else if rd_status o1 \<noteq> active \<and> rd_status o1 \<noteq> disabled then Inl BadStatus
         else rbind (session_ttl (rd_max_session_ttl o1)) (\<lambda>ttl. Inr (o1\<lparr>rd_ttl := ttl\<rparr>)))"

definition resource_policy_from_default :: "resource_default \<Rightarrow> string \<Rightarrow> resource_policy" where
  "resource_policy_from_default d repository =
     \<lparr>rp_id = rd_id d, rp_target = rd_target d, rp_service = rd_service d,
      rp_repository = repository, rp_status = rd_status d,
      rp_max_session_ttl = rd_max_session_ttl d, rp_policy_revision = rd_policy_revision d,
      rp_ttl = rd_ttl d\<rparr>"

definition normalize_resource :: "resource_policy \<Rightarrow> item_error + resource_policy" where
  "normalize_resource r =
     (let o1 = r\<lparr>rp_id := trim_space (rp_id r), rp_target := trim_space (rp_target r),
                rp_service := fold_key (rp_service r),
                rp_repository := normalize_repo (rp_repository r),
                rp_status := fold_key (rp_status r),
                rp_max_session_ttl := trim_space (rp_max_session_ttl r),
                rp_policy_revision := trim_space (rp_policy_revision r)\<rparr>
      in if rp_id o1 = [] \<or> rp_target o1 = [] \<or> rp_service o1 = [] \<or> rp_repository o1 = []
            \<or> rp_max_session_ttl o1 = [] \<or> rp_policy_revision o1 = []
         then Inl RequiredFields
         else if rp_service o1 \<noteq> ''ags'' then Inl BadService
         else if rp_status o1 \<noteq> active \<and> rp_status o1 \<noteq> disabled then Inl BadStatus
         else rbind (session_ttl (rp_max_session_ttl o1)) (\<lambda>ttl. Inr (o1\<lparr>rp_ttl := ttl\<rparr>)))"

definition default_max_session_duration :: "resource_default \<Rightarrow> duration" where
  "default_max_session_duration r =
     (if rd_ttl r > 0 then rd_ttl r
      else case parse_duration (rd_max_session_ttl r) of Some d \<Rightarrow> d | None \<Rightarrow> 0)"

definition policy_max_session_duration :: "resource_policy \<Rightarrow> duration" where
  "policy_max_session_duration r =
     (if rp_ttl r > 0 then rp_ttl r
      else case parse_duration (rp_max_session_ttl r) of Some d \<Rightarrow> d | None \<Rightarrow> 0)"

definition binding_active :: "principal_binding \<Rightarrow> instant \<Rightarrow> bool" where
  "binding_active b now =
     (if pb_status b \<noteq> active then False
      else case pb_expires b of None \<Rightarrow> True | Some t \<Rightarrow> now < t)"

section \<open>What the normalisers establish\<close>

lemma fold_key_status [simp]:
  "fold_key active = active" "fold_key disabled = disabled" "fold_key revoked = revoked"
  "fold_key ''ags'' = ''ags''"
  by code_simp+

lemma normalize_operation_idem [simp]:
  "normalize_operation (normalize_operation x) = normalize_operation x"
  by (simp add: normalize_operation_def)

lemma same_operations_iff [simp]: "same_operations xs ys \<longleftrightarrow> xs = ys"
  by (induction xs ys rule: same_operations.induct) auto

lemma normalize_repo_split:
  assumes "normalize_repo raw = r" "r \<noteq> []"
  shows "\<exists>a b. r = a @ CHR ''/'' # b \<and> a \<noteq> [] \<and> b \<noteq> [] \<and> trim_space a = a \<and> trim_space b = b
    \<and> CHR ''/'' \<notin> set a \<and> CHR ''/'' \<notin> set b"
proof -
  obtain a b where ab: "split_on (CHR ''/'') (trim_space raw) = [a, b]"
    "trim_space a \<noteq> []" "trim_space b \<noteq> []" "r = trim_space a @ CHR ''/'' # trim_space b"
    using assms by (auto simp: normalize_repo_def split: list.splits if_splits)
  then have "CHR ''/'' \<notin> set a" "CHR ''/'' \<notin> set b"
    using split_on_parts [of _ "CHR ''/''" "trim_space raw"] by auto
  then have "CHR ''/'' \<notin> set (trim_space a)" "CHR ''/'' \<notin> set (trim_space b)"
    using set_trim_space by blast+
  with ab show ?thesis by (intro exI [of _ "trim_space a"] exI [of _ "trim_space b"]) simp
qed

lemma normalize_repo_idem [simp]: "normalize_repo (normalize_repo raw) = normalize_repo raw"
proof (cases "normalize_repo raw = []")
  case True
  then show ?thesis by (simp add: normalize_repo_def)
next
  case False
  with normalize_repo_split [OF refl] obtain a b where
    ab: "normalize_repo raw = a @ CHR ''/'' # b" "a \<noteq> []" "b \<noteq> []" "trim_space a = a" "trim_space b = b"
      "CHR ''/'' \<notin> set a" "CHR ''/'' \<notin> set b"
    by metis
  have "normalize_repo (a @ CHR ''/'' # b) = a @ CHR ''/'' # b"
    using ab by (simp add: normalize_repo_def trim_space_around slash_no_space split_on_append split_on_no_sep)
  with ab(1) show ?thesis by simp
qed

definition issuer_normal :: "trusted_issuer \<Rightarrow> bool" where
  "issuer_normal i \<longleftrightarrow>
     ti_id i \<noteq> [] \<and> ti_issuer i \<noteq> [] \<and> ti_trust_revision i \<noteq> [] \<and> ti_key_ids i \<noteq> []
     \<and> trim_space (ti_id i) = ti_id i \<and> trim_space (ti_issuer i) = ti_issuer i
     \<and> trim_space (ti_trust_revision i) = ti_trust_revision i
     \<and> (ti_status i = active \<or> ti_status i = disabled)
     \<and> sorted (ti_key_ids i) \<and> distinct (ti_key_ids i)
     \<and> (\<forall>q\<in>set (ti_key_ids i). q \<noteq> [] \<and> trim_space q = q)"

definition clean_key_id :: "string \<Rightarrow> item_error + string" where
  "clean_key_id raw = (if trim_space raw = [] then Inl EmptyKeyId else Inr (trim_space raw))"

lemma key_id_step_collect: "key_id_step = collect clean_key_id DuplicateKeyId"
  by (auto simp: fun_eq_iff key_id_step_def collect_def clean_key_id_def Let_def)

lemma issuer_registration: "registration normalize_issuer issuer_normal"
proof
  fix i j assume "normalize_issuer i = Inr j"
  then obtain keys where k: "rfold key_id_step (ti_key_ids i) [] = Inr keys"
    and j: "j = i\<lparr>ti_id := trim_space (ti_id i), ti_issuer := trim_space (ti_issuer i),
        ti_status := fold_key (ti_status i), ti_trust_revision := trim_space (ti_trust_revision i),
        ti_key_ids := sort keys\<rparr>"
    and "ti_id j \<noteq> []" "ti_issuer j \<noteq> []" "ti_trust_revision j \<noteq> []" "ti_key_ids j \<noteq> []"
      "ti_status j = active \<or> ti_status j = disabled"
    by (simp add: normalize_issuer_def Let_def rbind_Inr_iff) (elim exE conjE; simp split: if_splits)
  moreover have "distinct keys \<and> (\<forall>q\<in>set keys. q \<noteq> [] \<and> trim_space q = q)"
    using collect_result [OF k [unfolded key_id_step_collect]]
    by (auto simp: clean_key_id_def split: if_splits)
  ultimately show "issuer_normal j" by (simp add: issuer_normal_def)
next
  fix i assume n: "issuer_normal i"
  then have "rfold key_id_step (ti_key_ids i) [] = Inr (ti_key_ids i)"
    unfolding key_id_step_collect
    by (subst collect_fixed) (auto simp: issuer_normal_def clean_key_id_def)
  with n show "normalize_issuer i = Inr i"
    unfolding issuer_normal_def normalize_issuer_def Let_def
    by (elim conjE disjE) (simp_all add: sorted_sort_id)
qed

interpretation issuers: registration normalize_issuer issuer_normal
  by (rule issuer_registration)

text \<open>
  A subject binding is normal, but normalising it again may change its expiry: the instant keeps
  a fraction of a second that the formatted text drops.
\<close>

definition binding_normal :: "principal_binding \<Rightarrow> bool" where
  "binding_normal b \<longleftrightarrow>
     pb_id b \<noteq> [] \<and> pb_issuer_instance_id b \<noteq> [] \<and> pb_subject b \<noteq> []
     \<and> pb_principal_id b \<noteq> 0 \<and> pb_binding_revision b \<noteq> []
     \<and> trim_space (pb_id b) = pb_id b
     \<and> trim_space (pb_issuer_instance_id b) = pb_issuer_instance_id b
     \<and> trim_space (pb_subject b) = pb_subject b
     \<and> (pb_status b = active \<or> pb_status b = disabled \<or> pb_status b = revoked)
     \<and> (pb_status b = revoked \<longleftrightarrow> pb_revoked_at b \<noteq> [])
     \<and> (pb_expires_at b \<noteq> [] \<longrightarrow> pb_expires b \<noteq> None)"

lemma format_rfc3339_nonempty [simp]: "format_rfc3339 t \<noteq> []"
  by (simp add: format_rfc3339_def case_prod_beta Let_def del: append_assoc)

lemma stamp_revoked_Inr:
  "stamp_revoked b = Inr c \<Longrightarrow>
     (pb_status c = revoked \<longleftrightarrow> pb_revoked_at c \<noteq> [])
     \<and> (\<exists>r. c = b\<lparr>pb_revoked_at := r\<rparr>)"
  by (auto simp: stamp_revoked_def rbind_Inr_iff split: if_splits option.splits
      intro: exI [of _ "pb_revoked_at b"])

lemma stamp_expiry_Inr:
  "stamp_expiry b = Inr c \<Longrightarrow>
     (pb_expires_at c \<noteq> [] \<longrightarrow> pb_expires c \<noteq> None)
     \<and> (\<exists>e x. c = b\<lparr>pb_expires_at := e, pb_expires := x\<rparr>)"
  by (auto simp: stamp_expiry_def split: if_splits option.splits)
    (metis principal_binding.surjective principal_binding.update_convs(7,9) old.unit.exhaust)

lemma normalize_binding_normal:
  assumes "normalize_binding b = Inr c"
  shows "binding_normal c"
proof -
  let ?o = "trimmed_binding b"
  have req: "pb_id ?o \<noteq> [] \<and> pb_issuer_instance_id ?o \<noteq> [] \<and> pb_subject ?o \<noteq> []
      \<and> pb_principal_id ?o \<noteq> 0 \<and> pb_binding_revision ?o \<noteq> []"
    and st: "pb_status ?o = active \<or> pb_status ?o = disabled \<or> pb_status ?o = revoked"
    and "rbind (stamp_revoked ?o) stamp_expiry = Inr c"
    using assms unfolding normalize_binding_def Let_def by (simp_all split: if_splits)
  then obtain d where d: "stamp_revoked ?o = Inr d" "stamp_expiry d = Inr c"
    by (auto simp: rbind_Inr_iff)
  obtain r where dr: "d = ?o\<lparr>pb_revoked_at := r\<rparr>" "pb_status d = revoked \<longleftrightarrow> pb_revoked_at d \<noteq> []"
    using stamp_revoked_Inr [OF d(1)] by blast
  obtain e x where ce: "c = d\<lparr>pb_expires_at := e, pb_expires := x\<rparr>"
    "pb_expires_at c \<noteq> [] \<longrightarrow> pb_expires c \<noteq> None"
    using stamp_expiry_Inr [OF d(2)] by blast
  have "pb_id c = trim_space (pb_id b)" "pb_issuer_instance_id c = trim_space (pb_issuer_instance_id b)"
    "pb_subject c = trim_space (pb_subject b)" "pb_status c = pb_status ?o" "pb_status d = pb_status ?o"
    "pb_revoked_at c = pb_revoked_at d" "pb_principal_id c = pb_principal_id ?o"
    "pb_binding_revision c = pb_binding_revision ?o" "pb_id c = pb_id ?o"
    "pb_issuer_instance_id c = pb_issuer_instance_id ?o" "pb_subject c = pb_subject ?o"
    by (simp_all add: ce(1) dr(1) trimmed_binding_def)
  with req st dr(2) ce(2) show ?thesis
    unfolding binding_normal_def by simp
qed

definition team_normal :: "team_binding \<Rightarrow> bool" where
  "team_normal b \<longleftrightarrow>
     tb_id b \<noteq> [] \<and> tb_issuer_instance_id b \<noteq> [] \<and> tb_workspace_id b \<noteq> []
     \<and> tb_team_identity_id b \<noteq> [] \<and> tb_policy_class b \<noteq> [] \<and> tb_principal_id b \<noteq> 0
     \<and> tb_binding_revision b \<noteq> [] \<and> trim_space (tb_id b) = tb_id b
     \<and> trim_space (tb_issuer_instance_id b) = tb_issuer_instance_id b
     \<and> trim_space (tb_workspace_id b) = tb_workspace_id b
     \<and> trim_space (tb_team_identity_id b) = tb_team_identity_id b
     \<and> trim_space (tb_policy_class b) = tb_policy_class b
     \<and> trim_space (tb_binding_revision b) = tb_binding_revision b
     \<and> (tb_status b = active \<or> tb_status b = disabled \<or> tb_status b = revoked)
     \<and> 0 \<le> tb_epoch_floor b"

interpretation teams: registration normalize_team_binding team_normal
proof
  show "normalize_team_binding x = Inr y \<Longrightarrow> team_normal y" for x y
    by (auto simp: normalize_team_binding_def team_normal_def Let_def split: if_splits)
  show "team_normal x \<Longrightarrow> normalize_team_binding x = Inr x" for x
    by (auto simp: normalize_team_binding_def team_normal_def Let_def)
qed

definition class_normal :: "policy_class \<Rightarrow> bool" where
  "class_normal p \<longleftrightarrow>
     pc_id p \<noteq> [] \<and> pc_policy_revision p \<noteq> [] \<and> trim_space (pc_id p) = pc_id p
     \<and> trim_space (pc_policy_revision p) = pc_policy_revision p
     \<and> (pc_status p = active \<or> pc_status p = disabled)
     \<and> pc_operations p \<noteq> [] \<and> sorted (pc_operations p) \<and> distinct (pc_operations p)
     \<and> (\<forall>n\<in>set (pc_operations p). n \<noteq> [] \<and> normalize_operation n = n \<and> lookup_operation n \<noteq> None)
     \<and> (pc_id p = default_dynamic_policy_class \<longrightarrow> pc_operations p = default_dynamic_policy_operations)"

definition clean_operation :: "string \<Rightarrow> item_error + string" where
  "clean_operation raw =
     (let n = normalize_operation raw
      in if lookup_operation n = None \<or> n = [] then Inl UnsupportedOperation else Inr n)"

lemma class_operation_step_collect: "class_operation_step = collect clean_operation DuplicateOperation"
  by (auto simp: fun_eq_iff class_operation_step_def collect_def clean_operation_def Let_def)

interpretation classes: registration normalize_policy_class class_normal
proof
  fix p q assume "normalize_policy_class p = Inr q"
  then obtain names where k: "rfold class_operation_step (pc_operations p) [] = Inr names"
    and q: "q = p\<lparr>pc_id := trim_space (pc_id p), pc_status := fold_key (pc_status p),
        pc_policy_revision := trim_space (pc_policy_revision p), pc_operations := sort names\<rparr>"
    and "pc_id q \<noteq> []" "pc_policy_revision q \<noteq> []" "names \<noteq> []"
      "pc_status q = active \<or> pc_status q = disabled"
      "pc_id q = default_dynamic_policy_class \<longrightarrow> pc_operations q = default_dynamic_policy_operations"
    by (simp add: normalize_policy_class_def Let_def rbind_Inr_iff split: if_splits) (elim exE conjE; simp split: if_splits)
  moreover have "distinct names \<and> (\<forall>n\<in>set names. n \<noteq> [] \<and> normalize_operation n = n \<and> lookup_operation n \<noteq> None)"
    using collect_result [OF k [unfolded class_operation_step_collect]]
    by (auto simp: clean_operation_def Let_def split: if_splits)
  ultimately show "class_normal q"
    by (simp add: class_normal_def) (metis set_empty set_sort)
next
  fix p assume n: "class_normal p"
  then have "rfold class_operation_step (pc_operations p) [] = Inr (pc_operations p)"
    unfolding class_operation_step_collect
    by (subst collect_fixed) (auto simp: class_normal_def clean_operation_def Let_def)
  with n show "normalize_policy_class p = Inr p"
    unfolding class_normal_def normalize_policy_class_def Let_def
    by (elim conjE disjE) (simp_all add: sorted_sort_id)
qed

definition default_normal :: "resource_default \<Rightarrow> bool" where
  "default_normal d \<longleftrightarrow>
     rd_id d \<noteq> [] \<and> rd_target d \<noteq> [] \<and> rd_policy_revision d \<noteq> [] \<and> rd_max_session_ttl d \<noteq> []
     \<and> trim_space (rd_id d) = rd_id d \<and> trim_space (rd_target d) = rd_target d
     \<and> trim_space (rd_policy_revision d) = rd_policy_revision d
     \<and> trim_space (rd_max_session_ttl d) = rd_max_session_ttl d
     \<and> rd_service d = ''ags'' \<and> (rd_status d = active \<or> rd_status d = disabled)
     \<and> parse_duration (rd_max_session_ttl d) = Some (rd_ttl d)
     \<and> 0 < rd_ttl d \<and> rd_ttl d \<le> maximum_session_ttl"

lemma session_ttl_Inr_iff [res_simps]:
  "session_ttl s = Inr d \<longleftrightarrow> parse_duration s = Some d \<and> 0 < d \<and> d \<le> maximum_session_ttl"
  by (auto simp: session_ttl_def split: option.splits)

interpretation defaults: registration normalize_resource_default default_normal
proof
  show "normalize_resource_default x = Inr y \<Longrightarrow> default_normal y" for x y
    by (auto simp: normalize_resource_default_def default_normal_def Let_def res_simps split: if_splits)
  show "default_normal x \<Longrightarrow> normalize_resource_default x = Inr x" for x
    by (auto simp: normalize_resource_default_def default_normal_def Let_def res_simps)
qed

definition resource_normal :: "resource_policy \<Rightarrow> bool" where
  "resource_normal r \<longleftrightarrow>
     rp_id r \<noteq> [] \<and> rp_target r \<noteq> [] \<and> rp_repository r \<noteq> [] \<and> rp_policy_revision r \<noteq> []
     \<and> rp_max_session_ttl r \<noteq> [] \<and> trim_space (rp_id r) = rp_id r
     \<and> trim_space (rp_target r) = rp_target r \<and> normalize_repo (rp_repository r) = rp_repository r
     \<and> trim_space (rp_policy_revision r) = rp_policy_revision r
     \<and> trim_space (rp_max_session_ttl r) = rp_max_session_ttl r
     \<and> rp_service r = ''ags'' \<and> (rp_status r = active \<or> rp_status r = disabled)
     \<and> parse_duration (rp_max_session_ttl r) = Some (rp_ttl r)
     \<and> 0 < rp_ttl r \<and> rp_ttl r \<le> maximum_session_ttl"

interpretation resources: registration normalize_resource resource_normal
proof
  show "normalize_resource x = Inr y \<Longrightarrow> resource_normal y" for x y
    by (auto simp: normalize_resource_def resource_normal_def Let_def res_simps split: if_splits)
  show "resource_normal x \<Longrightarrow> normalize_resource x = Inr x" for x
    by (auto simp: normalize_resource_def resource_normal_def Let_def res_simps)
qed

end
