(* ===== verification/Authority_Set.thy ===== *)
theory Authority_Set
  imports Authority_Model
begin

text \<open>
  \<open>internal/sessionauthority/authority.go\<close>, second part: the checked snapshot \<open>Set\<close>, its
  construction \<open>New\<close> and the copy \<open>Config\<close> it gives out. One step per loop of \<open>New\<close>.
  The invariant \<open>set_ok\<close> is what the resolvers rest on.
\<close>

section \<open>Model\<close>

datatype config_error =
    SecretShaped | UnsupportedVersion | BadContractRevision | LegacyWithTeamFields
  | BindingsNeedLegacyMode | TeamForbidsLegacyMode
  | BadIssuer item_error | DuplicateIssuer | AmbiguousKey
  | BadBinding item_error | BindingUnknownIssuer | DuplicateBinding | AmbiguousSubject
  | BadPolicyClass item_error | DuplicatePolicyClass
  | BadTeamBinding item_error | TeamUnknownIssuer | TeamUnknownClass | DuplicateTeamBinding
  | TeamAndLegacy
  | BadDefault item_error | DuplicateDefault | BadResource item_error | DuplicateResource
  | Incomplete | TeamNeedsClasses

record auth_set =
  as_config :: auth_config
  as_issuers :: "string \<rightharpoonup> trusted_issuer"
  as_issuer_by_key :: "string \<rightharpoonup> string"
  as_bindings :: "string \<rightharpoonup> principal_binding"
  as_by_subject :: "string \<rightharpoonup> principal_binding"
  as_team :: "string \<rightharpoonup> team_binding"
  as_classes :: "string \<rightharpoonup> policy_class"
  as_defaults :: "string \<rightharpoonup> resource_default"
  as_resources :: "string \<rightharpoonup> resource_policy"

definition zero_config :: auth_config where
  "zero_config =
     \<lparr>ac_version = 0, ac_contract_revision = [], ac_trusted_issuers = None, ac_legacy_mode = [],
      ac_bindings = None, ac_team_bindings = None, ac_policy_classes = None,
      ac_resource_defaults = None, ac_resources = None\<rparr>"

definition empty_set :: "auth_config \<Rightarrow> auth_set" where
  "empty_set c =
     \<lparr>as_config = c, as_issuers = Map.empty, as_issuer_by_key = Map.empty,
      as_bindings = Map.empty, as_by_subject = Map.empty, as_team = Map.empty,
      as_classes = Map.empty, as_defaults = Map.empty, as_resources = Map.empty\<rparr>"

definition wrap :: "('e \<Rightarrow> 'f) \<Rightarrow> 'e + 'a \<Rightarrow> 'f + 'a" where
  "wrap w m = (case m of Inl e \<Rightarrow> Inl (w e) | Inr a \<Rightarrow> Inr a)"

text \<open>Go's \<open>append\<close> to a slice that may be nil.\<close>

definition snoc :: "'a list option \<Rightarrow> 'a \<Rightarrow> 'a list option" where
  "snoc xs x = Some (elems xs @ [x])"

definition key_owner_step :: "trusted_issuer \<Rightarrow> string \<Rightarrow> (string \<rightharpoonup> string) \<Rightarrow> config_error + (string \<rightharpoonup> string)" where
  "key_owner_step i key_id m =
     (let k = issuer_key (ti_issuer i) key_id
      in if (case m k of None \<Rightarrow> [] | Some v \<Rightarrow> v) \<noteq> [] then Inl AmbiguousKey
         else Inr (m(k \<mapsto> ti_id i)))"

definition add_issuer :: "trusted_issuer \<Rightarrow> auth_set \<Rightarrow> config_error + auth_set" where
  "add_issuer c s =
     rbind (wrap BadIssuer (normalize_issuer c)) (\<lambda>i.
     if as_issuers s (ti_id i) \<noteq> None then Inl DuplicateIssuer
     else rbind (rfold (key_owner_step i) (ti_key_ids i) (as_issuer_by_key s)) (\<lambda>owners.
     Inr (s\<lparr>as_issuers := (as_issuers s)(ti_id i \<mapsto> i), as_issuer_by_key := owners,
            as_config := (as_config s)\<lparr>ac_trusted_issuers := snoc (ac_trusted_issuers (as_config s)) i\<rparr>\<rparr>)))"

definition add_binding :: "principal_binding \<Rightarrow> auth_set \<Rightarrow> config_error + auth_set" where
  "add_binding c s =
     rbind (wrap BadBinding (normalize_binding c)) (\<lambda>b.
     let k = binding_key (pb_issuer_instance_id b) (pb_subject b)
     in if as_issuers s (pb_issuer_instance_id b) = None then Inl BindingUnknownIssuer
        else if as_bindings s (pb_id b) \<noteq> None then Inl DuplicateBinding
        else if as_by_subject s k \<noteq> None then Inl AmbiguousSubject
        else Inr (s\<lparr>as_bindings := (as_bindings s)(pb_id b \<mapsto> b),
                    as_by_subject := (as_by_subject s)(k \<mapsto> b),
                    as_config := (as_config s)\<lparr>ac_bindings := snoc (ac_bindings (as_config s)) b\<rparr>\<rparr>))"

definition add_policy_class :: "policy_class \<Rightarrow> auth_set \<Rightarrow> config_error + auth_set" where
  "add_policy_class c s =
     rbind (wrap BadPolicyClass (normalize_policy_class c)) (\<lambda>p.
     if as_classes s (pc_id p) \<noteq> None then Inl DuplicatePolicyClass
     else Inr (s\<lparr>as_classes := (as_classes s)(pc_id p \<mapsto> p),
                 as_config := (as_config s)\<lparr>ac_policy_classes := snoc (ac_policy_classes (as_config s)) p\<rparr>\<rparr>))"

definition team_key :: "team_binding \<Rightarrow> string" where
  "team_key b = team_binding_key (tb_issuer_instance_id b) (tb_team_identity_id b) (tb_policy_class b)"

definition add_team_binding :: "team_binding \<Rightarrow> auth_set \<Rightarrow> config_error + auth_set" where
  "add_team_binding c s =
     rbind (wrap BadTeamBinding (normalize_team_binding c)) (\<lambda>b.
     if as_issuers s (tb_issuer_instance_id b) = None then Inl TeamUnknownIssuer
     else if as_classes s (tb_policy_class b) = None then Inl TeamUnknownClass
     else if as_team s (team_key b) \<noteq> None then Inl DuplicateTeamBinding
     else Inr (s\<lparr>as_team := (as_team s)(team_key b \<mapsto> b),
                 as_config := (as_config s)\<lparr>ac_team_bindings := snoc (ac_team_bindings (as_config s)) b\<rparr>\<rparr>))"

definition default_key :: "resource_default \<Rightarrow> string" where
  "default_key d = resource_default_key (rd_target d) (rd_service d)"

definition add_resource_default :: "resource_default \<Rightarrow> auth_set \<Rightarrow> config_error + auth_set" where
  "add_resource_default c s =
     rbind (wrap BadDefault (normalize_resource_default c)) (\<lambda>d.
     if as_defaults s (default_key d) \<noteq> None then Inl DuplicateDefault
     else Inr (s\<lparr>as_defaults := (as_defaults s)(default_key d \<mapsto> d),
                 as_config := (as_config s)\<lparr>ac_resource_defaults := snoc (ac_resource_defaults (as_config s)) d\<rparr>\<rparr>))"

definition scope_key :: "resource_policy \<Rightarrow> string" where
  "scope_key r = resource_key (rp_target r) (rp_service r) (rp_repository r)"

definition add_resource :: "resource_policy \<Rightarrow> auth_set \<Rightarrow> config_error + auth_set" where
  "add_resource c s =
     rbind (wrap BadResource (normalize_resource c)) (\<lambda>r.
     if as_resources s (scope_key r) \<noteq> None then Inl DuplicateResource
     else Inr (s\<lparr>as_resources := (as_resources s)(scope_key r \<mapsto> r),
                 as_config := (as_config s)\<lparr>ac_resources := snoc (ac_resources (as_config s)) r\<rparr>\<rparr>))"

abbreviation issuers_of :: "auth_set \<Rightarrow> trusted_issuer list" where
  "issuers_of s \<equiv> elems (ac_trusted_issuers (as_config s))"
abbreviation bindings_of :: "auth_set \<Rightarrow> principal_binding list" where
  "bindings_of s \<equiv> elems (ac_bindings (as_config s))"
abbreviation teams_of :: "auth_set \<Rightarrow> team_binding list" where
  "teams_of s \<equiv> elems (ac_team_bindings (as_config s))"
abbreviation classes_of :: "auth_set \<Rightarrow> policy_class list" where
  "classes_of s \<equiv> elems (ac_policy_classes (as_config s))"
abbreviation defaults_of :: "auth_set \<Rightarrow> resource_default list" where
  "defaults_of s \<equiv> elems (ac_resource_defaults (as_config s))"
abbreviation resources_of :: "auth_set \<Rightarrow> resource_policy list" where
  "resources_of s \<equiv> elems (ac_resources (as_config s))"

text \<open>
  The sorts at the end of \<open>New\<close>. \<open>sort.Slice\<close> leaves the order of equal identifiers open;
  it is the insertion order here, which no reader of the lists depends on.
\<close>

definition sort_config :: "auth_config \<Rightarrow> auth_config" where
  "sort_config c =
     c\<lparr>ac_trusted_issuers := map_option (sort_key ti_id) (ac_trusted_issuers c),
       ac_bindings := map_option (sort_key pb_id) (ac_bindings c),
       ac_team_bindings := map_option (sort_key tb_id) (ac_team_bindings c),
       ac_policy_classes := map_option (sort_key pc_id) (ac_policy_classes c),
       ac_resource_defaults := map_option (sort_key rd_id) (ac_resource_defaults c),
       ac_resources := map_option (sort_key rp_id) (ac_resources c)\<rparr>"

definition is_zero_config :: "auth_config \<Rightarrow> bool" where
  "is_zero_config c \<longleftrightarrow>
     ac_version c = 0 \<and> ac_contract_revision c = [] \<and> ac_trusted_issuers c = None
     \<and> ac_bindings c = None \<and> ac_team_bindings c = None \<and> ac_policy_classes c = None
     \<and> ac_resource_defaults c = None \<and> ac_resources c = None"

text \<open>The checks before the loops; the result is the trimmed compatibility mode.\<close>

definition admit_config :: "auth_config \<Rightarrow> config_error + string" where
  "admit_config c =
     (let legacy = (ac_version c = 1 \<and> trim_space (ac_contract_revision c) = legacy_contract_revision);
          mode = trim_space (ac_legacy_mode c)
      in if has_secret_value c then Inl SecretShaped
         else if ac_version c \<noteq> current_version \<and> \<not> legacy then Inl UnsupportedVersion
         else if trim_space (ac_contract_revision c) \<noteq> contract_revision \<and> \<not> legacy
         then Inl BadContractRevision
         else if legacy \<and> (elems (ac_team_bindings c) \<noteq> [] \<or> elems (ac_policy_classes c) \<noteq> [])
         then Inl LegacyWithTeamFields
         else if elems (ac_bindings c) \<noteq> [] \<and> mode \<noteq> legacy_subject_mode
         then Inl BindingsNeedLegacyMode
         else if elems (ac_team_bindings c) \<noteq> [] \<and> mode \<noteq> [] then Inl TeamForbidsLegacyMode
         else Inr mode)"

definition initial_set :: "string \<Rightarrow> auth_set" where
  "initial_set mode =
     empty_set (zero_config\<lparr>ac_version := current_version,
       ac_contract_revision := contract_revision, ac_legacy_mode := mode\<rparr>)"

definition register_all :: "auth_config \<Rightarrow> auth_set \<Rightarrow> config_error + auth_set" where
  "register_all c s =
     rbind (rfold add_issuer (elems (ac_trusted_issuers c)) s) (\<lambda>s.
     rbind (rfold add_binding (elems (ac_bindings c)) s) (\<lambda>s.
     rbind (rfold add_policy_class (elems (ac_policy_classes c)) s) (\<lambda>s.
     rbind (rfold add_team_binding (elems (ac_team_bindings c)) s) (\<lambda>s.
     rbind (check (\<not> (elems (ac_team_bindings c) \<noteq> [] \<and> elems (ac_bindings c) \<noteq> [])) TeamAndLegacy) (\<lambda>_.
     rbind (rfold add_resource_default (elems (ac_resource_defaults c)) s) (\<lambda>s.
     rfold add_resource (elems (ac_resources c)) s))))))"

definition new_set :: "auth_config \<Rightarrow> config_error + auth_set" where
  "new_set c =
     (if is_zero_config c then Inr (empty_set zero_config)
      else rbind (admit_config c) (\<lambda>mode.
           rbind (register_all c (initial_set mode)) (\<lambda>s.
           if issuers_of s = [] \<or> (defaults_of s = [] \<and> resources_of s = [])
              \<or> (bindings_of s = [] \<and> teams_of s = [])
           then Inl Incomplete
           else if teams_of s \<noteq> [] \<and> classes_of s = [] then Inl TeamNeedsClasses
           else Inr (s\<lparr>as_config := sort_config (as_config s)\<rparr>))))"

text \<open>\<open>(*Set).Config\<close>: a nil receiver or the zero snapshot gives the zero configuration.\<close>

definition copied :: "'a list option \<Rightarrow> 'a list option" where
  "copied xs = (if elems xs = [] then None else xs)"

definition set_config :: "auth_set option \<Rightarrow> auth_config" where
  "set_config s =
     (case s of
        None \<Rightarrow> zero_config
      | Some t \<Rightarrow>
          (if ac_version (as_config t) = 0 then zero_config
           else (as_config t)
                  \<lparr>ac_trusted_issuers := Some (issuers_of t), ac_bindings := copied (ac_bindings (as_config t)),
                   ac_team_bindings := copied (ac_team_bindings (as_config t)),
                   ac_policy_classes := Some (classes_of t),
                   ac_resource_defaults := copied (ac_resource_defaults (as_config t)),
                   ac_resources := copied (ac_resources (as_config t))\<rparr>))"

section \<open>The invariant of a constructed snapshot\<close>

definition owners_ok :: "(string \<rightharpoonup> string) \<Rightarrow> trusted_issuer list \<Rightarrow> bool" where
  "owners_ok m xs \<longleftrightarrow>
     (\<forall>k v. m k = Some v \<longleftrightarrow>
        (\<exists>i\<in>set xs. v = ti_id i \<and> (\<exists>q\<in>set (ti_key_ids i). k = issuer_key (ti_issuer i) q)))"

definition subject_key :: "principal_binding \<Rightarrow> string" where
  "subject_key b = binding_key (pb_issuer_instance_id b) (pb_subject b)"

definition issuers_ok :: "auth_set \<Rightarrow> bool" where
  "issuers_ok s \<longleftrightarrow> indexed ti_id (as_issuers s) (issuers_of s)
     \<and> (\<forall>i\<in>set (issuers_of s). issuer_normal i) \<and> owners_ok (as_issuer_by_key s) (issuers_of s)"

definition bindings_ok :: "auth_set \<Rightarrow> bool" where
  "bindings_ok s \<longleftrightarrow> indexed pb_id (as_bindings s) (bindings_of s)
     \<and> indexed subject_key (as_by_subject s) (bindings_of s)
     \<and> (\<forall>b\<in>set (bindings_of s). binding_normal b \<and> as_issuers s (pb_issuer_instance_id b) \<noteq> None)"

definition classes_ok :: "auth_set \<Rightarrow> bool" where
  "classes_ok s \<longleftrightarrow> indexed pc_id (as_classes s) (classes_of s)
     \<and> (\<forall>p\<in>set (classes_of s). class_normal p)"

definition teams_ok :: "auth_set \<Rightarrow> bool" where
  "teams_ok s \<longleftrightarrow> indexed team_key (as_team s) (teams_of s)
     \<and> (\<forall>b\<in>set (teams_of s). team_normal b \<and> as_issuers s (tb_issuer_instance_id b) \<noteq> None
          \<and> as_classes s (tb_policy_class b) \<noteq> None)"

definition defaults_ok :: "auth_set \<Rightarrow> bool" where
  "defaults_ok s \<longleftrightarrow> indexed default_key (as_defaults s) (defaults_of s)
     \<and> (\<forall>d\<in>set (defaults_of s). default_normal d)"

definition resources_ok :: "auth_set \<Rightarrow> bool" where
  "resources_ok s \<longleftrightarrow> indexed scope_key (as_resources s) (resources_of s)
     \<and> (\<forall>r\<in>set (resources_of s). resource_normal r)"

definition set_ok :: "auth_set \<Rightarrow> bool" where
  "set_ok s \<longleftrightarrow> issuers_ok s \<and> bindings_ok s \<and> classes_ok s \<and> teams_ok s \<and> defaults_ok s
     \<and> resources_ok s"

lemmas set_ok_defs = set_ok_def issuers_ok_def bindings_ok_def classes_ok_def teams_ok_def
  defaults_ok_def resources_ok_def

lemma wrap_Inr_iff [res_simps]: "wrap w m = Inr a \<longleftrightarrow> m = Inr a"
  by (cases m) (simp_all add: wrap_def)

lemma elems_snoc [simp]: "elems (snoc xs x) = elems xs @ [x]"
  by (simp add: snoc_def)

lemma set_ok_empty: "set_ok (initial_set mode)" "set_ok (empty_set zero_config)"
  by (simp_all add: set_ok_defs owners_ok_def initial_set_def empty_set_def zero_config_def)

text \<open>The inner loop over the keys of one issuer.\<close>

lemma key_owner_step_Inr_iff [res_simps]:
  "key_owner_step i q m = Inr m' \<longleftrightarrow>
     (m (issuer_key (ti_issuer i) q) = None \<or> m (issuer_key (ti_issuer i) q) = Some [])
     \<and> m' = m(issuer_key (ti_issuer i) q \<mapsto> ti_id i)"
  by (auto simp: key_owner_step_def Let_def split: option.splits)

lemma owners_of_issuer:
  assumes "rfold (key_owner_step i) ks m = Inr m'" and "ti_id i \<noteq> []" and "\<forall>k. m k \<noteq> Some []"
  shows "m' k = Some v \<longleftrightarrow>
    m k = Some v \<or> (v = ti_id i \<and> (\<exists>q\<in>set ks. k = issuer_key (ti_issuer i) q))"
  using assms
proof (induction ks arbitrary: m)
  case Nil
  then show ?case by simp
next
  case (Cons q ks)
  let ?k = "issuer_key (ti_issuer i) q"
  from Cons.prems have free: "m ?k = None"
    and step: "rfold (key_owner_step i) ks (m(?k \<mapsto> ti_id i)) = Inr m'"
    by (auto simp: res_simps)
  from Cons.IH [OF step Cons.prems(2)] Cons.prems(2,3) free show ?case by auto
qed

lemma owners_ok_add:
  assumes "owners_ok m xs" "\<forall>i\<in>set xs. issuer_normal i" "issuer_normal j"
    and "rfold (key_owner_step j) (ti_key_ids j) m = Inr m'"
  shows "owners_ok m' (xs @ [j])"
proof -
  have "\<forall>k. m k \<noteq> Some []"
    using assms(1,2) by (auto simp: owners_ok_def issuer_normal_def)
  then show ?thesis
    using assms(1,3) owners_of_issuer [OF assms(4)]
    by (auto simp: owners_ok_def issuer_normal_def)
qed

lemma add_issuer_ok: "add_issuer c s = Inr t \<Longrightarrow> set_ok s \<Longrightarrow> set_ok t"
  using issuers.norm_normal [of c]
  by (auto simp: add_issuer_def res_simps set_ok_defs indexed_insert owners_ok_add split: if_splits)

lemma add_binding_ok: "add_binding c s = Inr t \<Longrightarrow> set_ok s \<Longrightarrow> set_ok t"
  using normalize_binding_normal [of c]
  by (auto simp: add_binding_def res_simps set_ok_defs Let_def indexed_insert
      subject_key_def [symmetric] split: if_splits)

lemma add_policy_class_ok: "add_policy_class c s = Inr t \<Longrightarrow> set_ok s \<Longrightarrow> set_ok t"
  using classes.norm_normal [of c]
  by (auto simp: add_policy_class_def res_simps set_ok_defs indexed_insert split: if_splits)

lemma add_team_binding_ok: "add_team_binding c s = Inr t \<Longrightarrow> set_ok s \<Longrightarrow> set_ok t"
  using teams.norm_normal [of c]
  by (auto simp: add_team_binding_def res_simps set_ok_defs indexed_insert split: if_splits)

lemma add_resource_default_ok: "add_resource_default c s = Inr t \<Longrightarrow> set_ok s \<Longrightarrow> set_ok t"
  using defaults.norm_normal [of c]
  by (auto simp: add_resource_default_def res_simps set_ok_defs indexed_insert split: if_splits)

lemma add_resource_ok: "add_resource c s = Inr t \<Longrightarrow> set_ok s \<Longrightarrow> set_ok t"
  using resources.norm_normal [of c]
  by (auto simp: add_resource_def res_simps set_ok_defs indexed_insert split: if_splits)

lemma register_all_ok:
  assumes "register_all c s = Inr t" "set_ok s"
  shows "set_ok t"
proof -
  obtain s1 s2 s3 s4 s5 where
    "rfold add_issuer (elems (ac_trusted_issuers c)) s = Inr s1"
    "rfold add_binding (elems (ac_bindings c)) s1 = Inr s2"
    "rfold add_policy_class (elems (ac_policy_classes c)) s2 = Inr s3"
    "rfold add_team_binding (elems (ac_team_bindings c)) s3 = Inr s4"
    "rfold add_resource_default (elems (ac_resource_defaults c)) s4 = Inr s5"
    "rfold add_resource (elems (ac_resources c)) s5 = Inr t"
    using assms(1) by (auto simp: register_all_def res_simps)
  with assms(2) show ?thesis
    by (auto dest!: rfold_invariant [where P = set_ok]
        intro: add_issuer_ok add_binding_ok add_policy_class_ok add_team_binding_ok
          add_resource_default_ok add_resource_ok)
qed

lemma elems_map_option [simp]: "elems (map_option f xs) = (case xs of None \<Rightarrow> [] | Some ys \<Rightarrow> f ys)"
  by (simp add: elems_def split: option.split)

lemma set_ok_sort: "set_ok (s\<lparr>as_config := sort_config (as_config s)\<rparr>) \<longleftrightarrow> set_ok s"
  by (simp add: set_ok_defs sort_config_def owners_ok_def elems_def split: option.split)

lemma new_set_ok: "new_set c = Inr s \<Longrightarrow> set_ok s"
  by (auto simp: new_set_def res_simps set_ok_sort set_ok_empty split: if_splits
      dest: register_all_ok [OF _ set_ok_empty(1)])

end
