(* ===== verification/Authority_Resolve.thy ===== *)
theory Authority_Resolve
  imports Authority_Set
begin

text \<open>
  \<open>internal/sessionauthority/authority.go\<close>, third part: the resolvers over a snapshot. A nil
  receiver is \<open>None\<close>. The targetless branch of \<open>ResolveResourceOperation\<close> ranges over a Go
  map, whose order is unspecified: the order is an argument, a function that permutes lists.
\<close>

section \<open>Model\<close>

datatype resolve_error =
    AuthorityNotConfigured | IssuerNotFound | IssuerInactive | BindingNotFound | BindingInactive
  | ResourceNotFound | ResourceInactive | ResourceAmbiguous | OperationNotSupported
  | PolicyClassNotFound | PolicyClassInactive | TeamBindingNotFound | TeamBindingInactive
  | TeamBindingAmbiguous

record request =
  rq_issuer :: string
  rq_issuer_instance_id :: string
  rq_assertion_key_id :: string
  rq_subject :: string
  rq_target :: string
  rq_service :: string
  rq_repository :: string
  rq_operation :: string
  rq_workspace_id :: string
  rq_team_identity_id :: string
  rq_policy_class :: string
  rq_membership_epoch :: int
  rq_now :: instant

record resource_request =
  rr_target :: string
  rr_service :: string
  rr_repository :: string
  rr_operation :: string
  rr_policy_class :: string

record resolved =
  rs_issuer :: trusted_issuer
  rs_binding :: "principal_binding option"
  rs_team_binding :: "team_binding option"
  rs_policy_class :: "policy_class option"
  rs_resource :: resource_policy
  rs_operation :: operation
  rs_principal_id :: nat

definition configured :: "auth_set option \<Rightarrow> bool" where
  "configured s = (case s of None \<Rightarrow> False | Some t \<Rightarrow> ac_version (as_config t) = current_version)"

definition resolve_issuer :: "auth_set \<Rightarrow> string \<Rightarrow> string \<Rightarrow> string \<Rightarrow> resolve_error + trusted_issuer" where
  "resolve_issuer s raw_issuer raw_id raw_key =
     (let name = trim_space raw_issuer; iid = trim_space raw_id; key = trim_space raw_key
      in if name = [] \<or> key = [] then Inl IssuerNotFound
         else if iid \<noteq> [] then
           (case as_issuers s iid of
              None \<Rightarrow> Inl IssuerNotFound
            | Some i \<Rightarrow>
                if ti_issuer i \<noteq> name \<or> \<not> sorted_member (ti_key_ids i) key then Inl IssuerNotFound
                else if ti_status i \<noteq> active then Inl IssuerInactive else Inr i)
         else
           (let owner = (case as_issuer_by_key s (issuer_key name key) of None \<Rightarrow> [] | Some v \<Rightarrow> v)
            in if owner = [] then Inl IssuerNotFound
               else case as_issuers s owner of
                      None \<Rightarrow> Inl IssuerInactive
                    | Some i \<Rightarrow> if ti_status i \<noteq> active then Inl IssuerInactive else Inr i))"

definition zero_resource :: resource_policy where
  "zero_resource =
     \<lparr>rp_id = [], rp_target = [], rp_service = [], rp_repository = [], rp_status = [],
      rp_max_session_ttl = [], rp_policy_revision = [], rp_ttl = 0\<rparr>"

text \<open>With a target: the exact row decides alone, else the default of the target.\<close>

definition targeted_resource :: "auth_set \<Rightarrow> string \<Rightarrow> string \<Rightarrow> string \<Rightarrow> resolve_error + resource_policy" where
  "targeted_resource s target service repository =
     (case as_resources s (resource_key target service repository) of
        Some exact \<Rightarrow> if rp_status exact \<noteq> active then Inl ResourceInactive else Inr exact
      | None \<Rightarrow>
          (case as_defaults s (resource_default_key target service) of
             None \<Rightarrow> Inl ResourceNotFound
           | Some d \<Rightarrow> if rd_status d \<noteq> active then Inl ResourceInactive
                       else Inr (resource_policy_from_default d repository)))"

text \<open>Without a target: one pass over the candidate targets in map order.\<close>

definition candidate_targets :: "auth_set \<Rightarrow> string \<Rightarrow> string \<Rightarrow> string list" where
  "candidate_targets s service repository =
     remdups (map rp_target (filter (\<lambda>r. rp_service r = service \<and> rp_repository r = repository) (resources_of s))
              @ map rd_target (filter (\<lambda>d. rd_service d = service) (defaults_of s)))"

definition scan_target ::
  "auth_set \<Rightarrow> string \<Rightarrow> string \<Rightarrow> string \<Rightarrow> resource_policy \<times> bool \<Rightarrow> resolve_error + resource_policy \<times> bool" where
  "scan_target s service repository t st =
     (let (res, inactive_seen) = st;
          dflt = as_defaults s (resource_default_key t service)
      in case as_resources s (resource_key t service repository) of
           Some exact \<Rightarrow>
             (if rp_status exact = active
              then if rp_id res \<noteq> [] then Inl ResourceAmbiguous else Inr (exact, inactive_seen)
              else if dflt \<noteq> None then Inr (res, True) else Inr (res, inactive_seen))
         | None \<Rightarrow>
             (case dflt of
                None \<Rightarrow> Inr (res, inactive_seen)
              | Some d \<Rightarrow>
                  if rd_status d \<noteq> active then Inr (res, True)
                  else if rp_id res \<noteq> [] then Inl ResourceAmbiguous
                  else Inr (resource_policy_from_default d repository, inactive_seen)))"

definition targetless_resource ::
  "(string list \<Rightarrow> string list) \<Rightarrow> auth_set \<Rightarrow> string \<Rightarrow> string \<Rightarrow> resolve_error + resource_policy" where
  "targetless_resource order s service repository =
     rbind (rfold (scan_target s service repository)
              (order (candidate_targets s service repository)) (zero_resource, False))
       (\<lambda>(res, inactive_seen).
         if rp_id res = [] then Inl (if inactive_seen then ResourceInactive else ResourceNotFound)
         else Inr res)"

definition resolve_resource_operation ::
  "(string list \<Rightarrow> string list) \<Rightarrow> auth_set option \<Rightarrow> resource_request
     \<Rightarrow> resolve_error + resource_policy \<times> operation" where
  "resolve_resource_operation order s rr =
     (if \<not> configured s then Inl AuthorityNotConfigured
      else
        (let t = the s;
             target = trim_space (rr_target rr);
             service = fold_key (rr_service rr);
             repository = normalize_repo (rr_repository rr)
         in if service = [] \<or> repository = [] then Inl ResourceNotFound
            else
              rbind (if target \<noteq> [] then targeted_resource t target service repository
                     else targetless_resource order t service repository) (\<lambda>res.
              case lookup_operation (rr_operation rr) of
                None \<Rightarrow> Inl OperationNotSupported
              | Some oper \<Rightarrow>
                  (let cls = trim_space (rr_policy_class rr)
                   in if cls = [] then Inr (res, oper)
                      else case as_classes t cls of
                             None \<Rightarrow> Inl PolicyClassNotFound
                           | Some p \<Rightarrow>
                               if pc_status p \<noteq> active then Inl PolicyClassInactive
                               else if \<not> sorted_member (pc_operations p) (op_name oper)
                               then Inl OperationNotSupported
                               else Inr (res, oper)))))"

definition has_team_selector :: "request \<Rightarrow> bool" where
  "has_team_selector rq \<longleftrightarrow>
     trim_space (rq_workspace_id rq) \<noteq> [] \<or> trim_space (rq_team_identity_id rq) \<noteq> []
     \<or> trim_space (rq_policy_class rq) \<noteq> [] \<or> rq_membership_epoch rq \<noteq> 0"

definition scope_request :: "request \<Rightarrow> string \<Rightarrow> resource_request" where
  "scope_request rq cls =
     \<lparr>rr_target = rq_target rq, rr_service = rq_service rq, rr_repository = rq_repository rq,
      rr_operation = rq_operation rq, rr_policy_class = cls\<rparr>"

definition resolve_team ::
  "(string list \<Rightarrow> string list) \<Rightarrow> auth_set \<Rightarrow> trusted_issuer \<Rightarrow> request \<Rightarrow> resolve_error + resolved" where
  "resolve_team order s issuer rq =
     (if trim_space (rq_workspace_id rq) = [] \<or> trim_space (rq_team_identity_id rq) = []
         \<or> trim_space (rq_policy_class rq) = [] \<or> rq_membership_epoch rq \<le> 0
      then Inl TeamBindingNotFound
      else
        (case as_team s (team_binding_key (ti_id issuer) (rq_team_identity_id rq) (rq_policy_class rq)) of
           None \<Rightarrow> Inl TeamBindingNotFound
         | Some b \<Rightarrow>
             if tb_workspace_id b \<noteq> trim_space (rq_workspace_id rq) then Inl TeamBindingNotFound
             else if tb_status b \<noteq> active \<or> rq_membership_epoch rq < tb_epoch_floor b
             then Inl TeamBindingInactive
             else
               (case as_classes s (tb_policy_class b) of
                  None \<Rightarrow> Inl PolicyClassNotFound
                | Some p \<Rightarrow>
                    if pc_status p \<noteq> active then Inl PolicyClassInactive
                    else
                      rbind (resolve_resource_operation order (Some s) (scope_request rq (tb_policy_class b)))
                        (\<lambda>(res, oper).
                          Inr \<lparr>rs_issuer = issuer, rs_binding = None, rs_team_binding = Some b,
                               rs_policy_class = Some p, rs_resource = res, rs_operation = oper,
                               rs_principal_id = tb_principal_id b\<rparr>))))"

definition resolve_subject ::
  "(string list \<Rightarrow> string list) \<Rightarrow> instant \<Rightarrow> auth_set \<Rightarrow> trusted_issuer \<Rightarrow> request \<Rightarrow> resolve_error + resolved" where
  "resolve_subject order now s issuer rq =
     (case as_by_subject s (binding_key (ti_id issuer) (rq_subject rq)) of
        None \<Rightarrow> Inl BindingNotFound
      | Some b \<Rightarrow>
          if \<not> binding_active b now then Inl BindingInactive
          else
            rbind (resolve_resource_operation order (Some s) (scope_request rq []))
              (\<lambda>(res, oper).
                Inr \<lparr>rs_issuer = issuer, rs_binding = Some b, rs_team_binding = None,
                     rs_policy_class = None, rs_resource = res, rs_operation = oper,
                     rs_principal_id = pb_principal_id b\<rparr>))"

text \<open>\<open>clock\<close> is what \<open>time.Now\<close> gives; it is read when the request carries no instant.\<close>

definition resolve ::
  "(string list \<Rightarrow> string list) \<Rightarrow> instant \<Rightarrow> auth_set option \<Rightarrow> request \<Rightarrow> resolve_error + resolved" where
  "resolve order clock s rq =
     (if \<not> configured s then Inl AuthorityNotConfigured
      else
        (let t = the s; now = (if is_zero_time (rq_now rq) then clock else rq_now rq)
         in rbind (resolve_issuer t (rq_issuer rq) (rq_issuer_instance_id rq) (rq_assertion_key_id rq))
              (\<lambda>issuer.
                if has_team_selector rq then resolve_team order t issuer rq
                else resolve_subject order now t issuer rq)))"

text \<open>The loop of \<open>DurablePrincipalAuthority\<close>; \<open>None\<close> is the zero result so far.\<close>

definition durable_step ::
  "auth_set \<Rightarrow> nat \<Rightarrow> team_binding \<Rightarrow> (team_binding \<times> policy_class) option
     \<Rightarrow> resolve_error + (team_binding \<times> policy_class) option" where
  "durable_step s pid b acc =
     (if tb_status b \<noteq> active \<or> tb_principal_id b \<noteq> pid then Inr acc
      else case as_classes s (tb_policy_class b) of
             None \<Rightarrow> Inr acc
           | Some p \<Rightarrow>
               if pc_status p \<noteq> active then Inr acc
               else if (case acc of None \<Rightarrow> False | Some (c, _) \<Rightarrow> tb_id c \<noteq> []) then Inl TeamBindingNotFound
               else Inr (Some (b, p)))"

definition durable_principal_authority ::
  "auth_set option \<Rightarrow> nat \<Rightarrow> resolve_error + (team_binding \<times> policy_class) option" where
  "durable_principal_authority s pid =
     (if \<not> configured s then Inl AuthorityNotConfigured
      else if teams_of (the s) = [] then Inr None
      else rbind (rfold (durable_step (the s) pid) (teams_of (the s)) None) (\<lambda>acc.
           if (case acc of None \<Rightarrow> True | Some (b, _) \<Rightarrow> tb_id b = []) then Inl TeamBindingNotFound
           else Inr acc))"

definition durable_policy_class :: "auth_set option \<Rightarrow> nat \<Rightarrow> resolve_error + string" where
  "durable_policy_class s pid =
     rbind (durable_principal_authority s pid)
       (\<lambda>acc. Inr (case acc of None \<Rightarrow> [] | Some (_, p) \<Rightarrow> pc_id p))"

definition uses_canonical_team_authority :: "auth_set option \<Rightarrow> bool" where
  "uses_canonical_team_authority s = (case s of None \<Rightarrow> False | Some t \<Rightarrow> teams_of t \<noteq> [])"

definition allows_legacy_subjects :: "auth_set option \<Rightarrow> bool" where
  "allows_legacy_subjects s =
     (case s of None \<Rightarrow> False
      | Some t \<Rightarrow> bindings_of t \<noteq> [] \<and> ac_legacy_mode (as_config t) = legacy_subject_mode)"

text \<open>\<open>(*Set).TeamBinding\<close>: the binding found, if any, and whether it is active.\<close>

definition team_binding_of ::
  "auth_set option \<Rightarrow> string \<Rightarrow> string \<Rightarrow> string \<Rightarrow> team_binding option \<times> bool" where
  "team_binding_of s issuer_instance team cls =
     (case s of
        None \<Rightarrow> (None, False)
      | Some t \<Rightarrow>
          (let b = as_team t (team_binding_key issuer_instance team cls)
           in (b, case b of None \<Rightarrow> False | Some c \<Rightarrow> tb_status c = active)))"

definition runtime_step ::
  "string \<Rightarrow> string \<Rightarrow> string \<Rightarrow> team_binding \<Rightarrow> team_binding option \<times> bool
     \<Rightarrow> resolve_error + team_binding option \<times> bool" where
  "runtime_step issuer_instance workspace cls b st =
     (let (selected, inactive_seen) = st
      in if tb_issuer_instance_id b \<noteq> issuer_instance \<or> tb_workspace_id b \<noteq> workspace
            \<or> tb_policy_class b \<noteq> cls
         then Inr st
         else if tb_status b \<noteq> active then Inr (selected, True)
         else if (case selected of None \<Rightarrow> False | Some c \<Rightarrow> tb_id c \<noteq> []) then Inl TeamBindingAmbiguous
         else Inr (Some b, inactive_seen))"

definition resolve_runtime_policy_authority ::
  "auth_set option \<Rightarrow> string \<Rightarrow> string \<Rightarrow> string \<Rightarrow> resolve_error + team_binding \<times> policy_class" where
  "resolve_runtime_policy_authority s raw_issuer raw_workspace raw_class =
     (if \<not> configured s then Inl AuthorityNotConfigured
      else
        (let t = the s; issuer_instance = trim_space raw_issuer;
             workspace = trim_space raw_workspace; cls = trim_space raw_class
         in if issuer_instance = [] \<or> workspace = [] \<or> cls = [] then Inl TeamBindingNotFound
            else case as_issuers t issuer_instance of
                   None \<Rightarrow> Inl IssuerNotFound
                 | Some i \<Rightarrow>
                     if ti_status i \<noteq> active then Inl IssuerInactive
                     else rbind (rfold (runtime_step issuer_instance workspace cls) (teams_of t) (None, False))
                       (\<lambda>(selected, inactive_seen).
                         if (case selected of None \<Rightarrow> True | Some b \<Rightarrow> tb_id b = [])
                         then Inl (if inactive_seen then TeamBindingInactive else TeamBindingNotFound)
                         else case as_classes t (tb_policy_class (the selected)) of
                                None \<Rightarrow> Inl PolicyClassNotFound
                              | Some p \<Rightarrow> if pc_status p \<noteq> active then Inl PolicyClassInactive
                                          else Inr (the selected, p))))"

definition binding_active_by_id :: "auth_set option \<Rightarrow> string \<Rightarrow> instant \<Rightarrow> bool" where
  "binding_active_by_id s raw now =
     (case s of
        None \<Rightarrow> False
      | Some t \<Rightarrow> (case as_bindings t (trim_space raw) of None \<Rightarrow> False | Some b \<Rightarrow> binding_active b now))"

end
