(* ===== verification/Authority_Facts.thy ===== *)
theory Authority_Facts
  imports Authority_Resolve
begin

text \<open>
  Facts about the session authority that its properties share: keys without a NUL byte are
  injective, the targetless scan counts active candidates whatever the map order, and what a
  successful result of each resolver says about the rows of the snapshot.
\<close>

section \<open>Keys without a NUL byte\<close>

lemma split_on_sep: "split_on c (a @ c # b) = split_on c a @ split_on c b"
proof (induction a)
  case Nil
  then show ?case by simp
next
  case (Cons x a)
  then show ?case by (cases "split_on c a") auto
qed

lemma split_on_subset: "p \<in> set (split_on c s) \<Longrightarrow> set p \<subseteq> set s"
proof (induction s arbitrary: p)
  case Nil
  then show ?case by simp
next
  case (Cons x s)
  then show ?case by (cases "split_on c s") (fastforce split: if_splits)+
qed

lemma split_on_singleton: "split_on c a = [x] \<Longrightarrow> a = x"
  using join_split [of c a] by simp

lemma sep_inject2:
  fixes c :: char
  assumes "a @ c # b = a' @ c # b'" "c \<notin> set a" "c \<notin> set b"
  shows "a' = a \<and> b' = b"
proof -
  have "split_on c a' @ split_on c b' = [a, b]"
    using assms(1) [symmetric] assms(2,3) split_on_sep [of c a' b']
    by (simp add: split_on_append split_on_no_sep)
  then have "split_on c a' = [a]" "split_on c b' = [b]"
    by (cases "split_on c a'"; auto simp: append_eq_Cons_conv)+
  then show ?thesis by (auto dest: split_on_singleton)
qed

lemma sep_inject3:
  fixes c :: char
  assumes "a @ c # b @ c # d = a' @ c # b' @ c # d'" "c \<notin> set a" "c \<notin> set b" "c \<notin> set d"
  shows "a' = a \<and> b' = b \<and> d' = d"
proof -
  have "split_on c a' @ split_on c b' @ split_on c d' = [a, b, d]"
    using assms(1) [symmetric] assms(2-4) split_on_sep [of c a' "b' @ c # d'"] split_on_sep [of c b' d']
    by (simp add: split_on_append split_on_no_sep)
  then have "split_on c a' = [a]" "split_on c b' = [b]" "split_on c d' = [d]"
    by (cases "split_on c a'"; cases "split_on c b'"; auto simp: append_eq_Cons_conv)+
  then show ?thesis by (auto dest: split_on_singleton)
qed

definition nul_free :: "string \<Rightarrow> bool" where
  "nul_free s \<longleftrightarrow> CHR 0x00 \<notin> set s"

lemma nul_free_trim: "nul_free s \<Longrightarrow> CHR 0x00 \<notin> set (trim_space s)"
  using set_trim_space by (auto simp: nul_free_def)

lemma issuer_key_inject [key_simps]:
  assumes "issuer_key a b = issuer_key c d" "nul_free a" "nul_free b"
  shows "trim_space c = trim_space a \<and> trim_space d = trim_space b"
  using assms sep_inject2 [of "trim_space a" "CHR 0x00" "trim_space b"]
  by (auto simp: issuer_key_def nul_def nul_free_trim)

lemma team_binding_key_inject [key_simps]:
  assumes "team_binding_key a b c = team_binding_key a' b' c'" "nul_free a" "nul_free b" "nul_free c"
  shows "trim_space a' = trim_space a \<and> trim_space b' = trim_space b \<and> trim_space c' = trim_space c"
  using assms sep_inject3 [of "trim_space a" "CHR 0x00" "trim_space b" "trim_space c"]
  by (auto simp: team_binding_key_def nul_def nul_free_trim)

lemma to_lower_nul: "CHR 0x00 \<in> set (to_lower s) \<Longrightarrow> CHR 0x00 \<in> set s"
proof (induction s rule: to_lower.induct)
  case (2 c s)
  have "lower_byte c = CHR 0x00 \<Longrightarrow> c = CHR 0x00"
    by (rule lower_byte_other) (simp_all add: lower_letter_def)
  with 2 show ?case by (auto split: if_splits dest: in_set_dropD)
qed simp

lemma fold_key_nul: "nul_free s \<Longrightarrow> CHR 0x00 \<notin> set (fold_key s)"
  using nul_free_trim to_lower_nul by (auto simp: fold_key_def)

lemma normalize_repo_subset: "set (normalize_repo r) \<subseteq> insert (CHR ''/'') (set r)"
proof (cases "normalize_repo r = []")
  case False
  then obtain a b where ab: "split_on (CHR ''/'') (trim_space r) = [a, b]"
    "normalize_repo r = trim_space a @ CHR ''/'' # trim_space b"
    by (auto simp: normalize_repo_def split: list.splits if_splits)
  have "set a \<subseteq> set r" "set b \<subseteq> set r"
    using ab(1) split_on_subset [of _ "CHR ''/''" "trim_space r"] set_trim_space [of r] by fastforce+
  then show ?thesis using ab(2) set_trim_space [of a] set_trim_space [of b] by auto
qed simp

lemma resource_key_inject [key_simps]:
  assumes "resource_key a b r = resource_key a' b' r'" "nul_free a" "nul_free b" "nul_free r"
  shows "trim_space a' = trim_space a \<and> fold_key b' = fold_key b \<and> normalize_repo r' = normalize_repo r"
proof -
  have "CHR 0x00 \<notin> set (normalize_repo r)"
    using normalize_repo_subset [of r] assms(4) by (auto simp: nul_free_def)
  then show ?thesis
    using assms(1) nul_free_trim [OF assms(2)] fold_key_nul [OF assms(3)]
      sep_inject3 [of "trim_space a" "CHR 0x00" "fold_key b" "normalize_repo r"]
    by (auto simp: resource_key_def resource_default_key_def nul_def)
qed

lemma resource_default_key_inject [key_simps]:
  assumes "resource_default_key a b = resource_default_key a' b'" "nul_free a" "nul_free b"
  shows "trim_space a' = trim_space a \<and> fold_key b' = fold_key b"
  using assms(1) nul_free_trim [OF assms(2)] fold_key_nul [OF assms(3)]
    sep_inject2 [of "trim_space a" "CHR 0x00" "fold_key b"]
  by (auto simp: resource_default_key_def nul_def)

section \<open>The targetless scan does not depend on the map order\<close>

text \<open>What one target contributes: an active resource, or a sign that a default is switched off.\<close>

definition effective :: "auth_set \<Rightarrow> string \<Rightarrow> string \<Rightarrow> string \<Rightarrow> resource_policy option" where
  "effective s service repository t =
     (case as_resources s (resource_key t service repository) of
        Some exact \<Rightarrow> if rp_status exact = active then Some exact else None
      | None \<Rightarrow>
          (case as_defaults s (resource_default_key t service) of
             None \<Rightarrow> None
           | Some d \<Rightarrow> if rd_status d = active then Some (resource_policy_from_default d repository) else None))"

definition switched_off :: "auth_set \<Rightarrow> string \<Rightarrow> string \<Rightarrow> string \<Rightarrow> bool" where
  "switched_off s service repository t =
     (case as_resources s (resource_key t service repository) of
        Some exact \<Rightarrow> rp_status exact \<noteq> active \<and> as_defaults s (resource_default_key t service) \<noteq> None
      | None \<Rightarrow>
          (case as_defaults s (resource_default_key t service) of
             None \<Rightarrow> False | Some d \<Rightarrow> rd_status d \<noteq> active))"

lemma scan_target_cases:
  "scan_target s service repository t (r, b) =
     (case effective s service repository t of
        None \<Rightarrow> Inr (r, b \<or> switched_off s service repository t)
      | Some e \<Rightarrow> if rp_id r \<noteq> [] then Inl ResourceAmbiguous else Inr (e, b))"
  by (auto simp: scan_target_def effective_def switched_off_def split: option.splits)

lemma effective_id: "set_ok s \<Longrightarrow> effective s service repository t = Some e \<Longrightarrow> rp_id e \<noteq> []"
  by (fastforce simp: effective_def set_ok_defs indexed_def resource_normal_def default_normal_def
      resource_policy_from_default_def split: option.splits if_splits)

text \<open>The scan counts the active candidates: none, exactly one, or too many.\<close>

definition scan_spec ::
  "auth_set \<Rightarrow> string \<Rightarrow> string \<Rightarrow> string list \<Rightarrow> resource_policy \<times> bool \<Rightarrow> resolve_error + resource_policy \<times> bool" where
  "scan_spec s service repository ts st =
     (let es = List.map_filter (effective s service repository) ts;
          off = snd st \<or> list_ex (switched_off s service repository) ts
      in if rp_id (fst st) \<noteq> [] then if es = [] then Inr (fst st, off) else Inl ResourceAmbiguous
         else if es = [] then Inr (fst st, off)
         else if tl es = [] then Inr (hd es, off) else Inl ResourceAmbiguous)"

lemma scan_correct:
  assumes "set_ok s"
  shows "rfold (scan_target s service repository) ts st = scan_spec s service repository ts st"
proof (induction ts arbitrary: st)
  case Nil
  then show ?case by (simp add: scan_spec_def Let_def map_filter_simps)
next
  case (Cons t ts)
  obtain r b where st: "st = (r, b)" by fastforce
  have off: "effective s service repository t = Some e \<Longrightarrow> \<not> switched_off s service repository t" for e
    by (auto simp: effective_def switched_off_def split: option.splits if_splits)
  show ?case
  proof (cases "effective s service repository t")
    case None
    then show ?thesis
      by (simp add: st scan_target_cases Cons.IH scan_spec_def Let_def map_filter_simps disj_assoc)
  next
    case (Some e)
    with off effective_id [OF assms Some] show ?thesis
      by (simp add: st scan_target_cases Cons.IH scan_spec_def Let_def map_filter_simps)
  qed
qed

definition map_order :: "(string list \<Rightarrow> string list) \<Rightarrow> bool" where
  "map_order p \<longleftrightarrow> (\<forall>xs. mset (p xs) = mset xs)"

lemma map_order_id [simp]: "map_order (\<lambda>xs. xs)" and map_order_rev [simp]: "map_order rev"
  by (simp_all add: map_order_def)

lemma map_filter_mset: "mset (List.map_filter f xs) = image_mset (\<lambda>x. the (f x)) (filter_mset (\<lambda>x. f x \<noteq> None) (mset xs))"
  by (induction xs) (auto simp: map_filter_simps split: option.split)

lemma scan_spec_order:
  assumes "mset xs = mset ys"
  shows "scan_spec s service repository xs st = scan_spec s service repository ys st"
proof -
  let ?f = "List.map_filter (effective s service repository)"
  have m: "mset (?f xs) = mset (?f ys)" by (simp add: map_filter_mset assms)
  then have len: "length (?f xs) = length (?f ys)" by (rule mset_eq_length)
  have "list_ex (switched_off s service repository) xs = list_ex (switched_off s service repository) ys"
    using assms by (metis list_ex_iff mset_eq_setD)
  moreover have "?f xs = ?f ys" if "tl (?f xs) = []"
    using that m len by (cases "?f xs"; cases "?f ys") auto
  moreover have "?f xs = [] \<longleftrightarrow> ?f ys = []" "tl (?f xs) = [] \<longleftrightarrow> tl (?f ys) = []"
    using len by (cases "?f xs"; cases "?f ys"; auto)+
  ultimately show ?thesis by (auto simp: scan_spec_def Let_def)
qed

lemma resolve_resource_order:
  assumes "set_ok s" "map_order p" "map_order q"
  shows "resolve_resource_operation p (Some s) rr = resolve_resource_operation q (Some s) rr"
proof -
  have "targetless_resource p s service repository = targetless_resource q s service repository"
    for service repository
    using assms scan_spec_order [of "p (candidate_targets s service repository)"
        "q (candidate_targets s service repository)"]
    by (simp add: targetless_resource_def scan_correct map_order_def)
  then show ?thesis by (simp add: resolve_resource_operation_def Let_def)
qed

section \<open>Issuers\<close>

lemma set_ok_issuer:
  assumes "set_ok s"
  shows "as_issuers s k = Some i \<longleftrightarrow> i \<in> set (issuers_of s) \<and> ti_id i = k"
  using assms by (simp add: set_ok_defs indexed_Some_iff)

lemma issuer_in_normal: "set_ok s \<Longrightarrow> i \<in> set (issuers_of s) \<Longrightarrow> issuer_normal i"
  by (simp add: set_ok_defs)

lemma issuer_by_key:
  assumes "set_ok s" "i \<in> set (issuers_of s)" "q \<in> set (ti_key_ids i)"
  shows "as_issuer_by_key s (issuer_key (ti_issuer i) q) = Some (ti_id i)"
  using assms unfolding set_ok_defs owners_ok_def by blast

text \<open>What a request needs for an issuer instance: the name, the key and an active row.\<close>

definition issuer_match :: "trusted_issuer \<Rightarrow> string \<Rightarrow> string \<Rightarrow> string \<Rightarrow> bool" where
  "issuer_match i name iid key \<longleftrightarrow>
     ti_status i = active \<and> ti_issuer i = trim_space name \<and> trim_space key \<in> set (ti_key_ids i)
     \<and> (trim_space iid = [] \<or> ti_id i = trim_space iid)"

lemma resolve_issuer_Inr:
  assumes ok: "set_ok s" and "nul_free name" "nul_free key"
  shows "resolve_issuer s name iid key = Inr i \<longleftrightarrow> i \<in> set (issuers_of s) \<and> issuer_match i name iid key"
proof
  assume r: "resolve_issuer s name iid key = Inr i"
  show "i \<in> set (issuers_of s) \<and> issuer_match i name iid key"
  proof (cases "trim_space iid = []")
    case False
    with r ok show ?thesis
      using issuer_in_normal [OF ok, of i]
      by (auto simp: resolve_issuer_def Let_def set_ok_issuer issuer_match_def issuer_normal_def
          sorted_member_iff split: if_splits option.splits)
  next
    case True
    with r obtain owner where o: "as_issuer_by_key s (issuer_key (trim_space name) (trim_space key)) = Some owner"
      "as_issuers s owner = Some i" "ti_status i = active"
      by (auto simp: resolve_issuer_def Let_def split: if_splits option.splits)
    from o(1) ok obtain j q where j: "j \<in> set (issuers_of s)" "owner = ti_id j" "q \<in> set (ti_key_ids j)"
      "issuer_key (trim_space name) (trim_space key) = issuer_key (ti_issuer j) q"
      unfolding set_ok_defs owners_ok_def by blast
    have "issuer_key name key = issuer_key (ti_issuer j) q"
      using j(4) by (simp add: issuer_key_def)
    from issuer_key_inject [OF this assms(2,3)] issuer_in_normal [OF ok j(1)] j(3)
    have "ti_issuer j = trim_space name" "q = trim_space key" by (auto simp: issuer_normal_def)
    moreover have "i = j"
      using o(2) j ok indexed_member [of ti_id "as_issuers s" "issuers_of s" j]
      by (simp add: set_ok_defs)
    ultimately show ?thesis using j o(3) True by (auto simp: issuer_match_def)
  qed
next
  assume r: "i \<in> set (issuers_of s) \<and> issuer_match i name iid key"
  with ok issuer_in_normal [OF ok, of i] have n: "issuer_normal i" by simp
  have "trim_space key \<noteq> []" "trim_space name \<noteq> []"
    using r n by (auto simp: issuer_match_def issuer_normal_def)
  moreover have "as_issuers s (ti_id i) = Some i" using r ok by (simp add: set_ok_issuer)
  moreover have "as_issuer_by_key s (issuer_key (trim_space name) (trim_space key)) = Some (ti_id i)"
    using r ok issuer_by_key [of s i "trim_space key"] by (simp add: issuer_match_def)
  ultimately show "resolve_issuer s name iid key = Inr i"
    using r n by (auto simp: resolve_issuer_def Let_def issuer_match_def sorted_member_iff issuer_normal_def)
qed

section \<open>Resources\<close>

lemma set_ok_class:
  assumes "set_ok s"
  shows "as_classes s k = Some p \<longleftrightarrow> p \<in> set (classes_of s) \<and> pc_id p = k"
  using assms by (simp add: set_ok_defs indexed_Some_iff)

lemma class_unique:
  assumes "set_ok s" "p \<in> set (classes_of s)" "q \<in> set (classes_of s)" "pc_id p = pc_id q"
  shows "p = q"
  using assms set_ok_class [OF assms(1), of "pc_id q"] by (metis option.inject)

lemma class_in_normal: "set_ok s \<Longrightarrow> p \<in> set (classes_of s) \<Longrightarrow> class_normal p"
  by (simp add: set_ok_defs)

lemma set_ok_resource:
  assumes "set_ok s"
  shows "as_resources s k = Some r \<longleftrightarrow> r \<in> set (resources_of s) \<and> scope_key r = k"
  using assms by (simp add: set_ok_defs indexed_Some_iff)

lemma set_ok_default:
  assumes "set_ok s"
  shows "as_defaults s k = Some d \<longleftrightarrow> d \<in> set (defaults_of s) \<and> default_key d = k"
  using assms by (simp add: set_ok_defs indexed_Some_iff)

lemma set_ok_team:
  assumes "set_ok s"
  shows "as_team s k = Some b \<longleftrightarrow> b \<in> set (teams_of s) \<and> team_key b = k"
  using assms by (simp add: set_ok_defs indexed_Some_iff)

lemma set_ok_subject:
  assumes "set_ok s"
  shows "as_by_subject s k = Some b \<longleftrightarrow> b \<in> set (bindings_of s) \<and> subject_key b = k"
  using assms by (simp add: set_ok_defs indexed_Some_iff)

lemma in_normal:
  assumes "set_ok s"
  shows "r \<in> set (resources_of s) \<Longrightarrow> resource_normal r" "d \<in> set (defaults_of s) \<Longrightarrow> default_normal d"
    "b \<in> set (teams_of s) \<Longrightarrow> team_normal b" "c \<in> set (bindings_of s) \<Longrightarrow> binding_normal c"
  using assms by (simp_all add: set_ok_defs)

lemma effective_trim: "effective s service repository (trim_space t) = effective s service repository t"
proof -
  have "resource_default_key (trim_space t) service = resource_default_key t service"
    by (simp add: resource_default_key_def)
  then show ?thesis unfolding effective_def resource_key_def by (simp only:)
qed

lemma targeted_effective:
  "targeted_resource s t service repository = Inr r \<longleftrightarrow> effective s service repository t = Some r"
  by (auto simp: targeted_resource_def effective_def split: option.splits)

lemma targetless_effective:
  assumes ok: "set_ok s" and p: "map_order p"
    and r: "targetless_resource p s service repository = Inr r"
  shows "\<exists>t\<in>set (candidate_targets s service repository). effective s service repository t = Some r"
proof -
  let ?ts = "p (candidate_targets s service repository)"
  let ?es = "List.map_filter (effective s service repository) ?ts"
  have set_ts: "set ?ts = set (candidate_targets s service repository)"
    using p by (metis map_order_def mset_eq_setD)
  from r have "?es \<noteq> [] \<and> hd ?es = r"
    by (auto simp: targetless_resource_def scan_correct [OF ok] scan_spec_def Let_def zero_resource_def
        split: if_splits)
  then have "r \<in> set ?es" by (metis hd_in_set)
  then show ?thesis by (simp add: map_filter_def set_ts) force
qed

lemma effective_granted:
  assumes "set_ok s" "effective s service repository t = Some r"
  shows "rp_status r = active \<and> rp_target r \<noteq> [] \<and> trim_space (rp_target r) = rp_target r
    \<and> rp_service r = ''ags'' \<and> 0 < rp_ttl r \<and> rp_ttl r \<le> maximum_session_ttl"
  using assms
  by (fastforce simp: effective_def set_ok_defs indexed_def resource_normal_def
      default_normal_def resource_policy_from_default_def split: option.splits if_splits)

definition class_admits :: "auth_set \<Rightarrow> string \<Rightarrow> operation \<Rightarrow> bool" where
  "class_admits s cls oper \<longleftrightarrow>
     (\<exists>p\<in>set (classes_of s). pc_id p = trim_space cls \<and> pc_status p = active \<and> op_name oper \<in> set (pc_operations p))"

definition resource_choice :: "(string list \<Rightarrow> string list) \<Rightarrow> auth_set \<Rightarrow> resource_request \<Rightarrow> resolve_error + resource_policy" where
  "resource_choice p s rr =
     (let service = fold_key (rr_service rr); repository = normalize_repo (rr_repository rr)
      in if service = [] \<or> repository = [] then Inl ResourceNotFound
         else if trim_space (rr_target rr) \<noteq> [] then targeted_resource s (trim_space (rr_target rr)) service repository
         else targetless_resource p s service repository)"

definition operation_stage :: "auth_set \<Rightarrow> resource_request \<Rightarrow> resource_policy \<Rightarrow> resolve_error + resource_policy \<times> operation" where
  "operation_stage s rr r =
     (case lookup_operation (rr_operation rr) of
        None \<Rightarrow> Inl OperationNotSupported
      | Some oper \<Rightarrow>
          (let cls = trim_space (rr_policy_class rr)
           in if cls = [] then Inr (r, oper)
              else case as_classes s cls of
                     None \<Rightarrow> Inl PolicyClassNotFound
                   | Some p \<Rightarrow>
                       if pc_status p \<noteq> active then Inl PolicyClassInactive
                       else if \<not> sorted_member (pc_operations p) (op_name oper) then Inl OperationNotSupported
                       else Inr (r, oper)))"

lemma resolve_resource_stages:
  "resolve_resource_operation p (Some s) rr =
     (if configured (Some s) then rbind (resource_choice p s rr) (operation_stage s rr)
      else Inl AuthorityNotConfigured)"
  by (simp add: resolve_resource_operation_def resource_choice_def operation_stage_def [abs_def] Let_def)

lemma operation_stage_Inr:
  assumes ok: "set_ok s"
  shows "operation_stage s rr r1 = Inr (r, oper) \<longleftrightarrow>
    r1 = r \<and> lookup_operation (rr_operation rr) = Some oper
    \<and> (trim_space (rr_policy_class rr) = [] \<or> class_admits s (rr_policy_class rr) oper)"
proof -
  have mem: "sorted_member (pc_operations q) n \<longleftrightarrow> n \<in> set (pc_operations q)"
    if "as_classes s k = Some q" for k q n
    using class_in_normal [OF ok, of q] that by (simp add: set_ok_class [OF ok] sorted_member_iff class_normal_def)
  have cls: "class_admits s c o1 \<longleftrightarrow>
      (\<exists>q. as_classes s (trim_space c) = Some q \<and> pc_status q = active \<and> op_name o1 \<in> set (pc_operations q))" for c o1
    by (auto simp: class_admits_def set_ok_class [OF ok])
  show ?thesis
    by (auto simp: operation_stage_def Let_def cls mem split: option.splits if_splits)
qed

lemma resolve_resource_Inr:
  assumes "set_ok s"
  shows "resolve_resource_operation p (Some s) rr = Inr (r, oper) \<longleftrightarrow>
    configured (Some s) \<and> resource_choice p s rr = Inr r \<and> lookup_operation (rr_operation rr) = Some oper
    \<and> (trim_space (rr_policy_class rr) = [] \<or> class_admits s (rr_policy_class rr) oper)"
  by (auto simp: resolve_resource_stages rbind_Inr_iff operation_stage_Inr [OF assms])

lemma resource_choice_effective:
  assumes "set_ok s" "map_order p" "resource_choice p s rr = Inr r"
  shows "\<exists>t. effective s (fold_key (rr_service rr)) (normalize_repo (rr_repository rr)) t = Some r
    \<and> (trim_space (rr_target rr) \<noteq> [] \<longrightarrow> t = trim_space (rr_target rr))
    \<and> (trim_space (rr_target rr) = [] \<longrightarrow>
         t \<in> set (candidate_targets s (fold_key (rr_service rr)) (normalize_repo (rr_repository rr))))"
  using assms(3) targetless_effective [OF assms(1,2)]
  by (auto simp: resource_choice_def Let_def targeted_effective split: if_splits) blast

text \<open>Which row answers for a target, with no NUL byte in the request to confuse two keys.\<close>

lemma effective_target:
  assumes ok: "set_ok s" and e: "effective s (fold_key sv) (normalize_repo rp) t = Some r"
    and "nul_free t" "nul_free sv" "nul_free rp"
  shows "rp_target r = trim_space t \<and> rp_service r = fold_key sv \<and> rp_repository r = normalize_repo rp"
proof (cases "as_resources s (resource_key t (fold_key sv) (normalize_repo rp))")
  case (Some x)
  with e have x: "x = r" by (simp add: effective_def split: if_splits)
  with Some set_ok_resource [OF ok] have "r \<in> set (resources_of s)" "scope_key r = resource_key t (fold_key sv) (normalize_repo rp)"
    by simp_all
  then have "resource_key t sv rp = resource_key (rp_target r) (rp_service r) (rp_repository r)" "resource_normal r"
    using in_normal [OF ok] by (simp_all add: scope_key_def resource_key_def resource_default_key_def)
  from resource_key_inject [OF this(1) assms(3-5)] this(2) fold_key_status show ?thesis
    by (simp add: resource_normal_def)
next
  case None
  with e obtain d where d: "as_defaults s (resource_default_key t (fold_key sv)) = Some d"
    "r = resource_policy_from_default d (normalize_repo rp)"
    by (auto simp: effective_def split: option.splits if_splits)
  with set_ok_default [OF ok] have "d \<in> set (defaults_of s)" "default_key d = resource_default_key t (fold_key sv)"
    by simp_all
  then have "resource_default_key t sv = resource_default_key (rd_target d) (rd_service d)" "default_normal d"
    using in_normal [OF ok] by (simp_all add: default_key_def resource_default_key_def)
  from resource_default_key_inject [OF this(1) assms(3,4)] this(2) fold_key_status d(2) show ?thesis
    by (simp add: default_normal_def resource_policy_from_default_def)
qed

lemma candidate_nul_free:
  assumes ok: "set_ok s" and t: "t \<in> set (candidate_targets s sv rp)"
  shows "(\<exists>r\<in>set (resources_of s). rp_target r = t \<and> rp_service r = sv \<and> rp_repository r = rp)
    \<or> (\<exists>d\<in>set (defaults_of s). rd_target d = t)"
  using t by (auto simp: candidate_targets_def)

text \<open>The answer without a target is the answer with the target it names.\<close>

lemma targetless_target:
  assumes ok: "set_ok s" and p: "map_order p" and c: "resource_choice p s rr = Inr r"
    and nf: "nul_free (rr_target rr)" "nul_free (rr_service rr)" "nul_free (rr_repository rr)"
      "\<forall>d\<in>set (defaults_of s). nul_free (rd_target d)"
  shows "effective s (fold_key (rr_service rr)) (normalize_repo (rr_repository rr)) (rp_target r) = Some r"
proof -
  let ?sv = "fold_key (rr_service rr)" and ?rp = "normalize_repo (rr_repository rr)"
  obtain t where t: "effective s ?sv ?rp t = Some r"
    "trim_space (rr_target rr) \<noteq> [] \<Longrightarrow> t = trim_space (rr_target rr)"
    "trim_space (rr_target rr) = [] \<Longrightarrow> t \<in> set (candidate_targets s ?sv ?rp)"
    using resource_choice_effective [OF ok p c] by blast
  consider (free) "nul_free t" | (row) x where "x \<in> set (resources_of s)" "rp_target x = t"
      "rp_service x = ?sv" "rp_repository x = ?rp"
    using t(2,3) nf(1,4) candidate_nul_free [OF ok, of t ?sv ?rp] nul_free_trim [of "rr_target rr"]
    by (cases "trim_space (rr_target rr) = []") (auto simp: nul_free_def)
  then have "rp_target r = trim_space t"
  proof cases
    case free
    with effective_target [OF ok t(1) _ nf(2,3)] show ?thesis by simp
  next
    case row
    then have "as_resources s (scope_key x) = Some x" by (simp add: set_ok_resource [OF ok])
    with row t(1) have "x = r" by (simp add: effective_def scope_key_def split: if_splits)
    with row effective_granted [OF ok t(1)] show ?thesis by simp
  qed
  with t(1) show ?thesis by (simp add: effective_trim)
qed


text \<open>
  Which resource answers for a service and repository, at a target or, when it is empty, at any:
  an active row for exactly this target, service and repository, or what an active default of the
  target and service gives where there is no such row.
\<close>

definition granted_by :: "auth_set \<Rightarrow> string \<Rightarrow> string \<Rightarrow> string \<Rightarrow> resource_policy \<Rightarrow> bool" where
  "granted_by s target service repository r \<longleftrightarrow>
     rp_status r = active \<and> rp_service r = service \<and> rp_repository r = repository \<and> (target = [] \<or> rp_target r = target)
     \<and> (r \<in> set (resources_of s)
        \<or> (\<exists>d\<in>set (defaults_of s). r = resource_policy_from_default d repository)
          \<and> (\<forall>x\<in>set (resources_of s). \<not> (rp_target x = rp_target r \<and> rp_service x = service \<and> rp_repository x = repository)))"

lemma normal_scope: "set_ok s \<Longrightarrow> x \<in> set (resources_of s) \<Longrightarrow> scope_key x = rp_target x @ nul @ rp_service x @ nul @ rp_repository x"
  using in_normal(1) [of s x] fold_key_status
  by (simp add: scope_key_def resource_key_def resource_default_key_def resource_normal_def)

lemma normal_default: "set_ok s \<Longrightarrow> d \<in> set (defaults_of s) \<Longrightarrow> default_key d = rd_target d @ nul @ rd_service d"
  using in_normal(2) [of s d] fold_key_status by (simp add: default_key_def resource_default_key_def default_normal_def)

lemma sep_nul: "a @ nul @ b = c @ nul @ d \<Longrightarrow> CHR 0x00 \<notin> set a \<Longrightarrow> CHR 0x00 \<notin> set b \<Longrightarrow> c = a \<and> d = b"
  using sep_inject2 [of a "CHR 0x00" b c d] by (simp add: nul_def)

lemma scope_exact:
  assumes "set_ok s" "x \<in> set (resources_of s)" "scope_key x = resource_key t (fold_key sv) (normalize_repo rp)"
    and "nul_free sv" "nul_free rp" "t = rp_target x \<or> nul_free t" "trim_space t = t"
  shows "rp_target x = t \<and> rp_service x = fold_key sv \<and> rp_repository x = normalize_repo rp"
proof -
  have rp: "CHR 0x00 \<notin> set (normalize_repo rp)" "CHR 0x00 \<notin> set (fold_key sv)"
    using normalize_repo_subset [of rp] assms(4,5) fold_key_nul by (auto simp: nul_free_def)
  have n: "resource_key t (fold_key sv) (normalize_repo rp) = resource_key (rp_target x) (rp_service x) (rp_repository x)" "resource_normal x"
    using assms(3) in_normal(1) [OF assms(1,2)] by (simp_all add: scope_key_def)
  have k: "t @ nul @ fold_key sv @ nul @ normalize_repo rp = rp_target x @ nul @ rp_service x @ nul @ rp_repository x"
    using n(1) assms(7) normal_scope [OF assms(1,2)] assms(3) by (simp add: resource_key_def resource_default_key_def)
  show ?thesis
  proof (cases "t = rp_target x")
    case True
    then show ?thesis using k sep_nul [of "fold_key sv" "normalize_repo rp"] rp by auto
  next
    case False
    then show ?thesis using assms(6) sep_inject3 [of t "CHR 0x00" "fold_key sv" "normalize_repo rp"] k rp by (simp add: nul_def nul_free_def)
  qed
qed

lemma granted_effective:
  assumes ok: "set_ok s" and g: "granted_by s target (fold_key sv) (normalize_repo rp) r"
    and nf: "nul_free sv" "nul_free rp" "\<forall>d\<in>set (defaults_of s). nul_free (rd_target d)"
  shows "effective s (fold_key sv) (normalize_repo rp) (rp_target r) = Some r"
proof (cases "r \<in> set (resources_of s)")
  case True
  then have "as_resources s (scope_key r) = Some r" by (simp add: set_ok_resource [OF ok])
  then show ?thesis using g by (simp add: effective_def granted_by_def scope_key_def)
next
  case False
  then obtain d where d: "d \<in> set (defaults_of s)" "r = resource_policy_from_default d (normalize_repo rp)"
    and no: "\<forall>x\<in>set (resources_of s). \<not> (rp_target x = rp_target r \<and> rp_service x = fold_key sv \<and> rp_repository x = normalize_repo rp)"
    using g by (auto simp: granted_by_def)
  have t: "nul_free (rp_target r)" "trim_space (rp_target r) = rp_target r" "rd_service d = fold_key sv" "rd_status d = active" "rp_target r = rd_target d"
    using nf(3) d in_normal(2) [OF ok d(1)] g by (simp_all add: resource_policy_from_default_def default_normal_def granted_by_def)
  have "as_resources s (resource_key (rp_target r) (fold_key sv) (normalize_repo rp)) = None"
  proof (rule ccontr)
    assume "as_resources s (resource_key (rp_target r) (fold_key sv) (normalize_repo rp)) \<noteq> None"
    then obtain x where "x \<in> set (resources_of s)" "scope_key x = resource_key (rp_target r) (fold_key sv) (normalize_repo rp)"
      using set_ok_resource [OF ok] by auto
    then show False using scope_exact [OF ok _ _ nf(1,2)] t(1,2) no by blast
  qed
  moreover have "as_defaults s (resource_default_key (rp_target r) (fold_key sv)) = Some d"
    using d(1) t(3,5) by (simp add: set_ok_default [OF ok] default_key_def)
  ultimately show ?thesis using t(4) d(2) by (simp add: effective_def)
qed

lemma effective_granted_by:
  assumes ok: "set_ok s" and e: "effective s (fold_key sv) (normalize_repo rp) (rp_target r) = Some r"
    and nf: "nul_free sv" "nul_free rp"
  shows "granted_by s [] (fold_key sv) (normalize_repo rp) r"
proof -
  note eg = effective_granted [OF ok e]
  show ?thesis
  proof (cases "as_resources s (resource_key (rp_target r) (fold_key sv) (normalize_repo rp))")
    case (Some x)
    then have x: "x = r" using e by (simp add: effective_def split: if_splits)
    have m: "r \<in> set (resources_of s)" "scope_key r = resource_key (rp_target r) (fold_key sv) (normalize_repo rp)"
      using Some set_ok_resource [OF ok] x by auto
    have "rp_service r = fold_key sv" "rp_repository r = normalize_repo rp" using scope_exact [OF ok m nf] eg by blast+
    then show ?thesis using m(1) eg unfolding granted_by_def by blast
  next
    case None
    then obtain d where d: "as_defaults s (resource_default_key (rp_target r) (fold_key sv)) = Some d"
      "r = resource_policy_from_default d (normalize_repo rp)"
      using e by (auto simp: effective_def split: option.splits if_splits)
    have m: "d \<in> set (defaults_of s)" "default_key d = resource_default_key (rp_target r) (fold_key sv)"
      using d(1) set_ok_default [OF ok] by auto
    have t: "rp_target r = rd_target d" using d(2) by (simp add: resource_policy_from_default_def)
    have "rd_service d = fold_key sv"
      using m eg normal_default [OF ok m(1)] t fold_key_status by (simp add: resource_default_key_def)
    moreover have "x \<in> set (resources_of s) \<Longrightarrow> \<not> (rp_target x = rp_target r \<and> rp_service x = fold_key sv \<and> rp_repository x = normalize_repo rp)" for x
      using None set_ok_resource [OF ok, of "scope_key x" x] by (auto simp: scope_key_def)
    ultimately show ?thesis using eg m(1) d(2) by (auto simp: granted_by_def resource_policy_from_default_def)
  qed
qed

text \<open>A request without a target is only answered when a single target can answer.\<close>

lemma targetless_single:
  assumes ok: "set_ok s" and p: "map_order p" and r: "targetless_resource p s service repository = Inr r"
    and t: "t \<in> set (candidate_targets s service repository)" "effective s service repository t = Some x"
  shows "x = r"
proof -
  let ?ts = "p (candidate_targets s service repository)"
  let ?es = "List.map_filter (effective s service repository) ?ts"
  have "set ?ts = set (candidate_targets s service repository)" using p by (metis map_order_def mset_eq_setD)
  then have x: "x \<in> set ?es" using t by (force simp: map_filter_def)
  from r have "tl ?es = []" "hd ?es = r"
    by (auto simp: targetless_resource_def scan_correct [OF ok] scan_spec_def Let_def zero_resource_def split: if_splits)
  then show ?thesis using x by (cases ?es) auto
qed

text \<open>The resource that is chosen is the only one that answers.\<close>

lemma resource_choice_granted:
  assumes ok: "set_ok s" and p: "map_order p" and c: "resource_choice p s rr = Inr r"
    and nf: "nul_free (rr_target rr)" "nul_free (rr_service rr)" "nul_free (rr_repository rr)"
      "\<forall>d\<in>set (defaults_of s). nul_free (rd_target d)"
  shows "{x. granted_by s (trim_space (rr_target rr)) (fold_key (rr_service rr)) (normalize_repo (rr_repository rr)) x} = {r}"
proof -
  let ?t = "trim_space (rr_target rr)" and ?sv = "fold_key (rr_service rr)" and ?rp = "normalize_repo (rr_repository rr)"
  have e: "effective s ?sv ?rp (rp_target r) = Some r" by (rule targetless_target [OF ok p c nf])
  have named: "?t = [] \<or> rp_target r = ?t"
  proof (cases "?t = []")
    case False
    then have "effective s ?sv ?rp ?t = Some r" using c by (simp add: resource_choice_def Let_def targeted_effective split: if_splits)
    moreover have "nul_free ?t" using nul_free_trim [OF nf(1)] by (simp add: nul_free_def)
    ultimately show ?thesis using effective_target [OF ok _ _ nf(2,3)] by auto
  qed simp
  then have "granted_by s ?t ?sv ?rp r" using effective_granted_by [OF ok e nf(2,3)] by (auto simp: granted_by_def)
  moreover have "x = r" if x: "granted_by s ?t ?sv ?rp x" for x
  proof -
    have ex: "effective s ?sv ?rp (rp_target x) = Some x" by (rule granted_effective [OF ok x nf(2-4)])
    show ?thesis
    proof (cases "?t = []")
      case True
      then have "targetless_resource p s ?sv ?rp = Inr r" using c by (simp add: resource_choice_def Let_def split: if_splits)
      moreover have "rp_target x \<in> set (candidate_targets s ?sv ?rp)"
        using x by (auto simp: granted_by_def candidate_targets_def resource_policy_from_default_def)
      ultimately show ?thesis using targetless_single [OF ok p _ _ ex] by blast
    next
      case False
      then have "rp_target x = rp_target r" using named x by (simp add: granted_by_def)
      then show ?thesis using e ex by simp
    qed
  qed
  ultimately show ?thesis by blast
qed

section \<open>Team and subject resolution\<close>

lemma add_version:
  "add_issuer x1 t = Inr u \<Longrightarrow> ac_version (as_config u) = ac_version (as_config t)"
  "add_binding x2 t = Inr u \<Longrightarrow> ac_version (as_config u) = ac_version (as_config t)"
  "add_policy_class x3 t = Inr u \<Longrightarrow> ac_version (as_config u) = ac_version (as_config t)"
  "add_team_binding x4 t = Inr u \<Longrightarrow> ac_version (as_config u) = ac_version (as_config t)"
  "add_resource_default x5 t = Inr u \<Longrightarrow> ac_version (as_config u) = ac_version (as_config t)"
  "add_resource x6 t = Inr u \<Longrightarrow> ac_version (as_config u) = ac_version (as_config t)"
  unfolding add_issuer_def add_binding_def add_policy_class_def add_team_binding_def
    add_resource_default_def add_resource_def Let_def
  by (auto simp: res_simps split: if_splits)

lemma rfold_version:
  assumes "rfold f xs s = Inr t" "\<And>x s t. f x s = Inr t \<Longrightarrow> ac_version (as_config t) = ac_version (as_config s)"
  shows "ac_version (as_config t) = ac_version (as_config s)"
  by (rule rfold_invariant [OF assms(1), where P = "\<lambda>t. ac_version (as_config t) = ac_version (as_config s)"])
    (simp_all add: assms(2))

lemma register_all_version:
  assumes "register_all c s = Inr t"
  shows "ac_version (as_config t) = ac_version (as_config s)"
proof -
  obtain s1 s2 s3 s4 s5 where
    "rfold add_issuer (elems (ac_trusted_issuers c)) s = Inr s1"
    "rfold add_binding (elems (ac_bindings c)) s1 = Inr s2"
    "rfold add_policy_class (elems (ac_policy_classes c)) s2 = Inr s3"
    "rfold add_team_binding (elems (ac_team_bindings c)) s3 = Inr s4"
    "rfold add_resource_default (elems (ac_resource_defaults c)) s4 = Inr s5"
    "rfold add_resource (elems (ac_resources c)) s5 = Inr t"
    using assms by (auto simp: register_all_def res_simps)
  from this [THEN rfold_version] show ?thesis by (simp add: add_version)
qed

lemma new_set_configured:
  assumes "new_set c = Inr s"
  shows "configured (Some s) \<longleftrightarrow> \<not> is_zero_config c"
proof (cases "is_zero_config c")
  case True
  with assms show ?thesis
    by (auto simp: new_set_def configured_def empty_set_def zero_config_def current_version_def)
next
  case False
  with assms obtain m t where "register_all c (initial_set m) = Inr t" "ac_version (as_config s) = ac_version (as_config t)"
    unfolding new_set_def by (auto simp: rbind_Inr_iff sort_config_def split: if_splits)
  with False show ?thesis
    by (simp add: register_all_version configured_def initial_set_def empty_set_def)
qed

text \<open>What a team binding must satisfy for a request.\<close>

definition team_match :: "auth_set \<Rightarrow> trusted_issuer \<Rightarrow> request \<Rightarrow> team_binding \<Rightarrow> policy_class \<Rightarrow> bool" where
  "team_match s i rq b p \<longleftrightarrow>
     b \<in> set (teams_of s) \<and> tb_status b = active \<and> tb_issuer_instance_id b = ti_id i
     \<and> tb_workspace_id b = trim_space (rq_workspace_id rq)
     \<and> tb_team_identity_id b = trim_space (rq_team_identity_id rq)
     \<and> tb_policy_class b = trim_space (rq_policy_class rq)
     \<and> 0 < rq_membership_epoch rq \<and> tb_epoch_floor b \<le> rq_membership_epoch rq
     \<and> p \<in> set (classes_of s) \<and> pc_id p = tb_policy_class b \<and> pc_status p = active"

definition scope_match :: "(string list \<Rightarrow> string list) \<Rightarrow> auth_set \<Rightarrow> request \<Rightarrow> resource_policy \<Rightarrow> operation \<Rightarrow> bool" where
  "scope_match p s rq r oper \<longleftrightarrow>
     resource_choice p s (scope_request rq []) = Inr r \<and> lookup_operation (rq_operation rq) = Some oper"

lemma resource_choice_class:
  "resource_choice p s (scope_request rq c) = resource_choice p s (scope_request rq [])"
  by (simp add: resource_choice_def scope_request_def Let_def)

lemma resolve_team_Inr:
  assumes ok: "set_ok s" and cf: "configured (Some s)" and i: "i \<in> set (issuers_of s)"
    and nf: "nul_free (ti_id i)" "nul_free (rq_team_identity_id rq)" "nul_free (rq_policy_class rq)"
    and r: "resolve_team p s i rq = Inr a"
  shows "\<exists>b q r oper. team_match s i rq b q \<and> scope_match p s rq r oper \<and> op_name oper \<in> set (pc_operations q)
    \<and> a = \<lparr>rs_issuer = i, rs_binding = None, rs_team_binding = Some b, rs_policy_class = Some q,
           rs_resource = r, rs_operation = oper, rs_principal_id = tb_principal_id b\<rparr>"
proof -
  from r obtain b q where
    b: "as_team s (team_binding_key (ti_id i) (rq_team_identity_id rq) (rq_policy_class rq)) = Some b"
      "tb_workspace_id b = trim_space (rq_workspace_id rq)" "tb_status b = active"
      "tb_epoch_floor b \<le> rq_membership_epoch rq" "0 < rq_membership_epoch rq"
      "trim_space (rq_policy_class rq) \<noteq> []"
    and q: "as_classes s (tb_policy_class b) = Some q" "pc_status q = active"
    and sc: "rbind (resolve_resource_operation p (Some s) (scope_request rq (tb_policy_class b)))
      (\<lambda>(res, oper). Inr \<lparr>rs_issuer = i, rs_binding = None, rs_team_binding = Some b,
         rs_policy_class = Some q, rs_resource = res, rs_operation = oper,
         rs_principal_id = tb_principal_id b\<rparr>) = Inr a"
    unfolding resolve_team_def by (fastforce split: if_splits option.splits)
  from b(1) have bt: "b \<in> set (teams_of s)"
    "team_binding_key (ti_id i) (rq_team_identity_id rq) (rq_policy_class rq) = team_key b"
    by (simp_all add: set_ok_team [OF ok])
  from in_normal(3) [OF ok bt(1)] issuer_in_normal [OF ok i]
    team_binding_key_inject [OF bt(2) [unfolded team_key_def] nf]
  have keys: "tb_issuer_instance_id b = ti_id i" "tb_team_identity_id b = trim_space (rq_team_identity_id rq)"
    "tb_policy_class b = trim_space (rq_policy_class rq)" "trim_space (tb_policy_class b) = tb_policy_class b"
    by (simp_all add: team_normal_def issuer_normal_def)
  from q have qc: "q \<in> set (classes_of s)" "pc_id q = tb_policy_class b"
    by (simp_all add: set_ok_class [OF ok])
  from sc obtain res oper where so: "resolve_resource_operation p (Some s) (scope_request rq (tb_policy_class b)) = Inr (res, oper)"
    "a = \<lparr>rs_issuer = i, rs_binding = None, rs_team_binding = Some b,
         rs_policy_class = Some q, rs_resource = res, rs_operation = oper, rs_principal_id = tb_principal_id b\<rparr>"
    by (auto simp: res_simps)
  have c: "rr_policy_class (scope_request rq x) = x" "rr_operation (scope_request rq x) = rq_operation rq" for x
    by (simp_all add: scope_request_def)
  have "class_admits s (tb_policy_class b) oper" "scope_match p s rq res oper"
    using so(1) b(6) keys(3,4) resource_choice_class [of p s rq "tb_policy_class b"]
    by (simp_all add: resolve_resource_Inr [OF ok] scope_match_def c)
  moreover have "op_name oper \<in> set (pc_operations q)"
    using calculation(1) class_unique [OF ok _ qc(1)] qc(2) keys(4) by (auto simp: class_admits_def)
  moreover have "team_match s i rq b q"
    using b q(2) qc keys bt(1) by (simp add: team_match_def)
  ultimately show ?thesis using so(2) by blast
qed


lemma resolve_subject_Inr:
  assumes ok: "set_ok s" and r: "resolve_subject p now s i rq = Inr a"
  shows "\<exists>b r oper. b \<in> set (bindings_of s) \<and> subject_key b = binding_key (ti_id i) (rq_subject rq)
    \<and> binding_active b now \<and> scope_match p s rq r oper
    \<and> a = \<lparr>rs_issuer = i, rs_binding = Some b, rs_team_binding = None, rs_policy_class = None,
           rs_resource = r, rs_operation = oper, rs_principal_id = pb_principal_id b\<rparr>"
proof -
  from r obtain b where b: "as_by_subject s (binding_key (ti_id i) (rq_subject rq)) = Some b" "binding_active b now"
    and sc: "rbind (resolve_resource_operation p (Some s) (scope_request rq []))
      (\<lambda>(res, oper). Inr \<lparr>rs_issuer = i, rs_binding = Some b, rs_team_binding = None,
         rs_policy_class = None, rs_resource = res, rs_operation = oper,
         rs_principal_id = pb_principal_id b\<rparr>) = Inr a"
    unfolding resolve_subject_def by (fastforce split: if_splits option.splits)
  have c: "rr_operation (scope_request rq x) = rq_operation rq" for x by (simp add: scope_request_def)
  from sc obtain res oper where "resolve_resource_operation p (Some s) (scope_request rq []) = Inr (res, oper)"
    "a = \<lparr>rs_issuer = i, rs_binding = Some b, rs_team_binding = None,
         rs_policy_class = None, rs_resource = res, rs_operation = oper, rs_principal_id = pb_principal_id b\<rparr>"
    by (auto simp: rbind_Inr_iff)
  with b show ?thesis
    by (auto simp: resolve_resource_Inr [OF ok] scope_match_def c set_ok_subject [OF ok])
qed

lemma resolve_stages:
  "resolve p clock (Some s) rq =
     (if configured (Some s)
      then rbind (resolve_issuer s (rq_issuer rq) (rq_issuer_instance_id rq) (rq_assertion_key_id rq))
        (\<lambda>i. if has_team_selector rq then resolve_team p s i rq
              else resolve_subject p (if is_zero_time (rq_now rq) then clock else rq_now rq) s i rq)
      else Inl AuthorityNotConfigured)"
  by (simp add: resolve_def Let_def)

text \<open>What every granted resource satisfies.\<close>

definition clean_request :: "request \<Rightarrow> bool" where
  "clean_request rq \<longleftrightarrow>
     list_all nul_free [rq_issuer rq, rq_assertion_key_id rq, rq_subject rq, rq_target rq, rq_service rq,
       rq_repository rq, rq_team_identity_id rq, rq_policy_class rq]"

definition clean_set :: "auth_set \<Rightarrow> bool" where
  "clean_set s \<longleftrightarrow> list_all (\<lambda>i. nul_free (ti_id i)) (issuers_of s)
     \<and> list_all (\<lambda>d. nul_free (rd_target d)) (defaults_of s)"

lemma scope_match_granted:
  assumes "set_ok s" "map_order p" "scope_match p s rq r oper" "clean_request rq" "clean_set s"
  shows "{x. granted_by s (trim_space (rq_target rq)) (fold_key (rq_service rq)) (normalize_repo (rq_repository rq)) x} = {r}
    \<and> 0 < rp_ttl r \<and> rp_ttl r \<le> maximum_session_ttl"
  using resource_choice_effective [OF assms(1,2), of "scope_request rq []" r] effective_granted [OF assms(1)]
    resource_choice_granted [OF assms(1,2), of "scope_request rq []" r] assms(3-5)
  by (fastforce simp: scope_match_def scope_request_def clean_request_def clean_set_def list_all_iff)

section \<open>The scans over the team bindings\<close>

definition only :: "'e \<Rightarrow> ('a \<Rightarrow> 'b) \<Rightarrow> 'a list \<Rightarrow> 'e + 'b option" where
  "only e f xs = (case xs of [] \<Rightarrow> Inr None | [x] \<Rightarrow> Inr (Some (f x)) | _ \<Rightarrow> Inl e)"

definition durable_candidate :: "auth_set \<Rightarrow> nat \<Rightarrow> team_binding \<Rightarrow> bool" where
  "durable_candidate s pid b \<longleftrightarrow>
     tb_status b = active \<and> tb_principal_id b = pid
     \<and> (\<exists>q\<in>set (classes_of s). pc_id q = tb_policy_class b \<and> pc_status q = active)"

lemma durable_candidate_iff:
  assumes "set_ok s"
  shows "durable_candidate s pid b \<longleftrightarrow> tb_status b = active \<and> tb_principal_id b = pid
    \<and> (\<exists>q. as_classes s (tb_policy_class b) = Some q \<and> pc_status q = active)"
  by (auto simp: durable_candidate_def set_ok_class [OF assms])

definition with_class :: "auth_set \<Rightarrow> team_binding \<Rightarrow> team_binding \<times> policy_class" where
  "with_class s b = (b, the (as_classes s (tb_policy_class b)))"

lemma durable_fold_some:
  assumes ok: "set_ok s" and "set bs \<subseteq> set (teams_of s)" and "tb_id (fst x) \<noteq> []"
  shows "rfold (durable_step s pid) bs (Some x) =
    (if filter (durable_candidate s pid) bs = [] then Inr (Some x) else Inl TeamBindingNotFound)"
  using assms(2)
proof (induction bs)
  case Nil
  then show ?case by simp
next
  case (Cons b bs)
  then show ?case using assms(3)
    by (cases "as_classes s (tb_policy_class b)") (auto simp: durable_step_def durable_candidate_iff [OF ok])
qed

lemma durable_fold:
  assumes ok: "set_ok s" and "set bs \<subseteq> set (teams_of s)"
  shows "rfold (durable_step s pid) bs None =
    only TeamBindingNotFound (with_class s) (filter (durable_candidate s pid) bs)"
  using assms(2)
proof (induction bs)
  case Nil
  then show ?case by (simp add: only_def)
next
  case (Cons b bs)
  show ?case
  proof (cases "durable_candidate s pid b")
    case True
    then have "durable_step s pid b None = Inr (Some (with_class s b))"
      by (auto simp: durable_step_def durable_candidate_iff [OF ok] with_class_def)
    moreover have "tb_id (fst (with_class s b)) \<noteq> []"
      using Cons.prems in_normal(3) [OF ok, of b] by (simp add: with_class_def team_normal_def)
    ultimately show ?thesis
      using True Cons.prems by (simp add: durable_fold_some [OF ok] only_def split: list.split)
  next
    case False
    then have "durable_step s pid b None = Inr None"
      by (auto simp: durable_step_def durable_candidate_iff [OF ok] split: option.splits)
    with False Cons show ?thesis by simp
  qed
qed

definition runtime_row :: "string \<Rightarrow> string \<Rightarrow> string \<Rightarrow> team_binding \<Rightarrow> bool" where
  "runtime_row iid workspace cls b \<longleftrightarrow>
     tb_issuer_instance_id b = iid \<and> tb_workspace_id b = workspace \<and> tb_policy_class b = cls"

abbreviation active_rows :: "string \<Rightarrow> string \<Rightarrow> string \<Rightarrow> team_binding list \<Rightarrow> team_binding list" where
  "active_rows iid workspace cls bs \<equiv> filter (\<lambda>b. runtime_row iid workspace cls b \<and> tb_status b = active) bs"

abbreviation idle_rows :: "string \<Rightarrow> string \<Rightarrow> string \<Rightarrow> team_binding list \<Rightarrow> team_binding list" where
  "idle_rows iid workspace cls bs \<equiv> filter (\<lambda>b. runtime_row iid workspace cls b \<and> tb_status b \<noteq> active) bs"

lemma runtime_step_pair:
  "runtime_step iid workspace cls b (selected, off) =
     (if \<not> runtime_row iid workspace cls b then Inr (selected, off)
      else if tb_status b \<noteq> active then Inr (selected, True)
      else if (case selected of None \<Rightarrow> False | Some c \<Rightarrow> tb_id c \<noteq> []) then Inl TeamBindingAmbiguous
      else Inr (Some b, off))"
  by (auto simp: runtime_step_def runtime_row_def)

lemma runtime_fold_some:
  assumes "tb_id c \<noteq> []"
  shows "rfold (runtime_step iid workspace cls) bs (Some c, off) =
    (if active_rows iid workspace cls bs = [] then Inr (Some c, off \<or> idle_rows iid workspace cls bs \<noteq> [])
     else Inl TeamBindingAmbiguous)"
proof (induction bs arbitrary: off)
  case Nil
  then show ?case by simp
next
  case (Cons b bs)
  then show ?case using assms by (simp add: runtime_step_pair)
qed

lemma runtime_fold:
  assumes "\<forall>b\<in>set bs. tb_id b \<noteq> []"
  shows "rfold (runtime_step iid workspace cls) bs (None, off) =
    rbind (only TeamBindingAmbiguous (\<lambda>b. b) (active_rows iid workspace cls bs))
      (\<lambda>sel. Inr (sel, off \<or> idle_rows iid workspace cls bs \<noteq> []))"
  using assms
proof (induction bs arbitrary: off)
  case Nil
  then show ?case by (simp add: only_def)
next
  case (Cons b bs)
  then show ?case
    by (simp add: runtime_step_pair runtime_fold_some only_def split: list.split)
qed

end
