(* ===== verification/Authority_Properties.thy ===== *)
theory Authority_Properties
  imports Authority_Facts
begin

text \<open>
  Properties of the session authority: what a successful resolution guarantees, that provenance
  never selects authority, that the unspecified order of a Go map is not observable, and that a
  snapshot's own configuration builds the same snapshot again.
\<close>

section \<open>A small configuration\<close>

definition sample_issuer :: trusted_issuer where
  "sample_issuer = \<lparr>ti_id = ''multica-1'', ti_issuer = ''https://issuer.example'',
     ti_key_ids = ['' key-b'', ''key-a''], ti_status = ''Active'', ti_trust_revision = ''t1''\<rparr>"

definition sample_team :: team_binding where
  "sample_team = \<lparr>tb_id = ''team-1'', tb_issuer_instance_id = ''multica-1'', tb_workspace_id = ''ws'',
     tb_team_identity_id = ''team'', tb_policy_class = ''reviewers'', tb_principal_id = 7,
     tb_status = ''active'', tb_binding_revision = ''b1'', tb_epoch_floor = 3\<rparr>"

definition sample_class :: policy_class where
  "sample_class = \<lparr>pc_id = ''reviewers'', pc_status = ''active'', pc_policy_revision = ''p1'',
     pc_operations = [''Review.Write'', ''repo.read'']\<rparr>"

definition sample_default :: resource_default where
  "sample_default = \<lparr>rd_id = ''default-1'', rd_target = ''prod'', rd_service = ''ags'',
     rd_status = ''active'', rd_max_session_ttl = ''30m'', rd_policy_revision = ''r1'', rd_ttl = 0\<rparr>"

definition sample_frozen :: resource_policy where
  "sample_frozen = \<lparr>rp_id = ''frozen'', rp_target = ''prod'', rp_service = ''ags'',
     rp_repository = ''acme/frozen'', rp_status = ''disabled'', rp_max_session_ttl = ''15m'',
     rp_policy_revision = ''r2'', rp_ttl = 0\<rparr>"

definition sample_binding :: principal_binding where
  "sample_binding = \<lparr>pb_id = ''subject-1'', pb_issuer_instance_id = ''multica-1'', pb_subject = ''agent'',
     pb_principal_id = 9, pb_status = ''active'', pb_binding_revision = ''s1'', pb_expires_at = [],
     pb_revoked_at = [], pb_expires = None\<rparr>"

definition sample_config :: auth_config where
  "sample_config = \<lparr>ac_version = 2, ac_contract_revision = contract_revision,
     ac_trusted_issuers = Some [sample_issuer], ac_legacy_mode = [], ac_bindings = None,
     ac_team_bindings = Some [sample_team], ac_policy_classes = Some [sample_class],
     ac_resource_defaults = Some [sample_default], ac_resources = Some [sample_frozen]\<rparr>"

definition subject_config :: auth_config where
  "subject_config = sample_config\<lparr>ac_legacy_mode := legacy_subject_mode,
     ac_bindings := Some [sample_binding], ac_team_bindings := None, ac_policy_classes := None\<rparr>"

definition built :: "auth_config \<Rightarrow> auth_set" where
  "built c = (case new_set c of Inr s \<Rightarrow> s | Inl _ \<Rightarrow> empty_set zero_config)"

definition sample_request :: request where
  "sample_request = \<lparr>rq_issuer = ''https://issuer.example'', rq_issuer_instance_id = [],
     rq_assertion_key_id = ''key-a'', rq_subject = ''agent'', rq_target = [], rq_service = ''AGS'',
     rq_repository = ''acme/app'', rq_operation = ''review.write'', rq_workspace_id = ''ws'',
     rq_team_identity_id = ''team'', rq_policy_class = ''reviewers'', rq_membership_epoch = 4, rq_now = 0\<rparr>"

definition subject_request :: request where
  "subject_request = sample_request\<lparr>rq_workspace_id := [], rq_team_identity_id := [],
     rq_policy_class := [], rq_membership_epoch := 0\<rparr>"

definition frozen_request :: resource_request where
  "frozen_request = \<lparr>rr_target = ''prod'', rr_service = ''ags'', rr_repository = ''acme/frozen'',
     rr_operation = ''repo.read'', rr_policy_class = []\<rparr>"

definition is_ok :: "'e + 'a \<Rightarrow> bool" where
  "is_ok m = (case m of Inl _ \<Rightarrow> False | Inr _ \<Rightarrow> True)"

lemma is_okD: "is_ok m \<Longrightarrow> \<exists>a. m = Inr a"
  by (cases m) (simp_all add: is_ok_def)

lemma sample_values:
  "case new_set sample_config of
     Inl _ \<Rightarrow> False
   | Inr s \<Rightarrow> clean_set s \<and> is_ok (resolve (\<lambda>xs. xs) 5 (Some s) sample_request)
       \<and> bindings_of s = [] \<and> teams_of s = [sample_team] \<and> map ti_status (issuers_of s) = [active]
       \<and> map rp_repository (resources_of s) = [''acme/frozen'']
       \<and> resources_of s = [sample_frozen\<lparr>rp_ttl := 15 * minute\<rparr>]
       \<and> is_ok (resolve_resource_operation (\<lambda>xs. xs) (Some s) (scope_request sample_request ''reviewers''))"
  by code_simp

lemma subject_values:
  "case new_set subject_config of
     Inl _ \<Rightarrow> False
   | Inr s \<Rightarrow> clean_set s \<and> is_ok (resolve (\<lambda>xs. xs) 5 (Some s) subject_request)"
  by code_simp

lemma request_values:
  "clean_request sample_request \<and> clean_request subject_request \<and> has_team_selector sample_request
   \<and> \<not> has_team_selector subject_request"
  by code_simp


lemma sample_built: "new_set sample_config = Inr (built sample_config)"
  using sample_values by (simp add: built_def split: sum.splits)

lemma subject_built: "new_set subject_config = Inr (built subject_config)"
  using subject_values by (simp add: built_def split: sum.splits)

lemmas sample_facts = sample_values [unfolded sample_built, simplified]
lemmas subject_facts = subject_values [unfolded subject_built, simplified]

section \<open>Team and subject authority\<close>

lemma request_issuer:
  assumes ok: "set_ok s" and rq: "clean_request rq"
    and r: "resolve p clock (Some s) rq = Inr a"
  shows "\<exists>i\<in>set (issuers_of s). issuer_match i (rq_issuer rq) (rq_issuer_instance_id rq) (rq_assertion_key_id rq)
    \<and> configured (Some s)
    \<and> (if has_team_selector rq then resolve_team p s i rq
       else resolve_subject p (if is_zero_time (rq_now rq) then clock else rq_now rq) s i rq) = Inr a"
  using r resolve_issuer_Inr [OF ok, of "rq_issuer rq" "rq_assertion_key_id rq"] rq
  by (auto simp: resolve_stages rbind_Inr_iff clean_request_def split: if_splits)

text \<open>
  C1. A request with a team selector that \<open>Resolve\<close> grants is granted by rows of the snapshot
  alone: an active issuer row with the request's issuer name and key, an active team binding of
  that issuer for the request's workspace, team and policy class whose epoch floor is not above
  the request's epoch, the active policy class that lists the operation, and the one resource that
  answers for the request's service and repository. That is the active row of exactly this target,
  service and repository, or the active default of the target where there is no such row; a request
  without a target is granted only when a single target answers. Its session limit lies within two
  hours. The principal is the team binding's principal, and no subject binding takes part. The
  NUL byte separates the parts of keys: the theorem is about requests without one, on snapshots
  whose issuers' identifiers and defaults' targets have none.
\<close>

theorem team_resolution_sound:
  assumes "new_set c = Inr s" "clean_set s" "clean_request rq" "map_order p" "has_team_selector rq"
    and "resolve p clock (Some s) rq = Inr a"
  shows "\<exists>i b q r oper. i \<in> set (issuers_of s)
    \<and> issuer_match i (rq_issuer rq) (rq_issuer_instance_id rq) (rq_assertion_key_id rq)
    \<and> team_match s i rq b q \<and> lookup_operation (rq_operation rq) = Some oper
    \<and> op_name oper \<in> set (pc_operations q)
    \<and> {x. granted_by s (trim_space (rq_target rq)) (fold_key (rq_service rq)) (normalize_repo (rq_repository rq)) x} = {r}
    \<and> 0 < rp_ttl r \<and> rp_ttl r \<le> maximum_session_ttl
    \<and> a = \<lparr>rs_issuer = i, rs_binding = None, rs_team_binding = Some b, rs_policy_class = Some q,
           rs_resource = r, rs_operation = oper, rs_principal_id = tb_principal_id b\<rparr>"
proof -
  have ok: "set_ok s" by (rule new_set_ok [OF assms(1)])
  obtain i where i: "i \<in> set (issuers_of s)" "configured (Some s)" "resolve_team p s i rq = Inr a"
    "issuer_match i (rq_issuer rq) (rq_issuer_instance_id rq) (rq_assertion_key_id rq)"
    using request_issuer [OF ok assms(3,6)] assms(5) by auto
  have "nul_free (ti_id i)" "nul_free (rq_team_identity_id rq)" "nul_free (rq_policy_class rq)"
    using i(1) assms(2,3) by (simp_all add: clean_set_def clean_request_def list_all_iff)
  from resolve_team_Inr [OF ok i(2,1) this i(3)] i(1,4) show ?thesis
    using scope_match_granted [OF ok assms(4) _ assms(3,2)] by (fastforce simp: scope_match_def)
qed

theorem team_resolution_sound_witness:
  "\<exists>i b. i \<in> set (issuers_of (built sample_config)) \<and> ti_status i = active
     \<and> b \<in> set (teams_of (built sample_config)) \<and> tb_epoch_floor b \<le> 4"
proof -
  obtain a where "resolve (\<lambda>xs. xs) 5 (Some (built sample_config)) sample_request = Inr a"
    using sample_facts is_okD by blast
  from team_resolution_sound [OF sample_built _ _ map_order_id _ this] show ?thesis
    using sample_facts request_values
    by (auto simp: team_match_def issuer_match_def sample_request_def)
qed

text \<open>
  C26. A request without any team selector that \<open>Resolve\<close> grants is granted by an active,
  unexpired subject binding of the active issuer row the request names, for exactly the request's
  subject, and the one resource that answers for the request's target, service and repository (as in
  C1) within the session limit; the principal is that binding's. As there, the request, the
  issuers' identifiers and the defaults' targets are without NUL bytes.
\<close>

theorem subject_resolution_sound:
  assumes "new_set c = Inr s" "clean_set s" "clean_request rq" "map_order p" "\<not> has_team_selector rq"
    and "resolve p clock (Some s) rq = Inr a"
  shows "\<exists>i b r oper. i \<in> set (issuers_of s)
    \<and> issuer_match i (rq_issuer rq) (rq_issuer_instance_id rq) (rq_assertion_key_id rq)
    \<and> b \<in> set (bindings_of s) \<and> pb_issuer_instance_id b = ti_id i \<and> pb_subject b = trim_space (rq_subject rq)
    \<and> pb_status b = active \<and> (\<forall>t. pb_expires b = Some t \<longrightarrow> (if is_zero_time (rq_now rq) then clock else rq_now rq) < t)
    \<and> lookup_operation (rq_operation rq) = Some oper
    \<and> {x. granted_by s (trim_space (rq_target rq)) (fold_key (rq_service rq)) (normalize_repo (rq_repository rq)) x} = {r}
    \<and> 0 < rp_ttl r \<and> rp_ttl r \<le> maximum_session_ttl
    \<and> a = \<lparr>rs_issuer = i, rs_binding = Some b, rs_team_binding = None, rs_policy_class = None,
           rs_resource = r, rs_operation = oper, rs_principal_id = pb_principal_id b\<rparr>"
proof -
  have ok: "set_ok s" by (rule new_set_ok [OF assms(1)])
  obtain i where i: "i \<in> set (issuers_of s)"
    "resolve_subject p (if is_zero_time (rq_now rq) then clock else rq_now rq) s i rq = Inr a"
    "issuer_match i (rq_issuer rq) (rq_issuer_instance_id rq) (rq_assertion_key_id rq)"
    using request_issuer [OF ok assms(3,6)] assms(5) by auto
  from resolve_subject_Inr [OF ok i(2)] obtain b r oper where b: "b \<in> set (bindings_of s)"
    "subject_key b = binding_key (ti_id i) (rq_subject rq)"
    "binding_active b (if is_zero_time (rq_now rq) then clock else rq_now rq)" "scope_match p s rq r oper"
    "a = \<lparr>rs_issuer = i, rs_binding = Some b, rs_team_binding = None, rs_policy_class = None,
           rs_resource = r, rs_operation = oper, rs_principal_id = pb_principal_id b\<rparr>" by blast
  have "issuer_key (ti_id i) (rq_subject rq) = issuer_key (pb_issuer_instance_id b) (pb_subject b)"
    using b(2) by (simp add: subject_key_def binding_key_def issuer_key_def)
  then have "pb_issuer_instance_id b = ti_id i" "pb_subject b = trim_space (rq_subject rq)"
    using issuer_key_inject [of "ti_id i" "rq_subject rq"] i(1) assms(2,3) in_normal(4) [OF ok b(1)]
      issuer_in_normal [OF ok i(1)]
    by (fastforce simp: clean_set_def clean_request_def list_all_iff binding_normal_def issuer_normal_def)+
  moreover have "pb_status b = active" "\<forall>t. pb_expires b = Some t \<longrightarrow> (if is_zero_time (rq_now rq) then clock else rq_now rq) < t"
    using b(3) by (auto simp: binding_active_def split: if_splits)
  ultimately show ?thesis using i b(1,4,5) scope_match_granted [OF ok assms(4) b(4) assms(3,2)] unfolding scope_match_def by blast
qed

theorem subject_resolution_sound_witness:
  "\<exists>b. b \<in> set (bindings_of (built subject_config)) \<and> pb_subject b = ''agent'' \<and> pb_status b = active"
proof -
  obtain a where "resolve (\<lambda>xs. xs) 5 (Some (built subject_config)) subject_request = Inr a"
    using subject_facts is_okD by blast
  moreover have "trim_space (rq_subject subject_request) = ''agent''" "is_zero_time (rq_now subject_request)"
    by code_simp+
  ultimately show ?thesis
    using subject_resolution_sound [OF subject_built _ _ map_order_id, of subject_request 5 a]
      subject_facts request_values by fastforce
qed

text \<open>
  Provenance never selects authority: once a request carries any team selector, its subject
  and both clocks change nothing, so no active subject binding can stand in for a missing,
  inactive or stale team binding.
\<close>

theorem no_subject_fallback:
  assumes "has_team_selector rq"
  shows "resolve p clock s (rq\<lparr>rq_subject := subject, rq_now := now\<rparr>) = resolve p other s rq"
proof (cases s)
  case None
  then show ?thesis by (simp add: resolve_def configured_def)
next
  case (Some t)
  let ?rq = "rq\<lparr>rq_subject := subject, rq_now := now\<rparr>"
  have "has_team_selector ?rq" using assms by (simp add: has_team_selector_def)
  moreover have "scope_request ?rq = scope_request rq" "rq_workspace_id ?rq = rq_workspace_id rq"
    "rq_team_identity_id ?rq = rq_team_identity_id rq" "rq_policy_class ?rq = rq_policy_class rq"
    "rq_membership_epoch ?rq = rq_membership_epoch rq"
    by (simp_all add: fun_eq_iff scope_request_def)
  then have "resolve_team p t i ?rq = resolve_team p t i rq" for i
    unfolding resolve_team_def by (simp only:)
  ultimately show ?thesis using assms Some by (simp add: resolve_stages)
qed

theorem no_subject_fallback_witness:
  "resolve rev 1 (Some (built sample_config)) (sample_request\<lparr>rq_subject := ''other'', rq_now := 3\<rparr>)
     = resolve rev 2 (Some (built sample_config)) sample_request"
  by (rule no_subject_fallback) (simp add: request_values)

text \<open>
  C21. Go leaves the iteration order of the map of candidate targets open; no result of
  \<open>Resolve\<close>, an error included, depends on it.
\<close>

theorem resolve_order_independent:
  assumes "new_set c = Inr s" "map_order p" "map_order q"
  shows "resolve p clock (Some s) rq = resolve q clock (Some s) rq"
proof -
  have "resolve_resource_operation p (Some s) rr = resolve_resource_operation q (Some s) rr" for rr
    by (rule resolve_resource_order [OF new_set_ok [OF assms(1)] assms(2,3)])
  then have "resolve_team p s i rq = resolve_team q s i rq" "resolve_subject p now s i rq = resolve_subject q now s i rq" for i now
    unfolding resolve_team_def resolve_subject_def by (simp_all only:)
  then show ?thesis unfolding resolve_stages by (simp only:)
qed

theorem resolve_order_independent_witness:
  "resolve rev 5 (Some (built sample_config)) sample_request = resolve (\<lambda>xs. xs) 5 (Some (built sample_config)) sample_request"
  by (rule resolve_order_independent [OF sample_built map_order_rev map_order_id])


text \<open>
  The two ways to name an issuer agree: a request that resolves with the issuer name and key
  alone resolves to the same row when it also names that row's instance, and a request that names
  an instance resolves to the same row when the instance is left out, since no two rows own the
  same issuer name and key.
\<close>

theorem issuer_selectors_agree:
  assumes "new_set c = Inr s" "clean_set s" "nul_free name" "nul_free key"
  shows "resolve_issuer s name [] key = Inr i
    \<longleftrightarrow> resolve_issuer s name (ti_id i) key = Inr i"
  using assms issuer_in_normal [OF new_set_ok [OF assms(1)], of i]
  by (auto simp: resolve_issuer_Inr [OF new_set_ok] issuer_match_def issuer_normal_def)

theorem issuer_selectors_agree_witness:
  "resolve_issuer (built sample_config) ''https://issuer.example'' [] ''key-a'' = Inr sample_issuer
   \<longleftrightarrow> resolve_issuer (built sample_config) ''https://issuer.example'' (ti_id sample_issuer) ''key-a'' = Inr sample_issuer"
  by (rule issuer_selectors_agree [OF sample_built]) (simp_all add: sample_facts nul_free_def)

section \<open>Resources and policy classes\<close>

text \<open>
  A resource resolved without a target is the one the same request resolves with the target
  it names.
\<close>

theorem targetless_is_targeted:
  assumes "new_set c = Inr s" "clean_set s" "map_order p"
    and "nul_free (rr_target rr)" "nul_free (rr_service rr)" "nul_free (rr_repository rr)"
    and "resolve_resource_operation p (Some s) rr = Inr (r, oper)"
  shows "resolve_resource_operation p (Some s) (rr\<lparr>rr_target := rp_target r\<rparr>) = Inr (r, oper)"
proof -
  have ok: "set_ok s" by (rule new_set_ok [OF assms(1)])
  from assms(7) have c: "resource_choice p s rr = Inr r" by (simp add: resolve_resource_Inr [OF ok])
  have e: "effective s (fold_key (rr_service rr)) (normalize_repo (rr_repository rr)) (rp_target r) = Some r"
    by (rule targetless_target [OF ok assms(3) c assms(4-6)]) (use assms(2) in \<open>simp add: clean_set_def list_all_iff\<close>)
  have "rp_target r \<noteq> []" "trim_space (rp_target r) = rp_target r"
    using effective_granted [OF ok e] by simp_all
  with c e have "resource_choice p s (rr\<lparr>rr_target := rp_target r\<rparr>) = Inr r"
    by (simp add: resource_choice_def Let_def targeted_effective split: if_splits)
  with assms(7) show ?thesis by (simp add: resolve_resource_Inr [OF ok])
qed

lemma sample_scope: "\<exists>r oper. resolve_resource_operation (\<lambda>xs. xs) (Some (built sample_config)) (scope_request sample_request ''reviewers'') = Inr (r, oper)"
  using sample_facts is_okD by force

theorem targetless_is_targeted_witness:
  "\<exists>r oper. resolve_resource_operation (\<lambda>xs. xs) (Some (built sample_config))
     ((scope_request sample_request ''reviewers'')\<lparr>rr_target := rp_target r\<rparr>) = Inr (r, oper)"
proof -
  obtain r oper where "resolve_resource_operation (\<lambda>xs. xs) (Some (built sample_config))
    (scope_request sample_request ''reviewers'') = Inr (r, oper)"
    using sample_scope by blast
  from targetless_is_targeted [OF sample_built _ map_order_id _ _ _ this] show ?thesis
    using sample_facts request_values by (auto simp: scope_request_def clean_request_def)
qed

text \<open>
  An exact row that is not active decides alone: for its target and repository the answer is
  \<open>ErrResourceInactive\<close>, whatever active default the target has and whatever the operation and
  policy class are.
\<close>

theorem exact_row_overrides_default:
  assumes "new_set c = Inr s" "r \<in> set (resources_of s)" "rp_status r \<noteq> active"
    and "trim_space (rr_target rr) = rp_target r" "fold_key (rr_service rr) = rp_service r"
    and "normalize_repo (rr_repository rr) = rp_repository r"
  shows "resolve_resource_operation p (Some s) rr = Inl ResourceInactive"
proof -
  have ok: "set_ok s" by (rule new_set_ok [OF assms(1)])
  have n: "resource_normal r" by (rule in_normal(1) [OF ok assms(2)])
  have "\<not> is_zero_config c"
    using assms(1,2) by (auto simp: new_set_def empty_set_def zero_config_def)
  then have "configured (Some s)" by (simp add: new_set_configured [OF assms(1)])
  moreover have "as_resources s (scope_key r) = Some r" using assms(2) by (simp add: set_ok_resource [OF ok])
  then have "resource_choice p s rr = Inl ResourceInactive"
    using assms(3-6) n by (simp add: resource_choice_def Let_def targeted_resource_def resource_normal_def scope_key_def)
  ultimately show ?thesis by (simp add: resolve_resource_stages)
qed

theorem exact_row_overrides_default_witness:
  "resolve_resource_operation rev (Some (built sample_config)) frozen_request = Inl ResourceInactive"
proof (rule exact_row_overrides_default [OF sample_built])
  show "sample_frozen\<lparr>rp_ttl := 15 * minute\<rparr> \<in> set (resources_of (built sample_config))"
    using sample_facts by simp
  show "rp_status (sample_frozen\<lparr>rp_ttl := 15 * minute\<rparr>) \<noteq> active"
    "trim_space (rr_target frozen_request) = rp_target (sample_frozen\<lparr>rp_ttl := 15 * minute\<rparr>)"
    "fold_key (rr_service frozen_request) = rp_service (sample_frozen\<lparr>rp_ttl := 15 * minute\<rparr>)"
    "normalize_repo (rr_repository frozen_request) = rp_repository (sample_frozen\<lparr>rp_ttl := 15 * minute\<rparr>)"
    by code_simp+
qed

text \<open>
  A policy class only narrows: a scope resolves under a class exactly when it resolves
  without one, to the same resource and operation, and the class is an active row of the snapshot
  that lists the operation.
\<close>

theorem policy_class_narrows:
  assumes "new_set c = Inr s" "trim_space cls \<noteq> []"
  shows "resolve_resource_operation p (Some s) (rr\<lparr>rr_policy_class := cls\<rparr>) = Inr (r, oper) \<longleftrightarrow>
    resolve_resource_operation p (Some s) (rr\<lparr>rr_policy_class := []\<rparr>) = Inr (r, oper)
    \<and> (\<exists>q\<in>set (classes_of s). pc_id q = trim_space cls \<and> pc_status q = active \<and> op_name oper \<in> set (pc_operations q))"
proof -
  have ok: "set_ok s" by (rule new_set_ok [OF assms(1)])
  have "resource_choice p s (rr\<lparr>rr_policy_class := x\<rparr>) = resource_choice p s rr" for x
    by (simp add: resource_choice_def Let_def)
  moreover have "trim_space [] = []" by code_simp
  ultimately show ?thesis using assms(2) by (auto simp: resolve_resource_Inr [OF ok] class_admits_def)
qed

theorem policy_class_narrows_witness:
  "\<exists>q\<in>set (classes_of (built sample_config)). pc_status q = active"
proof -
  have c: "(scope_request sample_request ''reviewers'')\<lparr>rr_policy_class := ''reviewers''\<rparr> = scope_request sample_request ''reviewers''"
    by (simp add: scope_request_def)
  have "trim_space ''reviewers'' \<noteq> []" by code_simp
  from policy_class_narrows [OF sample_built this, where rr = "scope_request sample_request ''reviewers''"] sample_scope
  show ?thesis unfolding c by blast
qed


section \<open>Authority of a principal and of a runtime\<close>

text \<open>
  \<open>DurablePrincipalAuthority\<close> grants exactly when one active team binding with an active
  policy class belongs to the principal: none and several both fail closed. A snapshot without
  team bindings answers with the zero values and no error.
\<close>

theorem durable_authority_unique:
  assumes "new_set c = Inr s" "\<not> is_zero_config c"
  shows "durable_principal_authority (Some s) pid =
    (if teams_of s = [] then Inr None
     else case filter (durable_candidate s pid) (teams_of s) of
            [b] \<Rightarrow> Inr (Some (b, the (as_classes s (tb_policy_class b))))
          | _ \<Rightarrow> Inl TeamBindingNotFound)"
proof -
  have ok: "set_ok s" by (rule new_set_ok [OF assms(1)])
  have "tb_id b \<noteq> []" if "b \<in> set (filter (durable_candidate s pid) (teams_of s))" for b
    using that in_normal(3) [OF ok, of b] by (simp add: team_normal_def)
  then show ?thesis
    using assms(2) durable_fold [OF ok order_refl, of pid] new_set_configured [OF assms(1)]
    by (cases "filter (durable_candidate s pid) (teams_of s)")
      (auto simp: durable_principal_authority_def only_def with_class_def split: list.splits)
qed

theorem durable_authority_unique_witness:
  "durable_principal_authority (Some (built sample_config)) 8 = Inl TeamBindingNotFound"
proof -
  have "\<not> is_zero_config sample_config" by code_simp
  moreover have "filter (durable_candidate (built sample_config) 8) (teams_of (built sample_config)) = []"
    using sample_facts by (simp add: durable_candidate_def sample_team_def)
  ultimately show ?thesis using durable_authority_unique [OF sample_built, of 8] sample_facts by simp
qed

text \<open>
  \<open>ResolveRuntimePolicyAuthority\<close> grants a workspace under an active issuer exactly the one
  active team binding with that issuer, workspace and policy class, together with its active
  class; two of them are ambiguous, none is inactive or not found according to whether an
  inactive one exists.
\<close>

theorem runtime_authority_unique:
  assumes "new_set c = Inr s" "i \<in> set (issuers_of s)" "ti_status i = active"
    and "trim_space workspace \<noteq> []" "trim_space cls \<noteq> []"
  shows "resolve_runtime_policy_authority (Some s) (ti_id i) workspace cls =
    (case active_rows (ti_id i) (trim_space workspace) (trim_space cls) (teams_of s) of
       [] \<Rightarrow> Inl (if idle_rows (ti_id i) (trim_space workspace) (trim_space cls) (teams_of s) = []
                 then TeamBindingNotFound else TeamBindingInactive)
     | [b] \<Rightarrow> (if pc_status (the (as_classes s (tb_policy_class b))) = active
               then Inr (b, the (as_classes s (tb_policy_class b))) else Inl PolicyClassInactive)
     | _ \<Rightarrow> Inl TeamBindingAmbiguous)"
proof -
  have ok: "set_ok s" by (rule new_set_ok [OF assms(1)])
  have n: "trim_space (ti_id i) = ti_id i" "ti_id i \<noteq> []"
    using issuer_in_normal [OF ok assms(2)] by (simp_all add: issuer_normal_def)
  have "\<not> is_zero_config c"
    using assms(1,2) by (auto simp: new_set_def empty_set_def zero_config_def)
  then have cf: "configured (Some s)" by (simp add: new_set_configured [OF assms(1)])
  have t: "\<forall>b\<in>set (teams_of s). tb_id b \<noteq> []" using in_normal(3) [OF ok] by (simp add: team_normal_def)
  have i: "as_issuers s (ti_id i) = Some i" using assms(2) by (simp add: set_ok_issuer [OF ok])
  let ?bs = "active_rows (ti_id i) (trim_space workspace) (trim_space cls) (teams_of s)"
  have "tb_id b \<noteq> [] \<and> as_classes s (tb_policy_class b) \<noteq> None" if "b \<in> set ?bs" for b
    using that t ok by (auto simp: set_ok_defs)
  then show ?thesis
    using assms(3-5) n cf i runtime_fold [OF t, of "ti_id i" "trim_space workspace" "trim_space cls" False]
    by (cases ?bs)
      (auto simp: resolve_runtime_policy_authority_def Let_def only_def split: list.splits)
qed

theorem runtime_authority_unique_witness:
  "\<exists>i. i \<in> set (issuers_of (built sample_config))
     \<and> resolve_runtime_policy_authority (Some (built sample_config)) (ti_id i) ''elsewhere'' ''reviewers''
       = Inl TeamBindingNotFound"
proof -
  obtain i where i: "i \<in> set (issuers_of (built sample_config))" "ti_status i = active"
    using sample_facts by (cases "issuers_of (built sample_config)") auto
  have w: "trim_space ''elsewhere'' = ''elsewhere''" "trim_space ''reviewers'' = ''reviewers''" by code_simp+
  have "filter (\<lambda>b. runtime_row (ti_id i) ''elsewhere'' ''reviewers'' b \<and> P b) (teams_of (built sample_config)) = []" for P
    using sample_facts by (auto simp: runtime_row_def filter_empty_conv sample_team_def)
  then show ?thesis
    using i runtime_authority_unique [OF sample_built i, of "''elsewhere''" "''reviewers''"] w by auto
qed

section \<open>Capabilities\<close>

text \<open>
  The operation that \<open>DefaultOperationForCapabilities\<close> derives from a capability list is
  registered and \<open>OperationSupportsCapabilities\<close> accepts the same list for it.
\<close>

theorem default_operation_supported:
  assumes "default_operation_for_capabilities cs \<noteq> []"
  shows "operation_supports_capabilities (default_operation_for_capabilities cs) cs"
proof -
  let ?j = "join_with nul (normalize_caps cs)"
  have ops: "lookup_operation ''repo.read'' = Some (snd (mk_op ''repo.read'' PermissionRead [''repo:read'']))"
    "lookup_operation ''git.push'' = Some (snd (mk_op ''git.push'' PermissionWrite [''repo:read'', ''repo:write'']))"
    "lookup_operation ''pr.create'' = Some (snd (mk_op ''pr.create'' PermissionWrite [''repo:read'', ''pr:create'']))"
    by code_simp+
  have caps: "join_with nul (normalize_caps [''repo:read'']) = ''repo:read''"
    "join_with nul (normalize_caps [''repo:read'', ''repo:write'']) = ''repo:read'' @ nul @ ''repo:write''"
    "join_with nul (normalize_caps [''pr:create'']) = ''pr:create''"
    "join_with nul (normalize_caps [''repo:read'', ''pr:create'']) = ''pr:create'' @ nul @ ''repo:read''"
    by code_simp+
  consider "?j = ''repo:read''" "default_operation_for_capabilities cs = ''repo.read''"
    | "?j = ''repo:read'' @ nul @ ''repo:write''" "default_operation_for_capabilities cs = ''git.push''"
    | "?j = ''pr:create'' \<or> ?j = ''pr:create'' @ nul @ ''repo:read''" "default_operation_for_capabilities cs = ''pr.create''"
    using assms by (auto simp: default_operation_for_capabilities_def Let_def split: if_splits)
  then show ?thesis
    by cases (auto simp: operation_supports_capabilities_def ops caps operation_capability_scopes_def mk_op_def)
qed

theorem default_operation_supported_witness:
  "operation_supports_capabilities (default_operation_for_capabilities ['' PR:create'', ''repo:read'']) ['' PR:create'', ''repo:read'']"
proof (rule default_operation_supported)
  show "default_operation_for_capabilities ['' PR:create'', ''repo:read''] \<noteq> []" by code_simp
qed

text \<open>
  C38. A constructed snapshot satisfies its invariant: every index agrees with its list of rows,
  every row is in normal form, no key is owned twice, and every binding refers to an issuer and a
  policy class of the same snapshot.
\<close>

theorem constructed_snapshot_ok:
  assumes "new_set c = Inr s"
  shows "set_ok s \<and> (configured (Some s) \<longleftrightarrow> \<not> is_zero_config c)"
  using assms new_set_ok new_set_configured by blast

theorem constructed_snapshot_ok_witness: "set_ok (built sample_config) \<and> configured (Some (built sample_config))"
proof -
  have "\<not> is_zero_config sample_config" by code_simp
  with constructed_snapshot_ok [OF sample_built] show ?thesis by simp
qed

end
