(* ===== verification/Operation_Constraints.thy ===== *)
theory Operation_Constraints
  imports Authority_Model "HOL-Library.AList"
begin

text \<open>
  \<open>internal/operationconstraints/constraints.go\<close>: the constraint object that goes with an
  operation. A \<open>map[string]string\<close> is the list of its entries, no key twice; the only error
  is \<open>ErrInvalid\<close>, so a failing function gives \<open>None\<close>.
\<close>

section \<open>Model\<close>

type_synonym vals = "(string \<times> string) list"

datatype go_float = FNaN | FInf bool | FFinite rat

datatype json_value =
    JString string | JNumber string | JFloat go_float | JInt int | JInt64 int | JBool bool | JOther

definition max_json_safe :: int where
  "max_json_safe = 9007199254740991"

definition default_operations :: "string list" where
  "default_operations =
     [''repo.read'', ''repo.create'', ''repo.delete'', ''repo.admin'',
      ''git.read'', ''git.push'', ''git.force_push'', ''protected_ref.write'', ''ref.delete'',
      ''pr.create'', ''pr.comment'', ''pr.edit'', ''pr.close'', ''pr.reopen'', ''pr.rebase'', ''pr.read'', ''pr.merge'',
      ''review.read'', ''review.write'', ''review.submit'', ''review.dismiss'',
      ''ci.read'', ''branch_protection.write'', ''webhook.write'']"

definition is_default_operation :: "string \<Rightarrow> bool" where
  "is_default_operation op \<longleftrightarrow> trim_space op \<in> set default_operations"

definition char_between :: "char \<Rightarrow> char \<Rightarrow> char \<Rightarrow> bool" where
  "char_between a b c \<longleftrightarrow> a \<le> c \<and> c \<le> b"

definition lower_hex :: "char \<Rightarrow> bool" where
  "lower_hex c \<longleftrightarrow> char_between CHR ''a'' CHR ''f'' c \<or> char_between CHR ''0'' CHR ''9'' c"

definition alnum :: "char \<Rightarrow> bool" where
  "alnum c \<longleftrightarrow> char_between CHR ''A'' CHR ''Z'' c \<or> char_between CHR ''a'' CHR ''z'' c
     \<or> char_between CHR ''0'' CHR ''9'' c"

text \<open>The three regular expressions.\<close>

definition is_canonical_sha :: "string \<Rightarrow> bool" where
  "is_canonical_sha s \<longleftrightarrow> length s = 40 \<and> list_all lower_hex s"

definition is_sha256 :: "string \<Rightarrow> bool" where
  "is_sha256 s \<longleftrightarrow> length s = 64 \<and> list_all lower_hex s"

definition repository_part :: "string \<Rightarrow> bool" where
  "repository_part s =
     (case s of [] \<Rightarrow> False
      | c # cs \<Rightarrow> alnum c \<and> length cs \<le> 99 \<and> list_all (\<lambda>d. alnum d \<or> d \<in> set ''._-'') cs)"

definition is_repository :: "string \<Rightarrow> bool" where
  "is_repository s = (case split_on (CHR ''/'') s of [a, b] \<Rightarrow> repository_part a \<and> repository_part b | _ \<Rightarrow> False)"

definition canonical_merge_method :: "string \<Rightarrow> bool" where
  "canonical_merge_method v \<longleftrightarrow>
     v \<in> set [''merge'', ''rebase'', ''rebase-merge'', ''squash'', ''fast-forward-only'']"

definition canonical_scalar :: "string \<Rightarrow> bool" where
  "canonical_scalar v \<longleftrightarrow>
     v \<noteq> [] \<and> v = trim_space v \<and> length v \<le> 2048
     \<and> \<not> contains_any v [CHR 0x0D, CHR 0x0A, CHR 0x00] \<and> \<not> is_secret_shaped v"

definition positive_json_number :: "string \<Rightarrow> int option" where
  "positive_json_number raw =
     (if raw = [] \<or> (length raw > 1 \<and> hd raw = CHR ''0'') then None
      else case parse_int64 raw of
             None \<Rightarrow> None
           | Some n \<Rightarrow> if n > 0 \<and> n \<le> max_json_safe then Some n else None)"

definition is_json_safe_positive_integer :: "string \<Rightarrow> bool" where
  "is_json_safe_positive_integer raw \<longleftrightarrow> positive_json_number raw \<noteq> None"

definition is_number_constraint_key :: "string \<Rightarrow> bool" where
  "is_number_constraint_key k \<longleftrightarrow>
     k = ''run_id'' \<or> k = ''pull_request_number'' \<or> k = ''forgejo_pull_request_number''"

definition branch_part_ok :: "string \<Rightarrow> bool" where
  "branch_part_ok part \<longleftrightarrow>
     \<not> (part = [] \<or> prefix ''.'' part \<or> suffix ''.lock'' part)
     \<and> list_all (\<lambda>c. \<not> (c < CHR 0x20 \<or> c = CHR 0x7F)) part"

definition branch_ok :: "string \<Rightarrow> bool" where
  "branch_ok branch \<longleftrightarrow>
     \<not> (branch = [] \<or> branch = ''@'' \<or> prefix ''.'' branch \<or> suffix ''.'' branch
        \<or> sublist ''..'' branch \<or> sublist ''//'' branch \<or> sublist [CHR ''@'', CHR 0x7B] branch
        \<or> contains_any branch (CHR 0x5C # '' ~^:?*[''))
     \<and> list_all branch_part_ok (split_on (CHR ''/'') branch)"

definition heads :: string where "heads = ''refs/heads/''"

definition canonical_branch_ref :: "string \<Rightarrow> string" where
  "canonical_branch_ref raw =
     (if raw = [] \<or> raw \<noteq> trim_space raw \<or> prefix ''/'' raw \<or> suffix ''/'' raw then []
      else if prefix ''refs/'' raw \<and> \<not> prefix heads raw then []
      else (let branch = (if prefix ''refs/'' raw then trim_prefix heads raw else raw)
            in if branch_ok branch then heads @ branch else []))"

definition require_keys :: "string list \<Rightarrow> vals \<Rightarrow> bool" where
  "require_keys ks v \<longleftrightarrow> length v = length ks \<and> list_all (\<lambda>k. map_of v k \<noteq> None) ks"

definition require_number :: "string \<Rightarrow> vals \<Rightarrow> vals option" where
  "require_number k v =
     (case positive_json_number (get0 v k) of
        None \<Rightarrow> None
      | Some n \<Rightarrow> Some (AList.update k (format_int n) v))"

definition require_ref :: "string \<Rightarrow> vals \<Rightarrow> bool" where
  "require_ref k v \<longleftrightarrow> canonical_branch_ref (get0 v k) \<noteq> []"

definition pull_number :: string where "pull_number = ''pull_request_number''"
definition forgejo_number :: string where "forgejo_number = ''forgejo_pull_request_number''"

text \<open>A condition of a \<open>&&\<close> chain that leaves the values alone.\<close>

definition guard :: "bool \<Rightarrow> vals \<Rightarrow> vals option" where
  "guard b v = (if b then Some v else None)"

definition both_numbers :: "vals \<Rightarrow> vals option" where
  "both_numbers v = Option.bind (require_number pull_number v) (require_number forgejo_number)"

text \<open>The cases of the switch in \<open>normalize\<close>.\<close>

definition repo_source :: "vals \<Rightarrow> bool" where
  "repo_source v \<longleftrightarrow> is_repository (get0 v ''target_repository'') \<and> require_ref ''base_ref'' v
     \<and> is_canonical_sha (get0 v ''source_base_sha'') \<and> is_sha256 (get0 v ''source_ref_digest'')"

definition check_repo_create :: "vals \<Rightarrow> vals option" where
  "check_repo_create v =
     guard (require_keys [''target_repository'', ''base_ref'', ''source_base_sha'', ''source_ref_digest'', ''import_mode'', ''visibility''] v
       \<and> repo_source v \<and> (get0 v ''import_mode'' = ''ags-only'' \<or> get0 v ''import_mode'' = ''ags-forgejo'')
       \<and> (get0 v ''visibility'' = ''private'' \<or> get0 v ''visibility'' = ''public'' \<or> get0 v ''visibility'' = ''internal'')) v"

definition check_repo_admin :: "vals \<Rightarrow> vals option" where
  "check_repo_admin v =
     guard (require_keys [''target_repository'', ''base_ref'', ''source_base_sha'', ''source_ref_digest'', ''action''] v
       \<and> repo_source v \<and> get0 v ''action'' = ''forgejo_onboard'') v"

definition check_pr_create :: "vals \<Rightarrow> vals option" where
  "check_pr_create v =
     guard (require_keys [''base_ref'', ''head_ref''] v \<and> require_ref ''base_ref'' v \<and> require_ref ''head_ref'' v) v"

definition check_pr_number :: "vals \<Rightarrow> vals option" where
  "check_pr_number v = (if require_keys [pull_number] v then require_number pull_number v else None)"

definition check_pr_rebase :: "vals \<Rightarrow> vals option" where
  "check_pr_rebase v =
     (if require_keys [pull_number, forgejo_number, ''expected_head_sha'', ''expected_base_sha''] v
      then Option.bind (both_numbers v) (\<lambda>w.
        guard (is_canonical_sha (get0 w ''expected_head_sha'') \<and> is_canonical_sha (get0 w ''expected_base_sha'')) w)
      else None)"

definition check_pr_read :: "vals \<Rightarrow> vals option" where
  "check_pr_read v =
     (if v = [] then Some v
      else case check_pr_number v of
             Some w \<Rightarrow> Some w
           | None \<Rightarrow> guard (require_keys [''head_ref''] v \<and> require_ref ''head_ref'' v) v)"

definition check_pr_merge :: "vals \<Rightarrow> vals option" where
  "check_pr_merge v =
     (if require_keys [pull_number, forgejo_number, ''expected_head_sha'', ''merge_method''] v
      then Option.bind (both_numbers v) (\<lambda>w.
        guard (is_canonical_sha (get0 w ''expected_head_sha'') \<and> canonical_merge_method (get0 w ''merge_method'')) w)
      else None)"

definition check_both_numbers :: "vals \<Rightarrow> vals option" where
  "check_both_numbers v = (if require_keys [pull_number, forgejo_number] v then both_numbers v else None)"

definition review_action_ok :: "vals \<Rightarrow> bool" where
  "review_action_ok v \<longleftrightarrow> get0 v ''review_action'' \<in> set [''approve'', ''request_changes'', ''comment'']"

definition check_review_write :: "vals \<Rightarrow> vals option" where
  "check_review_write v =
     (if require_keys [pull_number, ''review_action''] v
      then Option.bind (require_number pull_number v) (\<lambda>w. guard (review_action_ok w) w)
      else if require_keys [pull_number, forgejo_number, ''review_action''] v
      then Option.bind (both_numbers v) (\<lambda>w. guard (review_action_ok w) w)
      else None)"

definition check_ci_read :: "vals \<Rightarrow> vals option" where
  "check_ci_read v =
     (if v = [] then Some v
      else if require_keys [''run_id''] v then require_number ''run_id'' v
      else if require_keys [pull_number, forgejo_number] v then both_numbers v
      else if require_keys [pull_number, forgejo_number, ''head_sha''] v
      then Option.bind (both_numbers v) (\<lambda>w.
        guard (is_canonical_sha (get0 w ''head_sha'') \<and> get0 w ''head_sha'' = to_lower (get0 w ''head_sha'')) w)
      else None)"

definition normalize_constraints :: "string \<Rightarrow> vals \<Rightarrow> vals option" where
  "normalize_constraints op0 v =
     (let op = trim_space op0
      in if op \<in> set [''repo.read'', ''git.read'', ''git.push'', ''git.force_push'', ''protected_ref.write'',
             ''ref.delete'', ''repo.delete'', ''branch_protection.write'', ''webhook.write'']
         then guard (v = []) v
         else if op = ''repo.create'' then check_repo_create v
         else if op = ''repo.admin'' then check_repo_admin v
         else if op = ''pr.create'' then check_pr_create v
         else if op \<in> set [''pr.comment'', ''pr.edit'', ''pr.close'', ''pr.reopen''] then check_pr_number v
         else if op = ''pr.rebase'' then check_pr_rebase v
         else if op = ''pr.read'' then check_pr_read v
         else if op = ''pr.merge'' then check_pr_merge v
         else if op \<in> set [''review.read'', ''review.dismiss''] then check_both_numbers v
         else if op \<in> set [''review.write'', ''review.submit''] then check_review_write v
         else if op = ''ci.read'' then check_ci_read v
         else None)"

definition stored_entry_ok :: "string \<times> string \<Rightarrow> bool" where
  "stored_entry_ok e \<longleftrightarrow> \<not> is_secret_shaped (fst e) \<and> canonical_scalar (snd e)"

definition normalize_stored :: "string \<Rightarrow> vals \<Rightarrow> vals option" where
  "normalize_stored op v = (if list_all stored_entry_ok v then normalize_constraints op v else None)"

text \<open>One entry of a JSON object; \<open>None\<close> for \<open>ErrInvalid\<close>.\<close>

definition json_int :: "int \<Rightarrow> string option" where
  "json_int n = (if n \<le> 0 \<or> n > max_json_safe then None else Some (format_int n))"

definition json_scalar :: "string \<Rightarrow> json_value \<Rightarrow> string option" where
  "json_scalar key raw =
     (case raw of
        JString s \<Rightarrow> if is_number_constraint_key key \<or> \<not> canonical_scalar s then None else Some s
      | JNumber s \<Rightarrow> map_option format_int (positive_json_number s)
      | JFloat (FFinite r) \<Rightarrow>
          if of_int \<lfloor>r\<rfloor> \<noteq> r \<or> r \<le> 0 \<or> r > of_int max_json_safe then None else Some (format_int \<lfloor>r\<rfloor>)
      | JFloat _ \<Rightarrow> None
      | JInt n \<Rightarrow> json_int n
      | JInt64 n \<Rightarrow> json_int n
      | JBool _ \<Rightarrow> None
      | JOther \<Rightarrow> None)"

fun json_entries :: "(string \<times> json_value) list \<Rightarrow> vals option" where
  "json_entries [] = Some []"
| "json_entries ((k, raw) # rest) =
     (if is_secret_shaped k then None
      else case json_scalar k raw of
             None \<Rightarrow> None
           | Some s \<Rightarrow> map_option (Cons (k, s)) (json_entries rest))"

definition normalize_json :: "string \<Rightarrow> (string \<times> json_value) list \<Rightarrow> vals option" where
  "normalize_json op input = Option.bind (json_entries input) (normalize_constraints op)"

definition same_value :: "string \<Rightarrow> string \<Rightarrow> string \<Rightarrow> bool" where
  "same_value key x y =
     (if key = ''base_ref'' \<or> key = ''head_ref'' then canonical_branch_ref x = canonical_branch_ref y else x = y)"

definition match_constraints :: "string \<Rightarrow> vals \<Rightarrow> vals \<Rightarrow> bool" where
  "match_constraints op expected actual =
     (case normalize_stored op expected of
        None \<Rightarrow> False
      | Some left \<Rightarrow>
          (case normalize_stored op actual of
             None \<Rightarrow> False
           | Some right \<Rightarrow>
               length left = length right
               \<and> list_all (\<lambda>(k, x). case map_of right k of None \<Rightarrow> False | Some y \<Rightarrow> same_value k x y) left))"

definition to_json :: "string \<Rightarrow> vals \<Rightarrow> (string \<times> json_value) list option" where
  "to_json op v =
     map_option (map (\<lambda>(k, x). (k, if is_number_constraint_key k then JNumber x else JString x)))
       (normalize_stored op v)"


section \<open>Canonical numbers\<close>

lemma positive_json_number_range: "positive_json_number s = Some n \<Longrightarrow> 0 < n \<and> n \<le> max_json_safe"
  by (auto simp: positive_json_number_def split: if_splits option.splits)

lemma positive_json_number_format:
  assumes "0 < n" "n \<le> max_json_safe"
  shows "positive_json_number (format_int n) = Some n"
proof -
  have "parse_int64 (format_int n) = Some n"
    by (rule parse_format_int) (use assms in \<open>auto simp: max_json_safe_def\<close>)
  moreover have "hd (format_int n) \<noteq> CHR ''0''" "format_int n \<noteq> []"
    using assms hd_format_digits [of n] by (simp_all add: format_int_def)
  ultimately show ?thesis using assms by (simp add: positive_json_number_def)
qed

lemma positive_json_number_canonical:
  "positive_json_number s = Some n \<Longrightarrow> positive_json_number (format_int n) = Some n"
  using positive_json_number_range positive_json_number_format by blast

section \<open>The values after a number was rewritten\<close>

lemma get0_update [simp]: "get0 (AList.update k x v) k' = (if k = k' then x else get0 v k')"
  by (simp add: get0_def update_conv)

lemma keys_update: "map_of v k \<noteq> None \<Longrightarrow> map fst (AList.update k x v) = map fst v"
  by (induction v) (auto simp: weak_map_of_SomeI)

lemma length_update: "map_of v k \<noteq> None \<Longrightarrow> length (AList.update k x v) = length v"
  by (metis keys_update length_map)

lemma update_same: "map_of v k = Some x \<Longrightarrow> AList.update k x v = v"
  by (induction v) (auto split: if_splits)

lemma get0_nonempty: "get0 v k \<noteq> [] \<Longrightarrow> map_of v k = Some (get0 v k)"
  by (simp add: get0_def split: option.splits)

lemma require_number_Some:
  "require_number k v = Some w \<longleftrightarrow>
     (\<exists>n. positive_json_number (get0 v k) = Some n \<and> w = AList.update k (format_int n) v)"
  by (auto simp: require_number_def split: option.splits)

lemma require_number_present: "require_number k v = Some w \<Longrightarrow> map_of v k \<noteq> None"
  using get0_nonempty [of v k]
  by (auto simp: require_number_Some positive_json_number_def split: if_splits)

lemma require_number_keys: "require_number k v = Some w \<Longrightarrow> map fst w = map fst v"
  using require_number_present [of k v w] by (auto simp: require_number_Some keys_update)

lemma require_number_get0: "require_number k v = Some w \<Longrightarrow> k' \<noteq> k \<Longrightarrow> get0 w k' = get0 v k'"
  by (auto simp: require_number_Some)

lemma require_number_again:
  assumes "require_number k v = Some w" "get0 u k = get0 w k"
  shows "require_number k u = Some u"
proof -
  obtain n where n: "positive_json_number (get0 v k) = Some n" "get0 w k = format_int n"
    using assms(1) by (auto simp: require_number_Some)
  moreover have "format_int n \<noteq> []" by (simp add: format_int_def)
  ultimately show ?thesis
    using assms(2) positive_json_number_canonical [OF n(1)] get0_nonempty [of u k]
    by (simp add: require_number_Some update_same)
qed

lemma require_keys_cong: "map fst w = map fst v \<Longrightarrow> require_keys ks w = require_keys ks v"
proof -
  assume a: "map fst w = map fst v"
  then have "length w = length v" by (metis length_map)
  moreover have "map_of w k \<noteq> None \<longleftrightarrow> map_of v k \<noteq> None" for k
    using a by (metis map_of_eq_None_iff list.set_map)
  ultimately show ?thesis by (simp add: require_keys_def)
qed

lemma pull_not_forgejo [simp]: "pull_number \<noteq> forgejo_number" "forgejo_number \<noteq> pull_number"
  by (simp_all add: pull_number_def forgejo_number_def)

lemma both_numbers_Some:
  assumes "both_numbers v = Some w"
  shows "map fst w = map fst v"
    "k \<noteq> pull_number \<Longrightarrow> k \<noteq> forgejo_number \<Longrightarrow> get0 w k = get0 v k"
    "both_numbers w = Some w"
proof -
  obtain u where u: "require_number pull_number v = Some u" "require_number forgejo_number u = Some w"
    using assms by (auto simp: both_numbers_def Option.bind_eq_Some_conv)
  then show "map fst w = map fst v" by (simp add: require_number_keys)
  show "k \<noteq> pull_number \<Longrightarrow> k \<noteq> forgejo_number \<Longrightarrow> get0 w k = get0 v k"
    using u by (simp add: require_number_get0)
  have "require_number pull_number w = Some w"
    by (rule require_number_again [OF u(1)]) (simp add: require_number_get0 [OF u(2)])
  moreover have "require_number forgejo_number w = Some w" by (rule require_number_again [OF u(2)]) simp
  ultimately show "both_numbers w = Some w" by (simp add: both_numbers_def)
qed

lemma guard_Some [simp]: "guard b v = Some w \<longleftrightarrow> b \<and> w = v"
  by (auto simp: guard_def)

lemma key_neq [simp]:
  "''expected_head_sha'' \<noteq> pull_number" "''expected_head_sha'' \<noteq> forgejo_number"
  "''expected_base_sha'' \<noteq> pull_number" "''expected_base_sha'' \<noteq> forgejo_number"
  "''merge_method'' \<noteq> pull_number" "''merge_method'' \<noteq> forgejo_number"
  "''review_action'' \<noteq> pull_number" "''review_action'' \<noteq> forgejo_number"
  "''head_sha'' \<noteq> pull_number" "''head_sha'' \<noteq> forgejo_number"
  by (simp_all add: pull_number_def forgejo_number_def)

lemmas key_neq_sym [simp] = key_neq [symmetric]

text \<open>Each case of the switch keeps the keys and accepts its own result unchanged.\<close>

definition settled :: "(vals \<Rightarrow> vals option) \<Rightarrow> bool" where
  "settled f \<longleftrightarrow> (\<forall>v w. f v = Some w \<longrightarrow> map fst w = map fst v \<and> f w = Some w)"

lemma settled_guard: "settled (\<lambda>v. guard (P v) v)"
  by (auto simp: settled_def)

lemma settled_cases:
  "settled check_repo_create" "settled check_repo_admin" "settled check_pr_create"
  unfolding check_repo_create_def [abs_def] check_repo_admin_def [abs_def] check_pr_create_def [abs_def]
  by (rule settled_guard)+

lemma settled_number: "settled (require_number k)"
  using require_number_keys require_number_again by (auto simp: settled_def)

lemma settled_both: "settled both_numbers"
  using both_numbers_Some by (auto simp: settled_def)

text \<open>A key check before, and a check of entries that are no numbers after.\<close>

lemma settled_keys:
  assumes "settled f" "settled g"
  shows "settled (\<lambda>v. if require_keys ks v then f v else g v)"
  using assms require_keys_cong unfolding settled_def by (metis (no_types, lifting))

lemma settled_none: "settled (\<lambda>v. None)"
  by (simp add: settled_def)

lemma settled_then:
  assumes "settled f"
  shows "settled (\<lambda>v. Option.bind (f v) (\<lambda>w. guard (P w) w))"
  using assms by (auto simp: settled_def Option.bind_eq_Some_conv)

lemma settled_nil:
  assumes "settled f"
  shows "settled (\<lambda>v. if v = [] then Some v else f v)"
  using assms by (auto simp: settled_def split: if_splits)

lemmas settled_rules = settled_keys settled_none settled_then settled_nil settled_number settled_both

lemma settled_more:
  "settled check_pr_number" "settled check_pr_rebase" "settled check_pr_merge" "settled check_both_numbers"
  "settled check_review_write" "settled check_ci_read"
  unfolding check_pr_number_def [abs_def] check_pr_rebase_def [abs_def] check_pr_merge_def [abs_def]
    check_both_numbers_def [abs_def] check_review_write_def [abs_def] check_ci_read_def [abs_def]
  by (intro settled_rules)+

lemma settled_pr_read: "settled check_pr_read"
  using settled_more(1) unfolding settled_def check_pr_read_def
  by (auto split: if_splits option.splits) (metis list.map_disc_iff)

lemma settled_if:
  assumes "settled f" "settled g"
  shows "settled (\<lambda>v. if c then f v else g v)"
  using assms by (cases c) simp_all

lemma normalize_constraints_settled: "settled (normalize_constraints op)"
  unfolding normalize_constraints_def [abs_def] Let_def
  by (intro settled_if settled_guard settled_cases settled_more settled_pr_read settled_none)


section \<open>Entries of a result\<close>

definition canonical_number :: "string \<Rightarrow> bool" where
  "canonical_number x \<longleftrightarrow> (\<exists>n. 0 < n \<and> n \<le> max_json_safe \<and> x = format_int n)"

text \<open>A result holds entries of the input and numbers in canonical form, nothing else.\<close>

definition entries_from :: "vals \<Rightarrow> vals \<Rightarrow> bool" where
  "entries_from v w \<longleftrightarrow> (\<forall>(k, x)\<in>set w. (k, x) \<in> set v \<or> canonical_number x)"

definition harvests :: "(vals \<Rightarrow> vals option) \<Rightarrow> bool" where
  "harvests f \<longleftrightarrow> (\<forall>v w. f v = Some w \<longrightarrow> entries_from v w)"

lemma harvests_guard: "harvests (\<lambda>v. guard (P v) v)"
  by (auto simp: harvests_def entries_from_def)

lemma harvests_number: "harvests (require_number k)"
proof -
  have u: "set (AList.update k x v) \<subseteq> insert (k, x) (set v)" for x v
    by (induction v) auto
  have "entries_from v (AList.update k (format_int n) v)" if "positive_json_number (get0 v k) = Some n" for v n
  proof -
    have "canonical_number (format_int n)"
      using positive_json_number_range [OF that] by (auto simp: canonical_number_def)
    then show ?thesis using u [of "format_int n" v] by (auto simp: entries_from_def)
  qed
  then show ?thesis by (auto simp: harvests_def require_number_Some)
qed

lemma entries_from_trans: "entries_from u v \<Longrightarrow> entries_from v w \<Longrightarrow> entries_from u w"
  by (fastforce simp: entries_from_def)

lemma harvests_both: "harvests both_numbers"
  unfolding harvests_def both_numbers_def Option.bind_eq_Some_conv
  using harvests_number entries_from_trans unfolding harvests_def by blast

lemma harvests_then: "harvests f \<Longrightarrow> harvests (\<lambda>v. Option.bind (f v) (\<lambda>w. guard (P w) w))"
  by (auto simp: harvests_def Option.bind_eq_Some_conv)

lemma harvests_if: "harvests f \<Longrightarrow> harvests g \<Longrightarrow> harvests (\<lambda>v. if b v then f v else g v)"
  by (simp add: harvests_def)

lemma harvests_none: "harvests (\<lambda>v. None)" and harvests_some: "harvests Some"
  by (auto simp: harvests_def entries_from_def)

lemma harvests_else: "harvests f \<Longrightarrow> harvests g \<Longrightarrow> harvests (\<lambda>v. case f v of Some w \<Rightarrow> Some w | None \<Rightarrow> g v)"
  by (auto simp: harvests_def split: option.splits)

lemmas case_defs = check_repo_create_def [abs_def] check_repo_admin_def [abs_def] check_pr_create_def [abs_def]
  check_pr_number_def [abs_def] check_pr_rebase_def [abs_def] check_pr_merge_def [abs_def] check_pr_read_def [abs_def]
  check_both_numbers_def [abs_def] check_review_write_def [abs_def] check_ci_read_def [abs_def]

lemma normalize_constraints_harvests: "harvests (normalize_constraints op)"
  unfolding normalize_constraints_def [abs_def] Let_def case_defs
  by (intro harvests_if harvests_guard harvests_number harvests_both harvests_then harvests_none
      harvests_some harvests_else)

lemma format_digits_length: "n < 10 ^ k \<Longrightarrow> 0 < k \<Longrightarrow> length (format_digits n) \<le> k"
proof (induction n arbitrary: k rule: format_digits.induct)
  case (1 n)
  show ?case
  proof (cases "n < 10")
    case True
    with "1.prems" show ?thesis by (simp add: format_digits.simps [of n])
  next
    case False
    then obtain j where j: "k = Suc j" "0 < j" using "1.prems" by (cases k; cases "k - 1") auto
    then have "n div 10 < 10 ^ j" using "1.prems" by auto
    with "1.IH" [OF False _ j(2)] False j show ?thesis by (simp add: format_digits.simps [of n])
  qed
qed

text \<open>A canonical number has decimal digits only.\<close>

lemma canonical_number_digits:
  assumes "canonical_number x" "c \<in> set x"
  shows "digit_of c \<noteq> None"
proof -
  obtain n where "0 < n" "x = format_digits n"
    using assms(1) by (auto simp: canonical_number_def format_int_def)
  with format_digits_digits [of n] assms(2) show ?thesis by auto
qed

lemma digit_not:
  "digit_of (CHR 0x0D) = None" "digit_of (CHR 0x0A) = None" "digit_of (CHR 0x00) = None"
  "digit_of (CHR ''m'') = None" "digit_of (CHR ''a'') = None" "digit_of (CHR ''-'') = None"
  "digit_of (CHR ''p'') = None" "digit_of (CHR ''e'') = None" "digit_of (CHR 0xC4) = None" "digit_of (CHR 0xE2) = None"
  by (simp_all add: digit_of_def)

lemma to_lower_digits: "\<forall>c\<in>set s. digit_of c \<noteq> None \<Longrightarrow> to_lower s = s"
proof (induction s)
  case Nil
  then show ?case by simp
next
  case (Cons c s)
  then have "c \<noteq> CHR 0xC4" "c \<noteq> CHR 0xE2" using digit_not by auto
  moreover have "lower_byte c = c"
    using Cons.prems of_nat_of_char [of c, where ?'a = int]
    by (auto simp: lower_byte_def digit_of_def Let_def split: if_splits)
  ultimately show ?case using Cons by simp
qed

lemma space_runes_no_digit: "\<forall>r\<in>set space_runes. r \<noteq> [] \<longrightarrow> (digit_of (hd r) = None \<and> digit_of (last r) = None)"
  by (simp add: space_runes_def digit_of_def)

lemma trim_space_digits:
  assumes "\<forall>c\<in>set s. digit_of c \<noteq> None"
  shows "trim_space s = s"
proof -
  have "\<not> prefix r s" "\<not> suffix r s" if "r \<in> set space_runes" "r \<noteq> []" for r
    using that assms space_runes_no_digit
    by (auto simp: prefix_def suffix_def) (metis Un_iff hd_in_set last_in_set option.distinct(1))+
  then show ?thesis by (simp add: trim_space_fixed_iff trim_left_fixed_iff trim_right_fixed_iff)
qed

lemma canonical_number_scalar:
  assumes "canonical_number x"
  shows "canonical_scalar x"
proof -
  obtain n where n: "0 < n" "n \<le> max_json_safe" "x = format_digits n"
    using assms by (auto simp: canonical_number_def format_int_def)
  have d: "\<forall>c\<in>set x. digit_of c \<noteq> None" using canonical_number_digits [OF assms] by blast
  have "n < 10 ^ 16" using n(2) by (simp add: max_json_safe_def)
  then have "length x \<le> 16" using n(3) format_digits_length [of n 16] by simp
  moreover have "\<not> contains_any x [CHR 0x0D, CHR 0x0A, CHR 0x00]"
    using d digit_not by (auto simp: contains_any_def list_ex_iff)
  moreover have "\<not> is_secret_shaped x"
  proof -
    have sub: "\<not> sublist (c # t) x" if "digit_of c = None" for c t
      using d that by (auto simp: sublist_def)
    then have "\<not> prefix ''eyJ'' x" using digit_not by (metis prefix_imp_sublist)
    then show ?thesis using sub digit_not
      by (simp add: is_secret_shaped_def Let_def trim_space_digits [OF d] to_lower_digits [OF d])
  qed
  moreover have "x \<noteq> []" using n(3) by simp
  ultimately show ?thesis using d by (simp add: canonical_scalar_def trim_space_digits)
qed

section \<open>Stored constraints\<close>

lemma normalize_stored_Some:
  assumes "normalize_stored op v = Some w"
  shows "normalize_constraints op v = Some w" "map fst w = map fst v" "list_all stored_entry_ok w"
    "normalize_stored op w = Some w"
proof -
  have ok: "list_all stored_entry_ok v" and n: "normalize_constraints op v = Some w"
    using assms by (simp_all add: normalize_stored_def split: if_splits)
  show "normalize_constraints op v = Some w" by (rule n)
  have s: "map fst w = map fst v" "normalize_constraints op w = Some w"
    using normalize_constraints_settled n by (auto simp: settled_def)
  then show "map fst w = map fst v" by simp
  have "entries_from v w" using normalize_constraints_harvests n by (auto simp: harvests_def)
  moreover have "\<not> is_secret_shaped k" if "(k, x) \<in> set w" for k x
  proof -
    have "k \<in> set (map fst v)" using that s(1) by (metis fst_conv image_eqI list.set_map)
    then show ?thesis using ok by (auto simp: list_all_iff stored_entry_ok_def)
  qed
  ultimately show "list_all stored_entry_ok w"
    using ok canonical_number_scalar by (fastforce simp: list_all_iff stored_entry_ok_def entries_from_def)
  with s(2) show "normalize_stored op w = Some w" by (simp add: normalize_stored_def)
qed


text \<open>Every number key of a result is one that was checked.\<close>

definition shaped :: "(vals \<Rightarrow> vals option) \<Rightarrow> bool" where
  "shaped f \<longleftrightarrow> (\<forall>v w. f v = Some w \<longrightarrow>
     (\<exists>ks. distinct ks \<and> require_keys ks v
       \<and> (\<forall>k\<in>set ks. is_number_constraint_key k \<longrightarrow> canonical_number (get0 w k))))"

lemma shaped_guard:
  assumes "distinct ks" "\<forall>k\<in>set ks. \<not> is_number_constraint_key k"
  shows "shaped (\<lambda>v. guard (require_keys ks v \<and> P v) v)"
  using assms by (auto simp: shaped_def)

lemma shaped_empty: "shaped (\<lambda>v. guard (v = []) v)"
  by (auto simp: shaped_def require_keys_def intro!: exI [of _ "[]"])

lemma shaped_nil: "shaped f \<Longrightarrow> shaped (\<lambda>v. if v = [] then Some v else f v)"
  by (auto simp: shaped_def require_keys_def intro: exI [of _ "[]"])

lemma shaped_keys:
  assumes "distinct ks" "\<And>v w k. f v = Some w \<Longrightarrow> k \<in> set ks \<Longrightarrow> is_number_constraint_key k \<Longrightarrow> canonical_number (get0 w k)"
    and "shaped g"
  shows "shaped (\<lambda>v. if require_keys ks v then f v else g v)"
  using assms by (auto simp: shaped_def)

lemma shaped_none: "shaped (\<lambda>v. None)"
  by (simp add: shaped_def)

lemma shaped_else: "shaped f \<Longrightarrow> shaped g \<Longrightarrow> shaped (\<lambda>v. case f v of Some w \<Rightarrow> Some w | None \<Rightarrow> g v)"
  by (auto simp: shaped_def split: option.splits)

lemma shaped_if: "shaped f \<Longrightarrow> shaped g \<Longrightarrow> shaped (\<lambda>v. if c then f v else g v)"
  by (cases c) simp_all

lemma number_canonical: "require_number k v = Some w \<Longrightarrow> canonical_number (get0 w k)"
  using positive_json_number_range [of "get0 v k"] by (fastforce simp: require_number_Some canonical_number_def)

lemma both_canonical:
  assumes "both_numbers v = Some w"
  shows "canonical_number (get0 w pull_number)" "canonical_number (get0 w forgejo_number)"
proof -
  obtain u where u: "require_number pull_number v = Some u" "require_number forgejo_number u = Some w"
    using assms by (auto simp: both_numbers_def Option.bind_eq_Some_conv)
  with number_canonical [OF u(1)] number_canonical [OF u(2)] require_number_get0 [OF u(2), of pull_number]
  show "canonical_number (get0 w pull_number)" "canonical_number (get0 w forgejo_number)" by simp_all
qed

lemma not_number_key [simp]:
  "\<not> is_number_constraint_key ''target_repository''" "\<not> is_number_constraint_key ''base_ref''"
  "\<not> is_number_constraint_key ''source_base_sha''" "\<not> is_number_constraint_key ''source_ref_digest''"
  "\<not> is_number_constraint_key ''import_mode''" "\<not> is_number_constraint_key ''visibility''"
  "\<not> is_number_constraint_key ''action''" "\<not> is_number_constraint_key ''head_ref''"
  "\<not> is_number_constraint_key ''expected_head_sha''" "\<not> is_number_constraint_key ''expected_base_sha''"
  "\<not> is_number_constraint_key ''merge_method''" "\<not> is_number_constraint_key ''review_action''"
  "\<not> is_number_constraint_key ''head_sha''"
  by (simp_all add: is_number_constraint_key_def)

lemma shaped_cases:
  "shaped check_repo_create" "shaped check_repo_admin" "shaped check_pr_create" "shaped check_pr_number"
  "shaped check_both_numbers" "shaped check_pr_rebase" "shaped check_pr_merge" "shaped check_review_write"
  unfolding case_defs
  by ((intro shaped_guard shaped_keys shaped_none;
      auto simp: Option.bind_eq_Some_conv dest: number_canonical both_canonical)[1])+

lemma shaped_reads: "shaped check_pr_read" "shaped check_ci_read"
proof -
  have "shaped (\<lambda>v. guard (require_keys [''head_ref''] v \<and> require_ref ''head_ref'' v) v)"
    by (rule shaped_guard) simp_all
  then show "shaped check_pr_read"
    unfolding check_pr_read_def [abs_def] by (intro shaped_nil shaped_else shaped_cases)
  show "shaped check_ci_read"
    unfolding check_ci_read_def [abs_def]
    by (intro shaped_nil shaped_keys shaped_none;
        auto simp: Option.bind_eq_Some_conv dest: number_canonical both_canonical)
qed

lemma normalize_constraints_shaped: "shaped (normalize_constraints op)"
  unfolding normalize_constraints_def [abs_def] Let_def
  by (intro shaped_if shaped_empty shaped_cases shaped_reads shaped_none)

lemma require_keys_set:
  assumes "require_keys ks v" "distinct ks" "distinct (map fst v)"
  shows "set (map fst v) = set ks"
proof (rule card_subset_eq [symmetric])
  show "finite (set (map fst v))" by simp
  show "set ks \<subseteq> set (map fst v)"
    using assms(1) by (auto simp: require_keys_def list_all_iff) (metis image_eqI fst_conv map_of_SomeD)
  show "card (set ks) = card (set (map fst v))"
    using assms by (metis distinct_card length_map require_keys_def)
qed

lemma result_numbers:
  assumes "normalize_constraints op v = Some w" "distinct (map fst v)" "(k, x) \<in> set w" "is_number_constraint_key k"
  shows "canonical_number x"
proof -
  obtain ks where ks: "distinct ks" "require_keys ks v"
    "\<forall>k\<in>set ks. is_number_constraint_key k \<longrightarrow> canonical_number (get0 w k)"
    using normalize_constraints_shaped [of op] assms(1) unfolding shaped_def by blast
  have f: "map fst w = map fst v" using normalize_constraints_settled assms(1) by (auto simp: settled_def)
  then have "k \<in> set ks"
    using require_keys_set [OF ks(2,1) assms(2)] assms(3) by (metis fst_conv image_eqI list.set_map)
  moreover have "get0 w k = x" using assms(2,3) f by (metis get0_def map_of_is_SomeI option.simps(5))
  ultimately show ?thesis using ks(3) assms(4) by blast
qed


section \<open>Properties\<close>

definition merge_constraints :: vals where
  "merge_constraints = [(pull_number, ''12''), (forgejo_number, ''7''),
     (''expected_head_sha'', replicate 40 (CHR ''a'')), (''merge_method'', ''squash'')]"

definition branch_constraints :: vals where
  "branch_constraints = [(''base_ref'', ''main''), (''head_ref'', ''refs/heads/topic'')]"

definition other_branch_constraints :: vals where
  "other_branch_constraints = [(''head_ref'', ''topic''), (''base_ref'', ''refs/heads/main'')]"

lemma constraint_values:
  "normalize_stored ''pr.merge'' merge_constraints = Some merge_constraints
   \<and> match_constraints ''pr.create'' branch_constraints other_branch_constraints
   \<and> match_constraints ''pr.create'' other_branch_constraints branch_constraints
   \<and> distinct (map fst branch_constraints) \<and> distinct (map fst other_branch_constraints)
   \<and> distinct (map fst merge_constraints)"
  by code_simp

text \<open>
  C37. Normalising stored constraints is idempotent and keeps the keys; the result holds no
  secret-shaped key or value and no value with surrounding space, control separators or more than
  2048 bytes, and every number in it is a decimal between 1 and 2^53 - 1 in canonical form.
\<close>

theorem stored_constraints_canonical:
  assumes "normalize_stored op v = Some w" "distinct (map fst v)"
  shows "normalize_stored op w = Some w \<and> map fst w = map fst v
    \<and> (\<forall>(k, x)\<in>set w. \<not> is_secret_shaped k \<and> canonical_scalar x
         \<and> (is_number_constraint_key k \<longrightarrow> (\<exists>n. 0 < n \<and> n \<le> max_json_safe \<and> x = format_int n)))"
  using normalize_stored_Some [OF assms(1)] result_numbers [OF normalize_stored_Some(1) [OF assms(1)] assms(2)]
  by (auto simp: list_all_iff stored_entry_ok_def canonical_number_def)

theorem stored_constraints_canonical_witness:
  "normalize_stored ''pr.merge'' merge_constraints = Some merge_constraints
   \<and> (\<exists>n. 0 < n \<and> n \<le> max_json_safe \<and> ''12'' = format_int n)"
proof -
  have "(pull_number, ''12'') \<in> set merge_constraints" by (simp add: merge_constraints_def)
  moreover have "is_number_constraint_key pull_number" by (simp add: is_number_constraint_key_def pull_number_def)
  ultimately show ?thesis
    using stored_constraints_canonical [of "''pr.merge''" merge_constraints merge_constraints] constraint_values
    by blast
qed

definition covers :: "vals \<Rightarrow> vals \<Rightarrow> bool" where
  "covers l r \<longleftrightarrow> length l = length r \<and> (\<forall>(k, x)\<in>set l. \<exists>y. map_of r k = Some y \<and> same_value k x y)"

lemma match_iff:
  "match_constraints op a b \<longleftrightarrow>
     (\<exists>l r. normalize_stored op a = Some l \<and> normalize_stored op b = Some r \<and> covers l r)"
proof -
  have "list_all (\<lambda>(k, x). case map_of r k of None \<Rightarrow> False | Some y \<Rightarrow> same_value k x y) l
      \<longleftrightarrow> (\<forall>(k, x)\<in>set l. \<exists>y. map_of r k = Some y \<and> same_value k x y)" for l r
    by (simp add: list_all_iff split_def option.case_eq_if) (auto split: option.splits)
  then show ?thesis by (simp add: match_constraints_def covers_def split: option.split)
qed

lemma same_value_equiv:
  "same_value k x x" "same_value k x y \<Longrightarrow> same_value k y x"
  "same_value k x y \<Longrightarrow> same_value k y z \<Longrightarrow> same_value k x z"
  by (auto simp: same_value_def split: if_splits)

text \<open>Two lists of entries of the same length, one's keys among the other's.\<close>

lemma entries_swap:
  assumes "distinct (map fst l)" "distinct (map fst r)" "length l = length r"
    and "\<forall>(k, x)\<in>set l. \<exists>y. map_of r k = Some y \<and> same_value k x y"
  shows "\<forall>(k, y)\<in>set r. \<exists>x. map_of l k = Some x \<and> same_value k y x"
proof -
  have "fst ` set l \<subseteq> fst ` set r" using assms(4) by (force dest: map_of_SomeD)
  moreover have "card (fst ` set l) = card (fst ` set r)"
    using assms(1-3) by (metis distinct_card length_map list.set_map)
  ultimately have keys: "fst ` set l = fst ` set r" by (simp add: card_subset_eq)
  show ?thesis
  proof clarify
    fix k y assume y: "(k, y) \<in> set r"
    then obtain x where x: "(k, x) \<in> set l" using keys by (metis fst_conv imageE image_eqI prod.collapse)
    with assms(4) obtain y' where "map_of r k = Some y'" "same_value k x y'" by blast
    moreover have "map_of r k = Some y" using y assms(2) by simp
    ultimately show "\<exists>x. map_of l k = Some x \<and> same_value k y x"
      using x assms(1) same_value_equiv(2) by (metis map_of_is_SomeI option.inject)
  qed
qed

lemma covers_refl: "distinct (map fst l) \<Longrightarrow> covers l l"
  using same_value_equiv(1) by (auto simp: covers_def)

lemma covers_trans: "covers l m \<Longrightarrow> covers m r \<Longrightarrow> covers l r"
  unfolding covers_def using same_value_equiv(3) map_of_SomeD by fastforce

lemma match_refl: "distinct (map fst a) \<Longrightarrow> match_constraints op a a \<longleftrightarrow> normalize_stored op a \<noteq> None"
  using covers_refl normalize_stored_Some(2) [of op a] by (fastforce simp: match_iff)

lemma match_sym:
  assumes "distinct (map fst a)" "distinct (map fst b)" "match_constraints op a b"
  shows "match_constraints op b a"
proof -
  obtain l r where lr: "normalize_stored op a = Some l" "normalize_stored op b = Some r" "covers l r"
    using assms(3) by (auto simp: match_iff)
  have "distinct (map fst l)" "distinct (map fst r)"
    using assms(1,2) normalize_stored_Some(2) [OF lr(1)] normalize_stored_Some(2) [OF lr(2)] by simp_all
  from entries_swap [OF this] lr(3) have "covers r l" by (simp add: covers_def)
  with lr(1,2) show ?thesis by (simp add: match_iff)
qed

lemma match_trans: "match_constraints op a b \<Longrightarrow> match_constraints op b c \<Longrightarrow> match_constraints op a c"
  using covers_trans by (fastforce simp: match_iff)

text \<open>
  \<open>Match\<close> is an equivalence on the constraints the schema of the operation accepts: an
  accepted object matches itself, and matching is symmetric and transitive, although it compares
  branch references up to their spelling and checks the keys of one side only.
\<close>

theorem match_equivalence:
  assumes "distinct (map fst a)" "distinct (map fst b)"
  shows "(match_constraints op a a \<longleftrightarrow> normalize_stored op a \<noteq> None)
    \<and> match_constraints op a b = match_constraints op b a
    \<and> (match_constraints op a b \<longrightarrow> match_constraints op a c = match_constraints op b c)"
  using assms match_refl match_sym match_trans by blast

theorem match_equivalence_witness:
  "match_constraints ''pr.create'' branch_constraints branch_constraints
     = match_constraints ''pr.create'' other_branch_constraints branch_constraints"
  using match_equivalence [of branch_constraints other_branch_constraints "''pr.create''" branch_constraints]
    constraint_values by blast

lemma json_entries_to_json:
  assumes "\<forall>(k, x)\<in>set w. \<not> is_secret_shaped k \<and> canonical_scalar x \<and> (is_number_constraint_key k \<longrightarrow> canonical_number x)"
  shows "json_entries (map (\<lambda>(k, x). (k, if is_number_constraint_key k then JNumber x else JString x)) w) = Some w"
  using assms
proof (induction w)
  case Nil
  then show ?case by simp
next
  case (Cons e w)
  obtain k x where e: "e = (k, x)" by fastforce
  have "map_option format_int (positive_json_number x) = Some x" if "is_number_constraint_key k"
    using Cons.prems e that positive_json_number_format by (auto simp: canonical_number_def)
  with Cons e show ?case by (auto simp: json_scalar_def)
qed

lemma to_json_normalizes:
  assumes "to_json op v = Some j" "distinct (map fst v)"
  shows "normalize_json op j = normalize_stored op v"
proof -
  obtain w where w: "normalize_stored op v = Some w"
    "j = map (\<lambda>(k, x). (k, if is_number_constraint_key k then JNumber x else JString x)) w"
    using assms(1) by (auto simp: to_json_def)
  have "json_entries j = Some w"
    unfolding w(2)
    using normalize_stored_Some(3) [OF w(1)] result_numbers [OF normalize_stored_Some(1) [OF w(1)] assms(2)]
    by (intro json_entries_to_json) (auto simp: list_all_iff stored_entry_ok_def)
  moreover have "normalize_constraints op w = Some w"
    using normalize_stored_Some(4) [OF w(1)] normalize_stored_Some(1) by blast
  ultimately show ?thesis using w(1) by (simp add: normalize_json_def)
qed

text \<open>
  The JSON form of stored constraints is read back by \<open>NormalizeJSON\<close> as the same normalised
  constraints.
\<close>

theorem json_round_trip:
  assumes "to_json op v = Some j" "distinct (map fst v)"
  shows "normalize_json op j = normalize_stored op v"
  by (rule to_json_normalizes [OF assms])

theorem json_round_trip_witness:
  "\<exists>j. to_json ''pr.merge'' merge_constraints = Some j
     \<and> normalize_json ''pr.merge'' j = Some merge_constraints"
proof -
  obtain j where "to_json ''pr.merge'' merge_constraints = Some j"
    using constraint_values by (simp add: to_json_def)
  with json_round_trip [OF this] constraint_values show ?thesis by simp
qed

definition example_constraints :: "string \<Rightarrow> vals" where
  "example_constraints op =
     (if op = ''repo.create'' then
        [(''target_repository'', ''acme/app''), (''base_ref'', ''main''), (''source_base_sha'', replicate 40 (CHR ''a'')),
         (''source_ref_digest'', replicate 64 (CHR ''0'')), (''import_mode'', ''ags-only''), (''visibility'', ''private'')]
      else if op = ''repo.admin'' then
        [(''target_repository'', ''acme/app''), (''base_ref'', ''main''), (''source_base_sha'', replicate 40 (CHR ''a'')),
         (''source_ref_digest'', replicate 64 (CHR ''0'')), (''action'', ''forgejo_onboard'')]
      else if op = ''pr.create'' then branch_constraints
      else if op \<in> set [''pr.comment'', ''pr.edit'', ''pr.close'', ''pr.reopen''] then [(pull_number, ''5'')]
      else if op = ''pr.rebase'' then
        [(pull_number, ''5''), (forgejo_number, ''6''), (''expected_head_sha'', replicate 40 (CHR ''a'')),
         (''expected_base_sha'', replicate 40 (CHR ''b''))]
      else if op = ''pr.merge'' then merge_constraints
      else if op \<in> set [''review.read'', ''review.dismiss''] then [(pull_number, ''5''), (forgejo_number, ''6'')]
      else if op \<in> set [''review.write'', ''review.submit''] then [(pull_number, ''5''), (''review_action'', ''approve'')]
      else [])"

text \<open>
  An operation has constraints that \<open>NormalizeStored\<close> accepts exactly when
  \<open>IsDefaultOperation\<close> reports it.
\<close>

theorem accepted_operations_exact:
  "(\<exists>v. normalize_stored op v \<noteq> None) \<longleftrightarrow> is_default_operation op"
proof
  assume "\<exists>v. normalize_stored op v \<noteq> None"
  then obtain v where "normalize_constraints op v \<noteq> None" by (auto simp: normalize_stored_def split: if_splits)
  then show "is_default_operation op"
    by (auto simp: normalize_constraints_def Let_def is_default_operation_def default_operations_def split: if_splits)
next
  assume d: "is_default_operation op"
  have "list_all (\<lambda>n. normalize_stored n (example_constraints n) \<noteq> None) default_operations" by code_simp
  with d have "normalize_stored (trim_space op) (example_constraints (trim_space op)) \<noteq> None"
    by (simp add: is_default_operation_def list_all_iff)
  moreover have "normalize_stored (trim_space op) = normalize_stored op"
    by (simp add: fun_eq_iff normalize_stored_def normalize_constraints_def)
  ultimately show "\<exists>v. normalize_stored op v \<noteq> None" by metis
qed

end
