(* ===== verification/Config_Yaml.thy ===== *)
theory Config_Yaml
  imports Authority_Set
begin

text \<open>
  The decoders that walk a document tree before the typed decoding: \<open>UnmarshalYAML\<close> of
  \<open>internal/sessionauthority/authority.go\<close>, and the shape and sensitivity checks of
  \<open>UnmarshalYAML\<close> in \<open>internal/delegationpolicy/policy.go\<close>. The typed decoding of a checked
  tree is library code and is an argument.
\<close>

section \<open>Session authority\<close>

datatype yaml_error = NotMapping | NotSequence | DuplicateField | UnsupportedField | DecodeError
  | SensitiveField string | UnsupportedYamlVersion | GenerationsMixed

type_synonym validator = "yaml_node \<Rightarrow> yaml_error + unit"

text \<open>One turn of the loop over the fields; the state is the list of keys seen.\<close>

definition field_step ::
  "(string \<times> validator option) list \<Rightarrow> yaml_node \<times> yaml_node \<Rightarrow> string list \<Rightarrow> yaml_error + string list" where
  "field_step allowed kv seen =
     (let key = trim_space (y_value (fst kv))
      in if key \<in> set seen then Inl DuplicateField
         else case map_of allowed key of
                None \<Rightarrow> Inl UnsupportedField
              | Some None \<Rightarrow> Inr (key # seen)
              | Some (Some f) \<Rightarrow> rbind (f (snd kv)) (\<lambda>_. Inr (key # seen)))"

definition validate_mapping_fields :: "(string \<times> validator option) list \<Rightarrow> validator" where
  "validate_mapping_fields allowed n =
     (if y_kind n \<noteq> MappingNode then Inl NotMapping
      else rbind (rfold (field_step allowed) (pairs_of (y_content n)) []) (\<lambda>_. Inr ()))"

definition sequence_of :: "(string \<times> validator option) list \<Rightarrow> validator" where
  "sequence_of allowed n =
     (if y_kind n \<noteq> SequenceNode then Inl NotSequence
      else rfold (\<lambda>child _. validate_mapping_fields allowed child) (y_content n) ())"

definition leaves :: "string list \<Rightarrow> (string \<times> validator option) list" where
  "leaves ks = map (\<lambda>k. (k, None)) ks"

definition row_fields :: "(string \<times> string list) list" where
  "row_fields =
     [(''trusted_issuers'', [''id'', ''issuer'', ''key_ids'', ''status'', ''trust_revision'']),
      (''bindings'', [''id'', ''issuer_instance_id'', ''subject'', ''principal_id'', ''status'',
         ''binding_revision'', ''expires_at'', ''revoked_at'']),
      (''team_bindings'', [''id'', ''issuer_instance_id'', ''workspace_id'', ''team_identity_id'',
         ''policy_class'', ''principal_id'', ''status'', ''binding_revision'', ''epoch_floor'']),
      (''policy_classes'', [''id'', ''status'', ''policy_revision'', ''operations'']),
      (''resource_defaults'', [''id'', ''target'', ''service'', ''status'', ''max_session_ttl'', ''policy_revision'']),
      (''resources'', [''id'', ''target'', ''service'', ''repository'', ''status'', ''max_session_ttl'',
         ''policy_revision''])]"

definition session_fields :: "(string \<times> validator option) list" where
  "session_fields =
     leaves [''version'', ''contract_revision'', ''legacy_compatibility_mode'']
     @ map (\<lambda>(k, fs). (k, Some (sequence_of (leaves fs)))) row_fields"

definition unmarshal_session_yaml :: "(yaml_node \<Rightarrow> auth_config option) \<Rightarrow> yaml_node \<Rightarrow> yaml_error + auth_config" where
  "unmarshal_session_yaml decode n =
     rbind (validate_mapping_fields session_fields n) (\<lambda>_.
     case decode n of None \<Rightarrow> Inl DecodeError | Some c \<Rightarrow> Inr c)"

section \<open>Delegation\<close>

definition sensitive_fragments :: "string list" where
  "sensitive_fragments = [''secret'', ''token'', ''credential'', ''password'', ''private_key'', ''signing_key'']"

definition sensitive_key :: "string \<Rightarrow> bool" where
  "sensitive_key k = list_ex (\<lambda>fragment. sublist fragment (fold_key k)) sensitive_fragments"

fun first_some :: "('a \<Rightarrow> 'b option) \<Rightarrow> 'a list \<Rightarrow> 'b option" where
  "first_some f [] = None"
| "first_some f (x # xs) = (case f x of None \<Rightarrow> first_some f xs | Some y \<Rightarrow> Some y)"

lemma first_some_cong [fundef_cong]:
  "xs = ys \<Longrightarrow> (\<And>x. x \<in> set ys \<Longrightarrow> f x = g x) \<Longrightarrow> first_some f xs = first_some g ys"
  by (induction ys arbitrary: xs) (auto split: option.split)

lemma first_some_None: "first_some f xs = None \<longleftrightarrow> (\<forall>x\<in>set xs. f x = None)"
  by (induction xs) (auto split: option.splits)

function sensitive_field :: "yaml_node \<Rightarrow> string option" where
  "sensitive_field (Node kind v content) =
     (if kind = MappingNode
      then first_some (\<lambda>kv. if sensitive_key (y_value (fst kv)) then Some (y_value (fst kv))
                            else sensitive_field (snd kv)) (pairs_of content)
      else first_some sensitive_field content)"
  by pat_completeness auto
termination
proof (relation "measure size", goal_cases)
  case 1
  then show ?case by simp
next
  case (2 kind v content kv)
  then have "snd kv \<in> set content" using pairs_of_elems [of "fst kv" "snd kv" content] by simp
  then show ?case using size_list_estimation' [of "snd kv" content "size (snd kv)" size] by simp
next
  case (3 kind v content x)
  then show ?case using size_list_estimation' [of x content "size x" size] by simp
qed

text \<open>The loops over fields, with the check that follows a known field as an argument.\<close>

definition shape_step ::
  "string list \<Rightarrow> (string \<Rightarrow> yaml_node \<Rightarrow> yaml_error + unit) \<Rightarrow> yaml_node \<times> yaml_node \<Rightarrow> string list
     \<Rightarrow> yaml_error + string list" where
  "shape_step allowed f kv seen =
     (let key = y_value (fst kv)
      in if key \<in> set seen then Inl DuplicateField
         else if key \<notin> set allowed then Inl UnsupportedField
         else rbind (f key (snd kv)) (\<lambda>_. Inr (key # seen)))"

definition repository_shape :: "yaml_node \<Rightarrow> yaml_error + unit" where
  "repository_shape n =
     (if y_kind n \<noteq> MappingNode then Inl NotMapping
      else rfold (\<lambda>field _. check (y_value (fst field) = ''max_capabilities'') UnsupportedField)
             (pairs_of (y_content n)) ())"

definition policy_fields :: "string list" where
  "policy_fields = [''id'', ''issuer'', ''workspace_id'', ''target'', ''principal'', ''repositories'',
     ''max_session_ttl'', ''allow_merge'', ''status'', ''policy_version'']"

definition policy_field_shape :: "string \<Rightarrow> yaml_node \<Rightarrow> yaml_error + unit" where
  "policy_field_shape key v =
     (if key \<noteq> ''repositories'' then Inr ()
      else if y_kind v \<noteq> MappingNode then Inl NotMapping
      else rfold (\<lambda>kv _. repository_shape (snd kv)) (pairs_of (y_content v)) ())"

definition validate_policy_shape :: "yaml_node \<Rightarrow> yaml_error + unit" where
  "validate_policy_shape n =
     (if y_kind n \<noteq> MappingNode then Inl NotMapping
      else rbind (rfold (shape_step policy_fields policy_field_shape) (pairs_of (y_content n)) []) (\<lambda>_. Inr ()))"

definition mapping_fields :: "string list" where
  "mapping_fields = [''id'', ''issuer'', ''workspace_id'', ''agent_id'', ''role'', ''task_ids'',
     ''target'', ''repository'', ''principal'', ''max_capabilities'', ''max_session_ttl'',
     ''allow_merge'', ''status'', ''policy_version'']"

definition validate_mapping_shape :: "yaml_node \<Rightarrow> yaml_error + unit" where
  "validate_mapping_shape n =
     (if y_kind n \<noteq> MappingNode then Inl NotMapping
      else rbind (rfold (shape_step mapping_fields (\<lambda>_ _. Inr ())) (pairs_of (y_content n)) []) (\<lambda>_. Inr ()))"

definition config_field_shape :: "string \<Rightarrow> yaml_node \<Rightarrow> yaml_error + unit" where
  "config_field_shape key v =
     (if key = ''policies'' then
        (if y_kind v \<noteq> SequenceNode then Inl NotSequence
         else rfold (\<lambda>p _. validate_policy_shape p) (y_content v) ())
      else if key = ''mappings'' then
        (if y_kind v \<noteq> SequenceNode then Inl NotSequence
         else rfold (\<lambda>m _. validate_mapping_shape m) (y_content v) ())
      else Inr ())"

definition validate_config_shape :: "yaml_node \<Rightarrow> yaml_error + unit" where
  "validate_config_shape n =
     (if y_kind n \<noteq> MappingNode then Inl NotMapping
      else rbind (rfold (shape_step [''version'', ''policies'', ''mappings''] config_field_shape)
             (pairs_of (y_content n)) []) (\<lambda>_. Inr ()))"

definition has_field :: "string \<Rightarrow> yaml_node \<Rightarrow> bool" where
  "has_field k n = list_ex (\<lambda>kv. y_value (fst kv) = k) (pairs_of (y_content n))"

text \<open>\<open>version_of\<close> reads the version of a decoded configuration.\<close>

definition unmarshal_delegation_yaml ::
  "('c \<Rightarrow> int) \<Rightarrow> (yaml_node \<Rightarrow> 'c option) \<Rightarrow> yaml_node \<Rightarrow> yaml_error + 'c" where
  "unmarshal_delegation_yaml version_of decode n =
     (case sensitive_field n of
        Some field \<Rightarrow> Inl (SensitiveField field)
      | None \<Rightarrow>
          rbind (validate_config_shape n) (\<lambda>_.
          case decode n of
            None \<Rightarrow> Inl DecodeError
          | Some c \<Rightarrow>
              if has_field ''version'' n \<and> version_of c \<noteq> 1 \<and> version_of c \<noteq> 2 then Inl UnsupportedYamlVersion
              else if \<not> has_field ''version'' n \<and> (has_field ''policies'' n \<or> has_field ''mappings'' n)
              then Inl UnsupportedYamlVersion
              else if (version_of c = 1 \<and> has_field ''mappings'' n) \<or> (version_of c = 2 \<and> has_field ''policies'' n)
              then Inl GenerationsMixed
              else Inr c))"


section \<open>Properties\<close>

lemma field_step_Inr [res_simps]:
  "field_step allowed kv seen = Inr seen' \<longleftrightarrow>
     (let key = trim_space (y_value (fst kv))
      in key \<notin> set seen \<and> seen' = key # seen
         \<and> (\<exists>r. map_of allowed key = Some r \<and> (case r of None \<Rightarrow> True | Some f \<Rightarrow> f (snd kv) = Inr ())))"
  by (auto simp: field_step_def Let_def rbind_Inr_iff split: option.splits)

abbreviation field_names :: "yaml_node \<Rightarrow> string list" where
  "field_names n \<equiv> map (\<lambda>kv. trim_space (y_value (fst kv))) (pairs_of (y_content n))"

lemma field_loop:
  "(\<exists>seen'. rfold (field_step allowed) kvs seen = Inr seen') \<longleftrightarrow>
     distinct (map (\<lambda>kv. trim_space (y_value (fst kv))) kvs)
     \<and> set (map (\<lambda>kv. trim_space (y_value (fst kv))) kvs) \<inter> set seen = {}
     \<and> (\<forall>kv\<in>set kvs. \<exists>r. map_of allowed (trim_space (y_value (fst kv))) = Some r
          \<and> (case r of None \<Rightarrow> True | Some f \<Rightarrow> f (snd kv) = Inr ()))"
proof (induction kvs arbitrary: seen)
  case Nil
  then show ?case by simp
next
  case (Cons kv kvs)
  show ?case by (simp add: rbind_Inr_iff field_step_Inr Let_def Cons.IH ex_simps) auto
qed

lemma validate_mapping_iff:
  "validate_mapping_fields allowed n = Inr () \<longleftrightarrow>
     y_kind n = MappingNode \<and> distinct (field_names n)
     \<and> (\<forall>kv\<in>set (pairs_of (y_content n)). \<exists>r. map_of allowed (trim_space (y_value (fst kv))) = Some r
          \<and> (case r of None \<Rightarrow> True | Some f \<Rightarrow> f (snd kv) = Inr ()))"
  using field_loop [of allowed "pairs_of (y_content n)" "[]"]
  by (auto simp: validate_mapping_fields_def rbind_Inr_iff)

text \<open>A mapping with known fields only, each at most once.\<close>

definition closed_mapping :: "string list \<Rightarrow> yaml_node \<Rightarrow> bool" where
  "closed_mapping known n \<longleftrightarrow> y_kind n = MappingNode \<and> distinct (field_names n) \<and> set (field_names n) \<subseteq> set known"

lemma leaves_map_of: "map_of (leaves ks) k = (if k \<in> set ks then Some None else None)"
  by (induction ks) (auto simp: leaves_def)

lemma validate_leaves_iff: "validate_mapping_fields (leaves ks) n = Inr () \<longleftrightarrow> closed_mapping ks n"
  by (auto simp: validate_mapping_iff closed_mapping_def leaves_map_of split: if_splits)

lemma rfold_unit: "rfold (\<lambda>x _. f x) xs () = Inr () \<longleftrightarrow> (\<forall>x\<in>set xs. f x = Inr ())"
  by (induction xs) (auto simp: rbind_Inr_iff)

lemma sequence_of_iff:
  "sequence_of (leaves ks) n = Inr () \<longleftrightarrow> y_kind n = SequenceNode \<and> (\<forall>c\<in>set (y_content n). closed_mapping ks c)"
  by (simp add: sequence_of_def rfold_unit validate_leaves_iff)

lemma session_fields_map_of:
  "map_of session_fields k =
     (if k \<in> set [''version'', ''contract_revision'', ''legacy_compatibility_mode''] then Some None
      else map_option (\<lambda>fs. Some (sequence_of (leaves fs))) (map_of row_fields k))"
  by (simp add: session_fields_def leaves_map_of map_add_def map_of_map split: option.split)

text \<open>
  \<open>Config.UnmarshalYAML\<close> of the session authority accepts exactly the trees whose top-level
  mapping and whose rows have known fields only, each once, with every list of rows a sequence of
  mappings, and which the typed decoder accepts; no unknown or repeated field is ever ignored.
\<close>

theorem session_yaml_closed:
  "unmarshal_session_yaml decode n = Inr c \<longleftrightarrow>
     decode n = Some c
     \<and> closed_mapping ([''version'', ''contract_revision'', ''legacy_compatibility_mode''] @ map fst row_fields) n
     \<and> (\<forall>kv\<in>set (pairs_of (y_content n)). \<forall>fs. map_of row_fields (trim_space (y_value (fst kv))) = Some fs
          \<longrightarrow> y_kind (snd kv) = SequenceNode \<and> (\<forall>row\<in>set (y_content (snd kv)). closed_mapping fs row))"
  (is "_ \<longleftrightarrow> decode n = Some c \<and> ?closed \<and> ?rows")
proof -
  let ?top = "[''version'', ''contract_revision'', ''legacy_compatibility_mode'']"
  have rows: "map_of row_fields k = None \<longleftrightarrow> k \<notin> set (map fst row_fields)" for k
    by (simp add: map_of_eq_None_iff)
  have top: "k \<in> set ?top \<Longrightarrow> map_of row_fields k = None" for k by (auto simp: row_fields_def)
  have "(\<exists>r. map_of session_fields k = Some r \<and> (case r of None \<Rightarrow> True | Some f \<Rightarrow> f v = Inr ()))
      \<longleftrightarrow> k \<in> set (?top @ map fst row_fields)
        \<and> (\<forall>fs. map_of row_fields k = Some fs \<longrightarrow> y_kind v = SequenceNode \<and> (\<forall>row\<in>set (y_content v). closed_mapping fs row))" for k v
    unfolding session_fields_map_of using top [of k] rows [of k]
    by (cases "k \<in> set ?top"; cases "map_of row_fields k") (simp_all add: sequence_of_iff)
  then have "validate_mapping_fields session_fields n = Inr () \<longleftrightarrow>
      y_kind n = MappingNode \<and> distinct (field_names n)
      \<and> (\<forall>kv\<in>set (pairs_of (y_content n)). trim_space (y_value (fst kv)) \<in> set (?top @ map fst row_fields)) \<and> ?rows"
    unfolding validate_mapping_iff by (simp only: ball_conj_distrib)
  moreover have "?closed \<longleftrightarrow> y_kind n = MappingNode \<and> distinct (field_names n)
      \<and> (\<forall>kv\<in>set (pairs_of (y_content n)). trim_space (y_value (fst kv)) \<in> set (?top @ map fst row_fields))"
    unfolding closed_mapping_def set_map image_subset_iff by (rule refl)
  ultimately have "validate_mapping_fields session_fields n = Inr () \<longleftrightarrow> ?closed \<and> ?rows"
    by (simp only: conj_assoc)
  then show ?thesis
    by (auto simp: unmarshal_session_yaml_def rbind_Inr_iff split: option.splits)
qed

theorem session_yaml_closed_witness:
  "unmarshal_session_yaml (\<lambda>_. Some zero_config)
     (Node MappingNode [] [Node ScalarNode ''version'' [], Node ScalarNode ''2'' []]) = Inr zero_config
   \<longleftrightarrow> closed_mapping ([''version'', ''contract_revision'', ''legacy_compatibility_mode''] @ map fst row_fields)
     (Node MappingNode [] [Node ScalarNode ''version'' [], Node ScalarNode ''2'' []])"
proof -
  have "trim_space ''version'' = ''version''" "map_of row_fields ''version'' = None" by code_simp+
  with session_yaml_closed [of "\<lambda>_. Some zero_config"
      "Node MappingNode [] [Node ScalarNode ''version'' [], Node ScalarNode ''2'' []]" zero_config]
  show ?thesis by simp
qed

text \<open>The mapping keys of a tree, at any depth.\<close>

inductive key_in :: "yaml_node \<Rightarrow> string \<Rightarrow> bool" where
  here: "(kn, v) \<in> set (pairs_of cs) \<Longrightarrow> key_in (Node MappingNode s cs) (y_value kn)"
| below: "(kn, v) \<in> set (pairs_of cs) \<Longrightarrow> key_in v key \<Longrightarrow> key_in (Node MappingNode s cs) key"
| child: "kind \<noteq> MappingNode \<Longrightarrow> c \<in> set cs \<Longrightarrow> key_in c key \<Longrightarrow> key_in (Node kind s cs) key"

inductive_simps key_in_node: "key_in (Node kind s cs) key"

lemma sensitive_field_None_iff: "sensitive_field n = None \<longleftrightarrow> (\<forall>key. key_in n key \<longrightarrow> \<not> sensitive_key key)"
proof (induction n rule: sensitive_field.induct)
  case (1 kind v content)
  show ?case
  proof (cases "kind = MappingNode")
    case True
    have below: "(\<not> sensitive_key (y_value (fst kv)) \<and> sensitive_field (snd kv) = None) \<longleftrightarrow>
        \<not> sensitive_key (y_value (fst kv)) \<and> (\<forall>key. key_in (snd kv) key \<longrightarrow> \<not> sensitive_key key)"
      if "kv \<in> set (pairs_of content)" for kv
      using "1.IH"(1) [OF True that] by blast
    have "sensitive_field (Node kind v content) = None \<longleftrightarrow>
        (\<forall>kv\<in>set (pairs_of content). \<not> sensitive_key (y_value (fst kv)) \<and> sensitive_field (snd kv) = None)"
      using True by (auto simp: first_some_None split: if_splits)
    also have "\<dots> \<longleftrightarrow> (\<forall>kv\<in>set (pairs_of content). \<not> sensitive_key (y_value (fst kv))
        \<and> (\<forall>key. key_in (snd kv) key \<longrightarrow> \<not> sensitive_key key))"
      using below by blast
    also have "\<dots> \<longleftrightarrow> (\<forall>key. key_in (Node kind v content) key \<longrightarrow> \<not> sensitive_key key)"
      using True by (auto simp: key_in_node) force+
    finally show ?thesis .
  next
    case False
    with "1.IH"(2) show ?thesis by (simp add: first_some_None key_in_node) blast
  qed
qed

text \<open>
  A delegation document that \<open>UnmarshalYAML\<close> accepts has no key with a sensitive fragment at
  any depth, has a version of 1 or 2 as soon as it has policies or mappings, and never has both
  generations: version 1 comes without mappings and version 2 without policies.
\<close>

theorem delegation_yaml_clean:
  assumes "unmarshal_delegation_yaml version_of decode n = Inr c"
  shows "(\<forall>key. key_in n key \<longrightarrow> \<not> sensitive_key key) \<and> decode n = Some c
    \<and> (has_field ''policies'' n \<or> has_field ''mappings'' n \<longrightarrow> version_of c = 1 \<or> version_of c = 2)
    \<and> (version_of c = 1 \<longrightarrow> \<not> has_field ''mappings'' n) \<and> (version_of c = 2 \<longrightarrow> \<not> has_field ''policies'' n)"
  using assms sensitive_field_None_iff [of n]
  by (auto simp: unmarshal_delegation_yaml_def rbind_Inr_iff split: option.splits if_splits)

definition sample_delegation_yaml :: yaml_node where
  "sample_delegation_yaml =
     Node MappingNode [] [Node ScalarNode ''version'' [], Node ScalarNode ''2'' [],
       Node ScalarNode ''mappings'' [], Node SequenceNode []
         [Node MappingNode [] [Node ScalarNode ''id'' [], Node ScalarNode ''m-1'' []]]]"

theorem delegation_yaml_clean_witness:
  "\<not> has_field ''policies'' sample_delegation_yaml \<and> \<not> key_in sample_delegation_yaml ''client_secret''"
proof -
  have "unmarshal_delegation_yaml (\<lambda>v. v) (\<lambda>_. Some 2) sample_delegation_yaml = Inr (2 :: int)"
    "sensitive_key ''client_secret''" by code_simp+
  with delegation_yaml_clean [OF this(1)] show ?thesis by auto
qed

end
