(* ===== verification/Delegation_Policy.thy ===== *)
theory Delegation_Policy
  imports Authority_Facts
begin

text \<open>
  \<open>internal/delegationpolicy/policy.go\<close>: the snapshot of historical delegation records, version 1
  policies or version 2 agent mappings. A \<open>map[string]RepositoryPolicy\<close> is the list of its
  entries in the order the loop meets them. Package \<open>uuid\<close> is a record of functions. Messages are
  left out of the errors.
\<close>

section \<open>Data\<close>

definition del_legacy_version :: int where "del_legacy_version = 1"
definition del_current_version :: int where "del_current_version = 2"
definition del_maximum_session_ttl :: duration where "del_maximum_session_ttl = 2 * hour"

definition allowed_capabilities :: "string list" where
  "allowed_capabilities =
     [''repo:read'', ''repo:write'', ''pr:read'', ''pr:create'', ''pr:update'', ''pr:comment'', ''pr:review'']"

definition hard_forbidden_capabilities :: "string list" where
  "hard_forbidden_capabilities =
     [''pr:merge'', ''repo:admin'', ''identity:manage'', ''token:manage'', ''access:manage'', ''policy:manage'']"

record role_shape =
  ro_capabilities :: "string list"
  ro_max_ttl :: duration
  ro_requires_tasks :: bool

definition mk_shape :: "string list \<Rightarrow> duration \<Rightarrow> bool \<Rightarrow> role_shape" where
  "mk_shape cs ttl tasks = \<lparr>ro_capabilities = cs, ro_max_ttl = ttl, ro_requires_tasks = tasks\<rparr>"

definition legacy_role_shapes :: "(string \<times> role_shape) list" where
  "legacy_role_shapes =
     [(''implementer-a'', mk_shape [''repo:read'', ''repo:write'', ''pr:create''] (30 * minute) False),
      (''implementer-b'', mk_shape [''repo:read'', ''repo:write'', ''pr:create''] (30 * minute) False),
      (''critic'', mk_shape [''repo:read''] (30 * minute) False),
      (''ci-repair'', mk_shape [''repo:read'', ''repo:write'', ''pr:create''] (15 * minute) True),
      (''coordinator'', mk_shape [''repo:read''] (15 * minute) False),
      (''planner'', mk_shape [''repo:read''] (15 * minute) False)]"

record del_policy =
  dp_id :: string
  dp_issuer :: string
  dp_workspace_id :: string
  dp_target :: string
  dp_principal :: string
  dp_repositories :: "(string \<times> string list) list"
  dp_max_session_ttl :: string
  dp_allow_merge :: bool
  dp_status :: string
  dp_policy_version :: string
  dp_duration :: duration

record agent_mapping =
  am_id :: string
  am_issuer :: string
  am_workspace_id :: string
  am_agent_id :: string
  am_role :: string
  am_task_ids :: "string list"
  am_target :: string
  am_repository :: string
  am_principal :: string
  am_max_capabilities :: "string list"
  am_max_session_ttl :: string
  am_allow_merge :: bool
  am_status :: string
  am_policy_version :: string
  am_duration :: duration

record del_config =
  dc_version :: int
  dc_policies :: "del_policy list option"
  dc_mappings :: "agent_mapping list option"

record selector =
  se_issuer :: string
  se_workspace_id :: string
  se_agent_id :: string
  se_task_id :: string
  se_target :: string
  se_repository :: string

text \<open>A missing policy or mapping is the zero value in Go; here it is \<open>None\<close>.\<close>

record resolved_policy =
  rv_schema_version :: int
  rv_policy :: "del_policy option"
  rv_mapping :: "agent_mapping option"
  rv_repository :: string
  rv_capabilities :: "string list"

record del_set =
  ds_config :: del_config
  ds_legacy :: "string \<rightharpoonup> del_policy"
  ds_selectors :: "string \<rightharpoonup> agent_mapping"

record 'u uuid_lib =
  ul_parse :: "string \<Rightarrow> 'u option"
  ul_nil :: 'u
  ul_string :: "'u \<Rightarrow> string"

datatype del_error =
    DelRequired | DelStatus | DelAllowMerge | DelTtl | DelTtlMaximum | DelNoRepositories | DelBadRepository
  | DelDuplicateRepository | DelCapsEmpty | DelCapForbidden | DelCapUnsupported | DelCapDuplicate | DelBadUuid
  | DelUnknownRole | DelCapWidens | DelTtlWidens | DelBadTask | DelDuplicateTask | DelTasksRequired
  | DelTasksForbidden | DelVersion | DelMixed | DelDuplicateId | DelDuplicateKey
  | DelPolicyNotFound | DelRepositoryNotAllowed

section \<open>Operations\<close>

definition is_canonical_uuid :: "'u uuid_lib \<Rightarrow> string \<Rightarrow> bool" where
  "is_canonical_uuid ul v =
     (case ul_parse ul v of None \<Rightarrow> False | Some u \<Rightarrow> u \<noteq> ul_nil ul \<and> ul_string ul u = v)"

definition del_repository :: "string \<Rightarrow> del_error + string" where
  "del_repository raw =
     (case split_on (CHR ''/'') raw of
        [a, b] \<Rightarrow> if trim_space a = [] \<or> trim_space b = [] then Inl DelBadRepository
                  else Inr (trim_space a @ ''/'' @ trim_space b)
      | _ \<Rightarrow> Inl DelBadRepository)"

definition capability_step :: "bool \<Rightarrow> string \<Rightarrow> string list \<Rightarrow> del_error + string list" where
  "capability_step reject_duplicates raw caps =
     (let c = fold_key raw
      in if c \<in> set hard_forbidden_capabilities then Inl DelCapForbidden
         else if c \<notin> set allowed_capabilities then Inl DelCapUnsupported
         else if c \<in> set caps then (if reject_duplicates then Inl DelCapDuplicate else Inr caps)
         else Inr (caps @ [c]))"

definition del_capabilities :: "string list \<Rightarrow> bool \<Rightarrow> del_error + string list" where
  "del_capabilities input reject_duplicates =
     (if input = [] then Inl DelCapsEmpty
      else rbind (rfold (capability_step reject_duplicates) input []) (\<lambda>caps. Inr (sort caps)))"

definition repository_step ::
  "string \<times> string list \<Rightarrow> (string \<times> string list) list \<Rightarrow> del_error + (string \<times> string list) list" where
  "repository_step entry acc =
     rbind (del_repository (fst entry)) (\<lambda>repo.
     if repo \<in> set (map fst acc) then Inl DelDuplicateRepository
     else rbind (del_capabilities (snd entry) False) (\<lambda>caps. Inr (acc @ [(repo, caps)])))"

definition trimmed_policy :: "del_policy \<Rightarrow> del_policy" where
  "trimmed_policy p =
     p\<lparr>dp_id := trim_space (dp_id p), dp_issuer := trim_space (dp_issuer p),
       dp_workspace_id := trim_space (dp_workspace_id p), dp_target := trim_space (dp_target p),
       dp_principal := trim_space (dp_principal p), dp_max_session_ttl := trim_space (dp_max_session_ttl p),
       dp_status := fold_key (dp_status p), dp_policy_version := trim_space (dp_policy_version p)\<rparr>"

definition positive_duration :: "string \<Rightarrow> del_error + duration" where
  "positive_duration s =
     (case parse_duration s of None \<Rightarrow> Inl DelTtl | Some d \<Rightarrow> if d \<le> 0 then Inl DelTtl else Inr d)"

definition normalize_del_policy :: "del_policy \<Rightarrow> del_error + del_policy" where
  "normalize_del_policy input =
     (let p = trimmed_policy input
      in rbind (check (\<not> (dp_id p = [] \<or> dp_issuer p = [] \<or> dp_workspace_id p = [] \<or> dp_target p = []
             \<or> dp_principal p = [] \<or> dp_max_session_ttl p = [] \<or> dp_policy_version p = [])) DelRequired) (\<lambda>_.
         rbind (check (dp_status p = active \<or> dp_status p = disabled) DelStatus) (\<lambda>_.
         rbind (check (\<not> dp_allow_merge p) DelAllowMerge) (\<lambda>_.
         rbind (positive_duration (dp_max_session_ttl p)) (\<lambda>ttl.
         rbind (check (ttl \<le> del_maximum_session_ttl) DelTtlMaximum) (\<lambda>_.
         rbind (check (dp_repositories p \<noteq> []) DelNoRepositories) (\<lambda>_.
         rbind (rfold repository_step (dp_repositories p) []) (\<lambda>repos.
         Inr (p\<lparr>dp_duration := ttl, dp_repositories := repos\<rparr>)))))))))"

definition trimmed_mapping :: "agent_mapping \<Rightarrow> agent_mapping" where
  "trimmed_mapping m =
     m\<lparr>am_id := trim_space (am_id m), am_issuer := trim_space (am_issuer m),
       am_workspace_id := trim_space (am_workspace_id m), am_agent_id := trim_space (am_agent_id m),
       am_role := fold_key (am_role m), am_target := trim_space (am_target m),
       am_repository := trim_space (am_repository m), am_principal := trim_space (am_principal m),
       am_max_session_ttl := trim_space (am_max_session_ttl m), am_status := fold_key (am_status m),
       am_policy_version := trim_space (am_policy_version m)\<rparr>"

definition task_step :: "'u uuid_lib \<Rightarrow> string \<Rightarrow> string list \<Rightarrow> del_error + string list" where
  "task_step ul raw tasks =
     (let t = trim_space raw
      in if \<not> is_canonical_uuid ul t then Inl DelBadTask
         else if t \<in> set tasks then Inl DelDuplicateTask
         else Inr (tasks @ [t]))"

definition mapping_required :: "agent_mapping \<Rightarrow> bool" where
  "mapping_required m \<longleftrightarrow>
     \<not> (am_id m = [] \<or> am_issuer m = [] \<or> am_workspace_id m = [] \<or> am_agent_id m = [] \<or> am_role m = []
        \<or> am_target m = [] \<or> am_repository m = [] \<or> am_principal m = [] \<or> am_max_session_ttl m = []
        \<or> am_policy_version m = [])"

definition normalize_agent_mapping :: "'u uuid_lib \<Rightarrow> agent_mapping \<Rightarrow> del_error + agent_mapping" where
  "normalize_agent_mapping ul input =
     (let m = trimmed_mapping input
      in rbind (check (mapping_required m) DelRequired) (\<lambda>_.
         rbind (check (is_canonical_uuid ul (am_workspace_id m)) DelBadUuid) (\<lambda>_.
         rbind (check (is_canonical_uuid ul (am_agent_id m)) DelBadUuid) (\<lambda>_.
         rbind (case map_of legacy_role_shapes (am_role m) of None \<Rightarrow> Inl DelUnknownRole | Some sh \<Rightarrow> Inr sh) (\<lambda>ceiling.
         rbind (check (am_status m = active \<or> am_status m = disabled) DelStatus) (\<lambda>_.
         rbind (check (\<not> am_allow_merge m) DelAllowMerge) (\<lambda>_.
         rbind (del_repository (am_repository m)) (\<lambda>repo.
         rbind (del_capabilities (am_max_capabilities m) True) (\<lambda>caps.
         rbind (check (list_all (\<lambda>c. c \<in> set (ro_capabilities ceiling)) caps) DelCapWidens) (\<lambda>_.
         rbind (positive_duration (am_max_session_ttl m)) (\<lambda>ttl.
         rbind (check (ttl \<le> ro_max_ttl ceiling) DelTtlWidens) (\<lambda>_.
         rbind (rfold (task_step ul) (am_task_ids m) []) (\<lambda>tasks.
         rbind (check (\<not> (ro_requires_tasks ceiling \<and> tasks = [])) DelTasksRequired) (\<lambda>_.
         rbind (check (\<not> (\<not> ro_requires_tasks ceiling \<and> tasks \<noteq> [])) DelTasksForbidden) (\<lambda>_.
         Inr (m\<lparr>am_repository := repo, am_max_capabilities := caps, am_duration := ttl,
                am_task_ids := sort tasks\<rparr>))))))))))))))))"

definition trust_key :: "string \<Rightarrow> string \<Rightarrow> string \<Rightarrow> string" where
  "trust_key issuer workspace target = trim_space issuer @ nul @ trim_space workspace @ nul @ trim_space target"

definition selector_key :: "string \<Rightarrow> string \<Rightarrow> string \<Rightarrow> string \<Rightarrow> string \<Rightarrow> string" where
  "selector_key issuer workspace agent target repository =
     trim_space issuer @ nul @ trim_space workspace @ nul @ trim_space agent @ nul @ trim_space target
     @ nul @ trim_space repository"

definition policy_trust_key :: "del_policy \<Rightarrow> string" where
  "policy_trust_key p = trust_key (dp_issuer p) (dp_workspace_id p) (dp_target p)"

definition mapping_selector_key :: "agent_mapping \<Rightarrow> string" where
  "mapping_selector_key m =
     selector_key (am_issuer m) (am_workspace_id m) (am_agent_id m) (am_target m) (am_repository m)"

text \<open>The loops of \<open>newLegacySet\<close> and \<open>newAgentMappingSet\<close>: the rows kept, and the index.\<close>

definition add_legacy_policy ::
  "del_policy \<Rightarrow> del_policy list \<times> (string \<rightharpoonup> del_policy) \<Rightarrow> del_error + del_policy list \<times> (string \<rightharpoonup> del_policy)" where
  "add_legacy_policy c st =
     rbind (normalize_del_policy c) (\<lambda>p.
     if dp_id p \<in> dp_id ` set (fst st) then Inl DelDuplicateId
     else if snd st (policy_trust_key p) \<noteq> None then Inl DelDuplicateKey
     else Inr (fst st @ [p], (snd st)(policy_trust_key p \<mapsto> p)))"

definition new_legacy_set :: "del_config \<Rightarrow> del_error + del_set" where
  "new_legacy_set c =
     rbind (rfold add_legacy_policy (elems (dc_policies c)) ([], Map.empty)) (\<lambda>(ps, index).
     Inr \<lparr>ds_config = \<lparr>dc_version = del_legacy_version, dc_policies = Some (sort_key dp_id ps), dc_mappings = None\<rparr>,
          ds_legacy = index, ds_selectors = Map.empty\<rparr>)"

definition add_agent_mapping ::
  "'u uuid_lib \<Rightarrow> agent_mapping \<Rightarrow> agent_mapping list \<times> (string \<rightharpoonup> agent_mapping)
     \<Rightarrow> del_error + agent_mapping list \<times> (string \<rightharpoonup> agent_mapping)" where
  "add_agent_mapping ul c st =
     rbind (normalize_agent_mapping ul c) (\<lambda>m.
     if am_id m \<in> am_id ` set (fst st) then Inl DelDuplicateId
     else if snd st (mapping_selector_key m) \<noteq> None then Inl DelDuplicateKey
     else Inr (fst st @ [m], (snd st)(mapping_selector_key m \<mapsto> m)))"

definition new_agent_mapping_set :: "'u uuid_lib \<Rightarrow> del_config \<Rightarrow> del_error + del_set" where
  "new_agent_mapping_set ul c =
     rbind (rfold (add_agent_mapping ul) (elems (dc_mappings c)) ([], Map.empty)) (\<lambda>(ms, index).
     Inr \<lparr>ds_config = \<lparr>dc_version = del_current_version, dc_policies = None, dc_mappings = Some (sort_key am_id ms)\<rparr>,
          ds_legacy = Map.empty, ds_selectors = index\<rparr>)"

definition zero_del_config :: del_config where
  "zero_del_config = \<lparr>dc_version = 0, dc_policies = None, dc_mappings = None\<rparr>"

definition new_delegation :: "'u uuid_lib \<Rightarrow> del_config \<Rightarrow> del_error + del_set" where
  "new_delegation ul c =
     (if dc_version c = 0 \<and> dc_policies c = None \<and> dc_mappings c = None
      then Inr \<lparr>ds_config = zero_del_config, ds_legacy = Map.empty, ds_selectors = Map.empty\<rparr>
      else if dc_version c \<noteq> del_legacy_version \<and> dc_version c \<noteq> del_current_version then Inl DelVersion
      else if dc_version c = del_legacy_version
      then (if dc_mappings c \<noteq> None then Inl DelMixed else new_legacy_set c)
      else if dc_policies c \<noteq> None then Inl DelMixed else new_agent_mapping_set ul c)"

definition resolve_delegation :: "del_set option \<Rightarrow> selector \<Rightarrow> del_error + resolved_policy" where
  "resolve_delegation so se =
     (case so of
        None \<Rightarrow> Inl DelPolicyNotFound
      | Some s \<Rightarrow>
          (case del_repository (se_repository se) of
             Inl _ \<Rightarrow> Inl DelRepositoryNotAllowed
           | Inr repo \<Rightarrow>
               if dc_version (ds_config s) = del_legacy_version then
                 (case ds_legacy s (trust_key (se_issuer se) (se_workspace_id se) (se_target se)) of
                    None \<Rightarrow> Inl DelPolicyNotFound
                  | Some p \<Rightarrow>
                      (case map_of (dp_repositories p) repo of
                         None \<Rightarrow> Inl DelRepositoryNotAllowed
                       | Some caps \<Rightarrow>
                           Inr \<lparr>rv_schema_version = del_legacy_version, rv_policy = Some p, rv_mapping = None,
                                rv_repository = repo, rv_capabilities = caps\<rparr>))
               else if dc_version (ds_config s) \<noteq> del_current_version then Inl DelPolicyNotFound
               else
                 (case ds_selectors s (selector_key (se_issuer se) (se_workspace_id se) (se_agent_id se)
                         (se_target se) repo) of
                    None \<Rightarrow> Inl DelPolicyNotFound
                  | Some m \<Rightarrow>
                      if am_task_ids m \<noteq> [] \<and> \<not> sorted_member (am_task_ids m) (trim_space (se_task_id se))
                      then Inl DelPolicyNotFound
                      else Inr \<lparr>rv_schema_version = del_current_version, rv_policy = None, rv_mapping = Some m,
                                rv_repository = repo, rv_capabilities = am_max_capabilities m\<rparr>)))"

definition policy_max_duration :: "del_policy \<Rightarrow> duration" where
  "policy_max_duration p =
     (if dp_duration p > 0 then dp_duration p
      else case parse_duration (dp_max_session_ttl p) of Some d \<Rightarrow> d | None \<Rightarrow> 0)"

definition mapping_max_duration :: "agent_mapping \<Rightarrow> duration" where
  "mapping_max_duration m =
     (if am_duration m > 0 then am_duration m
      else case parse_duration (am_max_session_ttl m) of Some d \<Rightarrow> d | None \<Rightarrow> 0)"

text \<open>The accessors of a resolved policy; a field of the zero value is empty.\<close>

definition rv_pick :: "(agent_mapping \<Rightarrow> 'a) \<Rightarrow> (del_policy \<Rightarrow> 'a) \<Rightarrow> 'a \<Rightarrow> resolved_policy \<Rightarrow> 'a" where
  "rv_pick f g zero r =
     (if rv_schema_version r = del_current_version then (case rv_mapping r of Some m \<Rightarrow> f m | None \<Rightarrow> zero)
      else (case rv_policy r of Some p \<Rightarrow> g p | None \<Rightarrow> zero))"

definition rv_id :: "resolved_policy \<Rightarrow> string" where "rv_id = rv_pick am_id dp_id []"
definition rv_issuer :: "resolved_policy \<Rightarrow> string" where "rv_issuer = rv_pick am_issuer dp_issuer []"
definition rv_workspace_id :: "resolved_policy \<Rightarrow> string" where
  "rv_workspace_id = rv_pick am_workspace_id dp_workspace_id []"
definition rv_agent_id :: "resolved_policy \<Rightarrow> string" where "rv_agent_id = rv_pick am_agent_id (\<lambda>_. []) []"
definition rv_role :: "resolved_policy \<Rightarrow> string" where
  "rv_role r = (if rv_schema_version r = del_current_version then rv_pick am_role (\<lambda>_. []) [] r else ''legacy-workspace'')"
definition rv_task_ids :: "resolved_policy \<Rightarrow> string list" where "rv_task_ids = rv_pick am_task_ids (\<lambda>_. []) []"
definition rv_target :: "resolved_policy \<Rightarrow> string" where "rv_target = rv_pick am_target dp_target []"
definition rv_principal :: "resolved_policy \<Rightarrow> string" where "rv_principal = rv_pick am_principal dp_principal []"
definition rv_max_session_ttl :: "resolved_policy \<Rightarrow> string" where
  "rv_max_session_ttl = rv_pick am_max_session_ttl dp_max_session_ttl []"
definition rv_allow_merge :: "resolved_policy \<Rightarrow> bool" where "rv_allow_merge = rv_pick am_allow_merge dp_allow_merge False"
definition rv_status :: "resolved_policy \<Rightarrow> string" where "rv_status = rv_pick am_status dp_status []"
definition rv_policy_version :: "resolved_policy \<Rightarrow> string" where
  "rv_policy_version = rv_pick am_policy_version dp_policy_version []"
definition rv_max_duration :: "resolved_policy \<Rightarrow> duration" where
  "rv_max_duration = rv_pick mapping_max_duration policy_max_duration 0"

definition delegation_config :: "del_set option \<Rightarrow> del_config" where
  "delegation_config so =
     (case so of
        None \<Rightarrow> zero_del_config
      | Some s \<Rightarrow>
          if dc_version (ds_config s) = del_legacy_version
          then \<lparr>dc_version = del_legacy_version, dc_policies = Some (elems (dc_policies (ds_config s))), dc_mappings = None\<rparr>
          else if dc_version (ds_config s) = del_current_version
          then \<lparr>dc_version = del_current_version, dc_policies = None, dc_mappings = Some (elems (dc_mappings (ds_config s)))\<rparr>
          else zero_del_config)"


section \<open>What the normalisers establish\<close>

lemma del_repository_Inr:
  "del_repository raw = Inr r \<longleftrightarrow>
     (\<exists>a b. split_on (CHR ''/'') raw = [a, b] \<and> trim_space a \<noteq> [] \<and> trim_space b \<noteq> []
       \<and> r = trim_space a @ CHR ''/'' # trim_space b)"
  by (auto simp: del_repository_def split: list.splits)

lemma del_repository_fixed:
  assumes "del_repository raw = Inr r"
  shows "del_repository r = Inr r" "trim_space r = r" "r \<noteq> []"
proof -
  obtain a b where ab: "split_on (CHR ''/'') raw = [a, b]" "trim_space a \<noteq> []" "trim_space b \<noteq> []"
    "r = trim_space a @ CHR ''/'' # trim_space b"
    using assms by (auto simp: del_repository_Inr)
  have "CHR ''/'' \<notin> set (trim_space a)" "CHR ''/'' \<notin> set (trim_space b)"
    using split_on_parts [of _ "CHR ''/''" raw] ab(1) set_trim_space by fastforce+
  then have "split_on (CHR ''/'') r = [trim_space a, trim_space b]"
    by (simp add: ab(4) split_on_append split_on_no_sep)
  with ab show "del_repository r = Inr r" by (simp add: del_repository_Inr)
  show "trim_space r = r" unfolding ab(4) by (rule trim_space_around) (simp_all add: slash_no_space)
  show "r \<noteq> []" by (simp add: ab(4))
qed

definition caps_normal :: "string list \<Rightarrow> bool" where
  "caps_normal cs \<longleftrightarrow> cs \<noteq> [] \<and> sorted cs \<and> distinct cs \<and> set cs \<subseteq> set allowed_capabilities"

lemma allowed_fold: "c \<in> set allowed_capabilities \<Longrightarrow> fold_key c = c \<and> c \<notin> set hard_forbidden_capabilities"
proof -
  have "list_all (\<lambda>c. fold_key c = c \<and> c \<notin> set hard_forbidden_capabilities) allowed_capabilities" by code_simp
  then show "c \<in> set allowed_capabilities \<Longrightarrow> fold_key c = c \<and> c \<notin> set hard_forbidden_capabilities"
    by (simp add: list_all_iff)
qed

lemma capability_step_Inr [res_simps]:
  "capability_step rd raw caps = Inr caps' \<longleftrightarrow>
     fold_key raw \<in> set allowed_capabilities
     \<and> (if fold_key raw \<in> set caps then \<not> rd \<and> caps' = caps else caps' = caps @ [fold_key raw])"
  using allowed_fold by (auto simp: capability_step_def Let_def)

lemma capabilities_loop:
  assumes "rfold (capability_step rd) raws caps = Inr caps'"
    and "distinct caps" "set caps \<subseteq> set allowed_capabilities" "caps \<noteq> [] \<or> raws \<noteq> []"
  shows "distinct caps' \<and> set caps' \<subseteq> set allowed_capabilities \<and> caps' \<noteq> []"
  using assms
proof (induction raws arbitrary: caps)
  case Nil
  then show ?case by simp
next
  case (Cons raw raws)
  from Cons.prems(1) obtain c1 where c1: "capability_step rd raw caps = Inr c1"
    "rfold (capability_step rd) raws c1 = Inr caps'" by (auto simp: rbind_Inr_iff)
  have "distinct c1" "set c1 \<subseteq> set allowed_capabilities" "c1 \<noteq> []"
    using c1(1) Cons.prems(2,3) by (auto simp: capability_step_Inr split: if_splits)
  with Cons.IH [OF c1(2)] show ?case by blast
qed

lemma capabilities_fixed_loop:
  assumes "distinct (caps @ cs)" "set cs \<subseteq> set allowed_capabilities"
  shows "rfold (capability_step rd) cs caps = Inr (caps @ cs)"
  using assms
proof (induction cs arbitrary: caps)
  case Nil
  then show ?case by simp
next
  case (Cons c cs)
  then have "capability_step rd c caps = Inr (caps @ [c])" using allowed_fold [of c] by (auto simp: capability_step_Inr)
  with Cons show ?case by simp
qed

interpretation capabilities: registration "\<lambda>cs. del_capabilities cs rd" caps_normal for rd
proof
  show "caps_normal y" if "del_capabilities x rd = Inr y" for x y
    using that capabilities_loop [of rd x "[]"]
    by (auto simp: del_capabilities_def rbind_Inr_iff caps_normal_def split: if_splits) (metis set_empty set_sort)
  show "del_capabilities x rd = Inr x" if "caps_normal x" for x
    using that capabilities_fixed_loop [of "[]" x rd] by (simp add: del_capabilities_def caps_normal_def sorted_sort_id)
qed

lemma positive_duration_Inr [res_simps]: "positive_duration s = Inr d \<longleftrightarrow> parse_duration s = Some d \<and> 0 < d"
  by (auto simp: positive_duration_def split: option.splits)

definition policy_normal :: "del_policy \<Rightarrow> bool" where
  "policy_normal p \<longleftrightarrow>
     trimmed_policy p = p
     \<and> dp_id p \<noteq> [] \<and> dp_issuer p \<noteq> [] \<and> dp_workspace_id p \<noteq> [] \<and> dp_target p \<noteq> [] \<and> dp_principal p \<noteq> []
     \<and> dp_max_session_ttl p \<noteq> [] \<and> dp_policy_version p \<noteq> []
     \<and> (dp_status p = active \<or> dp_status p = disabled) \<and> \<not> dp_allow_merge p
     \<and> parse_duration (dp_max_session_ttl p) = Some (dp_duration p) \<and> 0 < dp_duration p
     \<and> dp_duration p \<le> del_maximum_session_ttl
     \<and> dp_repositories p \<noteq> [] \<and> distinct (map fst (dp_repositories p))
     \<and> (\<forall>(r, cs)\<in>set (dp_repositories p). del_repository r = Inr r \<and> caps_normal cs)"

definition repositories_normal :: "(string \<times> string list) list \<Rightarrow> bool" where
  "repositories_normal rs \<longleftrightarrow> distinct (map fst rs) \<and> (\<forall>(r, cs)\<in>set rs. del_repository r = Inr r \<and> caps_normal cs)"

lemma repository_step_Inr [res_simps]:
  "repository_step e acc = Inr acc' \<longleftrightarrow>
     (\<exists>r cs. del_repository (fst e) = Inr r \<and> r \<notin> set (map fst acc) \<and> del_capabilities (snd e) False = Inr cs
       \<and> acc' = acc @ [(r, cs)])"
  by (auto simp: repository_step_def rbind_Inr_iff split: if_splits)

lemma repositories_loop:
  assumes "rfold repository_step es acc = Inr rs" "repositories_normal acc"
  shows "repositories_normal rs \<and> length rs = length acc + length es"
  using assms
proof (induction es arbitrary: acc)
  case Nil
  then show ?case by simp
next
  case (Cons e es)
  from Cons.prems(1) obtain r cs where e: "del_repository (fst e) = Inr r" "r \<notin> set (map fst acc)"
    "del_capabilities (snd e) False = Inr cs" "rfold repository_step es (acc @ [(r, cs)]) = Inr rs"
    by (auto simp: rbind_Inr_iff repository_step_Inr)
  have "repositories_normal (acc @ [(r, cs)])"
    using Cons.prems(2) e(2) del_repository_fixed(1) [OF e(1)] capabilities.norm_normal [OF e(3)]
    by (auto simp: repositories_normal_def)
  from Cons.IH [OF e(4) this] show ?case by simp
qed

lemma repositories_fixed_loop:
  assumes "repositories_normal (acc @ es)"
  shows "rfold repository_step es acc = Inr (acc @ es)"
  using assms
proof (induction es arbitrary: acc)
  case Nil
  then show ?case by simp
next
  case (Cons e es)
  have "repository_step e acc = Inr (acc @ [e])"
    using Cons.prems capabilities.norm_fixed [where rd = False]
    by (cases e) (auto simp: repository_step_Inr repositories_normal_def)
  with Cons show ?case by simp
qed

lemma trimmed_policy_idem [simp]: "trimmed_policy (trimmed_policy p) = trimmed_policy p"
  by (simp add: trimmed_policy_def)

lemma normalize_del_policy_Inr:
  "normalize_del_policy i = Inr q \<longleftrightarrow>
     (let p = trimmed_policy i
      in dp_id p \<noteq> [] \<and> dp_issuer p \<noteq> [] \<and> dp_workspace_id p \<noteq> [] \<and> dp_target p \<noteq> [] \<and> dp_principal p \<noteq> []
         \<and> dp_max_session_ttl p \<noteq> [] \<and> dp_policy_version p \<noteq> [] \<and> (dp_status p = active \<or> dp_status p = disabled)
         \<and> \<not> dp_allow_merge p \<and> dp_repositories p \<noteq> []
         \<and> (\<exists>ttl repos. parse_duration (dp_max_session_ttl p) = Some ttl \<and> 0 < ttl \<and> ttl \<le> del_maximum_session_ttl
              \<and> rfold repository_step (dp_repositories p) [] = Inr repos
              \<and> q = p\<lparr>dp_duration := ttl, dp_repositories := repos\<rparr>))"
  by (simp add: normalize_del_policy_def Let_def rbind_Inr_iff check_Inr_iff positive_duration_Inr) blast

interpretation del_policies: registration normalize_del_policy policy_normal
proof
  fix i q assume "normalize_del_policy i = Inr q"
  then obtain ttl repos where p: "parse_duration (dp_max_session_ttl (trimmed_policy i)) = Some ttl" "0 < ttl"
    "ttl \<le> del_maximum_session_ttl" "rfold repository_step (dp_repositories (trimmed_policy i)) [] = Inr repos"
    "q = (trimmed_policy i)\<lparr>dp_duration := ttl, dp_repositories := repos\<rparr>"
    "dp_repositories (trimmed_policy i) \<noteq> []" "\<not> dp_allow_merge (trimmed_policy i)"
    "dp_status (trimmed_policy i) = active \<or> dp_status (trimmed_policy i) = disabled"
    and req: "dp_id (trimmed_policy i) \<noteq> [] \<and> dp_issuer (trimmed_policy i) \<noteq> [] \<and> dp_workspace_id (trimmed_policy i) \<noteq> []
      \<and> dp_target (trimmed_policy i) \<noteq> [] \<and> dp_principal (trimmed_policy i) \<noteq> []
      \<and> dp_max_session_ttl (trimmed_policy i) \<noteq> [] \<and> dp_policy_version (trimmed_policy i) \<noteq> []"
    unfolding normalize_del_policy_Inr Let_def by blast
  have "repositories_normal repos \<and> repos \<noteq> []"
    using repositories_loop [OF p(4)] p(6) by (auto simp: repositories_normal_def)
  moreover have "trimmed_policy q = q" using p(5) by (simp add: trimmed_policy_def)
  ultimately show "policy_normal q"
    using p req by (simp add: policy_normal_def repositories_normal_def)
next
  fix p assume n: "policy_normal p"
  then have "rfold repository_step (dp_repositories p) [] = Inr (dp_repositories p)"
    using repositories_fixed_loop [of "[]" "dp_repositories p"] by (simp add: policy_normal_def repositories_normal_def)
  with n show "normalize_del_policy p = Inr p"
    unfolding normalize_del_policy_Inr policy_normal_def by simp
qed


text \<open>A mapping within the ceiling of its role.\<close>

definition within_ceiling :: "agent_mapping \<Rightarrow> bool" where
  "within_ceiling m \<longleftrightarrow>
     (\<exists>sh. map_of legacy_role_shapes (am_role m) = Some sh
       \<and> set (am_max_capabilities m) \<subseteq> set (ro_capabilities sh) \<and> am_duration m \<le> ro_max_ttl sh
       \<and> (ro_requires_tasks sh \<longleftrightarrow> am_task_ids m \<noteq> []))"

definition mapping_normal :: "'u uuid_lib \<Rightarrow> agent_mapping \<Rightarrow> bool" where
  "mapping_normal ul m \<longleftrightarrow>
     trimmed_mapping m = m \<and> mapping_required m
     \<and> is_canonical_uuid ul (am_workspace_id m) \<and> is_canonical_uuid ul (am_agent_id m)
     \<and> (am_status m = active \<or> am_status m = disabled) \<and> \<not> am_allow_merge m
     \<and> del_repository (am_repository m) = Inr (am_repository m) \<and> caps_normal (am_max_capabilities m)
     \<and> parse_duration (am_max_session_ttl m) = Some (am_duration m) \<and> 0 < am_duration m
     \<and> sorted (am_task_ids m) \<and> distinct (am_task_ids m)
     \<and> (\<forall>t\<in>set (am_task_ids m). trim_space t = t \<and> is_canonical_uuid ul t)
     \<and> within_ceiling m"

definition clean_task :: "'u uuid_lib \<Rightarrow> string \<Rightarrow> del_error + string" where
  "clean_task ul raw = (if is_canonical_uuid ul (trim_space raw) then Inr (trim_space raw) else Inl DelBadTask)"

lemma task_step_collect: "task_step ul = collect (clean_task ul) DelDuplicateTask"
  by (auto simp: fun_eq_iff task_step_def collect_def clean_task_def Let_def)

lemma trimmed_mapping_idem [simp]: "trimmed_mapping (trimmed_mapping m) = trimmed_mapping m"
  by (simp add: trimmed_mapping_def)

lemma normalize_agent_mapping_Inr:
  "normalize_agent_mapping ul i = Inr q \<longleftrightarrow>
     (let m = trimmed_mapping i
      in mapping_required m \<and> is_canonical_uuid ul (am_workspace_id m) \<and> is_canonical_uuid ul (am_agent_id m)
         \<and> (am_status m = active \<or> am_status m = disabled) \<and> \<not> am_allow_merge m
         \<and> (\<exists>sh repo caps ttl tasks. map_of legacy_role_shapes (am_role m) = Some sh
              \<and> del_repository (am_repository m) = Inr repo \<and> del_capabilities (am_max_capabilities m) True = Inr caps
              \<and> set caps \<subseteq> set (ro_capabilities sh) \<and> parse_duration (am_max_session_ttl m) = Some ttl \<and> 0 < ttl
              \<and> ttl \<le> ro_max_ttl sh \<and> rfold (task_step ul) (am_task_ids m) [] = Inr tasks
              \<and> (ro_requires_tasks sh \<longleftrightarrow> tasks \<noteq> [])
              \<and> q = m\<lparr>am_repository := repo, am_max_capabilities := caps, am_duration := ttl, am_task_ids := sort tasks\<rparr>))"
proof -
  have role: "(case map_of legacy_role_shapes k of None \<Rightarrow> Inl DelUnknownRole | Some sh \<Rightarrow> Inr sh) = Inr sh
      \<longleftrightarrow> map_of legacy_role_shapes k = Some sh" for k sh
    by (simp split: option.split)
  have sub: "list_all (\<lambda>c. c \<in> set xs) ys \<longleftrightarrow> set ys \<subseteq> set xs" for xs ys :: "string list"
    by (auto simp: list_all_iff)
  show ?thesis
    unfolding normalize_agent_mapping_def Let_def rbind_Inr_iff check_Inr_iff positive_duration_Inr role sub sum.inject
    by blast
qed

interpretation del_mappings: registration "normalize_agent_mapping ul" "mapping_normal ul" for ul
proof
  fix i q assume "normalize_agent_mapping ul i = Inr q"
  then obtain sh repo caps ttl tasks where m: "map_of legacy_role_shapes (am_role (trimmed_mapping i)) = Some sh"
    "del_repository (am_repository (trimmed_mapping i)) = Inr repo"
    "del_capabilities (am_max_capabilities (trimmed_mapping i)) True = Inr caps"
    "set caps \<subseteq> set (ro_capabilities sh)" "parse_duration (am_max_session_ttl (trimmed_mapping i)) = Some ttl" "0 < ttl"
    "ttl \<le> ro_max_ttl sh" "rfold (task_step ul) (am_task_ids (trimmed_mapping i)) [] = Inr tasks"
    "ro_requires_tasks sh \<longleftrightarrow> tasks \<noteq> []"
    and q: "q = (trimmed_mapping i)\<lparr>am_repository := repo, am_max_capabilities := caps, am_duration := ttl, am_task_ids := sort tasks\<rparr>"
    and o: "mapping_required (trimmed_mapping i)" "is_canonical_uuid ul (am_workspace_id (trimmed_mapping i))"
      "is_canonical_uuid ul (am_agent_id (trimmed_mapping i))"
      "am_status (trimmed_mapping i) = active \<or> am_status (trimmed_mapping i) = disabled" "\<not> am_allow_merge (trimmed_mapping i)"
    unfolding normalize_agent_mapping_Inr Let_def by blast
  note repo = del_repository_fixed [OF m(2)]
  have "distinct tasks \<and> (\<forall>t\<in>set tasks. trim_space t = t \<and> is_canonical_uuid ul t)"
    using collect_result [OF m(8) [unfolded task_step_collect]] by (auto simp: clean_task_def split: if_splits)
  moreover have "trimmed_mapping q = q" using q repo(2) by (simp add: trimmed_mapping_def)
  moreover have "mapping_required q" using q o(1) repo(3) by (simp add: mapping_required_def)
  moreover have "within_ceiling q" using q m by (auto simp: within_ceiling_def) (metis set_empty set_sort)+
  ultimately show "mapping_normal ul q"
    using q o m repo capabilities.norm_normal [OF m(3)] by (simp add: mapping_normal_def)
next
  fix m assume n: "mapping_normal ul m"
  then have "rfold (task_step ul) (am_task_ids m) [] = Inr (am_task_ids m)"
    unfolding task_step_collect by (subst collect_fixed) (auto simp: mapping_normal_def clean_task_def)
  with n show "normalize_agent_mapping ul m = Inr m"
    unfolding normalize_agent_mapping_Inr mapping_normal_def within_ceiling_def Let_def
    by (elim conjE exE) (simp add: capabilities.norm_fixed sorted_sort_id)
qed

section \<open>The invariant of a snapshot\<close>

definition policies_ok :: "del_policy list \<Rightarrow> (string \<rightharpoonup> del_policy) \<Rightarrow> bool" where
  "policies_ok ps index \<longleftrightarrow>
     indexed policy_trust_key index ps \<and> distinct (map dp_id ps) \<and> (\<forall>p\<in>set ps. policy_normal p)"

definition mappings_ok :: "'u uuid_lib \<Rightarrow> agent_mapping list \<Rightarrow> (string \<rightharpoonup> agent_mapping) \<Rightarrow> bool" where
  "mappings_ok ul ms index \<longleftrightarrow>
     indexed mapping_selector_key index ms \<and> distinct (map am_id ms) \<and> (\<forall>m\<in>set ms. mapping_normal ul m)"

definition delegation_ok :: "'u uuid_lib \<Rightarrow> del_set \<Rightarrow> bool" where
  "delegation_ok ul s \<longleftrightarrow>
     policies_ok (elems (dc_policies (ds_config s))) (ds_legacy s)
     \<and> mappings_ok ul (elems (dc_mappings (ds_config s))) (ds_selectors s)"

lemma legacy_loop:
  assumes "rfold add_legacy_policy cs st = Inr st'" "policies_ok (fst st) (snd st)"
  shows "policies_ok (fst st') (snd st')"
proof (rule rfold_invariant [OF assms(1), where P = "\<lambda>st. policies_ok (fst st) (snd st)"])
  show "policies_ok (fst st) (snd st)" by (rule assms(2))
  show "policies_ok (fst t') (snd t')" if "policies_ok (fst t) (snd t)" "add_legacy_policy c t = Inr t'" for c t t'
    using that del_policies.norm_normal
    by (auto simp: add_legacy_policy_def rbind_Inr_iff indexed_insert policies_ok_def split: if_splits)
qed

lemma mapping_loop:
  assumes "rfold (add_agent_mapping ul) cs st = Inr st'" "mappings_ok ul (fst st) (snd st)"
  shows "mappings_ok ul (fst st') (snd st')"
proof (rule rfold_invariant [OF assms(1), where P = "\<lambda>st. mappings_ok ul (fst st) (snd st)"])
  show "mappings_ok ul (fst st) (snd st)" by (rule assms(2))
  show "mappings_ok ul (fst t') (snd t')" if "mappings_ok ul (fst t) (snd t)" "add_agent_mapping ul c t = Inr t'" for c t t'
    using that del_mappings.norm_normal [of ul]
    by (auto simp: add_agent_mapping_def rbind_Inr_iff indexed_insert mappings_ok_def split: if_splits)
qed

lemma distinct_sort_key [simp]:
  fixes f :: "'a \<Rightarrow> 'b::linorder" and g :: "'a \<Rightarrow> 'c"
  shows "distinct (map g (sort_key f xs)) \<longleftrightarrow> distinct (map g xs)"
  by (rule mset_eq_imp_distinct_iff) simp

lemma new_delegation_ok: "new_delegation ul c = Inr s \<Longrightarrow> delegation_ok ul s"
  using legacy_loop [of "elems (dc_policies c)" "([], Map.empty)"]
    mapping_loop [of ul "elems (dc_mappings c)" "([], Map.empty)"]
  by (auto simp: new_delegation_def new_legacy_set_def new_agent_mapping_set_def rbind_Inr_iff delegation_ok_def
      policies_ok_def mappings_ok_def zero_del_config_def split: if_splits)

text \<open>Adding normal rows with fresh identifiers and keys succeeds and keeps them as they are.\<close>

lemma legacy_replay:
  assumes "policies_ok (ps @ qs) index" "policies_ok ps m"
  shows "\<exists>m'. rfold add_legacy_policy qs (ps, m) = Inr (ps @ qs, m') \<and> policies_ok (ps @ qs) m'"
  using assms
proof (induction qs arbitrary: ps m)
  case Nil
  then show ?case by simp
next
  case (Cons q qs)
  have "m (policy_trust_key q) = None"
    using Cons.prems by (intro indexed_fresh [of policy_trust_key m ps q qs]) (simp_all add: policies_ok_def indexed_def)
  moreover have "policy_normal q" "dp_id q \<notin> dp_id ` set ps" using Cons.prems(1) by (auto simp: policies_ok_def)
  ultimately have "add_legacy_policy q (ps, m) = Inr (ps @ [q], m(policy_trust_key q \<mapsto> q))"
    by (simp add: add_legacy_policy_def del_policies.norm_fixed)
  moreover from this have "policies_ok (ps @ [q]) (m(policy_trust_key q \<mapsto> q))"
    using legacy_loop [of "[q]" "(ps, m)"] Cons.prems(2) by simp
  ultimately show ?case using Cons.IH [of "ps @ [q]"] Cons.prems(1) by simp
qed

lemma mapping_replay:
  assumes "mappings_ok ul (ps @ qs) index" "mappings_ok ul ps m"
  shows "\<exists>m'. rfold (add_agent_mapping ul) qs (ps, m) = Inr (ps @ qs, m') \<and> mappings_ok ul (ps @ qs) m'"
  using assms
proof (induction qs arbitrary: ps m)
  case Nil
  then show ?case by simp
next
  case (Cons q qs)
  have "m (mapping_selector_key q) = None"
    using Cons.prems by (intro indexed_fresh [of mapping_selector_key m ps q qs]) (simp_all add: mappings_ok_def indexed_def)
  moreover have "mapping_normal ul q" "am_id q \<notin> am_id ` set ps" using Cons.prems(1) by (auto simp: mappings_ok_def)
  ultimately have "add_agent_mapping ul q (ps, m) = Inr (ps @ [q], m(mapping_selector_key q \<mapsto> q))"
    by (simp add: add_agent_mapping_def del_mappings.norm_fixed)
  moreover from this have "mappings_ok ul (ps @ [q]) (m(mapping_selector_key q \<mapsto> q))"
    using mapping_loop [of ul "[q]" "(ps, m)"] Cons.prems(2) by simp
  ultimately show ?case using Cons.IH [of "ps @ [q]"] Cons.prems(1) by simp
qed

section \<open>Keys of several parts\<close>

lemma count_join:
  "count_list (join_with [c] ys) c = (length ys - 1) + sum_list (map (\<lambda>y. count_list y c) ys)"
  by (induction "[c]" ys rule: join_with.induct) auto

lemma split_join: "ys \<noteq> [] \<Longrightarrow> \<forall>y\<in>set ys. c \<notin> set y \<Longrightarrow> split_on c (join_with [c] ys) = ys"
  by (induction "[c]" ys rule: join_with.induct) (simp_all add: split_on_append split_on_no_sep)

lemma join_inject:
  assumes "join_with [c] xs = join_with [c] ys" "length xs = length ys" "\<forall>x\<in>set xs. c \<notin> set x"
  shows "ys = xs"
proof (cases "xs = []")
  case True
  with assms(2) show ?thesis by simp
next
  case False
  have "sum_list (map (\<lambda>x. count_list x c) xs) = 0" using assms(3) by (simp add: count_list_0_iff sum_list_eq_0_iff)
  then have "sum_list (map (\<lambda>y. count_list y c) ys) = 0"
    using count_join [of c xs] count_join [of c ys] assms(1,2) by simp
  then have "\<forall>y\<in>set ys. c \<notin> set y" by (simp add: count_list_0_iff)
  with split_join [of xs c] split_join [of ys c] False assms show ?thesis by (metis length_0_conv)
qed

lemma selector_key_join:
  "selector_key a b c d e = join_with nul (map trim_space [a, b, c, d, e])"
  by (simp add: selector_key_def)

lemma trust_key_join: "trust_key a b c = join_with nul (map trim_space [a, b, c])"
  by (simp add: trust_key_def)


section \<open>Properties\<close>

lemma role_ceilings:
  "map_of legacy_role_shapes k = Some sh \<Longrightarrow> ro_max_ttl sh \<le> del_maximum_session_ttl"
proof -
  have "list_all (\<lambda>(k, sh). ro_max_ttl sh \<le> del_maximum_session_ttl) legacy_role_shapes" by code_simp
  then show "map_of legacy_role_shapes k = Some sh \<Longrightarrow> ro_max_ttl sh \<le> del_maximum_session_ttl"
    by (auto simp: list_all_iff dest: map_of_SomeD)
qed

lemma resolve_delegation_Inr:
  assumes ok: "delegation_ok ul s" and r: "resolve_delegation (Some s) se = Inr r"
  shows "(\<exists>p repo caps. p \<in> set (elems (dc_policies (ds_config s))) \<and> del_repository (se_repository se) = Inr repo
      \<and> policy_trust_key p = trust_key (se_issuer se) (se_workspace_id se) (se_target se) \<and> (repo, caps) \<in> set (dp_repositories p)
      \<and> r = \<lparr>rv_schema_version = del_legacy_version, rv_policy = Some p, rv_mapping = None, rv_repository = repo, rv_capabilities = caps\<rparr>)
    \<or> (\<exists>m repo. m \<in> set (elems (dc_mappings (ds_config s))) \<and> del_repository (se_repository se) = Inr repo
      \<and> mapping_selector_key m = selector_key (se_issuer se) (se_workspace_id se) (se_agent_id se) (se_target se) repo
      \<and> (am_task_ids m = [] \<or> trim_space (se_task_id se) \<in> set (am_task_ids m))
      \<and> r = \<lparr>rv_schema_version = del_current_version, rv_policy = None, rv_mapping = Some m, rv_repository = repo,
             rv_capabilities = am_max_capabilities m\<rparr>)"
proof -
  have ix: "ds_legacy s k = Some p \<longleftrightarrow> p \<in> set (elems (dc_policies (ds_config s))) \<and> policy_trust_key p = k"
    "ds_selectors s k = Some m \<longleftrightarrow> m \<in> set (elems (dc_mappings (ds_config s))) \<and> mapping_selector_key m = k" for k p m
    using ok by (simp_all add: delegation_ok_def policies_ok_def mappings_ok_def indexed_Some_iff)
  have mem: "sorted_member (am_task_ids m) t \<longleftrightarrow> t \<in> set (am_task_ids m)" if "ds_selectors s k = Some m" for k m t
    using that ok by (simp add: ix delegation_ok_def mappings_ok_def mapping_normal_def sorted_member_iff)
  show ?thesis
  proof (cases "dc_version (ds_config s) = del_legacy_version")
    case True
    with r show ?thesis
      by (intro disjI1) (auto simp: resolve_delegation_def ix split: sum.splits option.splits dest!: map_of_SomeD)
  next
    case False
    with r show ?thesis
      by (intro disjI2) (auto simp: resolve_delegation_def ix mem split: sum.splits option.splits if_splits)
  qed
qed

text \<open>
  C16. Whatever a delegation snapshot resolves never widens: merging is off, the capabilities are
  among the seven allowed ones and none of them is forbidden, the session limit is positive and at
  most two hours, and a version 2 answer stays within the capabilities and the session limit of
  its role.
\<close>

theorem delegation_never_widens:
  assumes "new_delegation ul c = Inr s" "resolve_delegation (Some s) se = Inr r"
  shows "\<not> rv_allow_merge r \<and> rv_capabilities r \<noteq> [] \<and> set (rv_capabilities r) \<subseteq> set allowed_capabilities
    \<and> set (rv_capabilities r) \<inter> set hard_forbidden_capabilities = {}
    \<and> 0 < rv_max_duration r \<and> rv_max_duration r \<le> del_maximum_session_ttl
    \<and> (rv_schema_version r = del_current_version \<longrightarrow>
         (\<exists>sh. map_of legacy_role_shapes (rv_role r) = Some sh \<and> set (rv_capabilities r) \<subseteq> set (ro_capabilities sh)
            \<and> rv_max_duration r \<le> ro_max_ttl sh))"
proof -
  have ok: "delegation_ok ul s" by (rule new_delegation_ok [OF assms(1)])
  have caps: "set cs \<subseteq> set allowed_capabilities \<Longrightarrow> set cs \<inter> set hard_forbidden_capabilities = {}" for cs
    using allowed_fold by blast
  have v: "del_legacy_version \<noteq> del_current_version" by (simp add: del_legacy_version_def del_current_version_def)
  consider (legacy) p repo cs where "p \<in> set (elems (dc_policies (ds_config s)))" "(repo, cs) \<in> set (dp_repositories p)"
      "r = \<lparr>rv_schema_version = del_legacy_version, rv_policy = Some p, rv_mapping = None, rv_repository = repo, rv_capabilities = cs\<rparr>"
    | (current) m repo where "m \<in> set (elems (dc_mappings (ds_config s)))"
      "r = \<lparr>rv_schema_version = del_current_version, rv_policy = None, rv_mapping = Some m, rv_repository = repo,
             rv_capabilities = am_max_capabilities m\<rparr>"
    using resolve_delegation_Inr [OF ok assms(2)] by blast
  then show ?thesis
  proof cases
    case p: legacy
    have r: "r = \<lparr>rv_schema_version = del_legacy_version, rv_policy = Some p, rv_mapping = None, rv_repository = repo, rv_capabilities = cs\<rparr>"
      by (rule p(3))
    have "policy_normal p" using ok p(1) by (simp add: delegation_ok_def policies_ok_def)
    moreover from this have "caps_normal cs" using p(2) by (auto simp: policy_normal_def)
    ultimately show ?thesis using r v caps [of cs]
      by (simp add: rv_allow_merge_def rv_max_duration_def rv_pick_def policy_normal_def policy_max_duration_def caps_normal_def)
  next
    case current
    note r = current(2)
    have n: "mapping_normal ul m" using ok current(1) by (simp add: delegation_ok_def mappings_ok_def)
    then obtain sh where sh: "map_of legacy_role_shapes (am_role m) = Some sh"
      "set (am_max_capabilities m) \<subseteq> set (ro_capabilities sh)" "am_duration m \<le> ro_max_ttl sh"
      by (auto simp: mapping_normal_def within_ceiling_def)
    with n r role_ceilings [OF sh(1)] caps [of "am_max_capabilities m"] show ?thesis
      by (auto simp: rv_allow_merge_def rv_max_duration_def rv_role_def rv_pick_def mapping_normal_def
          mapping_max_duration_def caps_normal_def)
  qed
qed

text \<open>The witnesses use identifiers that stand for parsed UUIDs as they are.\<close>

definition plain_uuids :: "string uuid_lib" where
  "plain_uuids = \<lparr>ul_parse = (\<lambda>v. if v = [] then None else Some v), ul_nil = ''nil'', ul_string = (\<lambda>u. u)\<rparr>"

definition sample_mapping :: agent_mapping where
  "sample_mapping = \<lparr>am_id = ''m-1'', am_issuer = ''multica'', am_workspace_id = ''ws-1'', am_agent_id = ''agent-1'',
     am_role = ''CI-Repair'', am_task_ids = [''task-2'', '' task-1''], am_target = ''prod'', am_repository = ''acme/app'',
     am_principal = ''bot'', am_max_capabilities = [''Repo:Write'', ''repo:read''], am_max_session_ttl = ''10m'',
     am_allow_merge = False, am_status = ''active'', am_policy_version = ''v1'', am_duration = 0\<rparr>"

definition sample_delegation :: del_config where
  "sample_delegation = \<lparr>dc_version = 2, dc_policies = None, dc_mappings = Some [sample_mapping]\<rparr>"

definition sample_selector :: selector where
  "sample_selector = \<lparr>se_issuer = ''multica'', se_workspace_id = ''ws-1'', se_agent_id = ''agent-1'', se_task_id = ''task-1'',
     se_target = ''prod'', se_repository = ''acme/app''\<rparr>"

definition delegated :: "del_config \<Rightarrow> del_set" where
  "delegated c = (case new_delegation plain_uuids c of Inr s \<Rightarrow> s
     | Inl _ \<Rightarrow> \<lparr>ds_config = zero_del_config, ds_legacy = Map.empty, ds_selectors = Map.empty\<rparr>)"

lemma delegation_values:
  "case new_delegation plain_uuids sample_delegation of
     Inl _ \<Rightarrow> False
   | Inr s \<Rightarrow> (case resolve_delegation (Some s) sample_selector of
                Inl _ \<Rightarrow> False
              | Inr r \<Rightarrow> rv_schema_version r = del_current_version)"
  by code_simp

lemma delegation_built:
  "new_delegation plain_uuids sample_delegation = Inr (delegated sample_delegation)"
  "\<exists>r. resolve_delegation (Some (delegated sample_delegation)) sample_selector = Inr r \<and> rv_schema_version r = del_current_version"
  using delegation_values by (auto simp: delegated_def split: sum.splits)

theorem delegation_never_widens_witness:
  "\<exists>r. resolve_delegation (Some (delegated sample_delegation)) sample_selector = Inr r \<and> \<not> rv_allow_merge r"
  using delegation_never_widens [OF delegation_built(1)] delegation_built(2) by blast

text \<open>
  A version 2 answer is the mapping of the snapshot whose issuer, workspace, agent, target and
  repository are exactly the ones of the selector, and whose task list, if it has one, contains
  the selector's task.
\<close>

theorem delegation_selects_exactly:
  assumes "new_delegation ul c = Inr s" "resolve_delegation (Some s) se = Inr r" "rv_schema_version r = del_current_version"
    and "nul_free (se_issuer se)" "nul_free (se_workspace_id se)" "nul_free (se_agent_id se)" "nul_free (se_target se)"
      "nul_free (se_repository se)"
  shows "\<exists>m. m \<in> set (elems (dc_mappings (ds_config s))) \<and> rv_mapping r = Some m \<and> rv_policy r = None
    \<and> am_issuer m = trim_space (se_issuer se) \<and> am_workspace_id m = trim_space (se_workspace_id se)
    \<and> am_agent_id m = trim_space (se_agent_id se) \<and> am_target m = trim_space (se_target se)
    \<and> del_repository (se_repository se) = Inr (am_repository m)
    \<and> (am_task_ids m = [] \<or> trim_space (se_task_id se) \<in> set (am_task_ids m))"
proof -
  have ok: "delegation_ok ul s" by (rule new_delegation_ok [OF assms(1)])
  obtain m repo where m: "m \<in> set (elems (dc_mappings (ds_config s)))" "del_repository (se_repository se) = Inr repo"
    "mapping_selector_key m = selector_key (se_issuer se) (se_workspace_id se) (se_agent_id se) (se_target se) repo"
    "am_task_ids m = [] \<or> trim_space (se_task_id se) \<in> set (am_task_ids m)" "rv_mapping r = Some m" "rv_policy r = None"
    using resolve_delegation_Inr [OF ok assms(2)] assms(3)
    by (elim disjE exE conjE) (auto simp: del_legacy_version_def del_current_version_def)
  have n: "trimmed_mapping m = m" "del_repository (am_repository m) = Inr (am_repository m)"
    using m(1) ok by (simp_all add: delegation_ok_def mappings_ok_def mapping_normal_def)
  have tr: "trim_space (am_issuer m) = am_issuer m" "trim_space (am_workspace_id m) = am_workspace_id m"
    "trim_space (am_agent_id m) = am_agent_id m" "trim_space (am_target m) = am_target m"
    "trim_space (am_repository m) = am_repository m"
    using arg_cong [OF n(1), of am_issuer] arg_cong [OF n(1), of am_workspace_id] arg_cong [OF n(1), of am_agent_id]
      arg_cong [OF n(1), of am_target] del_repository_fixed(2) [OF n(2)]
    by (simp_all add: trimmed_mapping_def)
  have "CHR 0x00 \<notin> set repo"
  proof -
    obtain a b where ab: "split_on (CHR ''/'') (se_repository se) = [a, b]" "repo = trim_space a @ CHR ''/'' # trim_space b"
      using m(2) by (auto simp: del_repository_Inr)
    then have "set a \<subseteq> set (se_repository se)" "set b \<subseteq> set (se_repository se)"
      using split_on_subset [of _ "CHR ''/''" "se_repository se"] by fastforce+
    with ab(2) set_trim_space [of a] set_trim_space [of b] assms(8) show ?thesis by (auto simp: nul_free_def)
  qed
  then have "map trim_space [am_issuer m, am_workspace_id m, am_agent_id m, am_target m, am_repository m]
      = map trim_space [se_issuer se, se_workspace_id se, se_agent_id se, se_target se, repo]"
    using m(3) assms(4-7) nul_free_trim set_trim_space [of repo]
    by (intro join_inject [where c = "CHR 0x00"])
      (auto simp: mapping_selector_key_def selector_key_join nul_def)
  then show ?thesis using m tr del_repository_fixed(2) [OF m(2)] by auto
qed

theorem delegation_selects_exactly_witness:
  "\<exists>m. m \<in> set (elems (dc_mappings (ds_config (delegated sample_delegation)))) \<and> am_target m = trim_space ''prod''
     \<and> del_repository ''acme/app'' = Inr (am_repository m)"
proof -
  obtain r where r: "resolve_delegation (Some (delegated sample_delegation)) sample_selector = Inr r"
    "rv_schema_version r = del_current_version"
    using delegation_built(2) by blast
  from delegation_selects_exactly [OF delegation_built(1) r] show ?thesis
    by (auto simp: sample_selector_def nul_free_def)
qed


lemma sort_key_same: "sorted (map f xs) \<Longrightarrow> sort_key f xs = xs"
  by (simp add: sort_key_id_if_sorted)

text \<open>
  The configuration a delegation snapshot gives out builds the same snapshot again, rows,
  order and indexes included.
\<close>

theorem delegation_config_round_trip:
  assumes "new_delegation ul c = Inr s"
  shows "new_delegation ul (delegation_config (Some s)) = Inr s"
proof -
  have ok: "delegation_ok ul s" by (rule new_delegation_ok [OF assms])
  note v = del_legacy_version_def del_current_version_def
  consider (zero) "s = \<lparr>ds_config = zero_del_config, ds_legacy = Map.empty, ds_selectors = Map.empty\<rparr>"
    | (legacy) ps m where "s = \<lparr>ds_config = \<lparr>dc_version = del_legacy_version, dc_policies = Some (sort_key dp_id ps), dc_mappings = None\<rparr>,
          ds_legacy = m, ds_selectors = Map.empty\<rparr>"
    | (current) ms m where "s = \<lparr>ds_config = \<lparr>dc_version = del_current_version, dc_policies = None, dc_mappings = Some (sort_key am_id ms)\<rparr>,
          ds_legacy = Map.empty, ds_selectors = m\<rparr>"
    using assms by (auto simp: new_delegation_def new_legacy_set_def new_agent_mapping_set_def rbind_Inr_iff split: if_splits)
  then show ?thesis
  proof cases
    case zero
    then show ?thesis by (simp add: delegation_config_def new_delegation_def zero_del_config_def v)
  next
    case legacy
    let ?ps = "sort_key dp_id ps"
    have ps: "policies_ok ?ps m" using ok legacy by (simp add: delegation_ok_def)
    obtain m' where m': "rfold add_legacy_policy ?ps ([], Map.empty) = Inr (?ps, m')" "policies_ok ?ps m'"
      using legacy_replay [of "[]" ?ps m Map.empty] ps by (auto simp: policies_ok_def)
    then have "m' = m" using ps by (auto simp: policies_ok_def intro: indexed_determined)
    with m' legacy show ?thesis
      by (simp add: delegation_config_def new_delegation_def new_legacy_set_def v sort_key_same)
  next
    case current
    let ?ms = "sort_key am_id ms"
    have ms: "mappings_ok ul ?ms m" using ok current by (simp add: delegation_ok_def)
    obtain m' where m': "rfold (add_agent_mapping ul) ?ms ([], Map.empty) = Inr (?ms, m')" "mappings_ok ul ?ms m'"
      using mapping_replay [of ul "[]" ?ms m Map.empty] ms by (auto simp: mappings_ok_def)
    then have "m' = m" using ms by (auto simp: mappings_ok_def intro: indexed_determined)
    with m' current show ?thesis
      by (simp add: delegation_config_def new_delegation_def new_agent_mapping_set_def v sort_key_same)
  qed
qed

theorem delegation_config_round_trip_witness:
  "new_delegation plain_uuids (delegation_config (Some (delegated sample_delegation))) = Inr (delegated sample_delegation)"
  by (rule delegation_config_round_trip [OF delegation_built(1)])

definition repository_entry :: "string \<times> string list \<Rightarrow> (string \<times> string list) option" where
  "repository_entry e =
     (case (del_repository (fst e), del_capabilities (snd e) False) of
        (Inr r, Inr cs) \<Rightarrow> Some (r, cs) | _ \<Rightarrow> None)"

lemma repository_entry_Some:
  "repository_entry e = Some (r, cs) \<longleftrightarrow> del_repository (fst e) = Inr r \<and> del_capabilities (snd e) False = Inr cs"
  by (auto simp: repository_entry_def split: sum.splits)

lemma repositories_loop_iff:
  "rfold repository_step es acc = Inr rs \<longleftrightarrow>
     (\<exists>xs. map repository_entry es = map Some xs \<and> rs = acc @ xs
       \<and> (\<forall>x\<in>set xs. fst x \<notin> set (map fst acc)) \<and> distinct (map fst xs))"
proof (induction es arbitrary: acc)
  case Nil
  then show ?case by auto
next
  case (Cons e es)
  have "rfold repository_step (e # es) acc = Inr rs \<longleftrightarrow>
      (\<exists>r cs. repository_entry e = Some (r, cs) \<and> r \<notin> set (map fst acc)
        \<and> rfold repository_step es (acc @ [(r, cs)]) = Inr rs)"
    by (auto simp: rbind_Inr_iff repository_step_Inr repository_entry_Some)
  also have "\<dots> \<longleftrightarrow> (\<exists>x xs. repository_entry e = Some x \<and> map repository_entry es = map Some xs
      \<and> rs = acc @ x # xs \<and> (\<forall>y\<in>set (x # xs). fst y \<notin> set (map fst acc)) \<and> distinct (map fst (x # xs)))"
    unfolding Cons.IH by (auto simp: image_iff)
  also have "\<dots> \<longleftrightarrow> (\<exists>xs. map repository_entry (e # es) = map Some xs \<and> rs = acc @ xs
      \<and> (\<forall>x\<in>set xs. fst x \<notin> set (map fst acc)) \<and> distinct (map fst xs))"
  proof -
    have cons: "map repository_entry (e # es) = map Some zs \<longleftrightarrow>
        (\<exists>x xs. zs = x # xs \<and> repository_entry e = Some x \<and> map repository_entry es = map Some xs)" for zs
      by (cases zs) auto
    have one: "(\<exists>zs. (\<exists>x xs. zs = x # xs \<and> A x \<and> B xs) \<and> C zs) \<longleftrightarrow> (\<exists>x xs. A x \<and> B xs \<and> C (x # xs))"
      for A B and C :: "'z list \<Rightarrow> bool" by auto
    show ?thesis unfolding cons one by simp
  qed
  finally show ?case .
qed

text \<open>
  Go ranges over the repositories of a version 1 policy in no fixed order; the order decides
  neither whether the policy is accepted nor, as a map, what its repositories are.
\<close>

theorem policy_order_independent:
  assumes "normalize_del_policy p = Inr q" "mset repos = mset (dp_repositories p)"
  shows "\<exists>q'. normalize_del_policy (p\<lparr>dp_repositories := repos\<rparr>) = Inr q'
    \<and> map_of (dp_repositories q') = map_of (dp_repositories q) \<and> q' = q\<lparr>dp_repositories := dp_repositories q'\<rparr>"
proof -
  have t: "trimmed_policy (p\<lparr>dp_repositories := repos\<rparr>) = (trimmed_policy p)\<lparr>dp_repositories := repos\<rparr>"
    "dp_repositories (trimmed_policy p) = dp_repositories p"
    by (simp_all add: trimmed_policy_def)
  obtain ttl xs where q: "rfold repository_step (dp_repositories p) [] = Inr xs"
    "q = (trimmed_policy p)\<lparr>dp_duration := ttl, dp_repositories := xs\<rparr>"
    "parse_duration (dp_max_session_ttl (trimmed_policy p)) = Some ttl"
    using assms(1) unfolding normalize_del_policy_Inr Let_def t(2) by blast
  from q(1) have e: "map repository_entry (dp_repositories p) = map Some xs" "distinct (map fst xs)"
    by (auto simp: repositories_loop_iff)
  define ys where "ys = map (\<lambda>x. the (repository_entry x)) repos"
  have "map (\<lambda>x. the (repository_entry x)) (dp_repositories p) = map the (map Some xs)"
    unfolding e(1) [symmetric] by simp
  then have xs: "xs = map (\<lambda>x. the (repository_entry x)) (dp_repositories p)" by (simp add: comp_def)
  then have m: "mset ys = mset xs" by (simp add: ys_def assms(2))
  have "repository_entry x \<noteq> None" if "x \<in> set repos" for x
  proof -
    have "x \<in> set (dp_repositories p)" using that assms(2) by (metis mset_eq_setD)
    then have "repository_entry x \<in> set (map Some xs)" unfolding e(1) [symmetric] by simp
    then show ?thesis by auto
  qed
  then have ys: "map repository_entry repos = map Some ys" "mset ys = mset xs"
    using m by (auto simp: ys_def)
  have "distinct (map fst ys)" using e(2) ys(2) by (metis mset_eq_imp_distinct_iff mset_map)
  with ys(1) have r: "rfold repository_step repos [] = Inr ys" by (simp add: repositories_loop_iff)
  have "repos \<noteq> []" if "dp_repositories p \<noteq> []" using that assms(2) by auto
  then have "normalize_del_policy (p\<lparr>dp_repositories := repos\<rparr>) = Inr (q\<lparr>dp_repositories := ys\<rparr>)"
    using assms(1) q r unfolding normalize_del_policy_Inr Let_def t by auto
  moreover have "map_of ys = map_of xs" using ys(2) e(2) \<open>distinct (map fst ys)\<close>
    by (metis map_of_eqI map_of_inject_set mset_eq_setD)
  ultimately show ?thesis using q(2) by auto
qed


definition sample_policy :: del_policy where
  "sample_policy = \<lparr>dp_id = ''p-1'', dp_issuer = ''multica'', dp_workspace_id = ''ws-1'', dp_target = ''prod'', dp_principal = ''bot'',
     dp_repositories = [(''acme/app'', [''repo:read'', ''pr:create'']), (''acme/lib'', [''repo:read''])],
     dp_max_session_ttl = ''1h'', dp_allow_merge = False, dp_status = ''active'', dp_policy_version = ''v1'', dp_duration = 0\<rparr>"

theorem policy_order_independent_witness:
  "\<exists>q q'. normalize_del_policy sample_policy = Inr q
     \<and> normalize_del_policy (sample_policy\<lparr>dp_repositories := rev (dp_repositories sample_policy)\<rparr>) = Inr q'
     \<and> map_of (dp_repositories q') = map_of (dp_repositories q)"
proof -
  have "case normalize_del_policy sample_policy of Inl _ \<Rightarrow> False | Inr _ \<Rightarrow> True" by code_simp
  then obtain q where q: "normalize_del_policy sample_policy = Inr q" by (auto split: sum.splits)
  from policy_order_independent [OF q, of "rev (dp_repositories sample_policy)"] q show ?thesis by auto
qed

end
