(* ===== verification/Legacy_Migration.thy ===== *)
theory Legacy_Migration
  imports Delegation_Policy "HOL-Library.Product_Lexorder"
begin

text \<open>
  \<open>internal/sessionauthority/migration.go\<close>: the inventory of historical delegation records.
  \<open>sort.Slice\<close> leaves candidates with the same source and repository in no fixed order; they keep
  their order here.
\<close>

section \<open>Model\<close>

record migration_candidate =
  mc_source_schema_version :: int
  mc_source_id :: string
  mc_issuer :: string
  mc_workspace_id :: string
  mc_subject :: string
  mc_principal_login :: string
  mc_target :: string
  mc_repository :: string
  mc_status :: string
  mc_executable :: bool
  mc_ignored :: "string list"
  mc_blockers :: "string list"

record migration_plan =
  mp_source_schema_version :: int
  mp_candidates :: "migration_candidate list"
  mp_claim_limit :: string

definition migration_claim_limit :: string where
  "migration_claim_limit = ''legacy delegation is inventory-only; it cannot authorize principal/session-v2 exchange''"

definition mapping_candidate :: "int \<Rightarrow> agent_mapping \<Rightarrow> migration_candidate" where
  "mapping_candidate version m =
     \<lparr>mc_source_schema_version = version, mc_source_id = am_id m, mc_issuer = am_issuer m,
      mc_workspace_id = am_workspace_id m, mc_subject = am_agent_id m, mc_principal_login = am_principal m,
      mc_target = am_target m, mc_repository = am_repository m, mc_status = am_status m, mc_executable = False,
      mc_ignored = [''max_capabilities'', ''max_session_ttl'', ''role'', ''task_ids''],
      mc_blockers = [''trusted_issuer_instance_id_required'', ''immutable_principal_id_required'',
        ''native_grant_review_required'', ''resource_policy_revision_required'']\<rparr>"

definition policy_candidate :: "int \<Rightarrow> del_policy \<Rightarrow> string \<Rightarrow> migration_candidate" where
  "policy_candidate version p repository =
     \<lparr>mc_source_schema_version = version, mc_source_id = dp_id p, mc_issuer = dp_issuer p,
      mc_workspace_id = dp_workspace_id p, mc_subject = [], mc_principal_login = dp_principal p,
      mc_target = dp_target p, mc_repository = repository, mc_status = dp_status p, mc_executable = False,
      mc_ignored = [''max_capabilities'', ''max_session_ttl'', ''workspace_selector''],
      mc_blockers = [''immutable_subject_required'', ''trusted_issuer_instance_id_required'',
        ''immutable_principal_id_required'', ''native_grant_review_required'', ''resource_policy_revision_required'']\<rparr>"

definition candidate_order :: "migration_candidate \<Rightarrow> string \<times> string" where
  "candidate_order mc = (mc_source_id mc, mc_repository mc)"

text \<open>The switch over the version.\<close>

definition legacy_candidates :: "del_config \<Rightarrow> migration_candidate list" where
  "legacy_candidates c =
     (if dc_version c = del_current_version
      then map (mapping_candidate (dc_version c)) (elems (dc_mappings c))
      else if dc_version c = del_legacy_version
      then concat (map (\<lambda>p. map (policy_candidate (dc_version c) p) (sort (map fst (dp_repositories p))))
             (elems (dc_policies c)))
      else [])"

definition plan_legacy_delegation :: "del_config \<Rightarrow> migration_plan" where
  "plan_legacy_delegation c =
     \<lparr>mp_source_schema_version = dc_version c, mp_candidates = sort_key candidate_order (legacy_candidates c),
      mp_claim_limit = migration_claim_limit\<rparr>"

section \<open>Properties\<close>

text \<open>
  A migration plan never carries authority: no candidate is executable and each one names what
  an operator still has to decide. It is complete and in order: it has one candidate for every
  version 2 mapping, or one for every repository of every version 1 policy, sorted by source and
  repository.
\<close>

theorem migration_plan_inventory:
  "(\<forall>mc\<in>set (mp_candidates (plan_legacy_delegation c)).
      \<not> mc_executable mc \<and> ''immutable_principal_id_required'' \<in> set (mc_blockers mc)
      \<and> ''trusted_issuer_instance_id_required'' \<in> set (mc_blockers mc))
   \<and> sorted (map candidate_order (mp_candidates (plan_legacy_delegation c)))
   \<and> mset (map candidate_order (mp_candidates (plan_legacy_delegation c))) =
       (if dc_version c = del_current_version
        then mset (map (\<lambda>m. (am_id m, am_repository m)) (elems (dc_mappings c)))
        else if dc_version c = del_legacy_version
        then mset (concat (map (\<lambda>p. map (\<lambda>e. (dp_id p, fst e)) (dp_repositories p)) (elems (dc_policies c))))
        else {#})"
  (is "?inert \<and> ?sorted \<and> ?complete")
proof (intro conjI)
  have m: "candidate_order (mapping_candidate v m) = (am_id m, am_repository m)" for v m
    by (simp add: candidate_order_def mapping_candidate_def)
  have p: "candidate_order (policy_candidate v p r) = (dp_id p, r)" for v p r
    by (simp add: candidate_order_def policy_candidate_def)
  have order: "image_mset candidate_order (mset (concat (map (\<lambda>p. map (policy_candidate v p) (sort (map fst (dp_repositories p)))) ps)))
      = mset (concat (map (\<lambda>p. map (\<lambda>e. (dp_id p, fst e)) (dp_repositories p)) ps))" for v ps
    by (induction ps) (simp_all add: p image_mset.compositionality comp_def)
  show ?complete
    by (simp add: plan_legacy_delegation_def legacy_candidates_def order m image_mset.compositionality comp_def)
  show ?sorted by (simp add: plan_legacy_delegation_def)
  have inert: "\<not> mc_executable mc \<and> ''immutable_principal_id_required'' \<in> set (mc_blockers mc)
      \<and> ''trusted_issuer_instance_id_required'' \<in> set (mc_blockers mc)"
    if "mc = mapping_candidate v m \<or> mc = policy_candidate v p r" for mc v m p r
    using that by (auto simp: mapping_candidate_def policy_candidate_def)
  have "\<exists>v m p r. mc = mapping_candidate v m \<or> mc = policy_candidate v p r" if "mc \<in> set (legacy_candidates c)" for mc
    using that by (auto simp: legacy_candidates_def split: if_splits)
  with inert show ?inert unfolding plan_legacy_delegation_def by (metis migration_plan.select_convs(2) set_sort)
qed

theorem migration_plan_inventory_witness:
  "mset (map candidate_order (mp_candidates (plan_legacy_delegation sample_delegation))) = {#(''m-1'', ''acme/app'')#}"
proof -
  have "dc_version sample_delegation = del_current_version" by (simp add: sample_delegation_def del_current_version_def)
  then show ?thesis
    using migration_plan_inventory [of sample_delegation] by (simp add: sample_delegation_def sample_mapping_def)
qed

text \<open>
  The plan of a version 1 configuration does not depend on the order in which Go ranges over
  the repositories of a policy.
\<close>

theorem migration_plan_order_independent:
  assumes "list_all2 (\<lambda>p q. mset (map fst (dp_repositories q)) = mset (map fst (dp_repositories p))
      \<and> q\<lparr>dp_repositories := []\<rparr> = p\<lparr>dp_repositories := []\<rparr>) ps qs"
  shows "plan_legacy_delegation \<lparr>dc_version = 1, dc_policies = Some ps, dc_mappings = ms\<rparr>
    = plan_legacy_delegation \<lparr>dc_version = 1, dc_policies = Some qs, dc_mappings = ms\<rparr>"
proof -
  have one: "map (policy_candidate v p) (sort (map fst (dp_repositories p))) = map (policy_candidate v q) (sort (map fst (dp_repositories q)))"
    if "mset (map fst (dp_repositories q)) = mset (map fst (dp_repositories p))"
      "q\<lparr>dp_repositories := []\<rparr> = p\<lparr>dp_repositories := []\<rparr>" for v p q
  proof -
    have "sort (map fst (dp_repositories q)) = sort (map fst (dp_repositories p))"
      using that(1) by (metis mset_sort properties_for_sort sorted_sort)
    moreover have "policy_candidate v (r\<lparr>dp_repositories := []\<rparr>) = policy_candidate v r" for r
      by (simp add: fun_eq_iff policy_candidate_def)
    then have "policy_candidate v q = policy_candidate v p" using that(2) by metis
    ultimately show ?thesis by simp
  qed
  have "concat (map (\<lambda>p. map (policy_candidate v p) (sort (map fst (dp_repositories p)))) ps)
      = concat (map (\<lambda>p. map (policy_candidate v p) (sort (map fst (dp_repositories p)))) qs)" for v
    using assms
  proof (induction rule: list_all2_induct)
    case Nil
    then show ?case by simp
  next
    case (Cons p ps q qs)
    then show ?case using one [of q p v] by simp
  qed
  then show ?thesis by (simp add: plan_legacy_delegation_def legacy_candidates_def)
qed

theorem migration_plan_order_independent_witness:
  "plan_legacy_delegation \<lparr>dc_version = 1, dc_policies = Some [sample_policy], dc_mappings = None\<rparr>
   = plan_legacy_delegation \<lparr>dc_version = 1,
       dc_policies = Some [sample_policy\<lparr>dp_repositories := rev (dp_repositories sample_policy)\<rparr>], dc_mappings = None\<rparr>"
  by (rule migration_plan_order_independent) (simp add: rev_map [symmetric])

end
