(* ===== verification/Rate_Limiter.thy ===== *)
theory Rate_Limiter
  imports Go_Time
begin

text \<open>
  \<open>internal/ratelimit/ratelimit.go\<close> and the middleware that uses it in
  \<open>internal/middleware/rate_limit.go\<close>. Every operation of a limiter runs under its mutex, so
  concurrent requests are a sequence of whole operations. A nil limiter is \<open>None\<close>. What a request
  contributes is a record: the actor of its context, two headers, the remote address, the path.
\<close>

section \<open>Model\<close>

type_synonym resource = string

definition compatibility_limit :: int where "compatibility_limit = 1000"
definition compatibility_window :: duration where "compatibility_window = minute"

definition authenticated_resource_order :: "resource list" where
  "authenticated_resource_order =
     [''code_search'', ''core'', ''graphql'', ''integration_manifest'', ''search'', ''source_import'',
      ''code_scanning_upload'', ''code_scanning_autofix'', ''actions_runner_registration'', ''scim'',
      ''dependency_snapshots'', ''dependency_sbom'', ''audit_log'', ''audit_log_streaming'']"

definition anonymous_resource_order :: "resource list" where
  "anonymous_resource_order = [''code_search'', ''core'', ''graphql'', ''integration_manifest'', ''search'']"

record rate_policy =
  ry_limit :: int
  ry_window :: duration
  ry_bucket :: resource

record bucket_state =
  bs_reset :: int
  bs_window :: int
  bs_used :: int

record rate_subject =
  su_actor :: string
  su_authenticated :: bool

record snapshot =
  sn_limit :: int
  sn_used :: int
  sn_remaining :: int
  sn_reset :: int
  sn_resource :: resource

record limiter =
  lm_authenticated :: "(resource \<times> rate_policy) list"
  lm_anonymous :: "(resource \<times> rate_policy) list"
  lm_buckets :: "string \<times> resource \<rightharpoonup> bucket_state"
  lm_last_sweep :: int

record rate_report =
  rt_resources :: "(resource \<times> snapshot) list"
  rt_rate :: snapshot

definition mk_rate :: "resource \<Rightarrow> int \<Rightarrow> duration \<Rightarrow> resource \<times> rate_policy" where
  "mk_rate r n w = (r, \<lparr>ry_limit = n, ry_window = w, ry_bucket = r\<rparr>)"

definition authenticated_policies :: "(resource \<times> rate_policy) list" where
  "authenticated_policies =
     [mk_rate ''core'' 1000 minute, mk_rate ''search'' 300 minute, mk_rate ''graphql'' 1000 minute,
      mk_rate ''integration_manifest'' 5000 hour, mk_rate ''source_import'' 100 minute,
      mk_rate ''code_scanning_upload'' 5000 hour, mk_rate ''code_scanning_autofix'' 10 minute,
      mk_rate ''actions_runner_registration'' 10000 hour, mk_rate ''scim'' 15000 hour,
      mk_rate ''dependency_snapshots'' 100 minute, mk_rate ''dependency_sbom'' 100 minute,
      mk_rate ''audit_log'' 1750 hour, mk_rate ''audit_log_streaming'' 15 hour,
      mk_rate ''code_search'' 100 minute]"

definition anonymous_policies :: "(resource \<times> rate_policy) list" where
  "anonymous_policies =
     [mk_rate ''core'' 100 minute, mk_rate ''code_search'' 10 minute, mk_rate ''graphql'' 100 minute,
      mk_rate ''integration_manifest'' 5000 hour, mk_rate ''search'' 30 minute]"

definition new_limiter :: "int \<Rightarrow> duration \<Rightarrow> limiter" where
  "new_limiter limit0 window0 =
     (let limit = (if limit0 \<le> 0 then compatibility_limit else limit0);
          window = (if window0 \<le> 0 then compatibility_window else window0);
          simple = [mk_rate ''core'' limit window, mk_rate ''search'' limit window,
            mk_rate ''code_search'' limit window, mk_rate ''graphql'' limit window,
            mk_rate ''integration_manifest'' limit window, mk_rate ''source_import'' limit window]
      in \<lparr>lm_authenticated = simple, lm_anonymous = simple, lm_buckets = Map.empty, lm_last_sweep = 0\<rparr>)"

definition new_github_limiter :: limiter where
  "new_github_limiter =
     \<lparr>lm_authenticated = authenticated_policies, lm_anonymous = anonymous_policies,
      lm_buckets = Map.empty, lm_last_sweep = 0\<rparr>"

definition is_authenticated_actor :: "string \<Rightarrow> bool" where
  "is_authenticated_actor a \<longleftrightarrow> prefix ''token:'' a \<or> prefix ''embedded:'' a"

definition resource_for_path :: "string \<Rightarrow> resource option" where
  "resource_for_path path =
     (if path = ''/api/graphql'' \<or> path = ''/graphql'' then Some ''graphql''
      else if path = ''/api/v3/rate_limit'' then Some ''core''
      else if prefix ''/api/v3/search/code'' path then Some ''code_search''
      else if prefix ''/api/v3/search/'' path then Some ''search''
      else if prefix ''/api/v3'' path then Some ''core''
      else None)"

definition clamp_usage :: "int \<Rightarrow> int \<Rightarrow> int" where
  "clamp_usage limit used = (if used < 0 then 0 else if limit \<ge> 0 \<and> used > limit then limit else used)"

definition remaining :: "int \<Rightarrow> int \<Rightarrow> int" where
  "remaining limit used =
     (if limit \<le> 0 then 0
      else if limit - clamp_usage limit used < 0 then 0 else limit - clamp_usage limit used)"

definition window_start :: "instant \<Rightarrow> duration \<Rightarrow> instant" where
  "window_start now window = Go_Time.truncate now (if window \<le> 0 then compatibility_window else window)"

definition window_end :: "instant \<Rightarrow> duration \<Rightarrow> instant" where
  "window_end now window = window_start now window + window"

definition snapshot_for_policy :: "rate_policy \<Rightarrow> resource \<Rightarrow> int \<Rightarrow> instant \<Rightarrow> snapshot" where
  "snapshot_for_policy p resource used now =
     (let window = (if ry_window p \<le> 0 then compatibility_window else ry_window p)
      in \<lparr>sn_limit = ry_limit p, sn_used = clamp_usage (ry_limit p) used, sn_remaining = remaining (ry_limit p) used,
          sn_reset = unix (window_end now window), sn_resource = resource\<rparr>)"

definition snapshot_from_state :: "resource \<Rightarrow> rate_policy \<Rightarrow> bucket_state \<Rightarrow> snapshot" where
  "snapshot_from_state resource p st =
     \<lparr>sn_limit = ry_limit p, sn_used = clamp_usage (ry_limit p) (bs_used st),
      sn_remaining = remaining (ry_limit p) (bs_used st), sn_reset = bs_reset st, sn_resource = resource\<rparr>"

definition empty_snapshot :: "resource \<Rightarrow> snapshot" where
  "empty_snapshot resource = \<lparr>sn_limit = 0, sn_used = 0, sn_remaining = 0, sn_reset = 0, sn_resource = resource\<rparr>"

definition normalize_actor :: "string \<Rightarrow> string" where
  "normalize_actor a = (if trim_space a = [] then ''ip:unknown'' else trim_space a)"

definition policies_for :: "limiter option \<Rightarrow> rate_subject \<Rightarrow> (resource \<times> rate_policy) list" where
  "policies_for l su =
     (case l of None \<Rightarrow> authenticated_policies
      | Some m \<Rightarrow> if su_authenticated su then lm_authenticated m else lm_anonymous m)"

definition policy_for :: "limiter \<Rightarrow> rate_subject \<Rightarrow> resource \<Rightarrow> rate_policy option" where
  "policy_for l su resource = map_of (policies_for (Some l) su) resource"

definition window_seconds :: "rate_policy \<Rightarrow> int" where
  "window_seconds p = (if ry_window p < 0 then - ((- ry_window p) div second) else ry_window p div second)"

definition current_state :: "limiter \<Rightarrow> string \<times> resource \<Rightarrow> rate_policy \<Rightarrow> instant \<Rightarrow> bucket_state" where
  "current_state l key p now =
     (let fresh = \<lparr>bs_reset = unix (window_end now (ry_window p)), bs_window = window_seconds p, bs_used = 0\<rparr>
      in case lm_buckets l key of
           None \<Rightarrow> fresh
         | Some st \<Rightarrow> if unix now \<ge> bs_reset st \<or> bs_window st \<noteq> window_seconds p then fresh else st)"

definition sweep :: "instant \<Rightarrow> limiter \<Rightarrow> limiter" where
  "sweep now l =
     (if lm_last_sweep l \<noteq> 0 \<and> unix now - lm_last_sweep l < 60 then l
      else l\<lparr>lm_buckets := (\<lambda>key. case lm_buckets l key of
                 None \<Rightarrow> None | Some st \<Rightarrow> if bs_reset st \<le> unix now then None else Some st),
             lm_last_sweep := unix now\<rparr>)"

definition set_bucket :: "string \<times> resource \<Rightarrow> bucket_state \<Rightarrow> limiter \<Rightarrow> limiter" where
  "set_bucket key st l = l\<lparr>lm_buckets := (lm_buckets l)(key \<mapsto> st)\<rparr>"

text \<open>Addition of two 64-bit integers.\<close>

definition add64 :: "int \<Rightarrow> int \<Rightarrow> int" where
  "add64 a b = (a + b + 2 ^ 63) mod 2 ^ 64 - 2 ^ 63"

definition inspect :: "limiter \<Rightarrow> rate_subject \<Rightarrow> resource \<Rightarrow> instant \<Rightarrow> snapshot \<times> limiter" where
  "inspect l su resource now =
     (case policy_for l su resource of
        None \<Rightarrow> (empty_snapshot resource, l)
      | Some p \<Rightarrow>
          if ry_limit p = 0 then (snapshot_for_policy p resource 0 now, l)
          else (let l1 = sweep now l; key = (normalize_actor (su_actor su), ry_bucket p);
                    st = current_state l1 key p now
                in (snapshot_from_state resource p st, set_bucket key st l1)))"

definition allow :: "limiter \<Rightarrow> rate_subject \<Rightarrow> resource \<Rightarrow> instant \<Rightarrow> int \<Rightarrow> (snapshot \<times> bool) \<times> limiter" where
  "allow l su resource now cost0 =
     (case policy_for l su resource of
        None \<Rightarrow> ((empty_snapshot resource, True), l)
      | Some p \<Rightarrow>
          (let cost = (if cost0 \<le> 0 then 1 else cost0)
           in if ry_limit p = 0 then ((snapshot_for_policy p resource 0 now, False), l)
              else (let l1 = sweep now l; key = (normalize_actor (su_actor su), ry_bucket p);
                        st = current_state l1 key p now
                    in if add64 (bs_used st) cost > ry_limit p
                       then ((snapshot_from_state resource p st, False), set_bucket key st l1)
                       else (let st1 = st\<lparr>bs_used := add64 (bs_used st) cost\<rparr>
                             in ((snapshot_from_state resource p st1, True), set_bucket key st1 l1)))))"

definition core_policy :: rate_policy where
  "core_policy = \<lparr>ry_limit = 1000, ry_window = minute, ry_bucket = ''core''\<rparr>"

definition limiter_inspect :: "limiter option \<Rightarrow> rate_subject \<Rightarrow> resource \<Rightarrow> instant \<Rightarrow> snapshot \<times> limiter option" where
  "limiter_inspect lo su resource now =
     (case lo of None \<Rightarrow> (snapshot_for_policy core_policy ''core'' 0 now, None)
      | Some l \<Rightarrow> (let (sn, l1) = inspect l su resource now in (sn, Some l1)))"

definition limiter_allow ::
  "limiter option \<Rightarrow> rate_subject \<Rightarrow> resource \<Rightarrow> instant \<Rightarrow> int \<Rightarrow> (snapshot \<times> bool) \<times> limiter option" where
  "limiter_allow lo su resource now cost =
     (case lo of None \<Rightarrow> ((snapshot_for_policy core_policy ''core'' 0 now, True), None)
      | Some l \<Rightarrow> (let (a, l1) = allow l su resource now cost in (a, Some l1)))"

definition resource_order :: "(resource \<times> rate_policy) list \<Rightarrow> resource list" where
  "resource_order policies =
     (if policies = [] then []
      else if length policies = length authenticated_policies then authenticated_resource_order
      else if length policies = length anonymous_policies then anonymous_resource_order
      else (let ordered = filter (\<lambda>r. map_of policies r \<noteq> None) authenticated_resource_order
            in ordered @ filter (\<lambda>r. r \<notin> set ordered) (map fst policies)))"

fun inspect_all :: "limiter option \<Rightarrow> rate_subject \<Rightarrow> instant \<Rightarrow> resource list \<Rightarrow> (resource \<times> snapshot) list \<times> limiter option" where
  "inspect_all l su now [] = ([], l)"
| "inspect_all l su now (r # rs) =
     (let (sn, l1) = limiter_inspect l su r now; (rest, l2) = inspect_all l1 su now rs in ((r, sn) # rest, l2))"

definition limiter_report :: "limiter option \<Rightarrow> rate_subject \<Rightarrow> instant \<Rightarrow> rate_report \<times> limiter option" where
  "limiter_report l su now =
     (let (resources, l1) = inspect_all l su now (resource_order (policies_for l su));
          rate = (case map_of resources ''core'' of
                    Some sn \<Rightarrow> if sn_resource sn = [] then empty_snapshot ''core'' else sn
                  | None \<Rightarrow> empty_snapshot ''core'')
      in (\<lparr>rt_resources = resources, rt_rate = rate\<rparr>, l1))"

text \<open>
  The report a request context carries, or that of a fresh limiter for an unknown caller; the
  header fields of a snapshot; the JSON bodies, as the fields of an object.
\<close>

definition report_for_context :: "rate_report option \<Rightarrow> instant \<Rightarrow> rate_report" where
  "report_for_context ctx now =
     (case ctx of Some rep \<Rightarrow> rep
      | None \<Rightarrow> fst (limiter_report (Some new_github_limiter) \<lparr>su_actor = ''ip:compat'', su_authenticated = False\<rparr> now))"

definition set_headers :: "snapshot \<Rightarrow> (string \<times> string) list" where
  "set_headers sn =
     [(''X-RateLimit-Limit'', format_int (sn_limit sn)), (''X-RateLimit-Used'', format_int (sn_used sn)),
      (''X-RateLimit-Remaining'', format_int (sn_remaining sn)), (''X-RateLimit-Reset'', format_int (sn_reset sn))]
     @ (if sn_resource sn \<noteq> [] then [(''X-RateLimit-Resource'', sn_resource sn)] else [])"

datatype body_value = BodyInt int | BodyString string

definition resource_body :: "snapshot \<Rightarrow> (string \<times> body_value) list" where
  "resource_body sn =
     [(''limit'', BodyInt (sn_limit sn)), (''used'', BodyInt (sn_used sn)),
      (''remaining'', BodyInt (sn_remaining sn)), (''reset'', BodyInt (sn_reset sn))]
     @ (if sn_resource sn \<noteq> [] then [(''resource'', BodyString (sn_resource sn))] else [])"

definition resource_order_for_report :: "(resource \<times> snapshot) list \<Rightarrow> resource list" where
  "resource_order_for_report resources =
     (if resources = [] then []
      else if map_of resources ''source_import'' \<noteq> None then authenticated_resource_order
      else anonymous_resource_order)"

definition resources_body :: "rate_report \<Rightarrow> (string \<times> (string \<times> body_value) list) list" where
  "resources_body rep =
     List.map_filter (\<lambda>r. map_option (\<lambda>sn. (r, resource_body sn)) (map_of (rt_resources rep) r))
       (resource_order_for_report (rt_resources rep))"

text \<open>\<open>WithActor\<close>: what it makes of the actor a context carries.\<close>

definition with_actor :: "string option \<Rightarrow> string \<Rightarrow> string option" where
  "with_actor ctx actor = (if trim_space actor = [] then ctx else Some (trim_space actor))"

section \<open>Requests\<close>

record http_request =
  hr_actor :: "string option"
  hr_forwarded_for :: string
  hr_real_ip :: string
  hr_remote_addr :: string
  hr_path :: string

definition index_of :: "char \<Rightarrow> string \<Rightarrow> nat option" where
  "index_of c s = (if c \<in> set s then Some (length (takeWhile (\<lambda>x. x \<noteq> c) s)) else None)"

definition last_index_of :: "char \<Rightarrow> string \<Rightarrow> nat option" where
  "last_index_of c s = (if c \<in> set s then Some (length s - 1 - length (takeWhile (\<lambda>x. x \<noteq> c) (rev s))) else None)"

text \<open>\<open>net.SplitHostPort\<close>, its host; \<open>None\<close> when it returns an error.\<close>

definition split_host :: "string \<Rightarrow> string option" where
  "split_host s =
     (case last_index_of (CHR '':'') s of
        None \<Rightarrow> None
      | Some i \<Rightarrow>
          if prefix ''['' s then
            (case index_of (CHR '']'') s of
               None \<Rightarrow> None
             | Some e \<Rightarrow>
                 if e + 1 \<noteq> i then None
                 else if CHR ''['' \<in> set (drop 1 s) \<or> CHR '']'' \<in> set (drop (e + 1) s) then None
                 else Some (drop 1 (take e s)))
          else if CHR '':'' \<in> set (take i s) \<or> CHR ''['' \<in> set s \<or> CHR '']'' \<in> set s then None
          else Some (take i s))"

definition remote_host :: "http_request \<Rightarrow> string" where
  "remote_host r =
     (let raw = trim_space (hr_remote_addr r)
      in case split_host raw of
           Some host \<Rightarrow> if host \<noteq> [] then host else if raw = [] then ''unknown'' else raw
         | None \<Rightarrow> if raw = [] then ''unknown'' else raw)"

definition client_ip :: "http_request \<Rightarrow> string" where
  "client_ip r =
     (let forwarded = trim_space (hr_forwarded_for r);
          first = trim_space (takeWhile (\<lambda>c. c \<noteq> CHR '','') forwarded)
      in if forwarded \<noteq> [] \<and> first \<noteq> [] then first
         else if trim_space (hr_real_ip r) \<noteq> [] then trim_space (hr_real_ip r)
         else remote_host r)"

definition actor_for_request :: "http_request option \<Rightarrow> string" where
  "actor_for_request ro =
     (case ro of
        None \<Rightarrow> ''ip:unknown''
      | Some r \<Rightarrow>
          (case hr_actor r of
             Some a \<Rightarrow> if trim_space a \<noteq> [] then a else ''ip:'' @ client_ip r
           | None \<Rightarrow> ''ip:'' @ client_ip r))"

definition subject_for_request :: "http_request option \<Rightarrow> rate_subject" where
  "subject_for_request ro =
     \<lparr>su_actor = actor_for_request ro, su_authenticated = is_authenticated_actor (actor_for_request ro)\<rparr>"

text \<open>
  The handler of \<open>apiRateLimitHeaders\<close>: passed on untouched, passed on with the headers of a
  snapshot and perhaps a report, or refused with a snapshot and a number of seconds to wait.
\<close>

datatype api_outcome = Untouched | Served snapshot "rate_report option" | Refused snapshot int

definition api_rate_limit :: "limiter option \<Rightarrow> http_request \<Rightarrow> instant \<Rightarrow> api_outcome \<times> limiter option" where
  "api_rate_limit l r now =
     (case resource_for_path (hr_path r) of
        None \<Rightarrow> (Untouched, l)
      | Some resource \<Rightarrow>
          (let su = subject_for_request (Some r)
           in if hr_path r = ''/api/v3/rate_limit''
              then (let (rep, l1) = limiter_report l su now in (Served (rt_rate rep) (Some rep), l1))
              else (let ((sn, ok), l1) = limiter_allow l su resource now 1
                    in if ok then (Served sn None, l1)
                       else (Refused sn (if sn_reset sn - unix now < 1 then 1 else sn_reset sn - unix now), l1))))"


section \<open>Admission by bucket\<close>

text \<open>
  The interface a client of a rate limiter relies on. A request belongs to a bucket; what a bucket
  holds at an instant decides the answer; serving a request changes no other bucket as far as any
  later instant can tell.
\<close>

fun serve :: "('s \<Rightarrow> 'r \<Rightarrow> instant \<Rightarrow> 's \<times> 'a) \<Rightarrow> 's \<Rightarrow> ('r \<times> instant) list \<Rightarrow> 'a list" where
  "serve admit s [] = []"
| "serve admit s ((r, t) # es) = (let (s1, a) = admit s r t in a # serve admit s1 es)"

locale admission =
  fixes admit :: "'s \<Rightarrow> 'r \<Rightarrow> instant \<Rightarrow> 's \<times> 'a"
    and bucket :: "'r \<Rightarrow> 'b"
    and view :: "'s \<Rightarrow> 'b \<Rightarrow> instant \<Rightarrow> 'v"
    and valid :: "'s \<Rightarrow> bool"
  assumes valid_admit: "valid s \<Longrightarrow> valid (fst (admit s r t))"
    and other: "valid s \<Longrightarrow> t \<le> t' \<Longrightarrow> b \<noteq> bucket r \<Longrightarrow> view (fst (admit s r t)) b t' = view s b t'"
    and own_answer: "valid s \<Longrightarrow> valid s2 \<Longrightarrow> view s (bucket r) t = view s2 (bucket r) t
      \<Longrightarrow> snd (admit s r t) = snd (admit s2 r t)"
    and own_view: "valid s \<Longrightarrow> valid s2 \<Longrightarrow> view s (bucket r) t = view s2 (bucket r) t \<Longrightarrow> t \<le> t'
      \<Longrightarrow> view (fst (admit s r t)) (bucket r) t' = view (fst (admit s2 r t)) (bucket r) t'"
begin

lemma isolation_from:
  assumes "valid s" "valid s2" "sorted (map snd es)" "\<forall>e\<in>set es. T \<le> snd e"
    and "\<And>t. T \<le> t \<Longrightarrow> view s b t = view s2 b t"
  shows "map snd (filter (\<lambda>(e, a). bucket (fst e) = b) (zip es (serve admit s es)))
    = serve admit s2 (filter (\<lambda>e. bucket (fst e) = b) es)"
  using assms
proof (induction es arbitrary: s s2 T)
  case Nil
  then show ?case by simp
next
  case (Cons e es)
  obtain r t where e: "e = (r, t)" by fastforce
  have later: "sorted (map snd es)" "\<forall>e\<in>set es. t \<le> snd e" and T: "T \<le> t"
    using Cons.prems(3,4) e by auto
  have v: "valid (fst (admit s r t))" "valid (fst (admit s2 r t))"
    using Cons.prems(1,2) valid_admit by blast+
  show ?case
  proof (cases "bucket r = b")
    case True
    have now: "view s (bucket r) t = view s2 (bucket r) t" using Cons.prems(5) T True by simp
    have "view (fst (admit s r t)) b t' = view (fst (admit s2 r t)) b t'" if "t \<le> t'" for t'
      using own_view [OF Cons.prems(1,2) now that] True by simp
    from Cons.IH [OF v later this] own_answer [OF Cons.prems(1,2) now] True e show ?thesis
      by (simp add: split_beta)
  next
    case False
    have "view (fst (admit s r t)) b t' = view s2 b t'" if "t \<le> t'" for t'
      using other [OF Cons.prems(1) that, of b r] False Cons.prems(5) [of t'] T that by simp
    from Cons.IH [OF v(1) Cons.prems(2) later this] False e show ?thesis by (simp add: split_beta)
  qed
qed

lemma isolation:
  assumes "valid s" "sorted (map snd es)"
  shows "map snd (filter (\<lambda>(e, a). bucket (fst e) = b) (zip es (serve admit s es)))
    = serve admit s (filter (\<lambda>e. bucket (fst e) = b) es)"
proof (cases es)
  case (Cons e es')
  then have "\<forall>x\<in>set es. snd e \<le> snd x" using assms(2) by auto
  then show ?thesis using isolation_from [OF assms(1) assms(1) assms(2)] by blast
qed simp

end

text \<open>What a bucket holds at an instant: its state until the state's window ends.\<close>

definition live :: "limiter \<Rightarrow> string \<times> resource \<Rightarrow> instant \<Rightarrow> bucket_state option" where
  "live l key t = (case lm_buckets l key of None \<Rightarrow> None | Some st \<Rightarrow> if unix t < bs_reset st then Some st else None)"

lemma unix_mono: "s \<le> t \<Longrightarrow> unix s \<le> unix t"
  by (simp add: unix_def second_def zdiv_mono1)

lemma live_sweep: "t \<le> t' \<Longrightarrow> live (sweep t l) key t' = live l key t'"
  using unix_mono [of t t'] by (auto simp: live_def sweep_def split: option.splits)

lemma current_state_live:
  "current_state l key p t =
     (case live l key t of
        Some st \<Rightarrow> if bs_window st \<noteq> window_seconds p then \<lparr>bs_reset = unix (window_end t (ry_window p)), bs_window = window_seconds p, bs_used = 0\<rparr> else st
      | None \<Rightarrow> \<lparr>bs_reset = unix (window_end t (ry_window p)), bs_window = window_seconds p, bs_used = 0\<rparr>)"
  by (auto simp: current_state_def live_def Let_def split: option.splits)

lemma live_set_bucket:
  "live (set_bucket key st l) key' t = (if key' = key then if unix t < bs_reset st then Some st else None else live l key' t)"
  by (auto simp: live_def set_bucket_def)

lemma policies_kept [simp]:
  "lm_authenticated (sweep t l) = lm_authenticated l" "lm_anonymous (sweep t l) = lm_anonymous l"
  "lm_authenticated (set_bucket key st l) = lm_authenticated l" "lm_anonymous (set_bucket key st l) = lm_anonymous l"
  by (simp_all add: sweep_def set_bucket_def)

lemma policy_for_kept [simp]:
  "policy_for (sweep t l) = policy_for l" "policy_for (set_bucket key st l) = policy_for l"
  by (simp_all add: fun_eq_iff policy_for_def policies_for_def)

text \<open>A request of the limiter: who asks for what, at which cost.\<close>

type_synonym rate_request = "rate_subject \<times> resource \<times> int"

definition admit_request :: "limiter \<Rightarrow> rate_request \<Rightarrow> instant \<Rightarrow> limiter \<times> (snapshot \<times> bool)" where
  "admit_request l r t = (case r of (su, resource, cost) \<Rightarrow> (let (a, l1) = allow l su resource t cost in (l1, a)))"

definition has_policies :: "(resource \<times> rate_policy) list \<Rightarrow> (resource \<times> rate_policy) list \<Rightarrow> limiter \<Rightarrow> bool" where
  "has_policies au an l \<longleftrightarrow> lm_authenticated l = au \<and> lm_anonymous l = an"

definition request_bucket ::
  "(resource \<times> rate_policy) list \<Rightarrow> (resource \<times> rate_policy) list \<Rightarrow> rate_request \<Rightarrow> string \<times> resource" where
  "request_bucket au an r = (case r of (su, resource, cost) \<Rightarrow>
     (normalize_actor (su_actor su),
      case map_of (if su_authenticated su then au else an) resource of Some p \<Rightarrow> ry_bucket p | None \<Rightarrow> resource))"

text \<open>The outcome of a request as a function of what its bucket holds.\<close>

definition charge :: "rate_policy \<Rightarrow> resource \<Rightarrow> int \<Rightarrow> bucket_state \<Rightarrow> (snapshot \<times> bool) \<times> bucket_state" where
  "charge p resource cost0 st =
     (let cost = (if cost0 \<le> 0 then 1 else cost0)
      in if add64 (bs_used st) cost > ry_limit p then ((snapshot_from_state resource p st, False), st)
         else (let st1 = st\<lparr>bs_used := add64 (bs_used st) cost\<rparr> in ((snapshot_from_state resource p st1, True), st1)))"

lemma allow_charge:
  assumes "policy_for l su resource = Some p" "ry_limit p \<noteq> 0"
  defines "key \<equiv> (normalize_actor (su_actor su), ry_bucket p)"
  shows "allow l su resource t cost =
    (let (a, st) = charge p resource cost (current_state (sweep t l) key p t) in (a, set_bucket key st (sweep t l)))"
  using assms by (simp add: allow_def charge_def Let_def)

lemma current_state_sweep: "current_state (sweep t l) key p t = current_state l key p t"
  by (simp add: current_state_live live_sweep)

lemma current_state_cong: "live l key t = live l2 key t \<Longrightarrow> current_state l key p t = current_state l2 key p t"
  by (simp add: current_state_live)

lemma policy_for_has: "has_policies au an l \<Longrightarrow> policy_for l su resource = map_of (if su_authenticated su then au else an) resource"
  by (simp add: policy_for_def policies_for_def has_policies_def)

lemma live_later: "live l key t = live l2 key t \<Longrightarrow> t \<le> t' \<Longrightarrow> live l key t' = live l2 key t'"
  using unix_mono [of t t'] by (auto simp: live_def split: option.splits if_splits)

text \<open>The effect of a request, seen through its bucket.\<close>

lemma admit_request_cases:
  fixes r :: rate_request
  assumes "r = (su, resource, cost)" "has_policies au an l"
  defines "q \<equiv> map_of (if su_authenticated su then au else an) resource"
  shows "q = None \<Longrightarrow> admit_request l r t = (l, empty_snapshot resource, True)"
    and "q = Some p \<Longrightarrow> ry_limit p = 0 \<Longrightarrow> admit_request l r t = (l, snapshot_for_policy p resource 0 t, False)"
    and "q = Some p \<Longrightarrow> ry_limit p \<noteq> 0 \<Longrightarrow> admit_request l r t =
      (let key = request_bucket au an r; (a, st) = charge p resource cost (current_state l key p t)
       in (set_bucket key st (sweep t l), a))"
proof -
  have q: "policy_for l su resource = q" using policy_for_has [OF assms(2)] by (simp add: q_def)
  show "q = None \<Longrightarrow> admit_request l r t = (l, empty_snapshot resource, True)"
    using q by (simp add: admit_request_def assms(1) allow_def)
  show "q = Some p \<Longrightarrow> ry_limit p = 0 \<Longrightarrow> admit_request l r t = (l, snapshot_for_policy p resource 0 t, False)"
    using q by (simp add: admit_request_def assms(1) allow_def Let_def)
  assume p: "q = Some p" "ry_limit p \<noteq> 0"
  have "request_bucket au an r = (normalize_actor (su_actor su), ry_bucket p)"
    using p(1) by (simp add: request_bucket_def assms(1) q_def)
  with p q show "admit_request l r t =
      (let key = request_bucket au an r; (a, st) = charge p resource cost (current_state l key p t)
       in (set_bucket key st (sweep t l), a))"
    by (simp add: admit_request_def assms(1) allow_charge current_state_sweep split_beta Let_def)
qed

lemma admit_request_keeps: "has_policies au an l \<Longrightarrow> has_policies au an (fst (admit_request l r t))"
  by (simp add: admit_request_def allow_def has_policies_def Let_def split: option.split prod.split)

lemma admit_request_other:
  assumes "has_policies au an l" "t \<le> t'" "b \<noteq> request_bucket au an r"
  shows "live (fst (admit_request l r t)) b t' = live l b t'"
proof -
  obtain su resource cost where r: "r = (su, resource, cost)" by (cases r) auto
  show ?thesis
  proof (cases "map_of (if su_authenticated su then au else an) resource")
    case None
    then show ?thesis by (simp add: admit_request_cases(1) [OF r assms(1)])
  next
    case (Some p)
    then show ?thesis using assms(2,3)
      by (cases "ry_limit p = 0")
        (simp_all add: admit_request_cases(2,3) [OF r assms(1) Some] live_set_bucket live_sweep split_beta Let_def)
  qed
qed

lemma admit_request_own:
  assumes "has_policies au an l" "has_policies au an l2"
    and "live l (request_bucket au an r) t = live l2 (request_bucket au an r) t"
  shows "snd (admit_request l r t) = snd (admit_request l2 r t)"
    and "t \<le> t' \<Longrightarrow> live (fst (admit_request l r t)) (request_bucket au an r) t'
      = live (fst (admit_request l2 r t)) (request_bucket au an r) t'"
proof -
  obtain su resource cost where r: "r = (su, resource, cost)" by (cases r) auto
  let ?q = "map_of (if su_authenticated su then au else an) resource"
  have "snd (admit_request l r t) = snd (admit_request l2 r t) \<and>
      (t \<le> t' \<longrightarrow> live (fst (admit_request l r t)) (request_bucket au an r) t'
        = live (fst (admit_request l2 r t)) (request_bucket au an r) t')"
  proof (cases ?q)
    case None
    then show ?thesis using live_later [OF assms(3)]
      by (simp add: admit_request_cases(1) [OF r assms(1)] admit_request_cases(1) [OF r assms(2)])
  next
    case (Some p)
    then show ?thesis
      using live_later [OF assms(3)] current_state_cong [OF assms(3), of p]
      by (cases "ry_limit p = 0")
        (simp_all add: admit_request_cases(2,3) [OF r assms(1) Some] admit_request_cases(2,3) [OF r assms(2) Some]
          live_set_bucket split_beta Let_def)
  qed
  then show "snd (admit_request l r t) = snd (admit_request l2 r t)"
    "t \<le> t' \<Longrightarrow> live (fst (admit_request l r t)) (request_bucket au an r) t'
      = live (fst (admit_request l2 r t)) (request_bucket au an r) t'" by blast+
qed

interpretation buckets: admission admit_request "request_bucket au an" live "has_policies au an" for au an
  by unfold_locales
    (fact admit_request_keeps, fact admit_request_other, fact admit_request_own(1), fact admit_request_own(2))


section \<open>Windows of whole seconds\<close>

definition whole_window :: "rate_policy \<Rightarrow> bool" where
  "whole_window p \<longleftrightarrow> 0 < ry_window p \<and> second dvd ry_window p \<and> 0 \<le> ry_limit p \<and> ry_limit p < 2 ^ 62"

lemma window_end_div: "0 < w \<Longrightarrow> window_end t w = (t div w + 1) * w"
  using mult_div_mod_eq [of w t]
  by (simp add: window_end_def window_start_def Go_Time.truncate_def minus_mod_eq_mult_div algebra_simps)

lemma int_div_less: "0 < d \<Longrightarrow> t div d < k \<longleftrightarrow> t < k * d" for t d k :: int
proof
  assume d: "0 < d" and "t div d < k"
  then have "d * (t div d) + d \<le> d * k" using mult_left_mono [of "t div d + 1" k d] by (simp add: distrib_left)
  moreover have "t < d * (t div d) + d" using d pos_mod_bound [of d t] mult_div_mod_eq [of d t] by linarith
  ultimately show "t < k * d" by (simp add: mult.commute)
next
  assume d: "0 < d" and t: "t < k * d"
  show "t div d < k"
  proof (rule ccontr)
    assume "\<not> t div d < k"
    then have "d * k \<le> d * (t div d)" using d by (intro mult_left_mono) simp_all
    moreover have "d * (t div d) \<le> t" using d pos_mod_sign [of d t] mult_div_mod_eq [of d t] by linarith
    ultimately show False using t by (simp add: mult.commute)
  qed
qed

lemma unix_window_end:
  assumes "whole_window p"
  shows "unix t < unix (window_end t0 (ry_window p)) \<longleftrightarrow> t < window_end t0 (ry_window p)"
proof -
  obtain m where m: "ry_window p = second * m" "0 < ry_window p"
    using assms by (auto simp: whole_window_def)
  have "window_end t0 (ry_window p) = ((t0 div ry_window p + 1) * m) * second"
    using window_end_div [OF m(2)] m(1) by (simp add: mult.assoc mult.commute)
  moreover have "0 < second" by (simp add: second_def)
  ultimately show ?thesis by (simp add: unix_def int_div_less)
qed

lemma before_window_end: "0 < w \<Longrightarrow> t < window_end t w"
proof -
  assume w: "0 < w"
  show ?thesis using int_div_less [OF w, of t "t div w + 1"] window_end_div [OF w, of t] by simp
qed

lemma same_window:
  assumes "0 < w" "t0 \<le> t" "t < window_end t0 w"
  shows "window_end t w = window_end t0 w"
proof -
  have "t < (t0 div w + 1) * w" using assms(3) window_end_div [OF assms(1)] by simp
  then have "t div w < t0 div w + 1" by (simp only: int_div_less [OF assms(1)])
  moreover have "t0 div w \<le> t div w" using assms(1,2) by (simp add: zdiv_mono1)
  ultimately show ?thesis using window_end_div [OF assms(1)] by simp
qed

abbreviation reset_at :: "rate_policy \<Rightarrow> instant \<Rightarrow> int" where
  "reset_at p t \<equiv> unix (window_end t (ry_window p))"

lemma reset_after: "whole_window p \<Longrightarrow> unix t < reset_at p t"
  using unix_window_end [of p t t] before_window_end [of "ry_window p" t] by (simp add: whole_window_def)

lemma reset_same: "whole_window p \<Longrightarrow> t0 \<le> t \<Longrightarrow> unix t < reset_at p t0 \<Longrightarrow> reset_at p t = reset_at p t0"
  using unix_window_end [of p t t0] same_window [of "ry_window p" t0 t] by (simp add: whole_window_def)

section \<open>Never more than the limit in a window\<close>

text \<open>A bucket of one policy: what it holds was opened at some earlier instant and is within the limit.\<close>

definition bucket_ok :: "rate_policy \<Rightarrow> instant \<Rightarrow> bucket_state option \<Rightarrow> bool" where
  "bucket_ok p T so = (case so of None \<Rightarrow> True | Some st \<Rightarrow>
     0 \<le> bs_used st \<and> bs_used st \<le> ry_limit p \<and> bs_window st = window_seconds p \<and> (\<exists>t0\<le>T. bs_reset st = reset_at p t0))"

definition held :: "bucket_state option \<Rightarrow> int \<Rightarrow> int" where
  "held so r = (case so of None \<Rightarrow> 0 | Some st \<Rightarrow> if bs_reset st = r then bs_used st else 0)"

definition cost_of :: "rate_request \<Rightarrow> int" where
  "cost_of r = (case r of (su, resource, cost) \<Rightarrow> if cost \<le> 0 then 1 else cost)"

text \<open>The cost admitted for a bucket within the window that ends at \<open>r\<close>.\<close>

fun spent :: "(rate_request \<Rightarrow> string \<times> resource) \<Rightarrow> string \<times> resource \<Rightarrow> rate_policy \<Rightarrow> int
    \<Rightarrow> (rate_request \<times> instant) list \<Rightarrow> (snapshot \<times> bool) list \<Rightarrow> int" where
  "spent bkt key p r ((q, t) # es) (a # as) =
     (if bkt q = key \<and> snd a \<and> reset_at p t = r then cost_of q else 0) + spent bkt key p r es as"
| "spent bkt key p r _ _ = 0"

lemma spent_late:
  assumes "whole_window p" "\<forall>e\<in>set es. t0 \<le> snd e" "r \<le> unix t0"
  shows "spent bkt key p r es as = 0"
  using assms
proof (induction bkt key p r es as rule: spent.induct)
  case (1 bkt key p r q t es a as)
  have "unix t0 \<le> unix t" using "1.prems"(2) by (simp add: unix_mono)
  then have "reset_at p t \<noteq> r" using reset_after [OF "1.prems"(1), of t] "1.prems"(3) by simp
  with 1 show ?case by simp
qed simp_all

lemma bucket_ok_later: "bucket_ok p T so \<Longrightarrow> T \<le> t \<Longrightarrow> bucket_ok p t so"
  by (auto simp: bucket_ok_def split: option.splits intro: order_trans)

lemma live_bucket: "bucket_ok p T (lm_buckets l key) \<Longrightarrow> bucket_ok p T (live l key t)"
  by (auto simp: live_def bucket_ok_def split: option.splits)

lemma current_used:
  assumes p: "whole_window p" and ok: "bucket_ok p T (lm_buckets l key)" and T: "T \<le> t"
  shows "bs_reset (current_state l key p t) = reset_at p t"
    "bs_used (current_state l key p t) = held (live l key t) (reset_at p t)"
    "0 \<le> bs_used (current_state l key p t)" "bs_used (current_state l key p t) \<le> ry_limit p"
    "bs_window (current_state l key p t) = window_seconds p"
proof -
  have "bs_reset (current_state l key p t) = reset_at p t
    \<and> bs_used (current_state l key p t) = held (live l key t) (reset_at p t)
    \<and> 0 \<le> bs_used (current_state l key p t) \<and> bs_used (current_state l key p t) \<le> ry_limit p
    \<and> bs_window (current_state l key p t) = window_seconds p"
  proof (cases "live l key t")
    case None
    with p show ?thesis by (simp add: current_state_live held_def whole_window_def)
  next
    case (Some st)
    then have st: "lm_buckets l key = Some st" "unix t < bs_reset st"
      by (auto simp: live_def split: option.splits if_splits)
    with ok obtain t0 where "t0 \<le> T" "bs_reset st = reset_at p t0" "bs_window st = window_seconds p"
      "0 \<le> bs_used st" "bs_used st \<le> ry_limit p" by (auto simp: bucket_ok_def)
    with reset_same [OF p, of t0 t] T st(2) Some show ?thesis by (simp add: current_state_live held_def)
  qed
  then show "bs_reset (current_state l key p t) = reset_at p t"
    "bs_used (current_state l key p t) = held (live l key t) (reset_at p t)"
    "0 \<le> bs_used (current_state l key p t)" "bs_used (current_state l key p t) \<le> ry_limit p"
    "bs_window (current_state l key p t) = window_seconds p" by blast+
qed

lemma add64_small: "0 \<le> a \<Longrightarrow> 0 \<le> b \<Longrightarrow> a < 2 ^ 62 \<Longrightarrow> b < 2 ^ 62 \<Longrightarrow> add64 a b = a + b"
  by (simp add: add64_def mod_pos_pos_trivial)

text \<open>One request against its own bucket: the bucket stays good and holds the cost if it was admitted.\<close>

lemma charge_step:
  assumes p: "whole_window p" "ry_limit p \<noteq> 0" and r: "r = (su, resource, cost)" and hp: "has_policies au an l"
    and q: "map_of (if su_authenticated su then au else an) resource = Some p" and c: "cost < 2 ^ 62"
    and ok: "bucket_ok p T (lm_buckets l key)" and T: "T \<le> t" and key: "request_bucket au an r = key"
  shows "bucket_ok p t (lm_buckets (fst (admit_request l r t)) key)"
    "unix t < w \<Longrightarrow> held (live (fst (admit_request l r t)) key t) w =
      held (live l key t) w + (if snd (snd (admit_request l r t)) \<and> reset_at p t = w then cost_of r else 0)"
proof -
  let ?cs = "current_state l key p t"
  note cs = current_used [OF p(1) ok T]
  have co: "cost_of r = (if cost \<le> 0 then 1 else cost)" by (simp add: cost_of_def r)
  have add: "add64 (bs_used ?cs) (cost_of r) = bs_used ?cs + cost_of r" "0 < cost_of r"
    using cs(3,4) p(1) c by (auto simp: co whole_window_def intro!: add64_small)
  have adm: "admit_request l r t = (let (a, st) = charge p resource cost ?cs in (set_bucket key st (sweep t l), a))"
    using admit_request_cases(3) [OF r hp q p(2), of t] by (simp add: key Let_def)
  have ch: "charge p resource cost ?cs =
      (if bs_used ?cs + cost_of r > ry_limit p then ((snapshot_from_state resource p ?cs, False), ?cs)
       else ((snapshot_from_state resource p (?cs\<lparr>bs_used := bs_used ?cs + cost_of r\<rparr>), True),
             ?cs\<lparr>bs_used := bs_used ?cs + cost_of r\<rparr>))"
    unfolding charge_def co [symmetric] add(1) Let_def ..
  obtain st where st: "fst (admit_request l r t) = set_bucket key st (sweep t l)"
    "st = (if snd (snd (admit_request l r t)) then ?cs\<lparr>bs_used := bs_used ?cs + cost_of r\<rparr> else ?cs)"
    "snd (snd (admit_request l r t)) \<longleftrightarrow> bs_used ?cs + cost_of r \<le> ry_limit p"
    using adm ch by (auto simp: Let_def split: if_splits)
  have b: "lm_buckets (fst (admit_request l r t)) key = Some st" by (simp add: st(1) set_bucket_def)
  show "bucket_ok p t (lm_buckets (fst (admit_request l r t)) key)"
    using cs st(2,3) add(2) by (auto simp: b bucket_ok_def)
  assume w: "unix t < w"
  have "bs_reset st = reset_at p t" using st(2) cs(1) by simp
  then have "held (live (fst (admit_request l r t)) key t) w = (if reset_at p t = w then bs_used st else 0)"
    using reset_after [OF p(1), of t] b by (simp add: live_def held_def)
  moreover have "held (live l key t) w = 0" if "reset_at p t \<noteq> w"
  proof (cases "live l key t")
    case (Some s0)
    then have "?cs = s0" using cs(5) current_state_live [of l key p t] live_bucket [OF ok, of t] by (simp add: bucket_ok_def)
    then show ?thesis using Some cs(1) that by (simp add: held_def)
  qed (simp add: held_def)
  ultimately show "held (live (fst (admit_request l r t)) key t) w =
      held (live l key t) w + (if snd (snd (admit_request l r t)) \<and> reset_at p t = w then cost_of r else 0)"
    using st(2) cs(2) by auto
qed


text \<open>All requests of a bucket are under one policy, and their costs are far from the word size.\<close>

definition uniform ::
  "(resource \<times> rate_policy) list \<Rightarrow> (resource \<times> rate_policy) list \<Rightarrow> string \<times> resource \<Rightarrow> rate_policy \<Rightarrow> rate_request \<Rightarrow> bool" where
  "uniform au an key p r = (case r of (su, resource, cost) \<Rightarrow>
     request_bucket au an r = key \<longrightarrow>
       map_of (if su_authenticated su then au else an) resource = Some p \<and> cost < 2 ^ 62)"

lemma held_later:
  assumes "T \<le> t" "unix t < w"
  shows "held (live l key T) w = held (live l key t) w"
  using assms unix_mono [OF assms(1)] by (auto simp: held_def live_def split: option.splits)

lemma spent_bound:
  assumes p: "whole_window p" "ry_limit p \<noteq> 0" and hp: "has_policies au an l"
    and es: "sorted (map snd es)" "\<forall>e\<in>set es. T \<le> snd e" "\<forall>e\<in>set es. uniform au an key p (fst e)"
    and ok: "bucket_ok p T (lm_buckets l key)"
  shows "held (live l key T) w + spent (request_bucket au an) key p w es (serve admit_request l es) \<le> ry_limit p"
  using hp es ok
proof (induction es arbitrary: l T)
  case Nil
  then show ?case using live_bucket [OF Nil.prems(5), of T] p(1)
    by (auto simp: held_def bucket_ok_def whole_window_def split: option.splits)
next
  case (Cons e es)
  obtain r t where e: "e = (r, t)" by fastforce
  obtain su resource cost where r: "r = (su, resource, cost)" by (cases r) auto
  let ?l = "fst (admit_request l r t)" and ?a = "snd (admit_request l r t)"
  have later: "sorted (map snd es)" "\<forall>e\<in>set es. t \<le> snd e" "\<forall>e\<in>set es. uniform au an key p (fst e)" and T: "T \<le> t"
    using Cons.prems e by auto
  have hl: "has_policies au an ?l" by (rule admit_request_keeps [OF Cons.prems(1)])
  have ok: "bucket_ok p t (lm_buckets ?l key)"
    and step: "unix t < w \<Longrightarrow> held (live ?l key t) w =
      held (live l key t) w + (if request_bucket au an r = key \<and> snd ?a \<and> reset_at p t = w then cost_of r else 0)"
  proof -
    have u: "uniform au an key p r" using Cons.prems(4) e by simp
    show "bucket_ok p t (lm_buckets ?l key)"
    proof (cases "request_bucket au an r = key")
      case True
      then show ?thesis using u
        by (intro charge_step(1) [OF p r Cons.prems(1) _ _ Cons.prems(5) T True]) (simp_all add: uniform_def r)
    next
      case False
      have "lm_buckets ?l key = lm_buckets l key \<or> lm_buckets ?l key = None"
      proof (cases "map_of (if su_authenticated su then au else an) resource")
        case None
        then show ?thesis by (simp add: admit_request_cases(1) [OF r Cons.prems(1)])
      next
        case (Some q)
        then show ?thesis using False
          by (cases "ry_limit q = 0")
            (auto simp: admit_request_cases(2,3) [OF r Cons.prems(1) Some] set_bucket_def sweep_def split_beta Let_def
              split: option.splits)
      qed
      then show ?thesis using bucket_ok_later [OF Cons.prems(5) T] by (auto simp: bucket_ok_def)
    qed
    assume w: "unix t < w"
    show "held (live ?l key t) w =
      held (live l key t) w + (if request_bucket au an r = key \<and> snd ?a \<and> reset_at p t = w then cost_of r else 0)"
    proof (cases "request_bucket au an r = key")
      case True
      then show ?thesis using u charge_step(2) [OF p r Cons.prems(1) _ _ Cons.prems(5) T True w] by (simp add: uniform_def r)
    next
      case False
      then show ?thesis using admit_request_other [OF Cons.prems(1) order_refl, of key r] by simp
    qed
  qed
  have ih: "held (live ?l key t) w + spent (request_bucket au an) key p w es (serve admit_request ?l es) \<le> ry_limit p"
    by (rule Cons.IH [OF hl later ok])
  have run: "spent (request_bucket au an) key p w (e # es) (serve admit_request l (e # es)) =
      (if request_bucket au an r = key \<and> snd ?a \<and> reset_at p t = w then cost_of r else 0)
      + spent (request_bucket au an) key p w es (serve admit_request ?l es)"
    by (simp add: e split_beta)
  show ?case
  proof (cases "unix t < w")
    case True
    then show ?thesis using ih step run held_later [OF T True, of l key] by simp
  next
    case False
    have "spent (request_bucket au an) key p w es (serve admit_request ?l es) = 0"
      by (rule spent_late [OF p(1) later(2)]) (use False in simp)
    moreover have "reset_at p t \<noteq> w" using False reset_after [OF p(1), of t] by simp
    moreover have "held (live l key T) w \<le> ry_limit p"
      using live_bucket [OF Cons.prems(5), of T] p(1)
      by (auto simp: held_def bucket_ok_def whole_window_def split: option.splits)
    ultimately show ?thesis using run by simp
  qed
qed

lemma spent_nothing:
  assumes "ry_limit p = 0" "has_policies au an l" "\<forall>e\<in>set es. uniform au an key p (fst e)"
  shows "spent (request_bucket au an) key p w es (serve admit_request l es) = 0"
  using assms(2,3)
proof (induction es arbitrary: l)
  case (Cons e es)
  obtain r t where e: "e = (r, t)" by fastforce
  obtain su resource cost where r: "r = (su, resource, cost)" by (cases r) auto
  have "\<not> snd (snd (admit_request l r t))" if "request_bucket au an r = key"
    using Cons.prems(2) that admit_request_cases(2) [OF r Cons.prems(1), of p t] assms(1)
    by (simp add: e uniform_def r)
  moreover have "has_policies au an (fst (admit_request l r t))" by (rule admit_request_keeps [OF Cons.prems(1)])
  ultimately show ?case using Cons.IH Cons.prems(2) by (auto simp: e split_beta Let_def)
qed simp

section \<open>Properties\<close>

text \<open>
  C20. Within one window a bucket never admits more than its limit, provided the window is a
  positive whole number of seconds, the limit is not negative and it and every cost are below
  \<open>2^62\<close>, and all requests of the bucket are under one policy: over any sequence of requests
  with non-decreasing clock readings, served by a limiter on which the bucket has no recorded use,
  the cost admitted for one actor and resource in the window that ends at any given second is at
  most the limit, however other actors' requests and the sweeps are interleaved. A window that is
  not a whole number of seconds is not enforced, see \<open>subsecond_window_not_enforced\<close>.
\<close>

theorem admitted_within_limit:
  assumes "whole_window p" "has_policies au an l" "lm_buckets l key = None"
    and "sorted (map snd es)" "\<forall>e\<in>set es. uniform au an key p (fst e)"
  shows "spent (request_bucket au an) key p w es (serve admit_request l es) \<le> ry_limit p"
proof (cases "es = [] \<or> ry_limit p = 0")
  case True
  then show ?thesis
    using assms(1) spent_nothing [OF _ assms(2,5)] by (auto simp: whole_window_def)
next
  case False
  then have "\<forall>x\<in>set es. snd (hd es) \<le> snd x" using assms(4) by (cases es) auto
  from spent_bound [OF assms(1) _ assms(2,4) this assms(5), where w = w] False assms(3) show ?thesis
    by (simp add: bucket_ok_def held_def live_def)
qed

definition sample_limiter :: limiter where "sample_limiter = new_limiter 2 minute"
definition sample_policies :: "(resource \<times> rate_policy) list" where "sample_policies = lm_anonymous sample_limiter"
definition sample_caller :: "string \<Rightarrow> rate_request" where
  "sample_caller a = (\<lparr>su_actor = a, su_authenticated = False\<rparr>, ''core'', 1)"
definition sample_events :: "(rate_request \<times> instant) list" where
  "sample_events = [(sample_caller ''ip:a'', 62135596800 * second), (sample_caller ''ip:a'', 62135596801 * second),
     (sample_caller ''ip:b'', 62135596802 * second), (sample_caller ''ip:a'', 62135596803 * second)]"

lemma limiter_values:
  "map snd (serve admit_request sample_limiter sample_events) = [True, True, True, False]
   \<and> sorted (map snd sample_events)
   \<and> lm_authenticated sample_limiter = sample_policies
   \<and> map_of sample_policies ''core'' = Some \<lparr>ry_limit = 2, ry_window = minute, ry_bucket = ''core''\<rparr>"
  by code_simp

lemma sample_has_policies: "has_policies sample_policies sample_policies sample_limiter"
  using limiter_values by (simp add: has_policies_def sample_policies_def)

theorem admitted_within_limit_witness:
  "spent (request_bucket sample_policies sample_policies) (''ip:a'', ''core'') \<lparr>ry_limit = 2, ry_window = minute, ry_bucket = ''core''\<rparr>
     60 sample_events (serve admit_request sample_limiter sample_events) \<le> 2"
proof -
  let ?p = "\<lparr>ry_limit = 2, ry_window = minute, ry_bucket = ''core''\<rparr>"
  have "whole_window ?p" by (simp add: whole_window_def minute_def second_def)
  moreover have "lm_buckets sample_limiter (''ip:a'', ''core'') = None" by (simp add: sample_limiter_def new_limiter_def Let_def)
  moreover have "\<forall>e\<in>set sample_events. uniform sample_policies sample_policies (''ip:a'', ''core'') ?p (fst e)"
    using limiter_values by (simp add: sample_events_def sample_caller_def uniform_def)
  ultimately show ?thesis
    using admitted_within_limit [OF _ sample_has_policies, of ?p "(''ip:a'', ''core'')" sample_events 60] limiter_values
    by simp
qed

text \<open>
  C30. Actors are isolated: the answers a limiter gives to the requests of one bucket, snapshots
  included, are the answers it gives when the requests of all other buckets never happen, and the
  periodic sweep is not observable.
\<close>

theorem limiter_isolation:
  assumes "has_policies au an l" "sorted (map snd es)"
  shows "map snd (filter (\<lambda>(e, a). request_bucket au an (fst e) = b) (zip es (serve admit_request l es)))
    = serve admit_request l (filter (\<lambda>e. request_bucket au an (fst e) = b) es)"
  by (rule buckets.isolation [OF assms])

theorem limiter_isolation_witness:
  "map snd (filter (\<lambda>(e, a). request_bucket sample_policies sample_policies (fst e) = (''ip:b'', ''core''))
      (zip sample_events (serve admit_request sample_limiter sample_events)))
   = serve admit_request sample_limiter
      (filter (\<lambda>e. request_bucket sample_policies sample_policies (fst e) = (''ip:b'', ''core'')) sample_events)"
  by (rule limiter_isolation [OF sample_has_policies]) (simp add: limiter_values)


text \<open>
  C31. The wait a refused request is told is at least a second and is enough: when the same
  request is made again to the same limiter once that many seconds have passed, it is served.
\<close>

theorem retry_after_honest:
  assumes "api_rate_limit (Some l) r now = (Refused sn wait, Some l1)"
    and "list_all (\<lambda>(k, p). 1 \<le> ry_limit p) (lm_authenticated l @ lm_anonymous l)"
    and "unix now + wait \<le> unix now'"
  shows "1 \<le> wait \<and> (\<exists>sn' l2. api_rate_limit (Some l1) r now' = (Served sn' None, Some l2))"
proof -
  let ?su = "subject_for_request (Some r)"
  obtain resource where res: "resource_for_path (hr_path r) = Some resource" "hr_path r \<noteq> ''/api/v3/rate_limit''"
    and al: "allow l ?su resource now 1 = ((sn, False), l1)"
    and wait: "wait = (if sn_reset sn - unix now < 1 then 1 else sn_reset sn - unix now)"
    using assms(1)
    by (auto simp: api_rate_limit_def limiter_allow_def Let_def split: option.splits if_splits prod.splits)
  obtain p where p: "policy_for l ?su resource = Some p" using al by (auto simp: allow_def split: option.splits)
  then have lim: "1 \<le> ry_limit p"
    using assms(2) by (fastforce simp: policy_for_def policies_for_def list_all_iff split: if_splits dest: map_of_SomeD)
  let ?key = "(normalize_actor (su_actor ?su), ry_bucket p)"
  let ?st = "current_state (sweep now l) ?key p now"
  have "ry_limit p \<noteq> 0" using lim by simp
  from allow_charge [OF p this, of now 1] al
  have sn: "sn_reset sn = bs_reset ?st" and l1: "l1 = set_bucket ?key ?st (sweep now l)"
    by (auto simp: charge_def Let_def snapshot_from_state_def split: if_splits)
  have "bs_reset ?st \<le> unix now'" using assms(3) wait sn by (auto split: if_splits)
  then have "live l1 ?key now' = None" by (simp add: l1 live_set_bucket)
  then have fresh: "bs_used (current_state (sweep now' l1) ?key p now') = 0"
    by (simp add: current_state_live live_sweep)
  have p1: "policy_for l1 ?su resource = Some p" using p by (simp add: l1)
  have "\<exists>sn' l2. allow l1 ?su resource now' 1 = ((sn', True), l2)"
    using allow_charge [OF p1 \<open>ry_limit p \<noteq> 0\<close>, of now' 1] fresh lim by (simp add: charge_def Let_def add64_def)
  then show ?thesis using res wait by (auto simp: api_rate_limit_def limiter_allow_def Let_def)
qed

definition sample_api_request :: http_request where
  "sample_api_request = \<lparr>hr_actor = Some ''token:x'', hr_forwarded_for = [], hr_real_ip = [],
     hr_remote_addr = ''10.0.0.1:4242'', hr_path = ''/api/v3/user''\<rparr>"

definition used_up :: limiter where
  "used_up = the (snd (api_rate_limit (Some (new_limiter 1 minute)) sample_api_request (62135596800 * second)))"

theorem retry_after_honest_witness:
  "\<exists>wait l1 sn' l2. api_rate_limit (Some l1) sample_api_request ((62135596800 + wait) * second) = (Served sn' None, Some l2) \<and> 1 \<le> wait"
proof -
  have "case api_rate_limit (Some used_up) sample_api_request (62135596800 * second) of
      (Refused sn wait, Some l1) \<Rightarrow> True | _ \<Rightarrow> False"
    "list_all (\<lambda>(k, p). 1 \<le> ry_limit p) (lm_authenticated used_up @ lm_anonymous used_up)"
    by code_simp+
  then obtain sn wait l1 where r: "api_rate_limit (Some used_up) sample_api_request (62135596800 * second) = (Refused sn wait, Some l1)"
    by (auto split: prod.splits api_outcome.splits option.splits)
  have "unix (62135596800 * second) + wait \<le> unix ((62135596800 + wait) * second)" by (simp add: unix_def second_def)
  from retry_after_honest [OF r _ this] \<open>list_all _ _\<close> show ?thesis by blast
qed

text \<open>
  A window that is not a whole number of seconds is not enforced: its end, rounded down to a
  second, is not after the present, so every request opens a new bucket.
\<close>

lemma subsecond_window_not_enforced:
  "map snd (serve admit_request (new_limiter 1 500000000)
     [(sample_caller ''ip:a'', 62135596800 * second), (sample_caller ''ip:a'', 62135596800 * second),
      (sample_caller ''ip:a'', 62135596800 * second)]) = [True, True, True]"
  by code_simp

lemma inspect_view:
  assumes p: "policy_for l su resource = Some p" "whole_window p" "bucket_ok p T (lm_buckets l key)"
    and "key = (normalize_actor (su_actor su), ry_bucket p)" "T \<le> t" "t \<le> t'"
  shows "current_state (snd (inspect l su resource t)) key p t' = current_state l key p t'"
proof (cases "ry_limit p = 0")
  case True
  then show ?thesis using p(1) by (simp add: inspect_def)
next
  case False
  let ?st = "current_state l key p t"
  note cs = current_used [OF p(2,3) assms(5)]
  have l1: "snd (inspect l su resource t) = set_bucket key ?st (sweep t l)"
    using False p(1) assms(4) by (simp add: inspect_def Let_def current_state_sweep)
  have new: "live (snd (inspect l su resource t)) key t' = (if unix t' < bs_reset ?st then Some ?st else None)"
    by (simp add: l1 live_set_bucket)
  show ?thesis
  proof (cases "live l key t")
    case None
    then have "live l key t' = None" using live_later [of l key t "l\<lparr>lm_buckets := Map.empty\<rparr>" t'] assms(6) by (simp add: live_def)
    moreover have "?st = \<lparr>bs_reset = reset_at p t, bs_window = window_seconds p, bs_used = 0\<rparr>"
      using None by (simp add: current_state_live)
    ultimately show ?thesis using new reset_same [OF p(2) assms(6)] by (simp add: current_state_live [of _ key p t'])
  next
    case (Some s0)
    then have s0: "?st = s0" using cs(5) live_bucket [OF p(3), of t] by (simp add: current_state_live bucket_ok_def)
    moreover have "live l key t' = (if unix t' < bs_reset s0 then Some s0 else None)"
      using Some by (auto simp: live_def split: option.splits if_splits)
    ultimately show ?thesis using new by (simp add: current_state_live [of _ key p t'])
  qed
qed

text \<open>
  Looking at a quota does not spend it: an \<open>Inspect\<close> before an \<open>Allow\<close> of the same caller and
  resource changes neither the decision nor the snapshot of the \<open>Allow\<close>.
\<close>

theorem inspect_consumes_nothing:
  assumes "policy_for l su resource = Some p" "whole_window p"
    and "bucket_ok p T (lm_buckets l (normalize_actor (su_actor su), ry_bucket p))" "T \<le> t" "t \<le> t'"
  shows "fst (allow (snd (inspect l su resource t)) su resource t' cost) = fst (allow l su resource t' cost)"
proof (cases "ry_limit p = 0")
  case True
  then show ?thesis using assms(1) by (simp add: inspect_def)
next
  case False
  have "snd (inspect l su resource t)
      = set_bucket (normalize_actor (su_actor su), ry_bucket p) (current_state (sweep t l) (normalize_actor (su_actor su), ry_bucket p) p t) (sweep t l)"
    using False assms(1) by (simp add: inspect_def Let_def)
  with assms(1) have p1: "policy_for (snd (inspect l su resource t)) su resource = Some p"
    by simp
  show ?thesis
    using allow_charge [OF assms(1) False, of t' cost] allow_charge [OF p1 False, of t' cost]
      inspect_view [OF assms(1-3) refl assms(4,5)]
    by (simp add: current_state_sweep split_beta)
qed

theorem inspect_consumes_nothing_witness:
  "fst (allow (snd (inspect sample_limiter (fst (sample_caller ''ip:a'')) ''core'' (62135596800 * second)))
       (fst (sample_caller ''ip:a'')) ''core'' (62135596803 * second) 1)
   = fst (allow sample_limiter (fst (sample_caller ''ip:a'')) ''core'' (62135596803 * second) 1)"
proof (rule inspect_consumes_nothing)
  show "policy_for sample_limiter (fst (sample_caller ''ip:a'')) ''core'' = Some \<lparr>ry_limit = 2, ry_window = minute, ry_bucket = ''core''\<rparr>"
    by code_simp
  show "whole_window \<lparr>ry_limit = 2, ry_window = minute, ry_bucket = ''core''\<rparr>"
    by (simp add: whole_window_def minute_def second_def)
  show "bucket_ok \<lparr>ry_limit = 2, ry_window = minute, ry_bucket = ''core''\<rparr> 0 (lm_buckets sample_limiter
      (normalize_actor (su_actor (fst (sample_caller ''ip:a''))), ry_bucket \<lparr>ry_limit = 2, ry_window = minute, ry_bucket = ''core''\<rparr>))"
    by (simp add: sample_limiter_def new_limiter_def Let_def bucket_ok_def)
qed (simp_all add: second_def)

section \<open>Reports\<close>

definition balanced :: "rate_policy \<Rightarrow> resource \<Rightarrow> snapshot \<Rightarrow> bool" where
  "balanced p r sn \<longleftrightarrow> sn_resource sn = r \<and> sn_limit sn = ry_limit p \<and> 0 \<le> sn_used sn \<and> 0 \<le> sn_remaining sn
     \<and> sn_used sn + sn_remaining sn = ry_limit p"

lemma clamp_remaining:
  "0 \<le> n \<Longrightarrow> 0 \<le> clamp_usage n u \<and> 0 \<le> remaining n u \<and> clamp_usage n u + remaining n u = n"
  by (auto simp: clamp_usage_def remaining_def)

lemma inspect_balanced:
  assumes "policy_for l su r = Some p" "0 \<le> ry_limit p"
  shows "balanced p r (fst (inspect l su r now))"
  using assms clamp_remaining [OF assms(2)] clamp_remaining [of 0]
  by (simp add: inspect_def Let_def balanced_def snapshot_for_policy_def snapshot_from_state_def)

lemma inspect_keeps: "policy_for (snd (inspect l su r now)) = policy_for l"
  by (simp add: inspect_def Let_def split: option.splits)

lemma inspect_all_balanced:
  assumes "\<forall>r\<in>set rs. \<exists>p. policy_for l su r = Some p \<and> 0 \<le> ry_limit p"
  shows "map fst (fst (inspect_all (Some l) su now rs)) = rs
    \<and> list_all (\<lambda>(r, sn). \<exists>p. policy_for l su r = Some p \<and> balanced p r sn) (fst (inspect_all (Some l) su now rs))"
  using assms
proof (induction rs arbitrary: l)
  case (Cons r rs)
  let ?l1 = "snd (inspect l su r now)"
  from Cons.prems obtain p where p: "policy_for l su r = Some p" "0 \<le> ry_limit p" by auto
  have "\<forall>r\<in>set rs. \<exists>p. policy_for ?l1 su r = Some p \<and> 0 \<le> ry_limit p"
    using Cons.prems by (simp add: inspect_keeps)
  from Cons.IH [OF this] inspect_balanced [OF p, of now] p(1) show ?case
    by (simp add: limiter_inspect_def split_beta inspect_keeps)
qed simp

definition github_policies :: "rate_subject \<Rightarrow> (resource \<times> rate_policy) list" where
  "github_policies su = (if su_authenticated su then authenticated_policies else anonymous_policies)"

lemma github_order:
  "set (resource_order (github_policies su)) = fst ` set (github_policies su)"
  "distinct (resource_order (github_policies su))" "''core'' \<in> set (resource_order (github_policies su))"
  "(''source_import'' \<in> set (resource_order (github_policies su))) = su_authenticated su"
  "resource_order (github_policies su) = (if su_authenticated su then authenticated_resource_order else anonymous_resource_order)"
  "list_all (\<lambda>(r, p). 0 \<le> ry_limit p) (github_policies su)"
  by (cases "su_authenticated su"; simp add: github_policies_def; code_simp)+

lemma map_filter_keys:
  assumes "set rs \<subseteq> fst ` set kv"
  shows "map fst (List.map_filter (\<lambda>r. map_option (\<lambda>v. (r, f v)) (map_of kv r)) rs) = rs"
  using assms
proof (induction rs)
  case (Cons r rs)
  then obtain v where "map_of kv r = Some v" by (auto simp: image_iff dest: weak_map_of_SomeI)
  with Cons show ?case by simp
qed simp

lemma github_keys:
  assumes "policies_for (Some l) su = github_policies su"
  shows "map fst (rt_resources (fst (limiter_report (Some l) su now))) = resource_order (github_policies su)"
    and "list_all (\<lambda>(r, sn). \<exists>p. map_of (github_policies su) r = Some p \<and> balanced p r sn)
      (rt_resources (fst (limiter_report (Some l) su now)))"
proof -
  have "\<exists>p. policy_for l su r = Some p \<and> 0 \<le> ry_limit p" if "r \<in> set (resource_order (github_policies su))" for r
  proof -
    have "r \<in> fst ` set (github_policies su)" using that github_order(1) by simp
    then obtain p where "map_of (github_policies su) r = Some p" by (auto dest: weak_map_of_SomeI)
    moreover from this have "0 \<le> ry_limit p"
      using github_order(6) [of su] by (fastforce simp: list_all_iff dest: map_of_SomeD)
    ultimately show ?thesis by (simp add: policy_for_def assms)
  qed
  then have "\<forall>r\<in>set (resource_order (github_policies su)). \<exists>p. policy_for l su r = Some p \<and> 0 \<le> ry_limit p" by blast
  from inspect_all_balanced [OF this, of now] show
    "map fst (rt_resources (fst (limiter_report (Some l) su now))) = resource_order (github_policies su)"
    "list_all (\<lambda>(r, sn). \<exists>p. map_of (github_policies su) r = Some p \<and> balanced p r sn)
      (rt_resources (fst (limiter_report (Some l) su now)))"
    by (simp_all add: limiter_report_def split_beta Let_def assms policy_for_def)
qed

lemma report_rate:
  assumes "policies_for (Some l) su = github_policies su"
  shows "(''core'', rt_rate (fst (limiter_report (Some l) su now))) \<in> set (rt_resources (fst (limiter_report (Some l) su now)))"
proof -
  let ?rs = "fst (inspect_all (Some l) su now (resource_order (github_policies su)))"
  have rs: "rt_resources (fst (limiter_report (Some l) su now)) = ?rs"
    by (simp add: limiter_report_def split_beta Let_def assms)
  have "''core'' \<in> fst ` set ?rs"
    using github_keys(1) [OF assms, of now] github_order(3) [of su] rs by (metis image_set)
  then obtain sn where sn: "map_of ?rs ''core'' = Some sn" by (auto dest: weak_map_of_SomeI)
  then have "sn_resource sn = ''core''"
    using github_keys(2) [OF assms, of now] rs by (fastforce simp: list_all_iff balanced_def dest: map_of_SomeD)
  then have "rt_rate (fst (limiter_report (Some l) su now)) = sn"
    using sn by (simp add: limiter_report_def split_beta Let_def assms)
  then show ?thesis using map_of_SomeD [OF sn] rs by simp
qed

text \<open>
  The rate report of a limiter with the GitHub policies is complete and adds up: its body lists
  exactly the resources the caller has a policy for, in the documented order; every snapshot has
  the policy's limit, and used and remaining are not negative and add up to it; the summary is
  the snapshot of the core resource.
\<close>

theorem report_complete:
  assumes "lm_authenticated l = authenticated_policies" "lm_anonymous l = anonymous_policies"
  shows "(let rep = fst (limiter_report (Some l) su now) in
    map fst (resources_body rep) = (if su_authenticated su then authenticated_resource_order else anonymous_resource_order)
    \<and> fst ` set (resources_body rep) = fst ` set (github_policies su)
    \<and> list_all (\<lambda>(r, sn). \<exists>p. map_of (github_policies su) r = Some p \<and> balanced p r sn) (rt_resources rep)
    \<and> (''core'', rt_rate rep) \<in> set (rt_resources rep))"
proof -
  let ?rep = "fst (limiter_report (Some l) su now)"
  have pol: "policies_for (Some l) su = github_policies su"
    by (simp add: policies_for_def github_policies_def assms)
  note keys = github_keys [OF pol, of now]
  have ks: "fst ` set (rt_resources ?rep) = set (resource_order (github_policies su))"
    using arg_cong [OF keys(1), of set] by simp
  have "(map_of (rt_resources ?rep) ''source_import'' \<noteq> None) = su_authenticated su"
    using ks github_order(4) [of su] by (auto simp: map_of_eq_None_iff)
  moreover have "rt_resources ?rep \<noteq> []" using report_rate [OF pol, of now] by auto
  ultimately have "resource_order_for_report (rt_resources ?rep) = resource_order (github_policies su)"
    by (simp add: resource_order_for_report_def github_order(5))
  then have body: "map fst (resources_body ?rep) = resource_order (github_policies su)"
    unfolding resources_body_def using map_filter_keys [of "resource_order (github_policies su)" "rt_resources ?rep" resource_body] ks
    by simp
  then have "fst ` set (resources_body ?rep) = fst ` set (github_policies su)"
    using github_order(1) by (metis image_set)
  then show ?thesis using body keys(2) report_rate [OF pol, of now] github_order(5) [of su] by (simp add: Let_def)
qed

theorem report_complete_witness:
  "(let su = \<lparr>su_actor = ''token:x'', su_authenticated = True\<rparr>;
        rep = fst (limiter_report (Some new_github_limiter) su 0)
    in map fst (resources_body rep) = authenticated_resource_order \<and> (''core'', rt_rate rep) \<in> set (rt_resources rep))"
  using report_complete [of new_github_limiter "\<lparr>su_actor = ''token:x'', su_authenticated = True\<rparr>" 0]
  by (simp add: Let_def new_github_limiter_def)

end
