(* ===== verification/Rate_Window.thy ===== *)
theory Rate_Window
  imports Rate_Limiter
begin

text \<open>
  The per-client fixed-window limiter of \<open>internal/middleware/rate_limit.go\<close>: \<open>RateLimit\<close>,
  \<open>allow\<close>, \<open>prune\<close> and \<open>rateLimitClientKey\<close>. A window starts with the first request of a client.
  Every call runs under the mutex. The limiter meets the admission interface of
  \<open>Rate_Limiter\<close>, refines a limiter that never prunes, and admits at most twice its limit in any
  interval as long as a window.
\<close>

section \<open>Model\<close>

record window_entry =
  we_start :: instant
  we_count :: int

record fixed_window =
  fw_limit :: int
  fw_window :: duration
  fw_entries :: "string \<rightharpoonup> window_entry"

definition expired :: "fixed_window \<Rightarrow> instant \<Rightarrow> window_entry \<Rightarrow> bool" where
  "expired l now e \<longleftrightarrow> is_zero_time (we_start e) \<or> sub_time now (we_start e) \<ge> fw_window l"

definition prune :: "fixed_window \<Rightarrow> instant \<Rightarrow> fixed_window" where
  "prune l now = l\<lparr>fw_entries := (\<lambda>key. case fw_entries l key of
      None \<Rightarrow> None | Some e \<Rightarrow> if expired l now e then None else Some e)\<rparr>"

definition zero_entry :: window_entry where
  "zero_entry = \<lparr>we_start = 0, we_count = 0\<rparr>"

definition set_entry :: "string \<Rightarrow> window_entry \<Rightarrow> fixed_window \<Rightarrow> fixed_window" where
  "set_entry key e l = l\<lparr>fw_entries := (fw_entries l)(key \<mapsto> e)\<rparr>"

text \<open>\<open>clock\<close> is what \<open>time.Now\<close> answers during the call.\<close>

definition fw_allow :: "instant \<Rightarrow> fixed_window \<Rightarrow> string \<Rightarrow> instant \<Rightarrow> fixed_window \<times> bool" where
  "fw_allow clock l key now0 =
     (let now = (if is_zero_time now0 then clock else now0);
          l1 = prune l now;
          entry = (case fw_entries l1 key of Some e \<Rightarrow> e | None \<Rightarrow> zero_entry)
      in if expired l1 now entry then (set_entry key \<lparr>we_start = now, we_count = 1\<rparr> l1, True)
         else if we_count entry \<ge> fw_limit l1 then (l1, False)
         else (set_entry key (entry\<lparr>we_count := we_count entry + 1\<rparr>) l1, True))"

definition rate_limit_client_key :: "http_request \<Rightarrow> string" where
  "rate_limit_client_key r =
     (let forwarded = trim_space (hr_forwarded_for r);
          first = trim_space (takeWhile (\<lambda>c. c \<noteq> CHR '','') forwarded);
          real_ip = trim_space (hr_real_ip r);
          remote = trim_space (hr_remote_addr r)
      in if forwarded \<noteq> [] \<and> first \<noteq> [] then first
         else if real_ip \<noteq> [] then real_ip
         else case split_host remote of
                Some host \<Rightarrow> if host \<noteq> [] then host else if remote = [] then ''unknown'' else remote
              | None \<Rightarrow> if remote = [] then ''unknown'' else remote)"

text \<open>The seconds of a duration, cut to an integer (\<open>int(d.Seconds())\<close>).\<close>

definition whole_seconds :: "duration \<Rightarrow> int" where
  "whole_seconds d = (if d < 0 then - ((- d) div second) else d div second)"

text \<open>
  The handler of \<open>RateLimit\<close>: \<open>None\<close> passes the request on, \<open>Some s\<close> refuses it with
  \<open>Retry-After\<close> set to the whole seconds of the window.
\<close>

definition rate_limit :: "fixed_window \<Rightarrow> http_request \<Rightarrow> instant \<Rightarrow> fixed_window \<times> int option" where
  "rate_limit l r now =
     (let (l1, ok) = fw_allow now l (rate_limit_client_key r) now
      in (l1, if ok then None else Some (whole_seconds (fw_window l))))"

definition new_window_limiter :: "int \<Rightarrow> duration \<Rightarrow> fixed_window" where
  "new_window_limiter limit window = \<lparr>fw_limit = limit, fw_window = window, fw_entries = Map.empty\<rparr>"

section \<open>Admission\<close>

definition fw_admit :: "fixed_window \<Rightarrow> string \<Rightarrow> instant \<Rightarrow> fixed_window \<times> bool" where
  "fw_admit l key t = fw_allow t l key t"

text \<open>The entry of a client that is still running at an instant.\<close>

definition running :: "fixed_window \<Rightarrow> string \<Rightarrow> instant \<Rightarrow> window_entry option" where
  "running l key t = (case fw_entries l key of
     None \<Rightarrow> None | Some e \<Rightarrow> if expired l t e then None else Some e)"

definition settings :: "int \<Rightarrow> duration \<Rightarrow> fixed_window \<Rightarrow> bool" where
  "settings limit window l \<longleftrightarrow> fw_limit l = limit \<and> fw_window l = window"

lemma expired_later: "expired l t e \<Longrightarrow> t \<le> t' \<Longrightarrow> expired l t' e"
  by (auto simp: expired_def sub_time_def)

lemma expired_kept [simp]:
  "expired (prune l t) = expired l" "expired (set_entry key e l) = expired l"
  by (simp_all add: fun_eq_iff expired_def prune_def set_entry_def)

lemma settings_kept [simp]:
  "fw_limit (prune l t) = fw_limit l" "fw_window (prune l t) = fw_window l"
  "fw_limit (set_entry key e l) = fw_limit l" "fw_window (set_entry key e l) = fw_window l"
  by (simp_all add: prune_def set_entry_def)

lemma running_prune: "t \<le> t' \<Longrightarrow> running (prune l t) key t' = running l key t'"
proof -
  assume "t \<le> t'"
  have "fw_entries (prune l t) key = running l key t" by (simp add: prune_def running_def)
  then show ?thesis using expired_later [OF _ \<open>t \<le> t'\<close>] by (auto simp: running_def split: option.splits)
qed

lemma running_set: "running (set_entry key e l) key' t = (if key' = key then if expired l t e then None else Some e else running l key' t)"
proof -
  have "fw_entries (set_entry key e l) key' = (if key' = key then Some e else fw_entries l key')" by (simp add: set_entry_def)
  then show ?thesis by (auto simp: running_def split: option.split)
qed

lemma running_alive: "running l key t = Some e \<Longrightarrow> \<not> expired l t e"
  by (auto simp: running_def split: option.splits if_splits)

lemma fw_admit_running:
  "fw_admit l key t =
     (case running l key t of
        None \<Rightarrow> (set_entry key \<lparr>we_start = t, we_count = 1\<rparr> (prune l t), True)
      | Some e \<Rightarrow> if we_count e \<ge> fw_limit l then (prune l t, False)
                  else (set_entry key (e\<lparr>we_count := we_count e + 1\<rparr>) (prune l t), True))"
proof -
  have "fw_entries (prune l t) key = running l key t" by (simp add: prune_def running_def)
  then show ?thesis
    by (cases "running l key t")
      (auto simp: fw_admit_def fw_allow_def Let_def zero_entry_def expired_def is_zero_time_def dest: running_alive)
qed

lemma fw_admit_settings: "settings limit window l \<Longrightarrow> settings limit window (fst (fw_admit l key t))"
  by (simp add: fw_admit_running settings_def split: option.split)

lemma fw_admit_other: "t \<le> t' \<Longrightarrow> b \<noteq> key \<Longrightarrow> running (fst (fw_admit l key t)) b t' = running l b t'" for l :: fixed_window
  by (simp add: fw_admit_running running_set running_prune split: option.split)

lemma expired_settings: "settings limit window l \<Longrightarrow> settings limit window l2 \<Longrightarrow> expired l t e = expired l2 t e"
  by (simp add: settings_def expired_def)

lemma running_later:
  assumes "settings limit window l" "settings limit window l2" "running l key t = running l2 key t" "t \<le> t'"
  shows "running l key t' = running l2 key t'"
proof -
  have "running l key t' = (case running l key t of None \<Rightarrow> None | Some e \<Rightarrow> if expired l t' e then None else Some e)" for l
    using expired_later [OF _ assms(4)] by (auto simp: running_def split: option.splits)
  with assms(3) expired_settings [OF assms(1,2)] show ?thesis by (simp split: option.split)
qed

lemma fw_admit_own:
  assumes "settings limit window l" "settings limit window l2" "running l key t = running l2 key t"
  shows "snd (fw_admit l key t) = snd (fw_admit l2 key t)"
    and "t \<le> t' \<Longrightarrow> running (fst (fw_admit l key t)) key t' = running (fst (fw_admit l2 key t)) key t'"
proof -
  have "fw_limit l = fw_limit l2" using assms(1,2) by (simp add: settings_def)
  then show "snd (fw_admit l key t) = snd (fw_admit l2 key t)" by (simp add: fw_admit_running assms(3) split: option.split)
  assume "t \<le> t'"
  with running_later [OF assms this] \<open>fw_limit l = fw_limit l2\<close>
  show "running (fst (fw_admit l key t)) key t' = running (fst (fw_admit l2 key t)) key t'"
    by (auto simp: fw_admit_running assms(3) running_set running_prune expired_settings [OF assms(1,2)] split: option.splits)
qed

interpretation windows: admission fw_admit "\<lambda>key. key" running "settings limit window"
  by unfold_locales (rule fw_admit_settings fw_admit_other fw_admit_own; assumption)+

section \<open>The bound\<close>

text \<open>
  What a client can still be granted before \<open>b\<close>, one window or less away: the rest of a running
  window, and a whole window if the running one ends before \<open>b\<close>.
\<close>

definition budget :: "int \<Rightarrow> duration \<Rightarrow> instant \<Rightarrow> window_entry option \<Rightarrow> int" where
  "budget limit window b so = (case so of
     None \<Rightarrow> max 1 limit
   | Some e \<Rightarrow> max 0 (limit - we_count e) + (if b \<le> we_start e + window then 0 else max 1 limit))"

definition granted :: "(string \<times> instant \<Rightarrow> bool) \<Rightarrow> fixed_window \<Rightarrow> (string \<times> instant) list \<Rightarrow> int" where
  "granted P l es = int (length (filter (\<lambda>(e, ok). ok \<and> P e) (zip es (serve fw_admit l es))))"

lemma granted_simps [simp]:
  "granted P l [] = 0"
  "granted P l ((key, t) # es) =
     (if snd (fw_admit l key t) \<and> P (key, t) then 1 else 0) + granted P (fst (fw_admit l key t)) es"
  by (simp_all add: granted_def split_beta)

lemma granted_none: "\<forall>e\<in>set es. \<not> P e \<Longrightarrow> granted P l es = 0"
proof -
  assume "\<forall>e\<in>set es. \<not> P e"
  then have "filter (\<lambda>(e, ok). ok \<and> P e) (zip es (serve fw_admit l es)) = []"
    by (auto simp: filter_empty_conv dest: set_zip_leftD)
  then show ?thesis by (simp add: granted_def)
qed

lemma granted_cong: "\<forall>e\<in>set es. P e = Q e \<Longrightarrow> granted P l es = granted Q l es"
  by (induction es arbitrary: l) (auto simp: granted_def split_beta)

lemma budget_nonneg: "0 \<le> budget limit window b so"
  by (auto simp: budget_def split: option.split)

definition entry_ok :: "instant \<Rightarrow> window_entry \<Rightarrow> bool" where
  "entry_ok T e \<longleftrightarrow> 0 < we_start e \<and> we_start e \<le> T \<and> 1 \<le> we_count e"

definition entries_ok :: "instant \<Rightarrow> fixed_window \<Rightarrow> bool" where
  "entries_ok T l \<longleftrightarrow> (\<forall>key e. fw_entries l key = Some e \<longrightarrow> entry_ok T e)"

lemma expired_iff:
  "entry_ok T e \<Longrightarrow> T \<le> t \<Longrightarrow> fw_window l < 2 ^ 63 \<Longrightarrow> expired l t e \<longleftrightarrow> we_start e + fw_window l \<le> t"
  by (auto simp: entry_ok_def expired_def is_zero_time_def sub_time_def)

lemma entries_ok_admit:
  assumes "entries_ok T l" "T \<le> t" "0 < t"
  shows "entries_ok t (fst (fw_admit l key t))"
proof -
  have pr: "entry_ok T e" if "fw_entries (prune l t) k = Some e" for k e
    using that assms(1) by (auto simp: prune_def entries_ok_def split: option.splits if_splits)
  have run: "entry_ok T e" if "running l key t = Some e" for e
    using that assms(1) by (auto simp: running_def entries_ok_def split: option.splits if_splits)
  have mono: "entry_ok T e \<Longrightarrow> entry_ok t e" for e using assms(2) by (simp add: entry_ok_def)
  have "entry_ok t e" if "fw_entries (fst (fw_admit l key t)) k = Some e" for k e
  proof (cases "running l key t")
    case None
    with that show ?thesis using mono [OF pr] assms(3)
      by (auto simp: fw_admit_running set_entry_def entry_ok_def split: if_splits)
  next
    case (Some e0)
    from that show ?thesis using mono [OF pr] mono [OF run [OF Some]]
      by (auto simp: fw_admit_running Some set_entry_def entry_ok_def split: if_splits)
  qed
  then show ?thesis by (simp add: entries_ok_def)
qed

lemma granted_budget:
  assumes "settings limit window l" "window < 2 ^ 63" "entries_ok T l" "0 < T" "b \<le> T + window"
    and "sorted (map snd es)" "\<forall>e\<in>set es. fst e = key \<and> T \<le> snd e"
  shows "granted (\<lambda>e. snd e < b) l es \<le> budget limit window b (running l key T)"
  using assms
proof (induction es arbitrary: l T)
  case Nil
  then show ?case by (simp add: budget_nonneg)
next
  case (Cons e es)
  obtain t where e: "e = (key, t)" and t: "T \<le> t" using Cons.prems(7) by (cases e) auto
  have later: "\<forall>e\<in>set es. t \<le> snd e" "sorted (map snd es)" using Cons.prems(6) e by auto
  show ?case
  proof (cases "t < b")
    case False
    then have "granted (\<lambda>e. snd e < b) l (e # es) = 0" using later e by (intro granted_none) auto
    then show ?thesis by (simp add: budget_nonneg)
  next
    case True
    let ?l1 = "fst (fw_admit l key t)"
    note set1 = fw_admit_settings [OF Cons.prems(1), of key t]
    note ok1 = entries_ok_admit [OF Cons.prems(3) t, of key]
    have w: "fw_window l = window" "fw_limit l = limit" using Cons.prems(1) by (simp_all add: settings_def)
    have IH: "granted (\<lambda>e. snd e < b) ?l1 es \<le> budget limit window b (running ?l1 key t)"
      using Cons.IH [OF set1 Cons.prems(2) ok1] Cons.prems(4,5,7) t later by auto
    have g: "granted (\<lambda>e. snd e < b) l (e # es) =
        (if snd (fw_admit l key t) then 1 else 0) + granted (\<lambda>e. snd e < b) ?l1 es"
      using e True by simp
    show ?thesis
    proof (cases "running l key t")
      case None
      let ?new = "\<lparr>we_start = t, we_count = 1\<rparr>"
      have new: "entry_ok t ?new" using Cons.prems(4) t by (simp add: entry_ok_def)
      have "\<not> expired l t ?new" using expired_iff [OF new order_refl] w Cons.prems(2,5) t True by simp
      then have "running ?l1 key t = Some ?new" by (simp add: fw_admit_running None running_set)
      then have "granted (\<lambda>e. snd e < b) l (e # es) \<le> max 1 limit"
        using g IH Cons.prems(5) t by (simp add: budget_def fw_admit_running None split: if_splits)
      moreover have "max 1 limit \<le> budget limit window b (running l key T)"
      proof (cases "running l key T")
        case (Some e0)
        then have "fw_entries l key = Some e0" by (auto simp: running_def split: option.splits if_splits)
        then have "entry_ok T e0" "expired l t e0"
          using Cons.prems(3) None by (auto simp: entries_ok_def running_def split: if_splits)
        then have "we_start e0 + window \<le> t" using expired_iff [of T e0 t l] t w Cons.prems(2) by simp
        then show ?thesis using True by (simp add: Some budget_def)
      qed (simp add: budget_def)
      ultimately show ?thesis by (rule order_trans)
    next
      case (Some e0)
      then have now: "running l key T = Some e0"
        using expired_later [OF _ t] by (auto simp: running_def split: option.splits if_splits)
      show ?thesis
      proof (cases "limit \<le> we_count e0")
        case True
        then have "running ?l1 key t = Some e0" "\<not> snd (fw_admit l key t)"
          by (simp_all add: fw_admit_running Some w running_prune)
        then show ?thesis using g IH now by simp
      next
        case False
        have "\<not> expired l t (e0\<lparr>we_count := we_count e0 + 1\<rparr>)"
          using running_alive [OF Some] by (simp add: expired_def)
        then have "running ?l1 key t = Some (e0\<lparr>we_count := we_count e0 + 1\<rparr>)" "snd (fw_admit l key t)"
          using False by (simp_all add: fw_admit_running Some w running_set)
        then show ?thesis using g IH now False by (simp add: budget_def split: if_splits)
      qed
    qed
  qed
qed

lemma budget_twice:
  "entries_ok T l \<Longrightarrow> budget limit window b (running l key T) \<le> 2 * max 1 limit"
proof (cases "running l key T")
  case (Some e)
  assume "entries_ok T l"
  with Some have "1 \<le> we_count e" by (auto simp: running_def entries_ok_def entry_ok_def split: option.splits if_splits)
  then show ?thesis by (simp add: Some budget_def) linarith
qed (auto simp: budget_def)

lemma granted_interval:
  assumes "settings limit window l" "window < 2 ^ 63" "entries_ok T l" "0 < T"
    and "sorted (map snd es)" "\<forall>e\<in>set es. fst e = key \<and> T \<le> snd e"
  shows "granted (\<lambda>e. a \<le> snd e \<and> snd e < a + window) l es \<le> 2 * max 1 limit"
  using assms
proof (induction es arbitrary: l T)
  case (Cons e es)
  obtain t where e: "e = (key, t)" and t: "T \<le> t" using Cons.prems(6) by (cases e) auto
  have later: "\<forall>e\<in>set es. t \<le> snd e" "sorted (map snd es)" using Cons.prems(5) e by auto
  show ?case
  proof (cases "t < a")
    case True
    have ok: "entries_ok t (fst (fw_admit l key t))" using entries_ok_admit [OF Cons.prems(3) t] Cons.prems(4) t by simp
    have "granted (\<lambda>e. a \<le> snd e \<and> snd e < a + window) (fst (fw_admit l key t)) es \<le> 2 * max 1 limit"
      using Cons.IH [OF fw_admit_settings [OF Cons.prems(1)] Cons.prems(2) ok] Cons.prems(4,6) t later by auto
    then show ?thesis using e True by simp
  next
    case False
    have ok: "entries_ok t l" using Cons.prems(3) t by (fastforce simp: entries_ok_def entry_ok_def)
    have "granted (\<lambda>e. a \<le> snd e \<and> snd e < a + window) l (e # es) = granted (\<lambda>e. snd e < a + window) l (e # es)"
      using False later e by (intro granted_cong) auto
    also have "\<dots> \<le> budget limit window (a + window) (running l key t)"
      using Cons.prems(4,5,6) t False e later by (intro granted_budget [OF Cons.prems(1,2) ok]) auto
    finally show ?thesis using budget_twice [OF ok, of limit window "a + window" key] by linarith
  qed
qed simp

lemma filter_zip:
  "length es = length as \<Longrightarrow>
    filter (\<lambda>(e, a). P e) (zip es as) = zip (filter P es) (map snd (filter (\<lambda>(e, a). P e) (zip es as)))"
  by (induction es as rule: list_induct2) auto

lemma length_serve [simp]: "length (serve admit s es) = length es"
  by (induction es arbitrary: s) (auto simp: split_beta)

text \<open>
  C32. In any interval as long as the window a client is served at most \<open>2 * max 1 limit\<close> times:
  twice the limit, and twice when the limit is not positive, whatever other clients send.
\<close>

theorem window_bound:
  assumes "sorted (map snd es)" "\<forall>e\<in>set es. 0 < snd e" "window < 2 ^ 63"
  shows "int (length (filter (\<lambda>(e, ok). fst e = key \<and> ok \<and> a \<le> snd e \<and> snd e < a + window)
      (zip es (serve fw_admit (new_window_limiter limit window) es)))) \<le> 2 * max 1 limit"
proof -
  let ?l = "new_window_limiter limit window" and ?mine = "filter (\<lambda>e. fst e = key) es"
  let ?P = "\<lambda>e. a \<le> snd e \<and> snd e < a + window"
  have st: "settings limit window ?l" by (simp add: settings_def new_window_limiter_def)
  have "filter (\<lambda>(e, ok). fst e = key) (zip es (serve fw_admit ?l es)) = zip ?mine (serve fw_admit ?l ?mine)"
    by (subst filter_zip) (simp_all add: windows.isolation [OF st assms(1)])
  from arg_cong [OF this, of "filter (\<lambda>(e, ok). ok \<and> ?P e)"]
  have "filter (\<lambda>(e, ok). fst e = key \<and> ok \<and> ?P e) (zip es (serve fw_admit ?l es))
      = filter (\<lambda>(e, ok). ok \<and> ?P e) (zip ?mine (serve fw_admit ?l ?mine))"
    by (simp add: filter_filter case_prod_unfold)
  moreover have "granted ?P ?l ?mine \<le> 2 * max 1 limit"
  proof (rule granted_interval [OF st assms(3)])
    show "entries_ok 1 ?l" by (simp add: entries_ok_def new_window_limiter_def)
    show "sorted (map snd ?mine)" using assms(1) by (rule sorted_filter)
    show "\<forall>e\<in>set ?mine. fst e = key \<and> 1 \<le> snd e" using assms(2) by force
  qed simp
  ultimately show ?thesis by (simp add: granted_def)
qed

theorem window_bound_witness:
  "int (length (filter (\<lambda>(e, ok). fst e = ''a'' \<and> ok \<and> 5 \<le> snd e \<and> snd e < 5 + 10)
      (zip [(''a'', 5 :: instant), (''b'', 6), (''a'', 7), (''a'', 14)]
        (serve fw_admit (new_window_limiter 2 10) [(''a'', 5), (''b'', 6), (''a'', 7), (''a'', 14)])))) \<le> 2 * max 1 2"
  by (rule window_bound) simp_all

section \<open>Pruning\<close>

text \<open>A limiter of the same rule that keeps every entry.\<close>

definition keeping_admit :: "fixed_window \<Rightarrow> string \<Rightarrow> instant \<Rightarrow> fixed_window \<times> bool" where
  "keeping_admit l key t =
     (case running l key t of
        None \<Rightarrow> (set_entry key \<lparr>we_start = t, we_count = 1\<rparr> l, True)
      | Some e \<Rightarrow> if we_count e \<ge> fw_limit l then (l, False)
                  else (set_entry key (e\<lparr>we_count := we_count e + 1\<rparr>) l, True))"

definition same_windows :: "instant \<Rightarrow> fixed_window \<Rightarrow> fixed_window \<Rightarrow> bool" where
  "same_windows T l k \<longleftrightarrow> settings (fw_limit k) (fw_window k) l \<and> (\<forall>key t. T \<le> t \<longrightarrow> running l key t = running k key t)"

lemma same_windows_step:
  assumes "same_windows T l k" "T \<le> t"
  shows "same_windows t (fst (fw_admit l key t)) (fst (keeping_admit k key t))"
    and "snd (fw_admit l key t) = snd (keeping_admit k key t)"
proof -
  have st: "fw_limit l = fw_limit k" "fw_window l = fw_window k" using assms(1) by (simp_all add: same_windows_def settings_def)
  have run: "T \<le> t' \<Longrightarrow> running l key' t' = running k key' t'" for key' t' using assms(1) by (simp add: same_windows_def)
  have ex: "expired l = expired k" by (simp add: fun_eq_iff expired_def st)
  show "snd (fw_admit l key t) = snd (keeping_admit k key t)"
    using run [OF assms(2), of key] by (simp add: fw_admit_running keeping_admit_def st split: option.split)
  show "same_windows t (fst (fw_admit l key t)) (fst (keeping_admit k key t))"
    using run [OF assms(2), of key] run assms(2)
    by (auto simp: same_windows_def settings_def fw_admit_running keeping_admit_def st running_set running_prune ex
        split: option.splits)
qed

lemma keeping_serve:
  assumes "same_windows T l k" "sorted (map snd es)" "\<forall>e\<in>set es. T \<le> snd e"
  shows "serve fw_admit l es = serve keeping_admit k es"
  using assms
proof (induction es arbitrary: l k T)
  case (Cons e es)
  obtain key t where e: "e = (key, t)" by fastforce
  have t: "T \<le> t" "sorted (map snd es)" "\<forall>e\<in>set es. t \<le> snd e" using Cons.prems(2,3) e by auto
  from Cons.IH [OF same_windows_step(1) [OF Cons.prems(1) t(1)] t(2,3)] same_windows_step(2) [OF Cons.prems(1) t(1)]
  show ?case by (simp add: e split_beta)
qed simp

text \<open>
  C36. Pruning is not observable: on requests in time order the limiter answers as one that applies
  the same rule and never forgets an entry.
\<close>

theorem pruning_unobservable:
  assumes "sorted (map snd es)"
  shows "serve fw_admit (new_window_limiter limit window) es = serve keeping_admit (new_window_limiter limit window) es"
proof (cases es)
  case (Cons e es')
  have "same_windows (snd e) (new_window_limiter limit window) (new_window_limiter limit window)"
    by (simp add: same_windows_def settings_def)
  moreover have "\<forall>x\<in>set es. snd e \<le> snd x" using assms Cons by auto
  ultimately show ?thesis using keeping_serve assms by blast
qed simp

theorem pruning_unobservable_witness:
  "serve fw_admit (new_window_limiter 1 10) [(''a'', 5), (''a'', 7), (''b'', 20), (''a'', 21)]
   = serve keeping_admit (new_window_limiter 1 10) [(''a'', 5), (''a'', 7), (''b'', 20), (''a'', 21)]"
  by (rule pruning_unobservable) simp

text \<open>A limit of zero or less still admits the first request of every window.\<close>

lemma nonpositive_limit_admits: "serve fw_admit (new_window_limiter 0 10) [(''a'', 5), (''a'', 7), (''a'', 15)] = [True, False, True]"
  by code_simp

end
