(* ===== verification/Repo_Access.thy ===== *)
theory Repo_Access
  imports Go_Prelude
begin

text \<open>
  \<open>internal/service/permission.go\<close>, \<open>repo_access.go\<close> and the helpers of \<open>team_admins.go\<close> and
  \<open>org_membership.go\<close> that the repair of administrators runs: the effective permission of a user
  on a repository. A database is a record of tables; a table is a list of rows, or \<open>None\<close> when it
  does not exist, the one failure of a statement the code tells apart. \<open>First\<close> with a condition is
  the first row that meets it. The reads see one state, as in a transaction.
\<close>

section \<open>Permissions\<close>

datatype repo_permission =
  RepoPermissionNone | RepoPermissionRead | RepoPermissionTriage | RepoPermissionWrite
| RepoPermissionMaintain | RepoPermissionAdmin

definition effective_permission :: "repo_permission \<Rightarrow> repo_permission" where
  "effective_permission p = (case p of
     RepoPermissionTriage \<Rightarrow> RepoPermissionRead | RepoPermissionMaintain \<Rightarrow> RepoPermissionWrite | q \<Rightarrow> q)"

definition decision_level :: "repo_permission \<Rightarrow> int" where
  "decision_level p = (case effective_permission p of
     RepoPermissionAdmin \<Rightarrow> 3 | RepoPermissionWrite \<Rightarrow> 2 | RepoPermissionRead \<Rightarrow> 1 | _ \<Rightarrow> 0)"

definition at_least :: "repo_permission \<Rightarrow> repo_permission \<Rightarrow> bool" where
  "at_least p required \<longleftrightarrow> decision_level p \<ge> decision_level required"

definition permission_string :: "repo_permission \<Rightarrow> string" where
  "permission_string p = (case p of
     RepoPermissionAdmin \<Rightarrow> ''admin''
   | RepoPermissionMaintain \<Rightarrow> ''write'' | RepoPermissionWrite \<Rightarrow> ''write''
   | RepoPermissionTriage \<Rightarrow> ''read'' | RepoPermissionRead \<Rightarrow> ''read''
   | RepoPermissionNone \<Rightarrow> ''none'')"

definition permission_from_level :: "int \<Rightarrow> repo_permission" where
  "permission_from_level n =
     (if n \<ge> 3 then RepoPermissionAdmin else if n \<ge> 2 then RepoPermissionWrite
      else if n \<ge> 1 then RepoPermissionRead else RepoPermissionNone)"

definition parse_repo_permission :: "string \<Rightarrow> repo_permission" where
  "parse_repo_permission value =
     (let v = to_lower (trim_space value)
      in if v = ''admin'' then RepoPermissionAdmin
         else if v = ''maintain'' then RepoPermissionMaintain
         else if v = ''write'' \<or> v = ''push'' then RepoPermissionWrite
         else if v = ''triage'' then RepoPermissionTriage
         else if v = ''read'' \<or> v = ''pull'' then RepoPermissionRead
         else RepoPermissionNone)"

definition normalize_grant_permission :: "string \<Rightarrow> string option" where
  "normalize_grant_permission value =
     (let v = to_lower (trim_space value)
      in if v \<in> {[], ''pull'', ''read'', ''triage''} then Some (permission_string RepoPermissionRead)
         else if v \<in> {''push'', ''write'', ''maintain''} then Some (permission_string RepoPermissionWrite)
         else if v = ''admin'' then Some (permission_string RepoPermissionAdmin)
         else None)"

definition normalize_organization_base_permission :: "string \<Rightarrow> string option" where
  "normalize_organization_base_permission value =
     (let v = to_lower (trim_space value)
      in if v \<in> {[], ''none''} then Some (permission_string RepoPermissionNone)
         else if v \<in> {''pull'', ''read'', ''triage''} then Some (permission_string RepoPermissionRead)
         else if v \<in> {''push'', ''write'', ''maintain''} then Some (permission_string RepoPermissionWrite)
         else if v = ''admin'' then Some (permission_string RepoPermissionAdmin)
         else None)"

section \<open>Tables\<close>

text \<open>Rows have the columns that the operations of this theory and its clients read or write.\<close>

text \<open>The first occurrence of each element, in order: a loop with a set of those seen.\<close>

fun first_seen :: "'a list \<Rightarrow> 'a list \<Rightarrow> 'a list" where
  "first_seen seen [] = []"
| "first_seen seen (x # xs) = (if x \<in> set seen then first_seen seen xs else x # first_seen (x # seen) xs)"

record user_row =
  ur_id :: nat
  ur_type :: string
  ur_kind :: string
  ur_status :: string
  ur_site_admin :: bool
  ur_default_permission :: string
  ur_login :: string
  ur_name :: string
  ur_is_anonymous :: bool

record repo_row =
  re_id :: nat
  re_owner_id :: nat
  re_full_name :: string
  re_private :: bool
  re_disabled :: bool

record collaborator_row =
  co_repository_id :: nat
  co_user_id :: nat
  co_permission :: string

record team_row =
  te_id :: nat
  te_organization_id :: nat
  te_slug :: string

record team_member_row =
  tm_team_id :: nat
  tm_user_id :: nat
  tm_role :: string

record team_repo_row =
  tr_team_id :: nat
  tr_repository_id :: nat
  tr_permission :: string

record org_member_row =
  om_organization_id :: nat
  om_user_id :: nat
  om_role :: string

record database =
  db_users :: "user_row list option"
  db_repositories :: "repo_row list option"
  db_collaborators :: "collaborator_row list option"
  db_teams :: "team_row list option"
  db_team_members :: "team_member_row list option"
  db_team_repositories :: "team_repo_row list option"
  db_organization_members :: "org_member_row list option"
  db_agent_bindings :: "(nat \<times> nat) list option"
  db_outside_collaborators :: "(nat \<times> nat) list option"

datatype store_error = NotFound | MissingTable | ValidationFailed

definition first_row :: "('r \<Rightarrow> bool) \<Rightarrow> 'r list option \<Rightarrow> store_error + 'r" where
  "first_row P t = (case t of None \<Rightarrow> Inl MissingTable
     | Some rows \<Rightarrow> (case find P rows of None \<Rightarrow> Inl NotFound | Some r \<Rightarrow> Inr r))"

section \<open>The access query\<close>

text \<open>
  \<open>repoAccessQuery\<close>: inner joins pair the rows that agree, left joins add a row of nulls where none
  does, and the groups are those of the user, the administrator flag and the owner.
\<close>

definition left_join :: "('r \<Rightarrow> bool) \<Rightarrow> 'r list \<Rightarrow> 'r option list" where
  "left_join P rows = (if filter P rows = [] then [None] else map Some (filter P rows))"

definition sql_level :: "string option \<Rightarrow> int" where
  "sql_level p = (case p of None \<Rightarrow> 0 | Some s \<Rightarrow>
     if s = ''admin'' then 3
     else if s \<in> {''maintain'', ''write'', ''push''} then 2
     else if s \<in> {''triage'', ''read'', ''pull''} then 1 else 0)"

record joined_row =
  jr_user :: user_row
  jr_repo :: repo_row
  jr_owner :: user_row
  jr_collaborator :: "collaborator_row option"
  jr_team_repository :: "team_repo_row option"
  jr_organization_member :: "org_member_row option"

definition access_rows :: "user_row list \<Rightarrow> repo_row list \<Rightarrow> collaborator_row list \<Rightarrow> team_member_row list
    \<Rightarrow> team_repo_row list \<Rightarrow> org_member_row list \<Rightarrow> nat \<Rightarrow> nat \<Rightarrow> joined_row list" where
  "access_rows users repos collabs members grants orgs repo_id user_id =
     [\<lparr>jr_user = u, jr_repo = r, jr_owner = ow, jr_collaborator = c, jr_team_repository = tr, jr_organization_member = om\<rparr>.
        u \<leftarrow> filter (\<lambda>u. ur_id u = user_id) users,
        r \<leftarrow> filter (\<lambda>r. re_id r = repo_id) repos,
        ow \<leftarrow> filter (\<lambda>ow. ur_id ow = re_owner_id r) users,
        c \<leftarrow> left_join (\<lambda>c. co_repository_id c = re_id r \<and> co_user_id c = ur_id u) collabs,
        tm \<leftarrow> left_join (\<lambda>tm. tm_user_id tm = ur_id u) members,
        tr \<leftarrow> left_join (\<lambda>tr. (case tm of None \<Rightarrow> False | Some m \<Rightarrow> tr_team_id tr = tm_team_id m) \<and> tr_repository_id tr = re_id r) grants,
        om \<leftarrow> left_join (\<lambda>om. om_organization_id om = re_owner_id r \<and> om_user_id om = ur_id u) orgs]"

definition collaborator_level :: "joined_row \<Rightarrow> int" where
  "collaborator_level j = sql_level (map_option co_permission (jr_collaborator j))"

definition team_level :: "joined_row \<Rightarrow> int" where
  "team_level j = sql_level (map_option tr_permission (jr_team_repository j))"

definition base_level :: "joined_row \<Rightarrow> int" where
  "base_level j =
     (if ur_type (jr_owner j) = ''Organization'' \<and> jr_organization_member j \<noteq> None
      then sql_level (Some (ur_default_permission (jr_owner j))) else 0)"

definition max_level :: "(joined_row \<Rightarrow> int) \<Rightarrow> joined_row list \<Rightarrow> int" where
  "max_level f js = fold max (map f js) 0"

definition group_level :: "joined_row list \<Rightarrow> int" where
  "group_level js =
     (let j = hd js; base = max_level base_level js; collab = max_level collaborator_level js; team = max_level team_level js
      in if ur_site_admin (jr_user j) then 3
         else if re_owner_id (jr_repo j) = ur_id (jr_user j) then 3
         else if base \<ge> collab \<and> base \<ge> team then base
         else if collab \<ge> team then collab
         else team)"

definition group_key :: "joined_row \<Rightarrow> nat \<times> bool \<times> nat" where
  "group_key j = (ur_id (jr_user j), ur_site_admin (jr_user j), re_owner_id (jr_repo j))"

definition access_query :: "database \<Rightarrow> nat \<Rightarrow> nat \<Rightarrow> store_error + int" where
  "access_query d repo_id user_id =
     (case (db_users d, db_repositories d, db_collaborators d, db_team_members d, db_team_repositories d, db_organization_members d) of
        (Some users, Some repos, Some collabs, Some members, Some grants, Some orgs) \<Rightarrow>
          (case access_rows users repos collabs members grants orgs repo_id user_id of
             [] \<Rightarrow> Inl NotFound
           | j # js \<Rightarrow> Inr (group_level (filter (\<lambda>i. group_key i = group_key j) (j # js))))
      | _ \<Rightarrow> Inl MissingTable)"

section \<open>The fallback\<close>

definition better :: "repo_permission \<Rightarrow> string \<Rightarrow> repo_permission" where
  "better best grant =
     (let perm = effective_permission (parse_repo_permission grant)
      in if decision_level perm > decision_level best then perm else best)"

definition team_grants :: "team_member_row list \<Rightarrow> team_repo_row list \<Rightarrow> nat \<Rightarrow> nat \<Rightarrow> string list" where
  "team_grants members grants repo_id user_id =
     [tr_permission tr. m \<leftarrow> filter (\<lambda>m. tm_user_id m = user_id) members,
        tr \<leftarrow> filter (\<lambda>tr. tr_team_id tr = tm_team_id m \<and> tr_repository_id tr = repo_id) grants]"

definition has_repo_access_fallback :: "database \<Rightarrow> nat \<Rightarrow> nat \<Rightarrow> store_error + repo_permission" where
  "has_repo_access_fallback d repo_id user_id =
     rbind (first_row (\<lambda>u. ur_id u = user_id) (db_users d)) (\<lambda>user.
     if ur_site_admin user then Inr RepoPermissionAdmin
     else rbind (first_row (\<lambda>r. re_id r = repo_id) (db_repositories d)) (\<lambda>rep.
     if re_owner_id rep = user_id then Inr RepoPermissionAdmin
     else
       (let collab = (case first_row (\<lambda>c. co_repository_id c = repo_id \<and> co_user_id c = user_id) (db_collaborators d) of
              Inr c \<Rightarrow> effective_permission (parse_repo_permission (co_permission c)) | Inl _ \<Rightarrow> RepoPermissionNone);
            best = (case (db_team_members d, db_team_repositories d) of
              (Some members, Some grants) \<Rightarrow> fold (\<lambda>g b. better b g) (team_grants members grants repo_id user_id) collab
            | _ \<Rightarrow> collab)
        in rbind (first_row (\<lambda>u. ur_id u = re_owner_id rep) (db_users d)) (\<lambda>ow.
           if ur_type ow = ''Organization'' then
             (case db_organization_members d of
                None \<Rightarrow> Inr best
              | Some orgs \<Rightarrow>
                  if filter (\<lambda>m. om_organization_id m = ur_id ow \<and> om_user_id m = user_id) orgs \<noteq> []
                  then Inr (better best (ur_default_permission ow)) else Inr best)
           else Inr best))))"

definition current_repo_access :: "database \<Rightarrow> nat \<Rightarrow> nat \<Rightarrow> store_error + repo_permission" where
  "current_repo_access d repo_id user_id =
     (if repo_id = 0 \<or> user_id = 0 then Inr RepoPermissionNone
      else case access_query d repo_id user_id of
             Inr level \<Rightarrow> Inr (permission_from_level level)
           | Inl MissingTable \<Rightarrow> has_repo_access_fallback d repo_id user_id
           | Inl e \<Rightarrow> Inl e)"

section \<open>Repair of administrators\<close>

text \<open>
  \<open>maybeBackfillAdminsForRepo\<close> runs before a read of \<open>HasRepoAccess\<close>: a person whose agent
  administers the repository of an organisation becomes an administrator too. \<open>fresh\<close> is the
  identifier the database gives to a new team. The insertion of the two dialects has the same
  effect. A failed transaction leaves the database as it was.
\<close>

definition admins_slug :: string where "admins_slug = ''admins''"

definition normalize_organization_role :: "string \<Rightarrow> string option" where
  "normalize_organization_role role =
     (let v = to_lower (trim_space role)
      in if v = [] \<or> v = ''member'' then Some ''member'' else if v = ''owner'' then Some ''owner'' else None)"

definition merge_organization_role :: "string \<Rightarrow> string \<Rightarrow> string" where
  "merge_organization_role existing requested = (if existing = ''owner'' \<or> requested = ''owner'' then ''owner'' else ''member'')"

definition delete_outside_collaborator :: "database \<Rightarrow> nat \<Rightarrow> nat \<Rightarrow> store_error + database" where
  "delete_outside_collaborator d org user =
     (if org = 0 \<or> user = 0 then Inr d
      else case db_outside_collaborators d of
             None \<Rightarrow> Inl MissingTable
           | Some rows \<Rightarrow> Inr (d\<lparr>db_outside_collaborators := Some (filter (\<lambda>x. x \<noteq> (org, user)) rows)\<rparr>))"

definition ensure_org_membership :: "database \<Rightarrow> nat \<Rightarrow> nat \<Rightarrow> string \<Rightarrow> store_error + database" where
  "ensure_org_membership d org user role0 =
     (case normalize_organization_role role0 of
        None \<Rightarrow> Inl ValidationFailed
      | Some role \<Rightarrow>
          if org = 0 \<or> user = 0 then Inl ValidationFailed
          else case db_organization_members d of
                 None \<Rightarrow> Inl MissingTable
               | Some rows \<Rightarrow>
                   (case find (\<lambda>m. om_organization_id m = org \<and> om_user_id m = user) rows of
                      None \<Rightarrow> delete_outside_collaborator
                        (d\<lparr>db_organization_members := Some (rows @ [\<lparr>om_organization_id = org, om_user_id = user, om_role = role\<rparr>])\<rparr>) org user
                    | Some m \<Rightarrow>
                        (let merged = merge_organization_role (om_role m) role
                         in if merged = om_role m then delete_outside_collaborator d org user
                            else delete_outside_collaborator
                              (d\<lparr>db_organization_members := Some (map (\<lambda>x.
                                  if om_organization_id x = org \<and> om_user_id x = user then x\<lparr>om_role := merged\<rparr> else x) rows)\<rparr>) org user)))"

definition ensure_admins_team :: "nat \<Rightarrow> database \<Rightarrow> nat \<Rightarrow> store_error + nat \<times> database" where
  "ensure_admins_team fresh d org =
     (case db_teams d of
        None \<Rightarrow> Inl MissingTable
      | Some rows \<Rightarrow>
          (case find (\<lambda>t. te_organization_id t = org \<and> te_slug t = admins_slug) rows of
             Some t \<Rightarrow> Inr (te_id t, d)
           | None \<Rightarrow> Inr (fresh, d\<lparr>db_teams := Some (rows @ [\<lparr>te_id = fresh, te_organization_id = org, te_slug = admins_slug\<rparr>])\<rparr>)))"

definition ensure_admins_team_member :: "database \<Rightarrow> nat \<Rightarrow> nat \<Rightarrow> store_error + database" where
  "ensure_admins_team_member d team user =
     (case db_team_members d of
        None \<Rightarrow> Inl MissingTable
      | Some rows \<Rightarrow>
          (let same = (\<lambda>m. tm_team_id m = team \<and> tm_user_id m = user)
           in Inr (d\<lparr>db_team_members := Some (if find same rows = None
                then rows @ [\<lparr>tm_team_id = team, tm_user_id = user, tm_role = ''maintainer''\<rparr>]
                else map (\<lambda>m. if same m then m\<lparr>tm_role := ''maintainer''\<rparr> else m) rows)\<rparr>)))"

definition ensure_admins_team_repo :: "database \<Rightarrow> nat \<Rightarrow> nat \<Rightarrow> store_error + database" where
  "ensure_admins_team_repo d team repo =
     (case db_team_repositories d of
        None \<Rightarrow> Inl MissingTable
      | Some rows \<Rightarrow>
          (let same = (\<lambda>g. tr_team_id g = team \<and> tr_repository_id g = repo)
           in Inr (d\<lparr>db_team_repositories := Some (if find same rows = None
                then rows @ [\<lparr>tr_team_id = team, tr_repository_id = repo, tr_permission = ''admin''\<rparr>]
                else map (\<lambda>g. if same g then g\<lparr>tr_permission := ''admin''\<rparr> else g) rows)\<rparr>)))"

definition ensure_principal :: "nat \<Rightarrow> nat \<Rightarrow> nat \<Rightarrow> database \<Rightarrow> store_error + database" where
  "ensure_principal org team user d =
     rbind (ensure_org_membership d org user ''owner'') (\<lambda>d1. ensure_admins_team_member d1 team user)"

definition ensure_admins_principals :: "nat \<Rightarrow> database \<Rightarrow> nat \<Rightarrow> nat list \<Rightarrow> store_error + nat \<times> database" where
  "ensure_admins_principals fresh d org principals =
     rbind (ensure_admins_team fresh d org) (\<lambda>(team, d1).
     rbind (rfold (ensure_principal org team) (first_seen [] (filter (\<lambda>p. p \<noteq> 0) principals)) d1) (\<lambda>d2.
     Inr (team, d2)))"

definition eligible_agents :: "database \<Rightarrow> nat \<Rightarrow> nat \<Rightarrow> nat list \<Rightarrow> store_error + nat list" where
  "eligible_agents d repo_id org agents =
     (case first_row (\<lambda>t. te_organization_id t = org \<and> te_slug t = admins_slug) (db_teams d) of
        Inl MissingTable \<Rightarrow> Inl MissingTable
      | found \<Rightarrow>
          rbind (case found of
                   Inr t \<Rightarrow> (case db_team_members d of
                      None \<Rightarrow> Inl MissingTable
                    | Some rows \<Rightarrow> Inr (map tm_user_id (filter (\<lambda>m. tm_team_id m = te_id t \<and> tm_user_id m \<in> set agents) rows)))
                 | Inl _ \<Rightarrow> Inr []) (\<lambda>members.
          if members \<noteq> [] then Inr members
          else case db_collaborators d of
                 None \<Rightarrow> Inl MissingTable
               | Some rows \<Rightarrow> Inr (map co_user_id (filter (\<lambda>c. co_repository_id c = repo_id \<and> co_user_id c \<in> set agents \<and> co_permission c = ''admin'') rows))))"

definition backfill_transaction :: "nat \<Rightarrow> database \<Rightarrow> nat \<Rightarrow> nat \<Rightarrow> nat \<Rightarrow> nat list \<Rightarrow> store_error + database" where
  "backfill_transaction fresh d repo_id viewer org agents =
     rbind (eligible_agents d repo_id org agents) (\<lambda>eligible.
     if eligible = [] then Inr d
     else rbind (ensure_admins_principals fresh d org (viewer # eligible)) (\<lambda>(team, d1).
          ensure_admins_team_repo d1 team repo_id))"

definition maybe_backfill_admins :: "nat \<Rightarrow> user_row option \<Rightarrow> database \<Rightarrow> nat \<Rightarrow> nat \<Rightarrow> store_error + database" where
  "maybe_backfill_admins fresh ctx d repo_id user_id =
     (if repo_id = 0 \<or> user_id = 0 then Inr d
      else case (case ctx of
                   Some v \<Rightarrow> if ur_id v = user_id then Inr v else first_row (\<lambda>u. ur_id u = user_id) (db_users d)
                 | None \<Rightarrow> first_row (\<lambda>u. ur_id u = user_id) (db_users d)) of
        Inl NotFound \<Rightarrow> Inr d
      | Inl e \<Rightarrow> Inl e
      | Inr viewer \<Rightarrow>
          if ur_kind viewer \<noteq> ''human'' then Inr d
          else case db_agent_bindings d of
                 None \<Rightarrow> Inr d
               | Some bindings \<Rightarrow>
                   (let agents = map fst (filter (\<lambda>b. snd b = ur_id viewer) bindings)
                    in if agents = [] then Inr d
                       else case first_row (\<lambda>r. re_id r = repo_id) (db_repositories d) of
                              Inl NotFound \<Rightarrow> Inr d
                            | Inl e \<Rightarrow> Inl e
                            | Inr repo \<Rightarrow>
                                (case first_row (\<lambda>u. ur_id u = re_owner_id repo) (db_users d) of
                                   Inl NotFound \<Rightarrow> Inr d
                                 | Inl e \<Rightarrow> Inl e
                                 | Inr ow \<Rightarrow>
                                     if ur_type ow \<noteq> ''Organization'' then Inr d
                                     else backfill_transaction fresh d repo_id (ur_id viewer) (ur_id ow) agents)))"

definition has_repo_access :: "nat \<Rightarrow> user_row option \<Rightarrow> database \<Rightarrow> nat \<Rightarrow> nat \<Rightarrow> (store_error + repo_permission) \<times> database" where
  "has_repo_access fresh ctx d repo_id user_id =
     (if repo_id = 0 \<or> user_id = 0 then (Inr RepoPermissionNone, d)
      else (let d1 = (case maybe_backfill_admins fresh ctx d repo_id user_id of Inr e \<Rightarrow> e | Inl _ \<Rightarrow> d)
            in (current_repo_access d1 repo_id user_id, d1)))"

definition is_public_repo :: "database \<Rightarrow> nat \<Rightarrow> bool" where
  "is_public_repo d repo_id =
     (repo_id \<noteq> 0 \<and> (case first_row (\<lambda>r. re_id r = repo_id) (db_repositories d) of Inr r \<Rightarrow> \<not> re_private r | Inl _ \<Rightarrow> False))"

section \<open>What a permission allows\<close>

lemma at_least_level [simp]: "at_least (permission_from_level n) q \<longleftrightarrow> decision_level q \<le> max 0 (min 3 n)"
  by (auto simp: at_least_def permission_from_level_def decision_level_def effective_permission_def split: repo_permission.splits)

lemma level_range: "0 \<le> decision_level q \<and> decision_level q \<le> 3"
  by (simp add: decision_level_def effective_permission_def split: repo_permission.splits)

lemma effective_idem [simp]: "effective_permission (effective_permission p) = effective_permission p"
  by (simp add: effective_permission_def split: repo_permission.splits)

lemma decision_effective [simp]: "decision_level (effective_permission p) = decision_level p"
  by (simp add: decision_level_def)

lemma effective_from_level [simp]: "effective_permission (permission_from_level n) = permission_from_level n"
  by (simp add: permission_from_level_def effective_permission_def)

lemma effective_level_eq:
  "effective_permission p = p \<Longrightarrow> effective_permission q = q \<Longrightarrow> decision_level p = decision_level q \<Longrightarrow> p = q"
  by (cases p; cases q) (simp_all add: decision_level_def effective_permission_def)

lemma same_permission:
  assumes "effective_permission p = p" "effective_permission p' = p'" "\<And>q. at_least p q = at_least p' q"
  shows "p = p'"
  using assms(3) [of p] assms(3) [of p'] by (intro effective_level_eq [OF assms(1,2)]) (simp add: at_least_def)

lemma max_level_ge: "n \<le> max_level f js \<longleftrightarrow> n \<le> 0 \<or> (\<exists>j\<in>set js. n \<le> f j)"
proof -
  have "n \<le> fold max xs a \<longleftrightarrow> n \<le> a \<or> (\<exists>x\<in>set xs. n \<le> x)" for xs and a :: int
    by (induction xs arbitrary: a) (auto simp: le_max_iff_disj)
  then show ?thesis by (simp add: max_level_def)
qed

lemma left_join_Some [simp]: "Some x \<in> set (left_join P rows) \<longleftrightarrow> x \<in> set rows \<and> P x"
  by (auto simp: left_join_def filter_empty_conv)

lemma left_join_nonempty: "\<exists>x. x \<in> set (left_join P rows)"
  by (auto simp: left_join_def filter_empty_conv)

lemma sql_level_range: "0 \<le> sql_level p \<and> sql_level p \<le> 3"
  by (simp add: sql_level_def split: option.splits)

text \<open>The tables a query needs, with the primary keys of users and repositories.\<close>

record tables =
  ts_users :: "user_row list"
  ts_repositories :: "repo_row list"
  ts_collaborators :: "collaborator_row list"
  ts_members :: "team_member_row list"
  ts_grants :: "team_repo_row list"
  ts_organizations :: "org_member_row list"

definition has_tables :: "tables \<Rightarrow> database \<Rightarrow> bool" where
  "has_tables ts d \<longleftrightarrow> db_users d = Some (ts_users ts) \<and> db_repositories d = Some (ts_repositories ts)
     \<and> db_collaborators d = Some (ts_collaborators ts) \<and> db_team_members d = Some (ts_members ts)
     \<and> db_team_repositories d = Some (ts_grants ts) \<and> db_organization_members d = Some (ts_organizations ts)
     \<and> distinct (map ur_id (ts_users ts)) \<and> distinct (map re_id (ts_repositories ts))"

text \<open>Whether some grant of the user on the repository has at least a level.\<close>

definition grant_at :: "tables \<Rightarrow> user_row \<Rightarrow> repo_row \<Rightarrow> user_row \<Rightarrow> int \<Rightarrow> bool" where
  "grant_at ts u r ow n \<longleftrightarrow>
     ur_site_admin u \<or> re_owner_id r = ur_id u
     \<or> (\<exists>c\<in>set (ts_collaborators ts). co_repository_id c = re_id r \<and> co_user_id c = ur_id u \<and> n \<le> sql_level (Some (co_permission c)))
     \<or> (\<exists>m\<in>set (ts_members ts). \<exists>g\<in>set (ts_grants ts). tm_user_id m = ur_id u \<and> tr_team_id g = tm_team_id m
          \<and> tr_repository_id g = re_id r \<and> n \<le> sql_level (Some (tr_permission g)))
     \<or> (\<exists>m\<in>set (ts_organizations ts). om_organization_id m = re_owner_id r \<and> om_user_id m = ur_id u
          \<and> ur_type ow = ''Organization'' \<and> n \<le> sql_level (Some (ur_default_permission ow)))"

definition subject_rows :: "tables \<Rightarrow> user_row \<Rightarrow> repo_row \<Rightarrow> user_row \<Rightarrow> bool" where
  "subject_rows ts u r ow \<longleftrightarrow> u \<in> set (ts_users ts) \<and> r \<in> set (ts_repositories ts) \<and> ow \<in> set (ts_users ts)
     \<and> ur_id ow = re_owner_id r \<and> ur_id u \<noteq> 0 \<and> re_id r \<noteq> 0"

definition rows_of :: "tables \<Rightarrow> user_row \<Rightarrow> repo_row \<Rightarrow> joined_row list" where
  "rows_of ts u r = access_rows (ts_users ts) (ts_repositories ts) (ts_collaborators ts) (ts_members ts) (ts_grants ts)
     (ts_organizations ts) (re_id r) (ur_id u)"

lemma rows_of_member:
  assumes "has_tables ts d" "subject_rows ts u r ow"
  shows "j \<in> set (rows_of ts u r) \<longleftrightarrow> (\<exists>c tm tr om.
    j = \<lparr>jr_user = u, jr_repo = r, jr_owner = ow, jr_collaborator = c, jr_team_repository = tr, jr_organization_member = om\<rparr>
    \<and> c \<in> set (left_join (\<lambda>c. co_repository_id c = re_id r \<and> co_user_id c = ur_id u) (ts_collaborators ts))
    \<and> tm \<in> set (left_join (\<lambda>tm. tm_user_id tm = ur_id u) (ts_members ts))
    \<and> tr \<in> set (left_join (\<lambda>tr. (case tm of None \<Rightarrow> False | Some m \<Rightarrow> tr_team_id tr = tm_team_id m) \<and> tr_repository_id tr = re_id r) (ts_grants ts))
    \<and> om \<in> set (left_join (\<lambda>om. om_organization_id om = re_owner_id r \<and> om_user_id om = ur_id u) (ts_organizations ts)))"
proof -
  have "filter (\<lambda>x. ur_id x = ur_id u) (ts_users ts) = [u]" "filter (\<lambda>x. re_id x = re_id r) (ts_repositories ts) = [r]"
    "filter (\<lambda>x. ur_id x = re_owner_id r) (ts_users ts) = [ow]"
    using assms unique_key [of ur_id "ts_users ts" u] unique_key [of re_id "ts_repositories ts" r]
      unique_key [of ur_id "ts_users ts" ow]
    by (simp_all add: has_tables_def subject_rows_def)
  then show ?thesis by (auto simp: rows_of_def access_rows_def)
qed

lemma rows_of_nonempty:
  assumes "has_tables ts d" "subject_rows ts u r ow"
  shows "rows_of ts u r \<noteq> []"
proof -
  obtain c where c: "c \<in> set (left_join (\<lambda>c. co_repository_id c = re_id r \<and> co_user_id c = ur_id u) (ts_collaborators ts))"
    using left_join_nonempty by blast
  obtain tm where tm: "tm \<in> set (left_join (\<lambda>tm. tm_user_id tm = ur_id u) (ts_members ts))"
    using left_join_nonempty by blast
  obtain tr where tr: "tr \<in> set (left_join (\<lambda>tr. (case tm of None \<Rightarrow> False | Some m \<Rightarrow> tr_team_id tr = tm_team_id m) \<and> tr_repository_id tr = re_id r) (ts_grants ts))"
    using left_join_nonempty by blast
  obtain om where om: "om \<in> set (left_join (\<lambda>om. om_organization_id om = re_owner_id r \<and> om_user_id om = ur_id u) (ts_organizations ts))"
    using left_join_nonempty by blast
  have "\<lparr>jr_user = u, jr_repo = r, jr_owner = ow, jr_collaborator = c, jr_team_repository = tr, jr_organization_member = om\<rparr> \<in> set (rows_of ts u r)"
    using rows_of_member [OF assms] c tm tr om by blast
  then show ?thesis by auto
qed

lemma sql_level_pos: "0 < n \<Longrightarrow> n \<le> sql_level (map_option f x) \<longleftrightarrow> (\<exists>y. x = Some y \<and> n \<le> sql_level (Some (f y)))"
  by (cases x) (auto simp: sql_level_def)

lemma level_ge:
  assumes "has_tables ts d" "subject_rows ts u r ow" "0 < n"
  shows "n \<le> max_level collaborator_level (rows_of ts u r) \<longleftrightarrow>
      (\<exists>c\<in>set (ts_collaborators ts). co_repository_id c = re_id r \<and> co_user_id c = ur_id u \<and> n \<le> sql_level (Some (co_permission c)))"
    and "n \<le> max_level team_level (rows_of ts u r) \<longleftrightarrow>
      (\<exists>m\<in>set (ts_members ts). \<exists>g\<in>set (ts_grants ts). tm_user_id m = ur_id u \<and> tr_team_id g = tm_team_id m
          \<and> tr_repository_id g = re_id r \<and> n \<le> sql_level (Some (tr_permission g)))"
    and "n \<le> max_level base_level (rows_of ts u r) \<longleftrightarrow>
      (\<exists>m\<in>set (ts_organizations ts). om_organization_id m = re_owner_id r \<and> om_user_id m = ur_id u
          \<and> ur_type ow = ''Organization'' \<and> n \<le> sql_level (Some (ur_default_permission ow)))"
proof -
  note mem = rows_of_member [OF assms(1,2)]
  let ?C = "left_join (\<lambda>c. co_repository_id c = re_id r \<and> co_user_id c = ur_id u) (ts_collaborators ts)"
  let ?M = "left_join (\<lambda>tm. tm_user_id tm = ur_id u) (ts_members ts)"
  let ?T = "\<lambda>tm. left_join (\<lambda>tr. (case tm of None \<Rightarrow> False | Some m \<Rightarrow> tr_team_id tr = tm_team_id m) \<and> tr_repository_id tr = re_id r) (ts_grants ts)"
  let ?O = "left_join (\<lambda>om. om_organization_id om = re_owner_id r \<and> om_user_id om = ur_id u) (ts_organizations ts)"
  have ne: "\<exists>x. x \<in> set ?C" "\<exists>x. x \<in> set ?M" "\<exists>x. x \<in> set (?T tm)" "\<exists>x. x \<in> set ?O" for tm
    by (rule left_join_nonempty)+
  have ex: "(\<exists>j\<in>set (rows_of ts u r). P j) \<longleftrightarrow> (\<exists>c\<in>set ?C. \<exists>tm\<in>set ?M. \<exists>tr\<in>set (?T tm). \<exists>om\<in>set ?O.
      P \<lparr>jr_user = u, jr_repo = r, jr_owner = ow, jr_collaborator = c, jr_team_repository = tr, jr_organization_member = om\<rparr>)" for P
    unfolding Bex_def mem by blast
  have "(\<exists>j\<in>set (rows_of ts u r). n \<le> collaborator_level j) \<longleftrightarrow> (\<exists>c\<in>set ?C. n \<le> sql_level (map_option co_permission c))"
    by (simp add: ex collaborator_level_def ne)
  then show "n \<le> max_level collaborator_level (rows_of ts u r) \<longleftrightarrow>
      (\<exists>c\<in>set (ts_collaborators ts). co_repository_id c = re_id r \<and> co_user_id c = ur_id u \<and> n \<le> sql_level (Some (co_permission c)))"
    using assms(3) by (auto simp: max_level_ge sql_level_pos)
  have "(\<exists>j\<in>set (rows_of ts u r). n \<le> team_level j) \<longleftrightarrow> (\<exists>tm\<in>set ?M. \<exists>g\<in>set (?T tm). n \<le> sql_level (map_option tr_permission g))"
    by (simp add: ex team_level_def ne)
  then show "n \<le> max_level team_level (rows_of ts u r) \<longleftrightarrow>
      (\<exists>m\<in>set (ts_members ts). \<exists>g\<in>set (ts_grants ts). tm_user_id m = ur_id u \<and> tr_team_id g = tm_team_id m
          \<and> tr_repository_id g = re_id r \<and> n \<le> sql_level (Some (tr_permission g)))"
    using assms(3) by (fastforce simp: max_level_ge sql_level_pos split: option.splits)
  have "(\<exists>j\<in>set (rows_of ts u r). n \<le> base_level j) \<longleftrightarrow>
      (\<exists>om\<in>set ?O. om \<noteq> None \<and> ur_type ow = ''Organization'' \<and> n \<le> sql_level (Some (ur_default_permission ow)))"
    using assms(3) by (auto simp: ex base_level_def ne)
  then show "n \<le> max_level base_level (rows_of ts u r) \<longleftrightarrow>
      (\<exists>m\<in>set (ts_organizations ts). om_organization_id m = re_owner_id r \<and> om_user_id m = ur_id u
          \<and> ur_type ow = ''Organization'' \<and> n \<le> sql_level (Some (ur_default_permission ow)))"
    using assms(3) by (auto simp: max_level_ge)
qed

lemma group_level_ge:
  assumes "js \<noteq> []" "n \<le> 3"
  shows "n \<le> group_level js \<longleftrightarrow> ur_site_admin (jr_user (hd js)) \<or> re_owner_id (jr_repo (hd js)) = ur_id (jr_user (hd js))
    \<or> n \<le> max_level collaborator_level js \<or> n \<le> max_level team_level js \<or> n \<le> max_level base_level js"
  using assms(2) by (auto simp: group_level_def Let_def)

lemma current_access:
  assumes "has_tables ts d" "subject_rows ts u r ow"
  shows "\<exists>p. current_repo_access d (re_id r) (ur_id u) = Inr p \<and> effective_permission p = p
    \<and> (\<forall>q. at_least p q \<longleftrightarrow> decision_level q = 0 \<or> grant_at ts u r ow (decision_level q))"
proof -
  let ?js = "rows_of ts u r"
  obtain j js where js: "?js = j # js" using rows_of_nonempty [OF assms] by (cases ?js) auto
  have same: "jr_user i = u \<and> jr_repo i = r" if "i \<in> set ?js" for i
    using that rows_of_member [OF assms] by auto
  have "group_key i = (ur_id u, ur_site_admin u, re_owner_id r)" if "i \<in> set (j # js)" for i
  proof -
    have "jr_user i = u \<and> jr_repo i = r" using same [of i] that unfolding js by blast
    then show ?thesis unfolding group_key_def by simp
  qed
  then have key: "group_key i = group_key j" if "i \<in> set (j # js)" for i
    using that by (metis list.set_intros(1))
  have "filter (\<lambda>i. group_key i = group_key j) (j # js) = j # js"
    by (rule filter_True) (use key in blast)
  then have q: "access_query d (re_id r) (ur_id u) = Inr (group_level ?js)"
    using assms(1) js by (simp add: access_query_def has_tables_def rows_of_def)
  have hd: "jr_user (hd ?js) = u" "jr_repo (hd ?js) = r" using same [of j] js by auto
  have "decision_level q \<le> group_level ?js \<longleftrightarrow> grant_at ts u r ow (decision_level q)" if "0 < decision_level q" for q
  proof -
    have "decision_level q \<le> 3" using level_range by blast
    from group_level_ge [OF rows_of_nonempty [OF assms] this] show ?thesis
      by (simp only: level_ge [OF assms that] hd grant_at_def)
  qed
  then have "at_least (permission_from_level (group_level ?js)) q \<longleftrightarrow> decision_level q = 0 \<or> grant_at ts u r ow (decision_level q)" for q
    using level_range [of q] by (cases "decision_level q = 0") (auto simp: le_max_iff_disj)
  moreover have "current_repo_access d (re_id r) (ur_id u) = Inr (permission_from_level (group_level ?js))"
    using q assms(2) by (simp add: current_repo_access_def subject_rows_def)
  ultimately show ?thesis by auto
qed

section \<open>The fallback agrees\<close>

definition plain :: "string \<Rightarrow> bool" where "plain s \<longleftrightarrow> to_lower (trim_space s) = s"

definition plain_grants :: "tables \<Rightarrow> bool" where
  "plain_grants ts \<longleftrightarrow> list_all (\<lambda>c. plain (co_permission c)) (ts_collaborators ts)
     \<and> list_all (\<lambda>g. plain (tr_permission g)) (ts_grants ts) \<and> list_all (\<lambda>u. plain (ur_default_permission u)) (ts_users ts)
     \<and> distinct (map (\<lambda>c. (co_repository_id c, co_user_id c)) (ts_collaborators ts))"

lemma parse_plain: "plain s \<Longrightarrow> decision_level (parse_repo_permission s) = sql_level (Some s)"
  by (simp add: plain_def parse_repo_permission_def sql_level_def decision_level_def effective_permission_def Let_def)

lemma better_effective: "effective_permission b = b \<Longrightarrow> effective_permission (better b g) = better b g"
  by (simp add: better_def Let_def)

lemma better_at_least: "plain g \<Longrightarrow> at_least (better b g) q \<longleftrightarrow> at_least b q \<or> decision_level q \<le> sql_level (Some g)"
  by (auto simp: better_def Let_def at_least_def parse_plain)

lemma fold_better:
  assumes "list_all plain gs" "effective_permission b = b"
  shows "effective_permission (fold (\<lambda>g b. better b g) gs b) = fold (\<lambda>g b. better b g) gs b
    \<and> (at_least (fold (\<lambda>g b. better b g) gs b) q \<longleftrightarrow> at_least b q \<or> (\<exists>g\<in>set gs. decision_level q \<le> sql_level (Some g)))"
  using assms by (induction gs arbitrary: b) (auto simp: better_effective better_at_least)

lemma none_at_least: "at_least RepoPermissionNone q \<longleftrightarrow> decision_level q = 0"
  using level_range [of q] by (auto simp: at_least_def decision_level_def [of RepoPermissionNone] effective_permission_def)

lemma admin_at_least: "at_least RepoPermissionAdmin q"
  using level_range [of q] by (simp add: at_least_def decision_level_def [of RepoPermissionAdmin] effective_permission_def)

lemma first_key: "distinct (map f xs) \<Longrightarrow> x \<in> set xs \<Longrightarrow> f x = k \<Longrightarrow> first_row (\<lambda>y. f y = k) (Some xs) = Inr x"
  using find_key [of f xs x] by (simp add: first_row_def)

lemma collaborator_best:
  fixes repo user :: nat
  assumes "plain_grants ts"
  defines "best \<equiv> (case first_row (\<lambda>c. co_repository_id c = repo \<and> co_user_id c = user) (Some (ts_collaborators ts)) of
      Inr c \<Rightarrow> effective_permission (parse_repo_permission (co_permission c)) | Inl _ \<Rightarrow> RepoPermissionNone)"
  shows "effective_permission best = best"
    and "at_least best q \<longleftrightarrow> decision_level q = 0 \<or> (\<exists>c\<in>set (ts_collaborators ts). co_repository_id c = repo \<and> co_user_id c = user
        \<and> decision_level q \<le> sql_level (Some (co_permission c)))"
proof -
  let ?P = "\<lambda>c. co_repository_id c = repo \<and> co_user_id c = user"
  show "effective_permission best = best"
    by (auto simp: best_def effective_permission_def [of RepoPermissionNone] split: sum.split)
  have "at_least best q \<longleftrightarrow> decision_level q = 0 \<or> (\<exists>c\<in>set (ts_collaborators ts). ?P c \<and> decision_level q \<le> sql_level (Some (co_permission c)))"
  proof (cases "\<exists>c\<in>set (ts_collaborators ts). ?P c")
    case True
    then obtain c where c: "c \<in> set (ts_collaborators ts)" "?P c" by blast
    let ?k = "\<lambda>c. (co_repository_id c, co_user_id c)"
    have d: "distinct (map ?k (ts_collaborators ts))" using assms by (simp add: plain_grants_def)
    have "best = effective_permission (parse_repo_permission (co_permission c))"
      using first_key [OF d c(1), of "(repo, user)"] c(2) by (simp add: best_def)
    moreover have "plain (co_permission c)" using assms(1) c(1) by (simp add: plain_grants_def list_all_iff)
    ultimately have "at_least best q \<longleftrightarrow> decision_level q \<le> sql_level (Some (co_permission c))"
      by (simp add: at_least_def parse_plain)
    moreover have "x = c" if "x \<in> set (ts_collaborators ts)" "?P x" for x
      using inj_onD [of ?k "set (ts_collaborators ts)" x c] d that c by (simp add: distinct_map)
    then have "(\<exists>c\<in>set (ts_collaborators ts). ?P c \<and> decision_level q \<le> sql_level (Some (co_permission c)))
        \<longleftrightarrow> decision_level q \<le> sql_level (Some (co_permission c))"
      using c by blast
    moreover have "decision_level q = 0 \<Longrightarrow> decision_level q \<le> sql_level (Some (co_permission c))"
      using sql_level_range [of "Some (co_permission c)"] by simp
    ultimately show ?thesis by blast
  next
    case False
    then have "find ?P (ts_collaborators ts) = None" by (simp add: find_None_iff)
    then have "best = RepoPermissionNone" by (simp add: best_def first_row_def)
    then show ?thesis using False by (auto simp: none_at_least)
  qed
  then show "at_least best q \<longleftrightarrow> decision_level q = 0 \<or> (\<exists>c\<in>set (ts_collaborators ts). co_repository_id c = repo \<and> co_user_id c = user
        \<and> decision_level q \<le> sql_level (Some (co_permission c)))"
    by (simp only: conj_assoc)
qed

lemma fallback_access:
  assumes "has_tables ts d" "subject_rows ts u r ow" "plain_grants ts"
  shows "\<exists>p. has_repo_access_fallback d (re_id r) (ur_id u) = Inr p \<and> effective_permission p = p
    \<and> (\<forall>q. at_least p q \<longleftrightarrow> decision_level q = 0 \<or> grant_at ts u r ow (decision_level q))"
proof -
  have db: "db_users d = Some (ts_users ts)" "db_repositories d = Some (ts_repositories ts)"
    "db_collaborators d = Some (ts_collaborators ts)" "db_team_members d = Some (ts_members ts)"
    "db_team_repositories d = Some (ts_grants ts)" "db_organization_members d = Some (ts_organizations ts)"
    and ids: "distinct (map ur_id (ts_users ts))" "distinct (map re_id (ts_repositories ts))"
    using assms(1) by (simp_all add: has_tables_def)
  have in_tables: "u \<in> set (ts_users ts)" "r \<in> set (ts_repositories ts)" "ow \<in> set (ts_users ts)" "ur_id ow = re_owner_id r"
    using assms(2) by (simp_all add: subject_rows_def)
  note rows = first_key [OF ids(1) in_tables(1) refl] first_key [OF ids(2) in_tables(2) refl] first_key [OF ids(1) in_tables(3,4)]
  show ?thesis
  proof (cases "ur_site_admin u \<or> re_owner_id r = ur_id u")
    case True
    then have "has_repo_access_fallback d (re_id r) (ur_id u) = Inr RepoPermissionAdmin"
      using rows by (auto simp: has_repo_access_fallback_def db)
    then show ?thesis using True by (auto simp: admin_at_least grant_at_def effective_permission_def)
  next
    case False
    define collab where "collab = (case first_row (\<lambda>c. co_repository_id c = re_id r \<and> co_user_id c = ur_id u) (Some (ts_collaborators ts)) of
      Inr c \<Rightarrow> effective_permission (parse_repo_permission (co_permission c)) | Inl _ \<Rightarrow> RepoPermissionNone)"
    define gs where "gs = team_grants (ts_members ts) (ts_grants ts) (re_id r) (ur_id u)"
    define best where "best = fold (\<lambda>g b. better b g) gs collab"
    define p where "p = (if ur_type ow = ''Organization'' \<and>
      filter (\<lambda>m. om_organization_id m = ur_id ow \<and> om_user_id m = ur_id u) (ts_organizations ts) \<noteq> []
      then better best (ur_default_permission ow) else best)"
    have res: "has_repo_access_fallback d (re_id r) (ur_id u) = Inr p"
      using rows False by (auto simp: has_repo_access_fallback_def db p_def best_def gs_def collab_def Let_def)
    have "list_all plain gs"
      using assms(3) by (auto simp: gs_def team_grants_def plain_grants_def list_all_iff)
    note best = fold_better [OF this collaborator_best(1) [OF assms(3), of "re_id r" "ur_id u"], folded collab_def best_def]
    have dflt: "plain (ur_default_permission ow)" using assms(3) in_tables(3) by (simp add: plain_grants_def list_all_iff)
    have "effective_permission p = p" using best by (simp add: p_def better_effective)
    moreover have "at_least p q \<longleftrightarrow> decision_level q = 0 \<or> grant_at ts u r ow (decision_level q)" for q
    proof -
      have "at_least best q \<longleftrightarrow> decision_level q = 0
          \<or> (\<exists>c\<in>set (ts_collaborators ts). co_repository_id c = re_id r \<and> co_user_id c = ur_id u \<and> decision_level q \<le> sql_level (Some (co_permission c)))
          \<or> (\<exists>m\<in>set (ts_members ts). \<exists>g\<in>set (ts_grants ts). tm_user_id m = ur_id u \<and> tr_team_id g = tm_team_id m
               \<and> tr_repository_id g = re_id r \<and> decision_level q \<le> sql_level (Some (tr_permission g)))"
        using best [of q] collaborator_best(2) [OF assms(3), of "re_id r" "ur_id u" q]
        by (auto simp: collab_def gs_def team_grants_def)
      moreover have "at_least p q \<longleftrightarrow> at_least best q \<or> (\<exists>m\<in>set (ts_organizations ts). om_organization_id m = re_owner_id r \<and> om_user_id m = ur_id u
          \<and> ur_type ow = ''Organization'' \<and> decision_level q \<le> sql_level (Some (ur_default_permission ow)))"
        using in_tables(4) by (auto simp: p_def better_at_least [OF dflt] filter_empty_conv)
      ultimately show ?thesis using False unfolding grant_at_def by blast
    qed
    ultimately show ?thesis using res by blast
  qed
qed

text \<open>
  C27. The effective permission of a user on a repository is the documented one: at least what is
  asked exactly for a site administrator, for the owner, and where a collaborator row, a
  repository grant of one of the user's teams or, for a member of the owning organisation, its
  base permission reaches that level.
\<close>

theorem access_levels:
  assumes "has_tables ts d" "subject_rows ts u r ow"
  shows "\<exists>p. current_repo_access d (re_id r) (ur_id u) = Inr p
    \<and> (\<forall>q. at_least p q \<longleftrightarrow> decision_level q = 0 \<or> grant_at ts u r ow (decision_level q))"
  using current_access [OF assms] by blast

definition sample_tables :: tables where
  "sample_tables = \<lparr>
     ts_users = [\<lparr>ur_id = 1, ur_type = ''User'', ur_kind = ''human'', ur_status = ''active'', ur_site_admin = False, ur_default_permission = ''none'', ur_login = ''u1'',
       ur_name = ''u1'', ur_is_anonymous = False\<rparr>,
       \<lparr>ur_id = 2, ur_type = ''Organization'', ur_kind = ''human'', ur_status = ''active'', ur_site_admin = False, ur_default_permission = ''read'', ur_login = ''u2'',
       ur_name = ''u2'', ur_is_anonymous = False\<rparr>],
     ts_repositories = [\<lparr>re_id = 7, re_owner_id = 2, re_full_name = ''org/repo'', re_private = True, re_disabled = False\<rparr>],
     ts_collaborators = [],
     ts_members = [\<lparr>tm_team_id = 4, tm_user_id = 1, tm_role = ''member''\<rparr>],
     ts_grants = [\<lparr>tr_team_id = 4, tr_repository_id = 7, tr_permission = ''push''\<rparr>],
     ts_organizations = [\<lparr>om_organization_id = 2, om_user_id = 1, om_role = ''member''\<rparr>]\<rparr>"

definition sample_database :: "tables \<Rightarrow> (nat \<times> nat) list \<Rightarrow> database" where
  "sample_database ts bindings = \<lparr>db_users = Some (ts_users ts), db_repositories = Some (ts_repositories ts),
     db_collaborators = Some (ts_collaborators ts), db_teams = Some [], db_team_members = Some (ts_members ts),
     db_team_repositories = Some (ts_grants ts), db_organization_members = Some (ts_organizations ts),
     db_agent_bindings = Some bindings, db_outside_collaborators = Some []\<rparr>"

lemma sample_tables_ok:
  "has_tables sample_tables (sample_database sample_tables bindings)" "plain_grants sample_tables"
  "subject_rows sample_tables (ts_users sample_tables ! 0) (ts_repositories sample_tables ! 0) (ts_users sample_tables ! 1)"
  by (simp_all add: has_tables_def sample_database_def sample_tables_def subject_rows_def plain_grants_def plain_def)
    code_simp+

theorem access_levels_witness:
  "\<exists>p. current_repo_access (sample_database sample_tables []) 7 1 = Inr p
    \<and> (at_least p RepoPermissionWrite \<longleftrightarrow> grant_at sample_tables (ts_users sample_tables ! 0) (ts_repositories sample_tables ! 0) (ts_users sample_tables ! 1) 2)"
proof -
  have ids: "re_id (ts_repositories sample_tables ! 0) = 7" "ur_id (ts_users sample_tables ! 0) = 1" "decision_level RepoPermissionWrite = 2"
    by (simp_all add: sample_tables_def decision_level_def effective_permission_def)
  show ?thesis using access_levels [OF sample_tables_ok(1,3), of "[]"] ids by (metis zero_neq_numeral)
qed

text \<open>
  C28. The two implementations agree: where the tables exist, identifiers and collaborator rows are
  unique and stored permissions are lower case without blanks, the row by row fallback answers
  exactly what the joined query answers.
\<close>

theorem fallback_agrees:
  assumes "has_tables ts d" "subject_rows ts u r ow" "plain_grants ts"
  shows "has_repo_access_fallback d (re_id r) (ur_id u) = current_repo_access d (re_id r) (ur_id u)"
  using current_access [OF assms(1,2)] fallback_access [OF assms] same_permission by metis

theorem fallback_agrees_witness:
  "has_repo_access_fallback (sample_database sample_tables []) 7 1 = current_repo_access (sample_database sample_tables []) 7 1"
  using fallback_agrees [OF sample_tables_ok(1,3,2), of "[]"] by (simp add: sample_tables_def)

section \<open>The repair\<close>

definition extends :: "tables \<Rightarrow> tables \<Rightarrow> bool" where
  "extends ts ts' \<longleftrightarrow> ts_users ts' = ts_users ts \<and> ts_repositories ts' = ts_repositories ts \<and> ts_collaborators ts' = ts_collaborators ts
     \<and> (\<forall>m\<in>set (ts_members ts). \<exists>m'\<in>set (ts_members ts'). tm_team_id m' = tm_team_id m \<and> tm_user_id m' = tm_user_id m)
     \<and> (\<forall>g\<in>set (ts_grants ts). \<exists>g'\<in>set (ts_grants ts'). tr_team_id g' = tr_team_id g \<and> tr_repository_id g' = tr_repository_id g
          \<and> sql_level (Some (tr_permission g)) \<le> sql_level (Some (tr_permission g')))
     \<and> (\<forall>m\<in>set (ts_organizations ts). \<exists>m'\<in>set (ts_organizations ts'). om_organization_id m' = om_organization_id m \<and> om_user_id m' = om_user_id m)"

definition grows :: "database \<Rightarrow> database \<Rightarrow> bool" where
  "grows d d' \<longleftrightarrow> (\<forall>ts. has_tables ts d \<longrightarrow> (\<exists>ts'. has_tables ts' d' \<and> extends ts ts'))"

lemma extends_refl [simp]: "extends ts ts"
  by (auto simp: extends_def)

lemma extends_trans:
  assumes "extends a b" "extends b c"
  shows "extends a c"
proof -
  have "\<exists>m'\<in>set (ts_members c). tm_team_id m' = tm_team_id m \<and> tm_user_id m' = tm_user_id m" if "m \<in> set (ts_members a)" for m
    using assms that unfolding extends_def by metis
  moreover have "\<exists>m'\<in>set (ts_organizations c). om_organization_id m' = om_organization_id m \<and> om_user_id m' = om_user_id m"
    if "m \<in> set (ts_organizations a)" for m
    using assms that unfolding extends_def by metis
  moreover have "\<exists>g'\<in>set (ts_grants c). tr_team_id g' = tr_team_id g \<and> tr_repository_id g' = tr_repository_id g
      \<and> sql_level (Some (tr_permission g)) \<le> sql_level (Some (tr_permission g'))" if "g \<in> set (ts_grants a)" for g
  proof -
    obtain h where "h \<in> set (ts_grants b)" "tr_team_id h = tr_team_id g" "tr_repository_id h = tr_repository_id g"
      "sql_level (Some (tr_permission g)) \<le> sql_level (Some (tr_permission h))"
      using assms(1) \<open>g \<in> set (ts_grants a)\<close> unfolding extends_def by blast
    moreover from this(1) obtain k where "k \<in> set (ts_grants c)" "tr_team_id k = tr_team_id h" "tr_repository_id k = tr_repository_id h"
      "sql_level (Some (tr_permission h)) \<le> sql_level (Some (tr_permission k))"
      using assms(2) unfolding extends_def by blast
    ultimately show ?thesis by (metis order_trans)
  qed
  ultimately show ?thesis using assms by (simp add: extends_def)
qed

lemma grows_refl [simp]: "grows d d"
  by (auto simp: grows_def)

lemma grows_trans: "grows a b \<Longrightarrow> grows b c \<Longrightarrow> grows a c"
  unfolding grows_def by (meson extends_trans)

lemma grant_at_extends:
  assumes "extends ts ts'" "grant_at ts u r ow n"
  shows "grant_at ts' u r ow n"
proof -
  consider "ur_site_admin u \<or> re_owner_id r = ur_id u"
    | "\<exists>c\<in>set (ts_collaborators ts). co_repository_id c = re_id r \<and> co_user_id c = ur_id u \<and> n \<le> sql_level (Some (co_permission c))"
    | m g where "m \<in> set (ts_members ts)" "g \<in> set (ts_grants ts)" "tm_user_id m = ur_id u" "tr_team_id g = tm_team_id m"
        "tr_repository_id g = re_id r" "n \<le> sql_level (Some (tr_permission g))"
    | m where "m \<in> set (ts_organizations ts)" "om_organization_id m = re_owner_id r" "om_user_id m = ur_id u"
        "ur_type ow = ''Organization''" "n \<le> sql_level (Some (ur_default_permission ow))"
    using assms(2) unfolding grant_at_def by blast
  then show ?thesis
  proof cases
    case 2
    then show ?thesis using assms(1) by (simp add: grant_at_def extends_def)
  next
    case 3
    obtain m' where "m' \<in> set (ts_members ts')" "tm_team_id m' = tm_team_id m" "tm_user_id m' = tm_user_id m"
      using assms(1) 3(1) unfolding extends_def by blast
    moreover obtain g' where "g' \<in> set (ts_grants ts')" "tr_team_id g' = tr_team_id g" "tr_repository_id g' = tr_repository_id g"
      "sql_level (Some (tr_permission g)) \<le> sql_level (Some (tr_permission g'))"
      using assms(1) 3(2) unfolding extends_def by blast
    ultimately show ?thesis using 3(3-6) unfolding grant_at_def by (metis order_trans)
  next
    case 4
    then obtain m' where "m' \<in> set (ts_organizations ts')" "om_organization_id m' = re_owner_id r" "om_user_id m' = ur_id u"
      using assms(1) unfolding extends_def by metis
    then show ?thesis using 4(4,5) unfolding grant_at_def by blast
  qed (auto simp: grant_at_def)
qed

lemma map_covers: "\<forall>x\<in>set xs. P x (f x) \<Longrightarrow> \<forall>x\<in>set xs. \<exists>y\<in>set (map f xs). P x y"
  by auto

lemma grows_outside: "delete_outside_collaborator d org user = Inr d' \<Longrightarrow> grows d d'"
  by (fastforce simp: delete_outside_collaborator_def grows_def has_tables_def split: if_splits option.splits)

lemma grows_organizations:
  assumes "db_organization_members d = Some rows"
    and "\<forall>m\<in>set rows. \<exists>m'\<in>set rows'. om_organization_id m' = om_organization_id m \<and> om_user_id m' = om_user_id m"
  shows "grows d (d\<lparr>db_organization_members := Some rows'\<rparr>)"
  unfolding grows_def
proof (intro allI impI)
  fix ts assume "has_tables ts d"
  with assms have "has_tables (ts\<lparr>ts_organizations := rows'\<rparr>) (d\<lparr>db_organization_members := Some rows'\<rparr>) \<and> extends ts (ts\<lparr>ts_organizations := rows'\<rparr>)"
    by (auto simp: has_tables_def extends_def)
  then show "\<exists>ts'. has_tables ts' (d\<lparr>db_organization_members := Some rows'\<rparr>) \<and> extends ts ts'" by blast
qed

lemma grows_members:
  assumes "db_team_members d = Some rows"
    and "\<forall>m\<in>set rows. \<exists>m'\<in>set rows'. tm_team_id m' = tm_team_id m \<and> tm_user_id m' = tm_user_id m"
  shows "grows d (d\<lparr>db_team_members := Some rows'\<rparr>)"
  unfolding grows_def
proof (intro allI impI)
  fix ts assume "has_tables ts d"
  with assms have "has_tables (ts\<lparr>ts_members := rows'\<rparr>) (d\<lparr>db_team_members := Some rows'\<rparr>) \<and> extends ts (ts\<lparr>ts_members := rows'\<rparr>)"
    by (auto simp: has_tables_def extends_def)
  then show "\<exists>ts'. has_tables ts' (d\<lparr>db_team_members := Some rows'\<rparr>) \<and> extends ts ts'" by blast
qed

lemma grows_grants:
  assumes "db_team_repositories d = Some rows"
    and "\<forall>g\<in>set rows. \<exists>g'\<in>set rows'. tr_team_id g' = tr_team_id g \<and> tr_repository_id g' = tr_repository_id g
      \<and> sql_level (Some (tr_permission g)) \<le> sql_level (Some (tr_permission g'))"
  shows "grows d (d\<lparr>db_team_repositories := Some rows'\<rparr>)"
  unfolding grows_def
proof (intro allI impI)
  fix ts assume "has_tables ts d"
  with assms have "has_tables (ts\<lparr>ts_grants := rows'\<rparr>) (d\<lparr>db_team_repositories := Some rows'\<rparr>) \<and> extends ts (ts\<lparr>ts_grants := rows'\<rparr>)"
    by (auto simp: has_tables_def extends_def)
  then show "\<exists>ts'. has_tables ts' (d\<lparr>db_team_repositories := Some rows'\<rparr>) \<and> extends ts ts'" by blast
qed

lemma grows_org_membership: "ensure_org_membership d org user role = Inr d' \<Longrightarrow> grows d d'"
proof -
  assume e: "ensure_org_membership d org user role = Inr d'"
  obtain n rows where "normalize_organization_role role = Some n" and rows: "db_organization_members d = Some rows"
    using e by (auto simp: ensure_org_membership_def split: option.splits if_splits)
  have up: "grows d (d\<lparr>db_organization_members := Some (map (\<lambda>x.
      if om_organization_id x = org \<and> om_user_id x = user then x\<lparr>om_role := v\<rparr> else x) rows)\<rparr>)" for v
    by (rule grows_organizations [OF rows], rule map_covers) simp
  have app: "grows d (d\<lparr>db_organization_members := Some (rows @ [x])\<rparr>)" for x
    by (rule grows_organizations [OF rows]) auto
  show ?thesis using e rows
    by (auto simp: ensure_org_membership_def Let_def split: option.splits if_splits
        dest!: grows_outside intro: grows_trans [OF up] grows_trans [OF app])
qed

lemma grows_team_member: "ensure_admins_team_member d team user = Inr d' \<Longrightarrow> grows d d'"
proof -
  assume e: "ensure_admins_team_member d team user = Inr d'"
  then obtain rows where rows: "db_team_members d = Some rows"
    by (auto simp: ensure_admins_team_member_def split: option.splits)
  have up: "grows d (d\<lparr>db_team_members := Some (map (\<lambda>m.
      if tm_team_id m = team \<and> tm_user_id m = user then m\<lparr>tm_role := v\<rparr> else m) rows)\<rparr>)" for v
    by (rule grows_members [OF rows], rule map_covers) simp
  have app: "grows d (d\<lparr>db_team_members := Some (rows @ [x])\<rparr>)" for x
    by (rule grows_members [OF rows]) auto
  show ?thesis
  proof (cases "find (\<lambda>m. tm_team_id m = team \<and> tm_user_id m = user) rows = None")
    case True
    then show ?thesis using e rows app by (auto simp: ensure_admins_team_member_def)
  next
    case False
    then have "d' = d\<lparr>db_team_members := Some (map (\<lambda>m.
        if tm_team_id m = team \<and> tm_user_id m = user then m\<lparr>tm_role := ''maintainer''\<rparr> else m) rows)\<rparr>"
      using e rows by (auto simp: ensure_admins_team_member_def Let_def)
    then show ?thesis using up by simp
  qed
qed

lemma sql_admin [simp]: "sql_level (Some ''admin'') = 3"
  by (simp add: sql_level_def)

lemma grows_team_repo: "ensure_admins_team_repo d team repo = Inr d' \<Longrightarrow> grows d d'"
proof -
  assume e: "ensure_admins_team_repo d team repo = Inr d'"
  then obtain rows where rows: "db_team_repositories d = Some rows"
    by (auto simp: ensure_admins_team_repo_def split: option.splits)
  have up: "grows d (d\<lparr>db_team_repositories := Some (map (\<lambda>g.
      if tr_team_id g = team \<and> tr_repository_id g = repo then g\<lparr>tr_permission := ''admin''\<rparr> else g) rows)\<rparr>)"
    by (rule grows_grants [OF rows], rule map_covers) (simp add: sql_level_range)
  have app: "grows d (d\<lparr>db_team_repositories := Some (rows @ [x])\<rparr>)" for x
    by (rule grows_grants [OF rows]) auto
  show ?thesis
  proof (cases "find (\<lambda>g. tr_team_id g = team \<and> tr_repository_id g = repo) rows = None")
    case True
    then show ?thesis using e rows app by (auto simp: ensure_admins_team_repo_def)
  next
    case False
    then have "d' = d\<lparr>db_team_repositories := Some (map (\<lambda>g.
        if tr_team_id g = team \<and> tr_repository_id g = repo then g\<lparr>tr_permission := ''admin''\<rparr> else g) rows)\<rparr>"
      using e rows by (auto simp: ensure_admins_team_repo_def Let_def)
    then show ?thesis using up by simp
  qed
qed

lemma grows_team: "ensure_admins_team fresh d org = Inr (team, d') \<Longrightarrow> grows d d'"
  by (fastforce simp: ensure_admins_team_def grows_def has_tables_def split: option.splits)

lemma grows_principal: "ensure_principal org team user d = Inr d' \<Longrightarrow> grows d d'"
  by (auto simp: ensure_principal_def res_simps dest: grows_org_membership grows_team_member intro: grows_trans)

lemma grows_fold: "rfold (ensure_principal org team) ps d = Inr d' \<Longrightarrow> grows d d'"
  by (erule rfold_invariant) (auto dest: grows_principal intro: grows_trans)

lemma grows_principals: "ensure_admins_principals fresh d org ps = Inr (team, d') \<Longrightarrow> grows d d'"
  by (auto simp: ensure_admins_principals_def res_simps dest!: grows_team grows_fold intro: grows_trans)

lemma grows_transaction: "backfill_transaction fresh d repo viewer org agents = Inr d' \<Longrightarrow> grows d d'"
  by (auto simp: backfill_transaction_def res_simps split: if_splits dest!: grows_principals grows_team_repo intro: grows_trans)

lemma grows_backfill: "maybe_backfill_admins fresh ctx d repo user = Inr d' \<Longrightarrow> grows d d'"
  by (auto simp: maybe_backfill_admins_def Let_def split: if_splits option.splits sum.splits store_error.splits dest: grows_transaction)

definition on_team :: "nat \<Rightarrow> nat \<Rightarrow> database \<Rightarrow> bool" where
  "on_team team user d \<longleftrightarrow> (\<exists>rows. db_team_members d = Some rows \<and> (\<exists>m\<in>set rows. tm_team_id m = team \<and> tm_user_id m = user))"

lemma on_team_member: "ensure_admins_team_member d team user = Inr d' \<Longrightarrow> on_team team user d'"
proof -
  assume e: "ensure_admins_team_member d team user = Inr d'"
  let ?same = "\<lambda>m. tm_team_id m = team \<and> tm_user_id m = user"
  obtain rows where rows: "db_team_members d = Some rows" using e by (auto simp: ensure_admins_team_member_def split: option.splits)
  show ?thesis
  proof (cases "find ?same rows")
    case None
    then show ?thesis using e rows by (auto simp: ensure_admins_team_member_def on_team_def)
  next
    case (Some m)
    let ?f = "\<lambda>m. if ?same m then m\<lparr>tm_role := ''maintainer''\<rparr> else m"
    have m: "m \<in> set rows" "?same m" using find_set [OF Some] by auto
    have "db_team_members d' = Some (map ?f rows)" using e rows Some by (auto simp: ensure_admins_team_member_def)
    moreover have "?f m \<in> set (map ?f rows)" using m(1) by simp
    moreover have "tm_team_id (?f m) = team \<and> tm_user_id (?f m) = user" using m(2) by simp
    ultimately show ?thesis unfolding on_team_def by blast
  qed
qed

lemma on_team_grows: "on_team team user d \<Longrightarrow> grows d d' \<Longrightarrow> has_tables ts d \<Longrightarrow> on_team team user d'"
  unfolding grows_def on_team_def extends_def has_tables_def by (metis option.inject)

definition team_admin :: "nat \<Rightarrow> nat \<Rightarrow> database \<Rightarrow> bool" where
  "team_admin team repo d \<longleftrightarrow> (\<exists>rows. db_team_repositories d = Some rows
     \<and> (\<exists>g\<in>set rows. tr_team_id g = team \<and> tr_repository_id g = repo \<and> tr_permission g = ''admin''))"

lemma team_repo_admin:
  "ensure_admins_team_repo d team repo = Inr d' \<Longrightarrow> team_admin team repo d' \<and> db_team_members d' = db_team_members d"
proof -
  assume e: "ensure_admins_team_repo d team repo = Inr d'"
  let ?same = "\<lambda>g. tr_team_id g = team \<and> tr_repository_id g = repo"
  obtain rows where rows: "db_team_repositories d = Some rows" using e by (auto simp: ensure_admins_team_repo_def split: option.splits)
  show ?thesis
  proof (cases "find ?same rows")
    case None
    then show ?thesis using e rows by (auto simp: ensure_admins_team_repo_def team_admin_def)
  next
    case (Some g)
    let ?f = "\<lambda>g. if ?same g then g\<lparr>tr_permission := ''admin''\<rparr> else g"
    have g: "g \<in> set rows" "?same g" using find_set [OF Some] by auto
    have "db_team_repositories d' = Some (map ?f rows)" "db_team_members d' = db_team_members d"
      using e rows Some by (auto simp: ensure_admins_team_repo_def)
    moreover have "?f g \<in> set (map ?f rows)" using g(1) by simp
    moreover have "tr_team_id (?f g) = team \<and> tr_repository_id (?f g) = repo \<and> tr_permission (?f g) = ''admin''" using g(2) by simp
    ultimately show ?thesis unfolding team_admin_def by blast
  qed
qed

lemma repair_enrols:
  assumes "backfill_transaction fresh d repo viewer org agents = Inr d'" "has_tables ts d" "viewer \<noteq> 0"
    and "eligible_agents d repo org agents = Inr eligible" "eligible \<noteq> []"
  shows "\<exists>team. on_team team viewer d' \<and> team_admin team repo d'"
proof -
  obtain team d1 where pr: "ensure_admins_principals fresh d org (viewer # eligible) = Inr (team, d1)"
    and tr: "ensure_admins_team_repo d1 team repo = Inr d'"
    using assms(1,4,5) by (auto simp: backfill_transaction_def res_simps)
  obtain d2 where d2: "ensure_admins_team fresh d org = Inr (team, d2)"
    and fold: "rfold (ensure_principal org team) (first_seen [] (filter (\<lambda>p. p \<noteq> 0) (viewer # eligible))) d2 = Inr d1"
    using pr unfolding ensure_admins_principals_def by (auto simp: res_simps)
  obtain d3 rest where d3: "ensure_principal org team viewer d2 = Inr d3" and rest: "rfold (ensure_principal org team) rest d3 = Inr d1"
    using fold assms(3) by (auto simp: res_simps)
  have "on_team team viewer d3" using d3 on_team_member by (auto simp: ensure_principal_def res_simps)
  moreover obtain ts3 where "has_tables ts3 d3"
    using grows_trans [OF grows_team [OF d2] grows_principal [OF d3]] assms(2) unfolding grows_def by blast
  ultimately have "on_team team viewer d1" using on_team_grows grows_fold [OF rest] by blast
  then show ?thesis using team_repo_admin [OF tr] by (auto simp: on_team_def)
qed

text \<open>When a repair may happen: an agent bound to the user administers the repository.\<close>

definition repair_due :: "database \<Rightarrow> nat \<Rightarrow> nat \<Rightarrow> bool" where
  "repair_due d repo user \<longleftrightarrow> (\<exists>a bindings r.
     db_agent_bindings d = Some bindings \<and> (a, user) \<in> set bindings
     \<and> first_row (\<lambda>r. re_id r = repo) (db_repositories d) = Inr r
     \<and> ((\<exists>teams t. db_teams d = Some teams \<and> t \<in> set teams \<and> te_organization_id t = re_owner_id r \<and> te_slug t = admins_slug
            \<and> on_team (te_id t) a d)
        \<or> (\<exists>rows c. db_collaborators d = Some rows \<and> c \<in> set rows \<and> co_repository_id c = repo \<and> co_user_id c = a \<and> co_permission c = ''admin'')))"

lemma eligible_due:
  assumes "eligible_agents d repo org agents = Inr eligible" "eligible \<noteq> []"
  shows "\<exists>a\<in>set agents. (\<exists>teams t. db_teams d = Some teams \<and> t \<in> set teams \<and> te_organization_id t = org \<and> te_slug t = admins_slug
            \<and> on_team (te_id t) a d)
        \<or> (\<exists>rows c. db_collaborators d = Some rows \<and> c \<in> set rows \<and> co_repository_id c = repo \<and> co_user_id c = a \<and> co_permission c = ''admin'')"
proof -
  obtain teams where teams: "db_teams d = Some teams"
    using assms(1) by (auto simp: eligible_agents_def first_row_def split: option.splits)
  consider t rows where "t \<in> set teams" "te_organization_id t = org" "te_slug t = admins_slug" "db_team_members d = Some rows"
      "eligible = map tm_user_id (filter (\<lambda>m. tm_team_id m = te_id t \<and> tm_user_id m \<in> set agents) rows)"
    | rows where "db_collaborators d = Some rows"
      "eligible = map co_user_id (filter (\<lambda>c. co_repository_id c = repo \<and> co_user_id c \<in> set agents \<and> co_permission c = ''admin'') rows)"
    using assms(1) teams
    by (auto simp: eligible_agents_def first_row_def res_simps split: option.splits if_splits dest!: find_set)
  then show ?thesis
  proof cases
    case 1
    then obtain m where "m \<in> set rows" "tm_team_id m = te_id t" "tm_user_id m \<in> set agents"
      using assms(2) by (auto simp: filter_empty_conv)
    then show ?thesis using 1 teams by (auto simp: on_team_def)
  next
    case 2
    then show ?thesis using assms(2) by (auto simp: filter_empty_conv)
  qed
qed

lemma access_grows:
  assumes "has_tables ts d" "grows d d'" "subject_rows ts u r ow"
  shows "\<exists>p p'. current_repo_access d (re_id r) (ur_id u) = Inr p \<and> current_repo_access d' (re_id r) (ur_id u) = Inr p' \<and> at_least p' p"
proof -
  obtain ts' where ts': "has_tables ts' d'" "extends ts ts'" using assms(1,2) unfolding grows_def by blast
  then have "subject_rows ts' u r ow" using assms(3) by (simp add: extends_def subject_rows_def)
  then obtain p' where p': "current_repo_access d' (re_id r) (ur_id u) = Inr p'"
    "\<And>q. at_least p' q \<longleftrightarrow> decision_level q = 0 \<or> grant_at ts' u r ow (decision_level q)"
    using current_access [OF ts'(1)] by blast
  obtain p where p: "current_repo_access d (re_id r) (ur_id u) = Inr p"
    "\<And>q. at_least p q \<longleftrightarrow> decision_level q = 0 \<or> grant_at ts u r ow (decision_level q)"
    using current_access [OF assms(1,3)] by blast
  have "at_least p p" by (simp add: at_least_def)
  then have "at_least p' p" using p(2) [of p] p'(2) [of p] grant_at_extends [OF ts'(2)] by blast
  then show ?thesis using p(1) p'(1) by blast
qed

lemma access_admin:
  assumes "has_tables ts' d'" "subject_rows ts' u r ow" "on_team team (ur_id u) d'" "team_admin team (re_id r) d'"
  shows "current_repo_access d' (re_id r) (ur_id u) = Inr RepoPermissionAdmin"
proof -
  have "grant_at ts' u r ow 3"
    using assms(1,3,4) unfolding grant_at_def on_team_def team_admin_def has_tables_def
    by (metis (no_types, lifting) option.inject order_refl sql_admin)
  moreover have adm: "decision_level RepoPermissionAdmin = 3" by (simp add: decision_level_def effective_permission_def)
  moreover obtain p where p: "current_repo_access d' (re_id r) (ur_id u) = Inr p" "effective_permission p = p"
    "\<And>q. at_least p q \<longleftrightarrow> decision_level q = 0 \<or> grant_at ts' u r ow (decision_level q)"
    using current_access [OF assms(1,2)] by blast
  ultimately have "at_least p RepoPermissionAdmin" by simp
  then have "decision_level p = 3" using adm level_range [of p] by (simp add: at_least_def)
  then have "p = RepoPermissionAdmin" using effective_level_eq [of p RepoPermissionAdmin] p(2) adm by (simp add: effective_permission_def [of RepoPermissionAdmin])
  then show ?thesis using p(1) by simp
qed

lemma first_row_id: "first_row (\<lambda>u. ur_id u = k) t = Inr v \<Longrightarrow> ur_id v = k"
  by (auto simp: first_row_def split: option.splits dest!: find_set)

lemma backfill_cases:
  assumes "maybe_backfill_admins fresh ctx d repo user = Inr d'" "d' \<noteq> d"
  obtains bindings r ow where "db_agent_bindings d = Some bindings" "first_row (\<lambda>r. re_id r = repo) (db_repositories d) = Inr r"
    "first_row (\<lambda>u. ur_id u = re_owner_id r) (db_users d) = Inr ow" "user \<noteq> 0"
    "backfill_transaction fresh d repo user (ur_id ow) (map fst (filter (\<lambda>b. snd b = user) bindings)) = Inr d'"
proof -
  let ?viewer = "case ctx of Some v \<Rightarrow> if ur_id v = user then Inr v else first_row (\<lambda>u. ur_id u = user) (db_users d)
      | None \<Rightarrow> first_row (\<lambda>u. ur_id u = user) (db_users d)"
  obtain v where v: "?viewer = Inr v" "user \<noteq> 0" "repo \<noteq> 0"
    using assms unfolding maybe_backfill_admins_def
    by (cases ?viewer) (simp_all split: if_splits store_error.splits)
  have "ur_id v = user"
    using v(1) first_row_id [of user "db_users d" v] by (simp split: option.splits if_splits)
  have "(if ur_kind v \<noteq> ''human'' then Inr d
      else case db_agent_bindings d of
             None \<Rightarrow> Inr d
           | Some bindings \<Rightarrow>
               (let agents = map fst (filter (\<lambda>b. snd b = ur_id v) bindings)
                in if agents = [] then Inr d
                   else case first_row (\<lambda>r. re_id r = repo) (db_repositories d) of
                          Inl NotFound \<Rightarrow> Inr d
                        | Inl e \<Rightarrow> Inl e
                        | Inr repo_found \<Rightarrow>
                            (case first_row (\<lambda>u. ur_id u = re_owner_id repo_found) (db_users d) of
                               Inl NotFound \<Rightarrow> Inr d
                             | Inl e \<Rightarrow> Inl e
                             | Inr ow \<Rightarrow>
                                 if ur_type ow \<noteq> ''Organization'' then Inr d
                                 else backfill_transaction fresh d repo (ur_id v) (ur_id ow) agents))) = Inr d'"
    using assms(1) v unfolding maybe_backfill_admins_def by simp
  then show thesis using \<open>ur_id v = user\<close> assms(2) v(2) that
    by (auto simp: Let_def split: if_splits option.splits sum.splits store_error.splits)
qed

text \<open>
  C29. The repair before a read of access is safe: it lowers nobody's permission on any repository;
  it changes the database only for a user with a bound agent that is on the administrators' team
  of the owning organisation or an administrating collaborator of the repository; and then the
  user is answered the administrator's permission.
\<close>

theorem repair_sound:
  assumes "has_tables ts d" "has_repo_access fresh ctx d repo user = (res, d')"
  shows "(\<forall>u r ow. subject_rows ts u r ow \<longrightarrow> (\<exists>p p'. current_repo_access d (re_id r) (ur_id u) = Inr p
        \<and> current_repo_access d' (re_id r) (ur_id u) = Inr p' \<and> at_least p' p))
    \<and> (d' = d \<or> repair_due d repo user \<and>
        (\<forall>u r ow. subject_rows ts u r ow \<longrightarrow> re_id r = repo \<longrightarrow> ur_id u = user \<longrightarrow> res = Inr RepoPermissionAdmin))"
proof -
  have grows: "grows d d'"
    using assms(2) grows_backfill by (auto simp: has_repo_access_def Let_def split: if_splits sum.splits)
  moreover have "repair_due d repo user \<and> (\<forall>u r ow. subject_rows ts u r ow \<longrightarrow> re_id r = repo \<longrightarrow> ur_id u = user \<longrightarrow> res = Inr RepoPermissionAdmin)"
    if "d' \<noteq> d"
  proof -
    have bf: "maybe_backfill_admins fresh ctx d repo user = Inr d'" and res: "res = current_repo_access d' repo user"
      using assms(2) that by (auto simp: has_repo_access_def Let_def split: if_splits sum.splits)
    obtain bindings r ow where b: "db_agent_bindings d = Some bindings" "first_row (\<lambda>r. re_id r = repo) (db_repositories d) = Inr r"
      "first_row (\<lambda>u. ur_id u = re_owner_id r) (db_users d) = Inr ow" "user \<noteq> 0"
      "backfill_transaction fresh d repo user (ur_id ow) (map fst (filter (\<lambda>b. snd b = user) bindings)) = Inr d'"
      using backfill_cases [OF bf \<open>d' \<noteq> d\<close>] .
    have ow: "ur_id ow = re_owner_id r" using first_row_id [OF b(3)] .
    obtain eligible where el: "eligible_agents d repo (ur_id ow) (map fst (filter (\<lambda>b. snd b = user) bindings)) = Inr eligible" "eligible \<noteq> []"
      using b(5) \<open>d' \<noteq> d\<close> by (auto simp: backfill_transaction_def res_simps split: if_splits)
    have "repair_due d repo user"
      using eligible_due [OF el] b(1,2) ow unfolding repair_due_def by fastforce
    moreover obtain team where team: "on_team team user d'" "team_admin team repo d'"
      using repair_enrols [OF b(5) assms(1) b(4) el] by blast
    moreover have "res = Inr RepoPermissionAdmin" if "subject_rows ts u q w" "re_id q = repo" "ur_id u = user" for u q w
    proof -
      obtain ts' where ts': "has_tables ts' d'" "extends ts ts'" using assms(1) grows unfolding grows_def by blast
      then have "subject_rows ts' u q w" using that(1) by (simp add: extends_def subject_rows_def)
      from access_admin [OF ts'(1) this] team that res show ?thesis by simp
    qed
    ultimately show ?thesis by blast
  qed
  ultimately show ?thesis using access_grows [OF assms(1)] by blast
qed

definition repair_tables :: tables where
  "repair_tables = sample_tables\<lparr>ts_collaborators := [\<lparr>co_repository_id = 7, co_user_id = 3, co_permission = ''admin''\<rparr>]\<rparr>"

theorem repair_sound_witness:
  "fst (has_repo_access 9 None (sample_database repair_tables [(3, 1)]) 7 1) = Inr RepoPermissionAdmin
   \<and> repair_due (sample_database repair_tables [(3, 1)]) 7 1"
proof -
  let ?d = "sample_database repair_tables [(3, 1)]"
  have ts: "has_tables repair_tables ?d"
    "subject_rows repair_tables (ts_users repair_tables ! 0) (ts_repositories repair_tables ! 0) (ts_users repair_tables ! 1)"
    "re_id (ts_repositories repair_tables ! 0) = 7" "ur_id (ts_users repair_tables ! 0) = 1"
    by (simp_all add: has_tables_def sample_database_def repair_tables_def sample_tables_def subject_rows_def)
  have "length (the (db_team_members (snd (has_repo_access 9 None ?d 7 1)))) \<noteq> length (the (db_team_members ?d))"
    by code_simp
  then have "snd (has_repo_access 9 None ?d 7 1) \<noteq> ?d" by metis
  then show ?thesis using repair_sound [OF ts(1) prod.collapse [symmetric], of 9 None 7 1] ts(2-4) by blast
qed

end
