(* ===== verification/Durable_Authorize.thy ===== *)
theory Durable_Authorize
  imports Repo_Access Authority_Properties Operation_Constraints
begin

text \<open>
  \<open>internal/service/durable_authorize.go\<close>: the authorization of a durable caller, which brings
  together the tables of \<open>Repo_Access\<close>, the session authority snapshot and the constraint schemas.
  \<open>sha\<close> is the hexadecimal SHA-256 digest, \<open>order\<close> the iteration order of a map. Errors keep the
  class the code wraps, not the message.
\<close>

section \<open>Model\<close>

datatype authorize_error = ErrValidation | ErrNotFound | ErrForbidden | ErrStore store_error

record durable_authorization =
  da_authorized :: bool
  da_principal_id :: nat
  da_contract_revision :: string
  da_service :: string
  da_repository :: string
  da_operation :: string
  da_constraints :: "(string \<times> json_value) list"
  da_native_grant_revision :: string
  da_resource_policy_revision :: string
  da_policy_class :: string
  da_policy_class_revision :: string
  da_team_identity_id :: string
  da_membership_epoch :: int
  da_team_binding_revision :: string

text \<open>\<open>^[a-z][a-z0-9_]{0,63}$\<close>\<close>

definition constraint_key_ok :: "string \<Rightarrow> bool" where
  "constraint_key_ok s =
     (case s of [] \<Rightarrow> False
      | c # cs \<Rightarrow> char_between CHR ''a'' CHR ''z'' c \<and> length cs \<le> 63
          \<and> list_all (\<lambda>d. char_between CHR ''a'' CHR ''z'' d \<or> char_between CHR ''0'' CHR ''9'' d \<or> d = CHR ''_'') cs)"

definition durable_constraint_keys :: "(string \<times> string list) list" where
  "durable_constraint_keys =
     [(''pr.merge'', [''pull_request_number'', ''forgejo_pull_request_number'', ''merge_method'', ''expected_head_sha'']),
      (''review.submit'', [''pull_request_number'', ''forgejo_pull_request_number'', ''exact_head''])]"

definition native_human_authorization_revision :: string where
  "native_human_authorization_revision = ''native-human-repository-permission-v1''"

definition positive_constraint_number :: "json_value option \<Rightarrow> bool" where
  "positive_constraint_number v = (case v of Some (JNumber s) \<Rightarrow> is_json_safe_positive_integer s | _ \<Rightarrow> False)"

definition canonical_action_sha :: "json_value option \<Rightarrow> bool" where
  "canonical_action_sha v = (case v of Some (JString s) \<Rightarrow> is_canonical_sha s | _ \<Rightarrow> False)"

definition canonical_method_value :: "json_value option \<Rightarrow> bool" where
  "canonical_method_value v = (case v of Some (JString s) \<Rightarrow> canonical_merge_method s | _ \<Rightarrow> False)"

definition durable_entry :: "string list \<Rightarrow> string \<times> json_value \<Rightarrow> (string \<times> json_value) list \<Rightarrow> authorize_error + (string \<times> json_value) list" where
  "durable_entry allowed e out =
     (let (key, value) = e
      in if \<not> constraint_key_ok key then Inl ErrValidation
         else if key \<notin> set allowed then Inl ErrValidation
         else case value of
                JString s \<Rightarrow>
                  (let typed = trim_space s
                   in if typed = [] \<or> contains_any typed [CHR 0x0D, CHR 0x0A, CHR 0x00] \<or> is_secret_shaped typed
                      then Inl ErrValidation else Inr (out @ [(key, JString typed)]))
              | JNumber s \<Rightarrow> Inr (out @ [(key, value)])
              | JBool b \<Rightarrow> Inr (out @ [(key, value)])
              | _ \<Rightarrow> Inl ErrValidation)"

definition normalize_durable_constraints :: "string \<Rightarrow> (string \<times> json_value) list \<Rightarrow> authorize_error + (string \<times> json_value) list" where
  "normalize_durable_constraints operation input =
     (if is_default_operation operation then
        (case normalize_json operation input of
           None \<Rightarrow> Inl ErrValidation
         | Some normalized \<Rightarrow>
             (case to_json operation normalized of None \<Rightarrow> Inl ErrValidation | Some out \<Rightarrow> Inr out))
      else
        (let allowed = (case map_of durable_constraint_keys operation of Some ks \<Rightarrow> ks | None \<Rightarrow> [])
         in rbind (rfold (durable_entry allowed) input []) (\<lambda>out.
            if operation = ''pr.merge'' \<and>
                 (length out \<noteq> 4 \<or> \<not> positive_constraint_number (map_of out ''pull_request_number'')
                  \<or> \<not> positive_constraint_number (map_of out ''forgejo_pull_request_number'')
                  \<or> \<not> canonical_method_value (map_of out ''merge_method'')
                  \<or> \<not> canonical_action_sha (map_of out ''expected_head_sha''))
            then Inl ErrValidation else Inr out)))"

definition repo_permission_for :: "permission \<Rightarrow> repo_permission" where
  "repo_permission_for p = (case p of
     PermissionAdmin \<Rightarrow> RepoPermissionAdmin | PermissionWrite \<Rightarrow> RepoPermissionWrite | _ \<Rightarrow> RepoPermissionRead)"

definition native_grant_revision :: "(string \<Rightarrow> string) \<Rightarrow> nat \<Rightarrow> nat \<Rightarrow> repo_permission \<Rightarrow> string" where
  "native_grant_revision sha pid rid p =
     ''grant-rev:'' @ sha (''principal='' @ format_int (int pid) @ [CHR 0x0A] @ ''repository='' @ format_int (int rid)
       @ [CHR 0x0A] @ ''permission='' @ permission_string (effective_permission p))"

definition normalize_user_status :: "string \<Rightarrow> string" where
  "normalize_user_status s = (let v = to_lower (trim_space s) in if v = [] then ''active'' else v)"

definition is_user_status_active :: "string \<Rightarrow> bool" where
  "is_user_status_active s \<longleftrightarrow> normalize_user_status s = ''active''"

definition active_human :: "user_row \<Rightarrow> bool" where
  "active_human u \<longleftrightarrow> ur_type u = ''User'' \<and> ur_kind u = ''human'' \<and> is_user_status_active (ur_status u)"

definition clean_repository :: "string \<Rightarrow> string" where
  "clean_repository s = trim_char (CHR ''/'') (trim_space s)"

text \<open>What follows the native permission check: a person is done, an agent needs the snapshot.\<close>

definition durable_basis ::
  "(string \<Rightarrow> string) \<Rightarrow> (string list \<Rightarrow> string list) \<Rightarrow> auth_set option \<Rightarrow> user_row \<Rightarrow> string \<Rightarrow> string \<Rightarrow> string
     \<Rightarrow> (string \<times> json_value) list \<Rightarrow> repo_row \<Rightarrow> operation \<Rightarrow> repo_permission \<Rightarrow> authorize_error + durable_authorization" where
  "durable_basis sha order auth viewer service repository operation constraints repo oper perm =
     (let base = \<lparr>da_authorized = True, da_principal_id = ur_id viewer, da_contract_revision = contract_revision,
            da_service = service, da_repository = repository, da_operation = op_name oper, da_constraints = constraints,
            da_native_grant_revision = native_grant_revision sha (ur_id viewer) (re_id repo) perm,
            da_resource_policy_revision = native_human_authorization_revision, da_policy_class = [], da_policy_class_revision = [],
            da_team_identity_id = [], da_membership_epoch = 0, da_team_binding_revision = []\<rparr>
      in if active_human viewer then Inr base
         else if auth = None then Inl ErrForbidden
         else case durable_principal_authority auth (ur_id viewer) of
                Inl _ \<Rightarrow> Inl ErrForbidden
              | Inr found \<Rightarrow>
                  (let cls = (case found of None \<Rightarrow> [] | Some (_, c) \<Rightarrow> pc_id c)
                   in case resolve_resource_operation order auth
                        \<lparr>rr_target = [], rr_service = service, rr_repository = repository, rr_operation = operation, rr_policy_class = cls\<rparr> of
                        Inl OperationNotSupported \<Rightarrow> Inl ErrValidation
                      | Inl _ \<Rightarrow> Inl ErrForbidden
                      | Inr (res, op2) \<Rightarrow>
                          Inr (base\<lparr>da_service := rp_service res, da_repository := rp_repository res, da_operation := op_name op2,
                            da_resource_policy_revision := rp_policy_revision res, da_policy_class := cls,
                            da_policy_class_revision := (case found of None \<Rightarrow> [] | Some (_, c) \<Rightarrow> pc_policy_revision c),
                            da_team_identity_id := (case found of None \<Rightarrow> [] | Some (b, _) \<Rightarrow> tb_team_identity_id b),
                            da_membership_epoch := (case found of None \<Rightarrow> 0 | Some (b, _) \<Rightarrow> tb_epoch_floor b),
                            da_team_binding_revision := (case found of None \<Rightarrow> [] | Some (b, _) \<Rightarrow> tb_binding_revision b)\<rparr>)))"

definition authorize_durable_operation ::
  "(string \<Rightarrow> string) \<Rightarrow> (string list \<Rightarrow> string list) \<Rightarrow> database \<Rightarrow> auth_set option \<Rightarrow> user_row \<Rightarrow> string \<Rightarrow> string \<Rightarrow> string
     \<Rightarrow> (string \<times> json_value) list \<Rightarrow> authorize_error + durable_authorization" where
  "authorize_durable_operation sha order d auth viewer service_name repository operation_name input =
     (let service = to_lower (trim_space service_name); repo_name = clean_repository repository;
          operation = to_lower (trim_space operation_name)
      in if is_secret_shaped service \<or> is_secret_shaped repo_name \<or> is_secret_shaped operation then Inl ErrValidation
         else if service \<noteq> ''ags'' \<or> repo_name = [] \<or> count_list repo_name (CHR ''/'') \<noteq> 1 \<or> operation = [] then Inl ErrValidation
         else rbind (normalize_durable_constraints operation input) (\<lambda>constraints.
              case first_row (\<lambda>r. re_full_name r = repo_name) (db_repositories d) of
                Inl _ \<Rightarrow> Inl ErrNotFound
              | Inr repo \<Rightarrow>
                  if re_disabled repo then Inl ErrForbidden
                  else case lookup_operation operation of
                         None \<Rightarrow> Inl ErrValidation
                       | Some oper \<Rightarrow>
                           (case current_repo_access d (re_id repo) (ur_id viewer) of
                              Inl e \<Rightarrow> Inl (ErrStore e)
                            | Inr perm \<Rightarrow>
                                if \<not> at_least perm (repo_permission_for (op_required oper)) then Inl ErrForbidden
                                else durable_basis sha order auth viewer service repo_name operation constraints repo oper perm)))"

definition durable_policy_class_revision :: "auth_set \<Rightarrow> string \<Rightarrow> string" where
  "durable_policy_class_revision s cls =
     (if cls = [] then []
      else case find (\<lambda>c. pc_id c = cls) (elems (ac_policy_classes (set_config (Some s)))) of
             None \<Rightarrow> [] | Some c \<Rightarrow> pc_policy_revision c)"

section \<open>Constraints\<close>

lemma json_entries_keys: "json_entries input = Some v \<Longrightarrow> map fst v = map fst input"
  by (induction input arbitrary: v rule: json_entries.induct) (auto split: if_splits option.splits)

lemma compatibility_map_shadowed: "map_of durable_constraint_keys operation = Some ks \<Longrightarrow> is_default_operation operation"
proof -
  assume "map_of durable_constraint_keys operation = Some ks"
  then have "operation = ''pr.merge'' \<or> operation = ''review.submit''"
    by (auto simp: durable_constraint_keys_def split: if_splits)
  moreover have "is_default_operation ''pr.merge''" "is_default_operation ''review.submit''" by code_simp+
  ultimately show ?thesis by blast
qed

lemma durable_other_operation:
  assumes "\<not> is_default_operation operation"
  shows "normalize_durable_constraints operation input = (if input = [] then Inr [] else Inl ErrValidation)"
proof -
  have none: "map_of durable_constraint_keys operation = None"
    using assms compatibility_map_shadowed by (cases "map_of durable_constraint_keys operation") auto
  have "operation \<noteq> ''pr.merge''" using none by (auto simp: durable_constraint_keys_def)
  then show ?thesis using assms none
    by (cases input) (auto simp: normalize_durable_constraints_def durable_entry_def Let_def)
qed

definition clean_value :: "json_value \<Rightarrow> bool" where
  "clean_value v = (case v of JString s \<Rightarrow> canonical_scalar s
     | JNumber s \<Rightarrow> \<exists>n. 0 < n \<and> n \<le> max_json_safe \<and> s = format_int n | _ \<Rightarrow> False)"

text \<open>
  C39. What a caller sends as constraints leaves the boundary clean: keys are kept, no key and no
  text is shaped like a secret, numbers are canonical and within 2^53 - 1, normalising the result
  again changes nothing, and an operation without a schema takes no constraint at all.
\<close>

theorem constraints_boundary:
  assumes "normalize_durable_constraints operation input = Inr out" "distinct (map fst input)"
  shows "normalize_durable_constraints operation out = Inr out \<and> map fst out = map fst input
    \<and> (is_default_operation operation \<or> input = [])
    \<and> (\<forall>(k, v)\<in>set out. \<not> is_secret_shaped k \<and> clean_value v)"
proof (cases "is_default_operation operation")
  case True
  then obtain n where n: "normalize_json operation input = Some n" "to_json operation n = Some out"
    using assms(1) by (auto simp: normalize_durable_constraints_def split: option.splits)
  then obtain w where w: "normalize_stored operation n = Some w"
    "out = map (\<lambda>(k, x). (k, if is_number_constraint_key k then JNumber x else JString x)) w"
    by (auto simp: to_json_def)
  obtain e where e: "json_entries input = Some e" "normalize_constraints operation e = Some n"
    using n(1) by (auto simp: normalize_json_def bind_eq_Some_conv)
  have keys: "map fst n = map fst input"
    using normalize_constraints_settled [of operation] e json_entries_keys [OF e(1)] by (auto simp: settled_def)
  then have dist: "distinct (map fst n)" using assms(2) by simp
  note st = normalize_stored_Some [OF w(1)]
  have "normalize_json operation out = Some w" using to_json_normalizes [OF n(2) dist] w(1) by simp
  moreover have "to_json operation w = Some out" using st(4) w(2) by (simp add: to_json_def)
  ultimately have again: "normalize_durable_constraints operation out = Inr out"
    using True by (simp add: normalize_durable_constraints_def)
  have "map fst out = map fst input" using st(2) keys by (simp add: w(2) split_beta comp_def)
  moreover have "\<not> is_secret_shaped k \<and> clean_value v" if "(k, v) \<in> set out" for k v
  proof -
    from that w(2) obtain x where x: "(k, x) \<in> set w" "v = (if is_number_constraint_key k then JNumber x else JString x)" by auto
    then have "stored_entry_ok (k, x)" using st(3) by (auto simp: list_all_iff)
    then show ?thesis using x result_numbers [OF st(1) dist x(1)]
      by (auto simp: stored_entry_ok_def clean_value_def canonical_number_def)
  qed
  ultimately show ?thesis using again True by blast
next
  case False
  then show ?thesis using assms(1) durable_other_operation [OF False] by (auto split: if_splits)
qed

theorem constraints_boundary_witness:
  "normalize_durable_constraints ''pr.create'' [(''head_ref'', JString ''refs/heads/topic''), (''base_ref'', JString ''main'')]
   = Inr [(''head_ref'', JString ''refs/heads/topic''), (''base_ref'', JString ''main'')]
   \<and> clean_value (JString ''main'')"
proof -
  let ?in = "[(''head_ref'', JString ''refs/heads/topic''), (''base_ref'', JString ''main'')]"
  have "normalize_durable_constraints ''pr.create'' ?in = Inr ?in" by code_simp
  from constraints_boundary [OF this] this show ?thesis by simp
qed

section \<open>Authorization\<close>

lemma durable_authority_Inr:
  assumes ok: "set_ok s" and r: "durable_principal_authority (Some s) pid = Inr found"
  shows "case found of None \<Rightarrow> teams_of s = []
    | Some (b, c) \<Rightarrow> b \<in> set (teams_of s) \<and> durable_candidate s pid b \<and> pc_id c = tb_policy_class b"
proof (cases "teams_of s = []")
  case True
  then show ?thesis using r by (auto simp: durable_principal_authority_def split: if_splits)
next
  case False
  then obtain b where b: "found = Some (with_class s b)" "filter (durable_candidate s pid) (teams_of s) = [b]"
    using r durable_fold [OF ok order_refl, of pid]
    by (auto simp: durable_principal_authority_def rbind_Inr_iff only_def with_class_def split: if_splits list.splits option.splits)
  then have "b \<in> set (filter (durable_candidate s pid) (teams_of s))" by simp
  then have mem: "b \<in> set (teams_of s)" "durable_candidate s pid b" by simp_all
  then obtain q where q: "as_classes s (tb_policy_class b) = Some q" using durable_candidate_iff [OF ok] by blast
  then have "pc_id q = tb_policy_class b" using set_ok_class [OF ok] by blast
  with q have "pc_id (snd (with_class s b)) = tb_policy_class b" by (simp add: with_class_def)
  then show ?thesis using mem b(1) by (simp add: with_class_def)
qed

text \<open>
  What the snapshot has for an agent: no team bindings at all, and then no class, or exactly one
  active binding of the agent with an active class, and that class lists the operation.
\<close>

definition agent_class :: "auth_set \<Rightarrow> nat \<Rightarrow> operation \<Rightarrow> durable_authorization \<Rightarrow> bool" where
  "agent_class s pid oper res \<longleftrightarrow>
     (if teams_of s = [] then da_policy_class res = []
      else \<exists>b. filter (durable_candidate s pid) (teams_of s) = [b] \<and> class_admits s (tb_policy_class b) oper
         \<and> da_policy_class res = tb_policy_class b \<and> da_team_binding_revision res = tb_binding_revision b)"

lemma durable_authority_one:
  assumes ok: "set_ok s" and r: "durable_principal_authority (Some s) pid = Inr found"
  shows "case found of None \<Rightarrow> teams_of s = []
    | Some (b, c) \<Rightarrow> filter (durable_candidate s pid) (teams_of s) = [b] \<and> pc_id c = tb_policy_class b"
proof (cases found)
  case None
  then show ?thesis using durable_authority_Inr [OF ok r] by simp
next
  case (Some x)
  then obtain b c where x: "x = (b, c)" "b \<in> set (teams_of s)" "pc_id c = tb_policy_class b"
    using durable_authority_Inr [OF ok r] by (cases x) auto
  then have "teams_of s \<noteq> []" by auto
  then have "filter (durable_candidate s pid) (teams_of s) = [b]"
    using x r Some durable_fold [OF ok order_refl, of pid]
    by (auto simp: durable_principal_authority_def rbind_Inr_iff only_def with_class_def split: if_splits list.splits option.splits)
  then show ?thesis using Some x by simp
qed

lemma durable_basis_agent:
  assumes "durable_basis sha order (Some s) viewer service repository operation constraints repo oper perm = Inr res"
    and "\<not> active_human viewer" "set_ok s" "map_order order" "lookup_operation operation = Some oper"
    and "clean_set s" "nul_free service" "nul_free repository"
  shows "agent_class s (ur_id viewer) oper res
    \<and> (\<exists>x. {y. granted_by s [] (fold_key service) (normalize_repo repository) y} = {x} \<and> da_resource_policy_revision res = rp_policy_revision x
         \<and> da_repository res = rp_repository x)
    \<and> da_principal_id res = ur_id viewer \<and> da_operation res = op_name oper \<and> da_constraints res = constraints"
proof -
  let ?rr = "\<lambda>cls. \<lparr>rr_target = [], rr_service = service, rr_repository = repository, rr_operation = operation, rr_policy_class = cls\<rparr>"
  obtain found x op2 where found: "durable_principal_authority (Some s) (ur_id viewer) = Inr found"
    and x: "resolve_resource_operation order (Some s) (?rr (case found of None \<Rightarrow> [] | Some (_, c) \<Rightarrow> pc_id c)) = Inr (x, op2)"
    and res: "da_operation res = op_name op2" "da_resource_policy_revision res = rp_policy_revision x" "da_constraints res = constraints"
      "da_policy_class res = (case found of None \<Rightarrow> [] | Some (_, c) \<Rightarrow> pc_id c)" "da_principal_id res = ur_id viewer" "da_repository res = rp_repository x"
      "da_team_binding_revision res = (case found of None \<Rightarrow> [] | Some (b, _) \<Rightarrow> tb_binding_revision b)"
    using assms(1,2) unfolding durable_basis_def Let_def
    by (auto split: sum.splits prod.splits resolve_error.splits if_splits)
  note r = x [unfolded resolve_resource_Inr [OF assms(3)]]
  have op2: "op2 = oper" using r assms(5) by simp
  have "nul_free []" "trim_space [] = []" by code_simp+
  then have g: "{y. granted_by s [] (fold_key service) (normalize_repo repository) y} = {x}"
    using resource_choice_granted [OF assms(3,4) conjunct1 [OF conjunct2 [OF r]]] assms(6-8) by (simp add: clean_set_def list_all_iff)
  have "agent_class s (ur_id viewer) oper res"
  proof (cases found)
    case None
    then show ?thesis using durable_authority_one [OF assms(3) found] res(4) by (simp add: agent_class_def)
  next
    case (Some p)
    obtain b c where p: "p = (b, c)" by fastforce
    then have b: "filter (durable_candidate s (ur_id viewer)) (teams_of s) = [b]" "pc_id c = tb_policy_class b"
      using durable_authority_one [OF assms(3) found] Some by simp_all
    then have "b \<in> set (filter (durable_candidate s (ur_id viewer)) (teams_of s))" by simp
    then have mem: "b \<in> set (teams_of s)" by simp
    then have "trim_space (tb_policy_class b) \<noteq> []" using in_normal(3) [OF assms(3), of b] by (simp add: team_normal_def)
    then have "class_admits s (tb_policy_class b) oper" using r op2 Some p b(2) by simp
    then show ?thesis using b res(4,7) Some p mem unfolding agent_class_def by auto
  qed
  then show ?thesis using g res op2 by blast
qed

text \<open>
  C9. Nobody is authorized without the native permission: an authorization names a repository row
  that exists and is not disabled and an operation of the registry, and the caller's effective
  permission there reaches what the operation requires. For an active person that is all. For
  anyone else, an agent, the snapshot has one active resource that answers for the service and the
  repository, whose revision is recorded, and, if it has team bindings at all, exactly one active binding
  of the agent with an active class, which lists the operation; a snapshot without team bindings asks
  for no class. Defaults' targets in the snapshot and the repository's name are without NUL bytes.
\<close>

theorem durable_authorization_sound:
  assumes "authorize_durable_operation sha order d auth viewer service repository operation input = Inr res"
    and "\<And>s. auth = Some s \<Longrightarrow> set_ok s \<and> clean_set s" "map_order order" "nul_free repository"
  shows "\<exists>repo oper perm. first_row (\<lambda>r. re_full_name r = clean_repository repository) (db_repositories d) = Inr repo
    \<and> \<not> re_disabled repo \<and> lookup_operation (to_lower (trim_space operation)) = Some oper
    \<and> current_repo_access d (re_id repo) (ur_id viewer) = Inr perm \<and> at_least perm (repo_permission_for (op_required oper))
    \<and> da_principal_id res = ur_id viewer \<and> da_operation res = op_name oper
    \<and> (active_human viewer \<or> (\<exists>s x. auth = Some s \<and> agent_class s (ur_id viewer) oper res
         \<and> {y. granted_by s [] ''ags'' (normalize_repo (clean_repository repository)) y} = {x}
         \<and> da_repository res = rp_repository x \<and> da_resource_policy_revision res = rp_policy_revision x))"
proof -
  let ?op = "to_lower (trim_space operation)"
  let ?row = "first_row (\<lambda>r. re_full_name r = clean_repository repository) (db_repositories d)"
  let ?service = "to_lower (trim_space service)"
  have service: "?service = ''ags''" using assms(1) by (auto simp: authorize_durable_operation_def Let_def split: if_splits)
  obtain cs where body: "(case ?row of Inl _ \<Rightarrow> Inl ErrNotFound
      | Inr repo \<Rightarrow> if re_disabled repo then Inl ErrForbidden
          else case lookup_operation ?op of None \<Rightarrow> Inl ErrValidation
            | Some oper \<Rightarrow> (case current_repo_access d (re_id repo) (ur_id viewer) of Inl e \<Rightarrow> Inl (ErrStore e)
                | Inr perm \<Rightarrow> if \<not> at_least perm (repo_permission_for (op_required oper)) then Inl ErrForbidden
                    else durable_basis sha order auth viewer ?service (clean_repository repository) ?op cs repo oper perm)) = Inr res"
    using assms(1) unfolding authorize_durable_operation_def Let_def by (simp only: rbind_Inr_iff split: if_splits) blast+
  obtain repo where repo: "?row = Inr repo" using body by (cases ?row) simp_all
  obtain oper where oper: "lookup_operation ?op = Some oper" and en: "\<not> re_disabled repo"
    using body repo by (cases "lookup_operation ?op") (simp_all split: if_splits)
  obtain perm where perm: "current_repo_access d (re_id repo) (ur_id viewer) = Inr perm" "at_least perm (repo_permission_for (op_required oper))"
    using body repo oper by (cases "current_repo_access d (re_id repo) (ur_id viewer)") (simp_all split: if_splits)
  have basis: "durable_basis sha order auth viewer ''ags'' (clean_repository repository) ?op cs repo oper perm = Inr res"
    using body repo oper perm en service by simp
  have free: "nul_free ''ags''" "fold_key ''ags'' = ''ags''" by code_simp+
  have "set (clean_repository repository) \<subseteq> set repository"
    using set_trim_char set_trim_space unfolding clean_repository_def by fast
  then have repository: "nul_free (clean_repository repository)" using assms(4) by (auto simp: nul_free_def)
  have "da_principal_id res = ur_id viewer \<and> da_operation res = op_name oper \<and> (active_human viewer \<or>
      (\<exists>s x. auth = Some s \<and> agent_class s (ur_id viewer) oper res
         \<and> {y. granted_by s [] ''ags'' (normalize_repo (clean_repository repository)) y} = {x}
         \<and> da_repository res = rp_repository x \<and> da_resource_policy_revision res = rp_policy_revision x))"
  proof (cases "active_human viewer")
    case True
    then show ?thesis using basis by (auto simp: durable_basis_def Let_def)
  next
    case False
    with basis obtain s where s: "auth = Some s" by (cases auth) (auto simp: durable_basis_def Let_def)
    have "set_ok s" "clean_set s" using assms(2) [OF s] by simp_all
    from durable_basis_agent [OF basis [unfolded s] False this(1) assms(3) oper this(2) free(1) repository] show ?thesis using s free(2) by auto
  qed
  then show ?thesis using repo en oper perm by blast
qed

text \<open>An agent with write permission and an active class for reviews.\<close>

definition sample_agent :: user_row where
  "sample_agent = \<lparr>ur_id = 1, ur_type = ''User'', ur_kind = ''agent'', ur_status = '' Active '', ur_site_admin = False, ur_default_permission = ''none'', ur_login = ''u1'',
       ur_name = ''u1'', ur_is_anonymous = False\<rparr>"

definition agent_config :: auth_config where
  "agent_config = sample_config\<lparr>ac_team_bindings := Some [sample_team\<lparr>tb_principal_id := 1\<rparr>]\<rparr>"

definition agent_authorized :: "auth_set \<Rightarrow> authorize_error + durable_authorization" where
  "agent_authorized s = authorize_durable_operation (\<lambda>x. x) (\<lambda>xs. xs) (sample_database sample_tables []) (Some s) sample_agent ''AGS'' ''/org/repo'' ''repo.read'' []"

lemma agent_values:
  "case new_set agent_config of Inl _ \<Rightarrow> False
   | Inr s \<Rightarrow> clean_set s \<and> \<not> isl (agent_authorized s) \<and> teams_of s \<noteq> [] \<and> \<not> active_human sample_agent"
  by code_simp

lemma agent_built:
  "new_set agent_config = Inr (built agent_config)" "clean_set (built agent_config)" "\<not> isl (agent_authorized (built agent_config))"
  "teams_of (built agent_config) \<noteq> []" "\<not> active_human sample_agent"
  using agent_values by (auto simp: built_def split: sum.splits)

theorem durable_authorization_sound_witness:
  "\<exists>res. agent_authorized (built agent_config) = Inr res \<and> agent_class (built agent_config) 1 (snd (mk_op ''repo.read'' PermissionRead [''repo:read''])) res
     \<and> (\<exists>x. {y. granted_by (built agent_config) [] ''ags'' ''org/repo'' y} = {x} \<and> da_resource_policy_revision res = rp_policy_revision x)"
proof -
  obtain res where res: "agent_authorized (built agent_config) = Inr res" using agent_built(3) by (cases "agent_authorized (built agent_config)") auto
  have ok: "set_ok (built agent_config)" by (rule new_set_ok [OF agent_built(1)])
  have v: "nul_free ''/org/repo''" "normalize_repo (clean_repository ''/org/repo'') = ''org/repo''"
    "lookup_operation (to_lower (trim_space ''repo.read'')) = Some (snd (mk_op ''repo.read'' PermissionRead [''repo:read'']))" by code_simp+
  from durable_authorization_sound [OF res [unfolded agent_authorized_def] _ map_order_id v(1)] agent_built(2,5) ok res v(2,3)
  show ?thesis by (auto simp: sample_agent_def)
qed

end
