(* ===== verification/Edge_Manifest.thy ===== *)
theory Edge_Manifest
  imports Go_Time
begin

text \<open>
  \<open>internal/edgeprotocol/read.go\<close>, \<open>manifest.go\<close> and the compatibility rule of \<open>transfer.go\<close>:
  the descriptors that name an exported view of a repository. The digests of the JSON encoding of
  a value are functions of the value, collected in a record. Byte-wise tests stand for tests on
  runes where a byte from 128 on fails them.
\<close>

section \<open>Model\<close>

record repo_identity =
  ri_authority_id :: string
  ri_store_id :: string
  ri_repository_id :: nat
  ri_kind :: string

record git_head =
  gh_symbolic_ref :: string
  gh_oid :: string
  gh_unborn :: bool

record repo_snapshot =
  rs_version :: string
  rs_identity :: repo_identity
  rs_snapshot_id :: string
  rs_refs_digest :: string
  rs_object_format :: string
  rs_head :: git_head
  rs_policy :: string

record git_ref =
  rf_name :: string
  rf_oid :: string

record manifest =
  mf_version :: string
  mf_snapshot :: repo_snapshot
  mf_refs :: "git_ref list option"

record read_plan =
  rl_version :: string
  rl_request_id :: string
  rl_edge_id :: string
  rl_operation :: string
  rl_phase :: string
  rl_snapshot :: repo_snapshot
  rl_authorized_at :: instant
  rl_expires_at :: instant

record digests =
  dg_refs :: "string \<Rightarrow> git_head \<Rightarrow> git_ref list option \<Rightarrow> string"
  dg_snapshot :: "repo_identity \<Rightarrow> string \<Rightarrow> string \<Rightarrow> string"
  dg_key :: "repo_snapshot \<Rightarrow> string"

definition read_plan_version :: string where "read_plan_version = ''ags.edge.read-plan.v1''"
definition snapshot_version :: string where "snapshot_version = ''ags.edge.snapshot.v1''"
definition manifest_version :: string where "manifest_version = ''ags.edge.manifest.v1''"
definition max_manifest_refs :: int where "max_manifest_refs = 100000"

definition in_range :: "char \<Rightarrow> char \<Rightarrow> char \<Rightarrow> bool" where
  "in_range a b c \<longleftrightarrow> of_char a \<le> (of_char c :: nat) \<and> of_char c \<le> (of_char b :: nat)"

definition identifier_ok :: "string \<Rightarrow> bool" where
  "identifier_ok v \<longleftrightarrow> v \<noteq> [] \<and> length v \<le> 128 \<and> v \<noteq> ''.'' \<and> v \<noteq> ''..''
     \<and> list_all (\<lambda>c. in_range CHR ''a'' CHR ''z'' c \<or> in_range CHR ''A'' CHR ''Z'' c \<or> in_range CHR ''0'' CHR ''9'' c
          \<or> c \<in> {CHR ''-'', CHR ''_'', CHR ''.''}) v"

definition hex_oid :: "string \<Rightarrow> nat \<Rightarrow> bool" where
  "hex_oid v n \<longleftrightarrow> length v = n \<and> trim_char (CHR ''0'') v \<noteq> []
     \<and> list_all (\<lambda>c. in_range CHR ''0'' CHR ''9'' c \<or> in_range CHR ''a'' CHR ''f'' c) v"

text \<open>\<open>utf8.ValidString\<close>.\<close>

definition continuation :: "char \<Rightarrow> bool" where
  "continuation c = in_range CHR 0x80 CHR 0xBF c"

fun valid_utf8 :: "string \<Rightarrow> bool" where
  "valid_utf8 [] = True"
| "valid_utf8 (a # s) =
     (if in_range CHR 0x00 CHR 0x7F a then valid_utf8 s
      else if in_range CHR 0xC2 CHR 0xDF a then (case s of b # s1 \<Rightarrow> continuation b \<and> valid_utf8 s1 | _ \<Rightarrow> False)
      else if in_range CHR 0xE0 CHR 0xEF a then
        (case s of b # c # s1 \<Rightarrow>
           in_range (if a = CHR 0xE0 then CHR 0xA0 else CHR 0x80) (if a = CHR 0xED then CHR 0x9F else CHR 0xBF) b
           \<and> continuation c \<and> valid_utf8 s1 | _ \<Rightarrow> False)
      else if in_range CHR 0xF0 CHR 0xF4 a then
        (case s of b # c # d # s1 \<Rightarrow>
           in_range (if a = CHR 0xF0 then CHR 0x90 else CHR 0x80) (if a = CHR 0xF4 then CHR 0x8F else CHR 0xBF) b
           \<and> continuation c \<and> continuation d \<and> valid_utf8 s1 | _ \<Rightarrow> False)
      else False)"

definition full_ref :: "string \<Rightarrow> bool" where
  "full_ref v \<longleftrightarrow> valid_utf8 v \<and> length v \<le> 1024 \<and> prefix ''refs/'' v \<and> \<not> sublist ''..'' v
     \<and> \<not> sublist [CHR 0x40, CHR 0x7B] v \<and> \<not> contains_any v ('' ~^:?*['' @ [CHR 0x5C]) \<and> \<not> suffix ''.'' v
     \<and> list_all (\<lambda>c. 32 \<le> (of_char c :: nat) \<and> of_char c \<noteq> (127 :: nat)) v
     \<and> list_all (\<lambda>part. part \<noteq> [] \<and> \<not> prefix ''.'' part \<and> \<not> suffix ''.lock'' part) (split_on (CHR ''/'') v)"

definition identity_valid :: "repo_identity \<Rightarrow> bool" where
  "identity_valid i \<longleftrightarrow> identifier_ok (ri_authority_id i) \<and> identifier_ok (ri_store_id i) \<and> ri_repository_id i \<noteq> 0
     \<and> (ri_kind i = ''repo'' \<or> ri_kind i = ''wiki'')"

definition oid_length :: "string \<Rightarrow> nat" where
  "oid_length fmt = (if fmt = ''sha256'' then 64 else 40)"

definition snapshot_valid :: "repo_snapshot \<Rightarrow> bool" where
  "snapshot_valid s \<longleftrightarrow> rs_version s = snapshot_version \<and> identity_valid (rs_identity s)
     \<and> identifier_ok (rs_snapshot_id s) \<and> identifier_ok (rs_policy s) \<and> hex_oid (rs_refs_digest s) 64
     \<and> (rs_object_format s = ''sha1'' \<or> rs_object_format s = ''sha256'')
     \<and> (gh_symbolic_ref (rs_head s) = [] \<or> full_ref (gh_symbolic_ref (rs_head s)))
     \<and> (if gh_unborn (rs_head s) then gh_symbolic_ref (rs_head s) \<noteq> [] \<and> gh_oid (rs_head s) = []
        else hex_oid (gh_oid (rs_head s)) (oid_length (rs_object_format s)))"

definition read_plan_valid_for :: "read_plan \<Rightarrow> string \<Rightarrow> instant \<Rightarrow> bool" where
  "read_plan_valid_for p edge now \<longleftrightarrow> rl_version p = read_plan_version \<and> identifier_ok (rl_request_id p) \<and> identifier_ok (rl_edge_id p)
     \<and> rl_edge_id p = edge \<and> rl_operation p = ''git.read'' \<and> (rl_phase p = ''discover'' \<or> rl_phase p = ''fetch'')
     \<and> \<not> is_zero_time (rl_authorized_at p) \<and> rl_expires_at p > rl_authorized_at p \<and> \<not> rl_authorized_at p > now \<and> now < rl_expires_at p
     \<and> snapshot_valid (rl_snapshot p)"

definition refs_digest :: "digests \<Rightarrow> manifest \<Rightarrow> string" where
  "refs_digest h m = dg_refs h (rs_object_format (mf_snapshot m)) (rs_head (mf_snapshot m)) (mf_refs m)"

definition snapshot_id :: "digests \<Rightarrow> manifest \<Rightarrow> string" where
  "snapshot_id h m = ''snap-'' @ dg_snapshot h (rs_identity (mf_snapshot m)) (rs_refs_digest (mf_snapshot m)) (rs_policy (mf_snapshot m))"

fun refs_in_order :: "nat \<Rightarrow> string \<Rightarrow> git_ref list \<Rightarrow> bool" where
  "refs_in_order n previous [] = True"
| "refs_in_order n previous (r # rs) =
     (length (rf_name r) \<le> 1024 \<and> full_ref (rf_name r) \<and> hex_oid (rf_oid r) n \<and> \<not> rf_name r \<le> previous
      \<and> refs_in_order n (rf_name r) rs)"

definition has_conflict :: "string list \<Rightarrow> bool" where
  "has_conflict names = list_ex (\<lambda>name. list_ex (\<lambda>i. name ! i = CHR ''/'' \<and> take i name \<in> set names) [1..<length name]) names"

definition head_matches :: "git_head \<Rightarrow> git_ref list \<Rightarrow> bool" where
  "head_matches head refs \<longleftrightarrow> gh_symbolic_ref head = []
     \<or> (case map_of (map (\<lambda>r. (rf_name r, rf_oid r)) refs) (gh_symbolic_ref head) of
          None \<Rightarrow> gh_unborn head
        | Some oid \<Rightarrow> \<not> gh_unborn head \<and> oid = gh_oid head)"

definition manifest_valid :: "digests \<Rightarrow> manifest \<Rightarrow> bool" where
  "manifest_valid h m =
     (mf_version m = manifest_version \<and> (case mf_refs m of None \<Rightarrow> False | Some refs \<Rightarrow>
        int (length refs) \<le> max_manifest_refs \<and> snapshot_valid (mf_snapshot m)
        \<and> refs_in_order (oid_length (rs_object_format (mf_snapshot m))) [] refs
        \<and> \<not> has_conflict (map rf_name refs) \<and> head_matches (rs_head (mf_snapshot m)) refs
        \<and> rs_refs_digest (mf_snapshot m) = refs_digest h m \<and> rs_snapshot_id (mf_snapshot m) = snapshot_id h m))"

definition new_manifest :: "digests \<Rightarrow> repo_identity \<Rightarrow> string \<Rightarrow> git_head \<Rightarrow> string \<Rightarrow> git_ref list \<Rightarrow> manifest option" where
  "new_manifest h identity fmt head policy refs =
     (let m = \<lparr>mf_version = manifest_version, mf_snapshot = \<lparr>rs_version = snapshot_version, rs_identity = identity,
              rs_snapshot_id = [], rs_refs_digest = [], rs_object_format = fmt, rs_head = head, rs_policy = policy\<rparr>,
              mf_refs = Some (sort_key rf_name refs)\<rparr>;
          m1 = m\<lparr>mf_snapshot := (mf_snapshot m)\<lparr>rs_refs_digest := refs_digest h m\<rparr>\<rparr>;
          m2 = m1\<lparr>mf_snapshot := (mf_snapshot m1)\<lparr>rs_snapshot_id := snapshot_id h m1\<rparr>\<rparr>
      in if manifest_valid h m2 then Some m2 else None)"

definition manifest_roots :: "manifest \<Rightarrow> string list" where
  "manifest_roots m =
     sort (remdups (map rf_oid (elems (mf_refs m)) @ (if gh_oid (rs_head (mf_snapshot m)) \<noteq> [] then [gh_oid (rs_head (mf_snapshot m))] else [])))"

definition snapshot_key :: "digests \<Rightarrow> repo_snapshot \<Rightarrow> string option" where
  "snapshot_key h s = (if snapshot_valid s then Some (dg_key h s) else None)"

definition compatible_base :: "repo_snapshot \<Rightarrow> repo_snapshot \<Rightarrow> bool" where
  "compatible_base target base \<longleftrightarrow> snapshot_valid target \<and> snapshot_valid base \<and> rs_identity target = rs_identity base
     \<and> rs_object_format target = rs_object_format base \<and> rs_policy target = rs_policy base"

section \<open>Canonical manifests\<close>

lemma refs_in_order_sorted:
  "refs_in_order n p rs \<Longrightarrow> sorted_wrt (<) (map rf_name rs) \<and> (\<forall>r\<in>set rs. p < rf_name r)"
proof (induction rs arbitrary: p)
  case (Cons r rs)
  then have "p < rf_name r" and tail: "sorted_wrt (<) (map rf_name rs)" "\<forall>x\<in>set rs. rf_name r < rf_name x"
    by (auto simp: not_le)
  then show ?case by (auto intro: less_trans)
qed simp

lemma sort_key_unique:
  assumes "sorted_wrt (<) (map f xs)" "mset ys = mset xs"
  shows "sort_key f ys = xs"
proof (rule properties_for_sort_key)
  have d: "distinct (map f xs)" using assms(1) strict_sorted_iff by blast
  have m: "mset (map f ys) = mset (map f xs)" "set ys = set xs"
    using assms(2) by (metis mset_map, metis mset_eq_setD)
  then have "distinct (map f ys)" using d mset_eq_imp_distinct_iff by blast
  with d m(2) show "filter (\<lambda>x. f k = f x) xs = filter (\<lambda>x. f k = f x) ys" if "k \<in> set xs" for k
    using unique_key [of f xs k] unique_key [of f ys k] that by (simp add: eq_commute [of "f k"])
  show "mset xs = mset ys" using assms(2) by simp
  show "sorted (map f xs)" using assms(1) strict_sorted_iff by blast
qed

text \<open>
  A valid manifest is the canonical form of what it describes: building a manifest from its
  own identity, object format, HEAD, policy and references, in any order, gives it back.
\<close>

theorem manifest_canonical:
  assumes "manifest_valid h m" "mset refs = mset (elems (mf_refs m))"
  shows "new_manifest h (rs_identity (mf_snapshot m)) (rs_object_format (mf_snapshot m)) (rs_head (mf_snapshot m))
    (rs_policy (mf_snapshot m)) refs = Some m"
proof -
  obtain rs where rs: "mf_refs m = Some rs" "refs_in_order (oid_length (rs_object_format (mf_snapshot m))) [] rs"
    "mf_version m = manifest_version" "rs_version (mf_snapshot m) = snapshot_version"
    "rs_refs_digest (mf_snapshot m) = refs_digest h m" "rs_snapshot_id (mf_snapshot m) = snapshot_id h m"
    using assms(1) by (auto simp: manifest_valid_def snapshot_valid_def split: option.splits)
  have "sort_key rf_name refs = rs"
    using sort_key_unique [of rf_name rs refs] refs_in_order_sorted [OF rs(2)] assms(2) rs(1) by (simp add: elems_def)
  moreover have "m = \<lparr>mf_version = manifest_version, mf_snapshot = \<lparr>rs_version = snapshot_version, rs_identity = rs_identity (mf_snapshot m),
      rs_snapshot_id = snapshot_id h m, rs_refs_digest = refs_digest h m, rs_object_format = rs_object_format (mf_snapshot m),
      rs_head = rs_head (mf_snapshot m), rs_policy = rs_policy (mf_snapshot m)\<rparr>, mf_refs = Some rs\<rparr>"
    using rs by (intro manifest.equality repo_snapshot.equality) simp_all
  ultimately show ?thesis
    using assms(1) rs(1,5) by (simp add: new_manifest_def Let_def refs_digest_def snapshot_id_def)
qed

definition toy_digests :: digests where
  "toy_digests = \<lparr>dg_refs = (\<lambda>f h r. replicate 64 (CHR ''a'')), dg_snapshot = (\<lambda>i d p. replicate 64 (CHR ''b'')),
     dg_key = (\<lambda>s. replicate 64 (CHR ''c''))\<rparr>"

definition sample_refs :: "git_ref list" where
  "sample_refs = [\<lparr>rf_name = ''refs/heads/main'', rf_oid = replicate 40 (CHR ''1'')\<rparr>,
     \<lparr>rf_name = ''refs/tags/v1'', rf_oid = replicate 40 (CHR ''2'')\<rparr>]"

definition sample_identity :: repo_identity where
  "sample_identity = \<lparr>ri_authority_id = ''ags'', ri_store_id = ''store-1'', ri_repository_id = 7, ri_kind = ''repo''\<rparr>"

definition sample_head :: git_head where
  "sample_head = \<lparr>gh_symbolic_ref = ''refs/heads/main'', gh_oid = replicate 40 (CHR ''1''), gh_unborn = False\<rparr>"

definition sample_manifest :: manifest where
  "sample_manifest = \<lparr>mf_version = manifest_version, mf_snapshot = \<lparr>rs_version = snapshot_version, rs_identity = sample_identity,
     rs_snapshot_id = ''snap-'' @ replicate 64 (CHR ''b''), rs_refs_digest = replicate 64 (CHR ''a''), rs_object_format = ''sha1'',
     rs_head = sample_head, rs_policy = ''policy-1''\<rparr>, mf_refs = Some sample_refs\<rparr>"

lemma sample_manifest_ok:
  "manifest_valid toy_digests sample_manifest" "elems (mf_refs sample_manifest) = sample_refs"
  "rs_identity (mf_snapshot sample_manifest) = sample_identity" "rs_object_format (mf_snapshot sample_manifest) = ''sha1''"
  "rs_head (mf_snapshot sample_manifest) = sample_head" "rs_policy (mf_snapshot sample_manifest) = ''policy-1''"
proof -
  show "manifest_valid toy_digests sample_manifest" by code_simp
qed (simp_all add: sample_manifest_def elems_def)

theorem manifest_canonical_witness:
  "new_manifest toy_digests sample_identity ''sha1'' sample_head ''policy-1'' (rev sample_refs) = Some sample_manifest"
  using manifest_canonical [OF sample_manifest_ok(1), of "rev sample_refs"] by (simp add: sample_manifest_ok)

text \<open>
  The descriptor binds the content: two valid manifests with the same descriptor are the same
  manifest, unless the digest of their references collides.
\<close>

lemma snapshot_binds_manifest:
  assumes "manifest_valid h m" "manifest_valid h m'" "mf_snapshot m = mf_snapshot m'"
    and no_collision: "refs_digest h m = refs_digest h m' \<Longrightarrow> mf_refs m = mf_refs m'"
  shows "m = m'"
proof -
  have v: "mf_version m = mf_version m'" "refs_digest h m = refs_digest h m'"
    using assms(1-3) by (auto simp: manifest_valid_def split: option.splits)
  then show ?thesis using no_collision [OF v(2)] assms(3) by simp
qed

end
