(* ===== verification/Snapshot_Store.thy ===== *)
theory Snapshot_Store
  imports Edge_Manifest "HOL-Library.AList"
begin

text \<open>
  \<open>internal/snapshotstore/store.go\<close>, \<open>retention.go\<close> and \<open>retentionUsedAt\<close> of
  \<open>retention_restart.go\<close>: published views on disk, read leases that pin them and the retention
  that removes them. Every operation is a whole critical section of the store's mutex; an import
  is three of them. The disk is the listing of the directory of published views with what a look
  into each entry finds. Entries are objects shared between the map and the leases, so they live
  in a heap, the position being the address. What the operating system does to a directory it is
  asked to remove is a parameter. Cancelled contexts are not modelled.
\<close>

section \<open>Disk\<close>

datatype file_kind = is_regular: Regular int | Directory | Symlink | OtherFile

record disk_entry =
  de_name :: string
  de_kind :: file_kind
  de_part :: "string \<Rightarrow> file_kind option"
  de_manifest :: "manifest option"
  de_intact :: bool
  de_tree :: "file_kind list"
  de_mod_time :: instant

datatype snapshot_error = SnapMissing | SnapPinned | SnapClosed | SnapBudget | SnapInvalid

definition max_int64 :: int where "max_int64 = 9223372036854775807"

definition published_os_metadata :: "disk_entry \<Rightarrow> bool" where
  "published_os_metadata d \<longleftrightarrow> (case de_kind d of Regular _ \<Rightarrow> de_name d = ''.DS_Store'' \<or> prefix ''._'' (de_name d) | _ \<Rightarrow> False)"

definition hex_directory_key :: "string \<Rightarrow> bool" where
  "hex_directory_key k \<longleftrightarrow> length k = 64 \<and> list_all (\<lambda>c. in_range CHR ''0'' CHR ''9'' c \<or> in_range CHR ''a'' CHR ''f'' c) k"

fun check_parts :: "(string \<Rightarrow> file_kind option) \<Rightarrow> string list \<Rightarrow> snapshot_error + unit" where
  "check_parts f [] = Inr ()"
| "check_parts f (p # ps) =
     (case f p of
        None \<Rightarrow> Inl SnapMissing
      | Some Symlink \<Rightarrow> Inl SnapInvalid
      | Some k \<Rightarrow>
          if (p = ''manifest.json'' \<and> \<not> is_regular k) \<or> (p \<noteq> ''manifest.json'' \<and> k \<noteq> Directory) then Inl SnapInvalid
          else check_parts f ps)"

definition published_parts :: "string list" where
  "published_parts = [[], ''manifest.json'', ''view'', ''view/repo.git'']"

text \<open>An entry that is not listed has no part at all.\<close>

definition check_published_root :: "disk_entry option \<Rightarrow> snapshot_error + unit" where
  "check_published_root d = check_parts (case d of None \<Rightarrow> (\<lambda>p. None) | Some e \<Rightarrow> de_part e) published_parts"

fun tree_sum :: "int \<Rightarrow> file_kind list \<Rightarrow> snapshot_error + int" where
  "tree_sum n0 [] = Inr n0"
| "tree_sum n0 (Symlink # ks) = Inl SnapInvalid"
| "tree_sum n0 (Directory # ks) = tree_sum n0 ks"
| "tree_sum n0 (OtherFile # ks) = Inl SnapInvalid"
| "tree_sum n0 (Regular n # ks) =
     (if n < 0 \<or> n > max_int64 - n0 then Inl SnapInvalid else tree_sum (n0 + n) ks)"

definition tree_bytes :: "disk_entry \<Rightarrow> snapshot_error + int" where
  "tree_bytes d = tree_sum 0 (de_tree d)"

section \<open>State\<close>

record store_entry =
  en_manifest :: manifest
  en_refs :: int

record lease =
  le_entry :: nat
  le_released :: bool

record retention_policy =
  rn_max_bytes :: int
  rn_max_views :: int
  rn_min_age :: duration
  rn_max_age :: duration

record snapshot_store =
  st_disk :: "disk_entry list"
  st_entries :: "(string \<times> nat) list"
  st_heap :: "store_entry list"
  st_leases :: "lease list"
  st_closed :: bool
  st_active :: int
  st_retention :: "retention_policy option"
  st_last_use :: "string \<rightharpoonup> instant"
  st_restored_use :: "string \<rightharpoonup> instant"
  st_opened_at :: instant

definition on_disk :: "snapshot_store \<Rightarrow> string \<Rightarrow> disk_entry option" where
  "on_disk s key = find (\<lambda>d. de_name d = key) (st_disk s)"

definition valid_policy :: "retention_policy \<Rightarrow> bool" where
  "valid_policy p \<longleftrightarrow> \<not> (rn_max_bytes p \<le> 0 \<or> rn_max_views p \<le> 0 \<or> rn_max_views p > 100000 \<or> rn_min_age p < second \<or> rn_max_age p \<le> rn_min_age p)"

definition default_retention_policy :: retention_policy where
  "default_retention_policy = \<lparr>rn_max_bytes = 8 * 2 ^ 30, rn_max_views = 256, rn_min_age = 15 * minute, rn_max_age = 24 * hour\<rparr>"

definition retention_used_at :: "snapshot_store \<Rightarrow> string \<Rightarrow> instant \<Rightarrow> instant" where
  "retention_used_at s key published =
     (let base = (case st_restored_use s key of Some t \<Rightarrow> t | None \<Rightarrow> st_opened_at s);
          used = (if base > published then base else published);
          last = (case st_last_use s key of Some t \<Rightarrow> t | None \<Rightarrow> 0)
      in if last > used then last else used)"

section \<open>Inventory and collection\<close>

record retained_info =
  ti_key :: string
  ti_descriptor :: repo_snapshot
  ti_bytes :: int
  ti_used :: instant
  ti_pinned :: bool

record retention_stats =
  rx_views :: int
  rx_bytes :: int
  rx_pinned :: int
  rx_removed :: int
  rx_removed_bytes :: int

definition inventory_item :: "digests \<Rightarrow> snapshot_store \<Rightarrow> disk_entry \<Rightarrow> retained_info list \<Rightarrow> snapshot_error + retained_info list" where
  "inventory_item h s d acc =
     (if published_os_metadata d then Inr acc
      else if de_kind d \<noteq> Directory \<or> \<not> hex_directory_key (de_name d) then Inl SnapInvalid
      else rbind (check_published_root (Some d)) (\<lambda>_.
           case de_manifest d of
             None \<Rightarrow> Inl SnapInvalid
           | Some m \<Rightarrow>
               if de_name d \<noteq> (case snapshot_key h (mf_snapshot m) of Some k \<Rightarrow> k | None \<Rightarrow> []) then Inl SnapInvalid
               else rbind (tree_bytes d) (\<lambda>size.
                    Inr (acc @ [\<lparr>ti_key = de_name d, ti_descriptor = mf_snapshot m, ti_bytes = size,
                      ti_used = retention_used_at s (de_name d) (de_mod_time d),
                      ti_pinned = (case map_of (st_entries s) (de_name d) of None \<Rightarrow> False | Some i \<Rightarrow> en_refs (st_heap s ! i) > 0)\<rparr>]))))"

text \<open>\<open>ReadDir\<close> lists by name; the sort of the result is by use, then by name.\<close>

definition inventory :: "digests \<Rightarrow> snapshot_store \<Rightarrow> snapshot_error + retained_info list" where
  "inventory h s =
     rbind (rfold (inventory_item h s) (sort_key de_name (st_disk s)) [])
       (\<lambda>items. Inr (sort_key ti_used (sort_key ti_key items)))"

fun account :: "retained_info list \<Rightarrow> retention_stats \<Rightarrow> snapshot_error option \<times> retention_stats" where
  "account [] x = (None, x)"
| "account (i # is) x =
     (if ti_bytes i > max_int64 - rx_bytes x then (Some SnapInvalid, x)
      else account is (x\<lparr>rx_bytes := rx_bytes x + ti_bytes i, rx_views := rx_views x + 1,
             rx_pinned := rx_pinned x + (if ti_pinned i then 1 else 0)\<rparr>))"

definition zero_stats :: retention_stats where
  "zero_stats = \<lparr>rx_views = 0, rx_bytes = 0, rx_pinned = 0, rx_removed = 0, rx_removed_bytes = 0\<rparr>"

definition protected :: "retention_policy \<Rightarrow> instant \<Rightarrow> retained_info \<Rightarrow> bool" where
  "protected p now i \<longleftrightarrow> ti_pinned i \<or> sub_time now (ti_used i) < rn_min_age p"

text \<open>The plan: \<open>bytes\<close> and \<open>views\<close> are what would remain, \<open>in_bytes\<close> and \<open>in_views\<close> what comes in.\<close>

definition over :: "retention_policy \<Rightarrow> int \<Rightarrow> int \<Rightarrow> int \<Rightarrow> int \<Rightarrow> bool" where
  "over p in_bytes in_views bytes views \<longleftrightarrow> bytes > rn_max_bytes p - in_bytes \<or> views > rn_max_views p - in_views"

fun plan :: "retention_policy \<Rightarrow> instant \<Rightarrow> int \<Rightarrow> int \<Rightarrow> bool \<Rightarrow> retained_info list \<Rightarrow> int \<Rightarrow> int \<Rightarrow> retained_info list \<times> int \<times> int" where
  "plan p now in_bytes in_views expire [] bytes views = ([], bytes, views)"
| "plan p now in_bytes in_views expire (i # is) bytes views =
     (if protected p now i then plan p now in_bytes in_views expire is bytes views
      else if \<not> over p in_bytes in_views bytes views \<and> (\<not> expire \<or> sub_time now (ti_used i) < rn_max_age p)
      then plan p now in_bytes in_views expire is bytes views
      else (let (rs, b, v) = plan p now in_bytes in_views expire is (bytes - ti_bytes i) (views - 1) in (i # rs, b, v)))"

text \<open>
  What the operating system makes of a removal: the directory is gone, or the call fails and
  leaves something behind.
\<close>

definition drop_view :: "string \<Rightarrow> snapshot_store \<Rightarrow> snapshot_store" where
  "drop_view key s = s\<lparr>st_disk := filter (\<lambda>d. de_name d \<noteq> key) (st_disk s), st_entries := AList.delete key (st_entries s),
     st_last_use := (st_last_use s)(key := None)\<rparr>"

definition damage_view :: "string \<Rightarrow> (disk_entry \<Rightarrow> disk_entry) \<Rightarrow> snapshot_store \<Rightarrow> snapshot_store" where
  "damage_view key f s = s\<lparr>st_disk := map (\<lambda>d. if de_name d = key then (f d)\<lparr>de_name := key\<rparr> else d) (st_disk s)\<rparr>"

type_synonym removal = "string \<Rightarrow> (disk_entry \<Rightarrow> disk_entry) option"

fun remove_all :: "removal \<Rightarrow> retained_info list \<Rightarrow> retention_stats \<Rightarrow> snapshot_store \<Rightarrow> (snapshot_error option \<times> retention_stats) \<times> snapshot_store" where
  "remove_all os [] x s = ((None, x), s)"
| "remove_all os (i # is) x s =
     (case os (ti_key i) of
        Some f \<Rightarrow> ((Some SnapInvalid, x), damage_view (ti_key i) f s)
      | None \<Rightarrow> remove_all os is (x\<lparr>rx_bytes := rx_bytes x - ti_bytes i, rx_views := rx_views x - 1,
           rx_removed := rx_removed x + 1, rx_removed_bytes := rx_removed_bytes x + ti_bytes i\<rparr>) (drop_view (ti_key i) s))"

definition collect_views ::
  "removal \<Rightarrow> digests \<Rightarrow> instant \<Rightarrow> int \<Rightarrow> int \<Rightarrow> bool \<Rightarrow> snapshot_store \<Rightarrow> (snapshot_error option \<times> retention_stats) \<times> snapshot_store" where
  "collect_views os h now in_bytes in_views expire s =
     (case inventory h s of
        Inl e \<Rightarrow> ((Some e, zero_stats), s)
      | Inr items \<Rightarrow>
          (case account items zero_stats of
             (Some e, x) \<Rightarrow> ((Some e, x), s)
           | (None, x) \<Rightarrow>
               (case st_retention s of
                  None \<Rightarrow> ((None, x), s)
                | Some p \<Rightarrow>
                    if in_bytes > rn_max_bytes p \<or> in_views > rn_max_views p then ((Some SnapBudget, x), s)
                    else (let (rs, b, v) = plan p now in_bytes in_views expire items (rx_bytes x) (rx_views x)
                          in if over p in_bytes in_views b v then ((Some SnapBudget, x), s) else remove_all os rs x s))))"

section \<open>Operations\<close>

definition pin :: "nat \<Rightarrow> string \<Rightarrow> instant \<Rightarrow> snapshot_store \<Rightarrow> (snapshot_error + nat) \<times> snapshot_store" where
  "pin i key now s =
     (Inr (length (st_leases s)),
      s\<lparr>st_heap := (st_heap s)[i := (st_heap s ! i)\<lparr>en_refs := en_refs (st_heap s ! i) + 1\<rparr>],
        st_last_use := (st_last_use s)(key \<mapsto> now), st_leases := st_leases s @ [\<lparr>le_entry = i, le_released = False\<rparr>]\<rparr>)"

definition add_entry :: "string \<Rightarrow> manifest \<Rightarrow> snapshot_store \<Rightarrow> snapshot_store" where
  "add_entry key m s = s\<lparr>st_heap := st_heap s @ [\<lparr>en_manifest = m, en_refs = 0\<rparr>], st_entries := AList.update key (length (st_heap s)) (st_entries s)\<rparr>"

definition acquire :: "digests \<Rightarrow> instant \<Rightarrow> repo_snapshot \<Rightarrow> snapshot_store \<Rightarrow> (snapshot_error + nat) \<times> snapshot_store" where
  "acquire h now required s =
     (case snapshot_key h required of
        None \<Rightarrow> (Inl SnapInvalid, s)
      | Some key \<Rightarrow>
          if st_closed s then (Inl SnapClosed, s)
          else case map_of (st_entries s) key of
                 Some i \<Rightarrow> pin i key now s
               | None \<Rightarrow>
                   (case check_published_root (on_disk s key) of
                      Inl e \<Rightarrow> (Inl e, s)
                    | Inr _ \<Rightarrow>
                        (case on_disk s key of
                           None \<Rightarrow> (Inl SnapMissing, s)
                         | Some d \<Rightarrow>
                             (case de_manifest d of
                                None \<Rightarrow> (Inl SnapInvalid, s)
                              | Some m \<Rightarrow>
                                  if mf_snapshot m \<noteq> required then (Inl SnapInvalid, s)
                                  else if \<not> de_intact d then (Inl SnapInvalid, s)
                                  else pin (length (st_heap s)) key now (add_entry key m s)))))"

text \<open>
  \<open>AcquireBase\<close> takes the inventory in one critical section and tries the candidates, newest use
  first, in one section each; \<open>acquire_candidates\<close> is the loop when nothing comes between them.
\<close>

fun acquire_candidates :: "digests \<Rightarrow> instant \<Rightarrow> repo_snapshot \<Rightarrow> retained_info list \<Rightarrow> snapshot_store \<Rightarrow> (snapshot_error + nat) \<times> snapshot_store" where
  "acquire_candidates h now target [] s = (Inl SnapMissing, s)"
| "acquire_candidates h now target (i # is) s =
     (if ti_descriptor i = target \<or> \<not> compatible_base target (ti_descriptor i) then acquire_candidates h now target is s
      else case acquire h now (ti_descriptor i) s of
             (Inl SnapMissing, s1) \<Rightarrow> acquire_candidates h now target is s1
           | r \<Rightarrow> r)"

definition acquire_base :: "digests \<Rightarrow> instant \<Rightarrow> repo_snapshot \<Rightarrow> snapshot_store \<Rightarrow> (snapshot_error + nat) \<times> snapshot_store" where
  "acquire_base h now target s =
     (if \<not> snapshot_valid target then (Inl SnapInvalid, s)
      else if st_closed s then (Inl SnapClosed, s)
      else case inventory h s of
             Inl e \<Rightarrow> (Inl e, s)
           | Inr items \<Rightarrow> acquire_candidates h now target (rev items) s)"

definition release :: "digests \<Rightarrow> instant \<Rightarrow> nat \<Rightarrow> snapshot_store \<Rightarrow> snapshot_store" where
  "release h now l s =
     (if l \<ge> length (st_leases s) \<or> le_released (st_leases s ! l) then s
      else (let i = le_entry (st_leases s ! l); e = st_heap s ! i;
                key = (case snapshot_key h (mf_snapshot (en_manifest e)) of Some k \<Rightarrow> k | None \<Rightarrow> [])
            in s\<lparr>st_heap := (st_heap s)[i := e\<lparr>en_refs := en_refs e - 1\<rparr>], st_last_use := (st_last_use s)(key \<mapsto> now),
                 st_leases := (st_leases s)[l := (st_leases s ! l)\<lparr>le_released := True\<rparr>]\<rparr>))"

definition remove_snapshot :: "removal \<Rightarrow> digests \<Rightarrow> repo_snapshot \<Rightarrow> snapshot_store \<Rightarrow> snapshot_error option \<times> snapshot_store" where
  "remove_snapshot os h required s =
     (case snapshot_key h required of
        None \<Rightarrow> (Some SnapInvalid, s)
      | Some key \<Rightarrow>
          if st_closed s then (Some SnapClosed, s)
          else if (case map_of (st_entries s) key of None \<Rightarrow> False | Some i \<Rightarrow> en_refs (st_heap s ! i) > 0) then (Some SnapPinned, s)
          else if st_active s \<noteq> 0 then (Some SnapInvalid, s)
          else case os key of Some f \<Rightarrow> (Some SnapInvalid, damage_view key f s) | None \<Rightarrow> (None, drop_view key s))"

definition prune_views :: "removal \<Rightarrow> digests \<Rightarrow> instant \<Rightarrow> snapshot_store \<Rightarrow> (snapshot_error option \<times> retention_stats) \<times> snapshot_store" where
  "prune_views os h now s = (if st_closed s then ((Some SnapClosed, zero_stats), s) else collect_views os h now 0 0 True s)"

definition configure_retention :: "digests \<Rightarrow> retention_policy \<Rightarrow> snapshot_store \<Rightarrow> snapshot_error option \<times> snapshot_store" where
  "configure_retention h p s =
     (if \<not> valid_policy p then (Some SnapInvalid, s)
      else if st_closed s then (Some SnapClosed, s)
      else if st_active s \<noteq> 0 then (Some SnapInvalid, s)
      else case inventory h s of Inl e \<Rightarrow> (Some e, s) | Inr _ \<Rightarrow> (None, s\<lparr>st_retention := Some p\<rparr>))"

text \<open>The three critical sections of \<open>Install\<close>; \<open>stage\<close> is the staged view, \<open>room\<close> whether the headroom check passes.\<close>

definition begin_import :: "snapshot_store \<Rightarrow> snapshot_error option \<times> snapshot_store" where
  "begin_import s = (if st_closed s then (Some SnapClosed, s) else (None, s\<lparr>st_active := st_active s + 1\<rparr>))"

definition end_import :: "snapshot_store \<Rightarrow> snapshot_store" where
  "end_import s = s\<lparr>st_active := st_active s - 1\<rparr>"

definition publish_new :: "string \<Rightarrow> disk_entry \<Rightarrow> manifest \<Rightarrow> instant \<Rightarrow> snapshot_store \<Rightarrow> snapshot_store" where
  "publish_new key stage m now s =
     (let s1 = s\<lparr>st_disk := st_disk s @ [stage\<lparr>de_name := key, de_manifest := Some m\<rparr>]\<rparr>
      in (add_entry key m s1)\<lparr>st_last_use := (st_last_use s1)(key \<mapsto> now)\<rparr>)"

definition publish_stage ::
  "removal \<Rightarrow> digests \<Rightarrow> bool \<Rightarrow> instant \<Rightarrow> disk_entry \<Rightarrow> manifest \<Rightarrow> snapshot_store \<Rightarrow> snapshot_error option \<times> snapshot_store" where
  "publish_stage os h room now stage m s =
     (if \<not> manifest_valid h m then (Some SnapInvalid, s)
      else (let key = dg_key h (mf_snapshot m)
            in if \<not> de_intact stage \<or> \<not> room then (Some SnapInvalid, s)
               else case tree_bytes stage of
                      Inl e \<Rightarrow> (Some e, s)
                    | Inr n \<Rightarrow>
                        if st_closed s then (Some SnapClosed, s)
                        else case on_disk s key of
                               Some old \<Rightarrow>
                                 (case check_published_root (Some old) of
                                    Inl e \<Rightarrow> (Some e, s)
                                  | Inr _ \<Rightarrow> if map_option mf_snapshot (de_manifest old) \<noteq> Some (mf_snapshot m) \<or> \<not> de_intact old then (Some SnapInvalid, s) else (None, s))
                             | None \<Rightarrow>
                                 if st_retention s = None then (None, publish_new key stage m now s)
                                 else (case collect_views os h now n 1 False s of
                                         ((Some e, _), s1) \<Rightarrow> (Some e, s1)
                                       | ((None, _), s1) \<Rightarrow> (None, publish_new key stage m now s1))))"

text \<open>The checkpoint a quiescent close leaves behind, and what an open makes of it.\<close>

record checkpoint =
  ck_version :: int
  ck_closed_at :: instant
  ck_last_use :: "(string \<times> instant) list"

definition save_retention_age :: "instant \<Rightarrow> snapshot_store \<Rightarrow> snapshot_error + checkpoint" where
  "save_retention_age now s =
     (let views = filter (\<lambda>d. \<not> published_os_metadata d) (sort_key de_name (st_disk s))
      in if int (length views) > 100000 then Inl SnapInvalid
         else if list_all (\<lambda>d. hex_directory_key (de_name d) \<and> de_kind d = Directory) views
         then Inr \<lparr>ck_version = 1, ck_closed_at = now,
           ck_last_use = map (\<lambda>d. (de_name d, retention_used_at s (de_name d) (de_mod_time d))) views\<rparr>
         else Inl SnapInvalid)"

definition restore_retention_age :: "instant \<Rightarrow> checkpoint option \<Rightarrow> string \<rightharpoonup> instant" where
  "restore_retention_age opened c =
     (case c of
        None \<Rightarrow> Map.empty
      | Some k \<Rightarrow>
          if ck_version k \<noteq> 1 \<or> is_zero_time (ck_closed_at k) \<or> ck_closed_at k > opened \<or> int (length (ck_last_use k)) > 100000 then Map.empty
          else if list_all (\<lambda>(key, used). hex_directory_key key \<and> \<not> is_zero_time used \<and> \<not> used > ck_closed_at k) (ck_last_use k)
          then map_of (ck_last_use k) else Map.empty)"

definition close_store :: "instant \<Rightarrow> snapshot_store \<Rightarrow> (snapshot_error + checkpoint option) \<times> snapshot_store" where
  "close_store now s =
     (if st_closed s then (Inr None, s)
      else if list_ex (\<lambda>(key, i). en_refs (st_heap s ! i) \<noteq> 0) (st_entries s)
      then (Inl SnapPinned, s)
      else if st_active s \<noteq> 0 then (Inl SnapInvalid, s)
      else case save_retention_age now s of
             Inl e \<Rightarrow> (Inl e, s)
           | Inr c \<Rightarrow> (Inr (Some c), s\<lparr>st_closed := True\<rparr>))"

definition open_store :: "disk_entry list \<Rightarrow> checkpoint option \<Rightarrow> instant \<Rightarrow> snapshot_store" where
  "open_store disk c now =
     \<lparr>st_disk = disk, st_entries = [], st_heap = [], st_leases = [], st_closed = False, st_active = 0,
      st_retention = None, st_last_use = Map.empty, st_restored_use = restore_retention_age now c, st_opened_at = now\<rparr>"

section \<open>Retention\<close>

definition pinned :: "snapshot_store \<Rightarrow> string \<Rightarrow> bool" where
  "pinned s key = (case map_of (st_entries s) key of None \<Rightarrow> False | Some i \<Rightarrow> en_refs (st_heap s ! i) > 0)"

lemma tree_sum_mono: "tree_sum n ks = Inr m \<Longrightarrow> n \<le> m"
  by (induction n ks rule: tree_sum.induct) (auto split: if_splits)

lemma inventory_items_from:
  assumes "rfold (inventory_item h s) ds acc = Inr r"
  shows "\<exists>is. r = acc @ is \<and> map ti_key is = map de_name (filter (\<lambda>d. \<not> published_os_metadata d) ds)
    \<and> (\<forall>i\<in>set is. 0 \<le> ti_bytes i \<and> ti_pinned i = pinned s (ti_key i))"
  using assms
proof (induction ds arbitrary: acc)
  case (Cons d ds)
  then obtain a where a: "inventory_item h s d acc = Inr a" "rfold (inventory_item h s) ds a = Inr r" by (auto simp: res_simps)
  obtain "is" where is_: "r = a @ is" "map ti_key is = map de_name (filter (\<lambda>d. \<not> published_os_metadata d) ds)"
    "\<forall>i\<in>set is. 0 \<le> ti_bytes i \<and> ti_pinned i = pinned s (ti_key i)"
    using Cons.IH [OF a(2)] by blast
  show ?case
  proof (cases "published_os_metadata d")
    case True
    then show ?thesis using a(1) is_ by (auto simp: inventory_item_def)
  next
    case False
    then obtain i where "a = acc @ [i]" "ti_key i = de_name d" "0 \<le> ti_bytes i" "ti_pinned i = pinned s (ti_key i)"
      using a(1) tree_sum_mono by (auto simp: inventory_item_def res_simps tree_bytes_def pinned_def split: if_splits option.splits)
    then show ?thesis using False is_ by (intro exI [of _ "i # is"]) auto
  qed
qed simp

lemma inventory_items:
  assumes "inventory h s = Inr items" "distinct (map de_name (st_disk s))"
  shows "distinct (map ti_key items)" "\<forall>i\<in>set items. 0 \<le> ti_bytes i \<and> ti_pinned i = pinned s (ti_key i)"
proof -
  obtain "is" where is_: "items = sort_key ti_used (sort_key ti_key is)" "rfold (inventory_item h s) (sort_key de_name (st_disk s)) [] = Inr is"
    using assms(1) by (auto simp: inventory_def res_simps)
  from inventory_items_from [OF is_(2)] have k: "map ti_key is = map de_name (filter (\<lambda>d. \<not> published_os_metadata d) (sort_key de_name (st_disk s)))"
    "\<forall>i\<in>set is. 0 \<le> ti_bytes i \<and> ti_pinned i = pinned s (ti_key i)" by auto
  have "mset (map de_name (sort_key de_name (st_disk s))) = mset (map de_name (st_disk s))" by simp
  then have "distinct (map de_name (sort_key de_name (st_disk s)))" using assms(2) mset_eq_imp_distinct_iff by blast
  then have "distinct (map ti_key is)" unfolding k(1) by (rule distinct_map_filter)
  moreover have "mset (map ti_key items) = mset (map ti_key is)" using is_(1) by simp
  ultimately show "distinct (map ti_key items)" using mset_eq_imp_distinct_iff by blast
  show "\<forall>i\<in>set items. 0 \<le> ti_bytes i \<and> ti_pinned i = pinned s (ti_key i)" using k(2) is_(1) by simp
qed

definition bytes_of :: "retained_info list \<Rightarrow> int" where
  "bytes_of is = sum_list (map ti_bytes is)"

lemma bytes_of_simps [simp]: "bytes_of [] = 0" "bytes_of (i # is) = ti_bytes i + bytes_of is"
  by (simp_all add: bytes_of_def)

lemma account_totals:
  "account is x = (None, y) \<Longrightarrow> rx_bytes y = rx_bytes x + bytes_of is \<and> rx_views y = rx_views x + int (length is)
    \<and> rx_removed y = rx_removed x \<and> rx_removed_bytes y = rx_removed_bytes x"
  by (induction "is" arbitrary: x) (auto split: if_splits)

lemma plan_totals:
  "plan p now ib iv expire is b v = (rs, b', v') \<Longrightarrow>
    b' = b - bytes_of rs \<and> v' = v - int (length rs) \<and> set rs \<subseteq> set (filter (\<lambda>i. \<not> protected p now i) is)"
  by (induction "is" arbitrary: b v rs b' v') (auto simp: Let_def split: if_splits prod.splits, fastforce+)

lemma over_mono: "over p ib iv b v \<Longrightarrow> b \<le> b' \<Longrightarrow> v \<le> v' \<Longrightarrow> over p ib iv b' v'"
  by (auto simp: over_def)

lemma bytes_of_nonneg: "\<forall>i\<in>set is. 0 \<le> ti_bytes i \<Longrightarrow> 0 \<le> bytes_of is"
  by (induction "is") auto

text \<open>A plan that is still over the budget has given up everything it may.\<close>

lemma plan_exhausts:
  assumes "plan p now ib iv expire is b v = (rs, b', v')" "over p ib iv b' v'" "\<forall>i\<in>set is. 0 \<le> ti_bytes i"
  shows "rs = filter (\<lambda>i. \<not> protected p now i) is"
  using assms
proof (induction "is" arbitrary: b v rs)
  case (Cons i "is")
  show ?case
  proof (cases "protected p now i")
    case True
    then show ?thesis using Cons by simp
  next
    case False
    obtain rs1 b1 v1 where t: "plan p now ib iv expire is (b - ti_bytes i) (v - 1) = (rs1, b1, v1)" by (metis prod_cases3)
    show ?thesis
    proof (cases "\<not> over p ib iv b v \<and> (\<not> expire \<or> sub_time now (ti_used i) < rn_max_age p)")
      case True
      then have "plan p now ib iv expire is b v = (rs, b', v')" using Cons.prems(1) False by simp
      from plan_totals [OF this] have r: "b' = b - bytes_of rs" "v' = v - int (length rs)" "set rs \<subseteq> set is" by auto
      have "0 \<le> bytes_of rs" using r(3) Cons.prems(3) by (intro bytes_of_nonneg) auto
      then have "over p ib iv b v" using over_mono [OF Cons.prems(2), of b v] r(1,2) by simp
      then show ?thesis using True by simp
    next
      case False2: False
      then have "rs = i # rs1" "b1 = b'" "v1 = v'" using Cons.prems(1) False t by (auto simp: Let_def)
      then show ?thesis using Cons.IH t Cons.prems(2,3) False by simp
    qed
  qed
qed simp

lemma plan_distinct:
  "plan p now ib iv expire is b v = (rs, b', v') \<Longrightarrow> distinct is \<Longrightarrow> distinct rs"
proof (induction "is" arbitrary: b v rs b' v')
  case (Cons i "is")
  show ?case
  proof (cases "protected p now i \<or> \<not> over p ib iv b v \<and> (\<not> expire \<or> sub_time now (ti_used i) < rn_max_age p)")
    case True
    then show ?thesis using Cons by (auto split: if_splits)
  next
    case False
    obtain rs1 b1 v1 where t: "plan p now ib iv expire is (b - ti_bytes i) (v - 1) = (rs1, b1, v1)" by (metis prod_cases3)
    then have "rs = i # rs1" using False Cons.prems(1) by auto
    then show ?thesis using Cons.IH [OF t] plan_totals [OF t] Cons.prems(2) by auto
  qed
qed simp

lemma plan_expires:
  "plan p now ib iv True is b v = (rs, b', v') \<Longrightarrow> i \<in> set is \<Longrightarrow> i \<notin> set rs \<Longrightarrow>
    protected p now i \<or> sub_time now (ti_used i) < rn_max_age p"
  by (induction "is" arbitrary: b v rs b' v') (auto simp: Let_def split: if_splits prod.splits)

lemma on_disk_drop: "on_disk (drop_view k s) k' = (if k' = k then None else on_disk s k')"
proof -
  have "find (\<lambda>d. de_name d = k') (filter (\<lambda>d. de_name d \<noteq> k) ds) = (if k' = k then None else find (\<lambda>d. de_name d = k') ds)" for ds :: "disk_entry list"
    by (induction ds) auto
  then show ?thesis by (simp add: on_disk_def drop_view_def)
qed

lemma pinned_drop: "pinned (drop_view k s) k' = (k' \<noteq> k \<and> pinned s k')"
  by (auto simp: pinned_def drop_view_def delete_conv' split: option.splits)

lemma drop_view_other:
  "k' \<noteq> k \<Longrightarrow> retention_used_at (drop_view k s) k' m = retention_used_at s k' m"
  "k' \<noteq> k \<Longrightarrow> map_of (st_entries (drop_view k s)) k' = map_of (st_entries s) k'"
  "st_heap (drop_view k s) = st_heap s" "st_leases (drop_view k s) = st_leases s" "st_closed (drop_view k s) = st_closed s"
  by (simp_all add: retention_used_at_def drop_view_def delete_conv' cong: option.case_cong)

lemma inventory_item_drop:
  assumes "de_name d \<noteq> k"
  shows "inventory_item h (drop_view k s) d = inventory_item h s d"
  unfolding inventory_item_def fun_eq_iff drop_view_other(1,2) [OF assms] drop_view_other(3) by simp

lemma inventory_fold_drop:
  assumes "rfold (inventory_item h s) ds acc = Inr r"
  shows "rfold (inventory_item h (drop_view k s)) (filter (\<lambda>d. de_name d \<noteq> k) ds) (filter (\<lambda>i. ti_key i \<noteq> k) acc)
    = Inr (filter (\<lambda>i. ti_key i \<noteq> k) r)"
  using assms
proof (induction ds arbitrary: acc)
  case (Cons d ds)
  then obtain a where a: "inventory_item h s d acc = Inr a" "rfold (inventory_item h s) ds a = Inr r" by (auto simp: res_simps)
  have "if de_name d = k then filter (\<lambda>i. ti_key i \<noteq> k) a = filter (\<lambda>i. ti_key i \<noteq> k) acc
    else inventory_item h s d (filter (\<lambda>i. ti_key i \<noteq> k) acc) = Inr (filter (\<lambda>i. ti_key i \<noteq> k) a)"
    using a(1) by (auto simp: inventory_item_def res_simps split: if_splits option.splits)
  then show ?case using Cons.IH [OF a(2)] inventory_item_drop [of d k h s] by (auto split: if_splits)
qed simp

lemma inventory_drop:
  assumes "inventory h s = Inr items"
  shows "inventory h (drop_view k s) = Inr (filter (\<lambda>i. ti_key i \<noteq> k) items)"
proof -
  obtain "is" where is_: "items = sort_key ti_used (sort_key ti_key is)" "rfold (inventory_item h s) (sort_key de_name (st_disk s)) [] = Inr is"
    using assms by (auto simp: inventory_def res_simps)
  have "sort_key de_name (st_disk (drop_view k s)) = filter (\<lambda>d. de_name d \<noteq> k) (sort_key de_name (st_disk s))"
    by (simp add: drop_view_def filter_sort)
  then show ?thesis using inventory_fold_drop [OF is_(2), of k] by (simp add: inventory_def is_(1) filter_sort)
qed

lemma remove_all_complete:
  assumes "inventory h s = Inr items"
  shows "\<exists>y s'. remove_all (\<lambda>_. None) rs x s = ((None, y), s') \<and> inventory h s' = Inr (filter (\<lambda>i. ti_key i \<notin> ti_key ` set rs) items)"
  using assms
proof (induction rs arbitrary: x s items)
  case (Cons r rs)
  show ?case using Cons.IH [OF inventory_drop [OF Cons.prems, of "ti_key r"]]
    by simp
qed simp

lemma bytes_of_distinct: "distinct is \<Longrightarrow> bytes_of is = sum ti_bytes (set is)"
  by (simp add: bytes_of_def sum_list_distinct_conv_sum_set)

lemma protected_fit:
  assumes "distinct items" "\<forall>i\<in>set items. 0 \<le> ti_bytes i" "set kept \<subseteq> set items" "distinct kept"
    and "\<forall>i\<in>set items. protected p now i \<longrightarrow> i \<in> set kept"
  shows "bytes_of (filter (protected p now) items) \<le> bytes_of kept" "length (filter (protected p now) items) \<le> length kept"
proof -
  have s: "set (filter (protected p now) items) \<subseteq> set kept" using assms(5) by auto
  have d: "distinct (filter (protected p now) items)" using assms(1) by simp
  show "bytes_of (filter (protected p now) items) \<le> bytes_of kept"
    unfolding bytes_of_distinct [OF d] bytes_of_distinct [OF assms(4)] by (rule sum_mono2) (use s assms(2,3) in auto)
  show "length (filter (protected p now) items) \<le> length kept"
    using card_mono [OF _ s] distinct_card [OF d] distinct_card [OF assms(4)] by simp
qed

text \<open>What a plan leaves behind.\<close>

lemma plan_leaves:
  assumes inv: "distinct (map ti_key items)" "\<forall>i\<in>set items. 0 \<le> ti_bytes i"
    and pl: "plan p now ib iv expire items (bytes_of items) (int (length items)) = (rs, b, v)"
  defines "kept \<equiv> filter (\<lambda>i. ti_key i \<notin> ti_key ` set rs) items"
  shows "b = bytes_of kept" "v = int (length kept)" "\<forall>i\<in>set items. protected p now i \<longrightarrow> i \<in> set kept"
    "over p ib iv b v \<longleftrightarrow> over p ib iv (bytes_of (filter (protected p now) items)) (int (length (filter (protected p now) items)))"
    "expire \<Longrightarrow> \<forall>i\<in>set kept. protected p now i \<or> sub_time now (ti_used i) < rn_max_age p"
proof -
  have di: "distinct items" using inv(1) by (simp add: distinct_map)
  have rs: "distinct rs" "set rs \<subseteq> {i \<in> set items. \<not> protected p now i}" "b = bytes_of items - bytes_of rs" "v = int (length items) - int (length rs)"
    using plan_distinct [OF pl di] plan_totals [OF pl] by auto
  have key: "i = j" if "i \<in> set items" "j \<in> set rs" "ti_key i = ti_key j" for i j
    using inv(1) that rs(2) by (auto simp: distinct_map inj_on_def)
  then have sk: "set kept = set items - set rs" by (auto simp: kept_def)
  have dk: "distinct kept" using di by (simp add: kept_def)
  show b: "b = bytes_of kept"
    unfolding rs(3) bytes_of_distinct [OF di] bytes_of_distinct [OF rs(1)] bytes_of_distinct [OF dk] sk
    by (rule sum_diff [symmetric]) (use rs(2) in auto)
  have "card (set kept) = card (set items) - card (set rs)" unfolding sk by (rule card_Diff_subset) (use rs(2) in auto)
  moreover have "card (set rs) \<le> card (set items)" by (rule card_mono) (use rs(2) in auto)
  ultimately show v: "v = int (length kept)" using di rs(1,4) dk by (simp add: distinct_card)
  show prot: "\<forall>i\<in>set items. protected p now i \<longrightarrow> i \<in> set kept" using sk rs(2) by auto
  show "over p ib iv b v \<longleftrightarrow> over p ib iv (bytes_of (filter (protected p now) items)) (int (length (filter (protected p now) items)))"
  proof
    assume "over p ib iv b v"
    from plan_exhausts [OF pl this inv(2)] have "set kept = set (filter (protected p now) items)" using sk by auto
    then have "bytes_of kept = bytes_of (filter (protected p now) items)" "length kept = length (filter (protected p now) items)"
      using dk di by (simp add: bytes_of_distinct, metis distinct_card distinct_filter)
    then show "over p ib iv (bytes_of (filter (protected p now) items)) (int (length (filter (protected p now) items)))"
      using \<open>over p ib iv b v\<close> b v by simp
  next
    assume "over p ib iv (bytes_of (filter (protected p now) items)) (int (length (filter (protected p now) items)))"
    then show "over p ib iv b v"
      by (rule over_mono) (use protected_fit [OF di inv(2) _ dk prot] sk b v in auto)
  qed
  show "\<forall>i\<in>set kept. protected p now i \<or> sub_time now (ti_used i) < rn_max_age p" if expire
    using plan_expires [of p now ib iv items "bytes_of items" "int (length items)" rs b v] pl that sk by auto
qed

text \<open>
  C19. Admission to the store is decided before anything is removed, and exactly: where removals
  succeed, collection for an incoming view refuses with \<open>ErrBudget\<close> exactly when the pinned and
  recently used views alone leave no room, and then nothing has changed. Otherwise the views that
  are left fit the budget together with the incoming one, every protected view is among them, and
  an expiring collection leaves no unprotected view of the maximal age.
\<close>

theorem collect_exact:
  assumes "inventory h s = Inr items" "account items zero_stats = (None, x)" "st_retention s = Some p"
    and "distinct (map de_name (st_disk s))" "in_bytes \<le> rn_max_bytes p" "in_views \<le> rn_max_views p"
    and r: "collect_views (\<lambda>_. None) h now in_bytes in_views expire s = ((e, y), s')"
  shows "if over p in_bytes in_views (bytes_of (filter (protected p now) items)) (int (length (filter (protected p now) items)))
    then e = Some SnapBudget \<and> s' = s
    else e = None \<and> (\<exists>kept. inventory h s' = Inr kept \<and> set kept \<subseteq> set items
      \<and> bytes_of kept + in_bytes \<le> rn_max_bytes p \<and> int (length kept) + in_views \<le> rn_max_views p
      \<and> (\<forall>i\<in>set items. protected p now i \<longrightarrow> i \<in> set kept)
      \<and> (expire \<longrightarrow> (\<forall>i\<in>set kept. protected p now i \<or> sub_time now (ti_used i) < rn_max_age p)))"
proof -
  note it = inventory_items [OF assms(1,4)]
  have x: "rx_bytes x = bytes_of items" "rx_views x = int (length items)" using account_totals [OF assms(2)] by (auto simp: zero_stats_def)
  obtain rs b v where pl: "plan p now in_bytes in_views expire items (bytes_of items) (int (length items)) = (rs, b, v)" by (metis prod_cases3)
  note lv = plan_leaves [OF it(1) _ pl]
  have c: "collect_views (\<lambda>_. None) h now in_bytes in_views expire s
      = (if over p in_bytes in_views b v then ((Some SnapBudget, x), s) else remove_all (\<lambda>_. None) rs x s)"
    using assms(1-3,5,6) by (simp add: collect_views_def x pl)
  show ?thesis
  proof (cases "over p in_bytes in_views b v")
    case True
    then show ?thesis using lv(4) it(2) c r by auto
  next
    case False
    obtain y' s'' where rm: "remove_all (\<lambda>_. None) rs x s = ((None, y'), s'')" "inventory h s'' = Inr (filter (\<lambda>i. ti_key i \<notin> ti_key ` set rs) items)"
      using remove_all_complete [OF assms(1)] by blast
    have "bytes_of (filter (\<lambda>i. ti_key i \<notin> ti_key ` set rs) items) + in_bytes \<le> rn_max_bytes p"
      "int (length (filter (\<lambda>i. ti_key i \<notin> ti_key ` set rs) items)) + in_views \<le> rn_max_views p"
      using False it(2) lv(1,2) by (auto simp: over_def)
    then show ?thesis using False lv(3-5) it(2) c r rm by auto
  qed
qed

section \<open>Leases and the steps of the store\<close>

definition open_leases :: "snapshot_store \<Rightarrow> nat \<Rightarrow> nat" where
  "open_leases s i = length (filter (\<lambda>l. \<not> le_released l \<and> le_entry l = i) (st_leases s))"

definition stored_ok :: "digests \<Rightarrow> snapshot_store \<Rightarrow> string \<Rightarrow> nat \<Rightarrow> bool" where
  "stored_ok h s k i \<longleftrightarrow> i < length (st_heap s) \<and> snapshot_key h (mf_snapshot (en_manifest (st_heap s ! i))) = Some k \<and> on_disk s k \<noteq> None"

definition lease_ok :: "snapshot_store \<Rightarrow> lease \<Rightarrow> bool" where
  "lease_ok s l \<longleftrightarrow> le_entry l < length (st_heap s) \<and> (\<not> le_released l \<longrightarrow> (\<exists>k. map_of (st_entries s) k = Some (le_entry l)))"

text \<open>
  The invariant: names on disk and keys of the map are unique; an entry of the map is stored under
  the key of its snapshot, which is on disk; the count of an entry is the number of its open
  leases; an open lease is of an entry of the map; a closed store has no open lease.
\<close>

definition store_ok :: "digests \<Rightarrow> snapshot_store \<Rightarrow> bool" where
  "store_ok h s \<longleftrightarrow> distinct (map de_name (st_disk s)) \<and> distinct (map fst (st_entries s))
     \<and> (\<forall>k i. map_of (st_entries s) k = Some i \<longrightarrow> stored_ok h s k i)
     \<and> (\<forall>i < length (st_heap s). en_refs (st_heap s ! i) = int (open_leases s i))
     \<and> list_all (lease_ok s) (st_leases s)
     \<and> (st_closed s \<longrightarrow> list_all le_released (st_leases s))"

inductive store_step :: "digests \<Rightarrow> snapshot_store \<Rightarrow> snapshot_store \<Rightarrow> bool" for h where
  step_acquire: "store_step h s (snd (acquire h now required s))"
| step_acquire_base: "store_step h s (snd (acquire_base h now target s))"
| step_release: "store_step h s (release h now l s)"
| step_remove: "store_step h s (snd (remove_snapshot os h required s))"
| step_prune: "store_step h s (snd (prune_views os h now s))"
| step_configure: "store_step h s (snd (configure_retention h p s))"
| step_begin: "store_step h s (snd (begin_import s))"
| step_publish: "st_active s > 0 \<Longrightarrow> store_step h s (snd (publish_stage os h room now stage m s))"
| step_end: "st_active s > 0 \<Longrightarrow> store_step h s (end_import s)"
| step_close: "store_step h s (snd (close_store now s))"
| step_reopen: "store_step h s (open_store (st_disk s) c now)"

inductive store_reachable :: "digests \<Rightarrow> snapshot_store \<Rightarrow> bool" for h where
  reach_open: "distinct (map de_name disk) \<Longrightarrow> store_reachable h (open_store disk c now)"
| reach_step: "store_reachable h s \<Longrightarrow> store_step h s s' \<Longrightarrow> store_reachable h s'"

declare map_of_eq_Some_iff [simp del] Some_eq_map_of_iff [simp del]

lemma open_lease_pinned:
  assumes "store_ok h s" "l \<in> set (st_leases s)" "\<not> le_released l"
  obtains k where "map_of (st_entries s) k = Some (le_entry l)" "stored_ok h s k (le_entry l)" "pinned s k"
proof -
  from assms obtain k where k: "map_of (st_entries s) k = Some (le_entry l)" "le_entry l < length (st_heap s)"
    by (auto simp: store_ok_def lease_ok_def list_all_iff)
  have "l \<in> set (filter (\<lambda>x. \<not> le_released x \<and> le_entry x = le_entry l) (st_leases s))" using assms(2,3) by simp
  then have "0 < open_leases s (le_entry l)" by (metis open_leases_def length_pos_if_in_set)
  then have "pinned s k" using assms(1) k by (simp add: pinned_def store_ok_def)
  then show ?thesis using that k assms(1) by (auto simp: store_ok_def)
qed

lemma unpinned_entry:
  assumes "store_ok h s" "\<not> pinned s k" "map_of (st_entries s) k = Some i" "l \<in> set (st_leases s)" "le_entry l = i"
  shows "le_released l"
proof (rule ccontr)
  assume "\<not> le_released l"
  then obtain k' where "stored_ok h s k' i" "pinned s k'" using open_lease_pinned [OF assms(1,4)] assms(5) by metis
  moreover have "stored_ok h s k i" using assms(1,3) by (simp add: store_ok_def)
  ultimately show False using assms(2) by (simp add: stored_ok_def)
qed

lemma pinned_on_disk: "store_ok h s \<Longrightarrow> pinned s k \<Longrightarrow> on_disk s k \<noteq> None"
  by (auto simp: store_ok_def pinned_def stored_ok_def split: option.splits)

lemma on_disk_damage: "on_disk (damage_view k f s) k' = map_option (\<lambda>d. if k' = k then (f d)\<lparr>de_name := k\<rparr> else d) (on_disk s k')"
proof -
  have "find (\<lambda>d. de_name d = k') (map (\<lambda>d. if de_name d = k then (f d)\<lparr>de_name := k\<rparr> else d) ds)
      = map_option (\<lambda>d. if k' = k then (f d)\<lparr>de_name := k\<rparr> else d) (find (\<lambda>d. de_name d = k') ds)" for ds :: "disk_entry list"
    by (induction ds) auto
  then show ?thesis by (simp add: on_disk_def damage_view_def)
qed

lemma damage_ok:
  assumes "store_ok h s"
  shows "store_ok h (damage_view k f s)"
proof -
  have "map de_name (map (\<lambda>d. if de_name d = k then (f d)\<lparr>de_name := k\<rparr> else d) ds) = map de_name ds" for ds :: "disk_entry list"
    by (induction ds) auto
  then have "map de_name (st_disk (damage_view k f s)) = map de_name (st_disk s)" by (simp add: damage_view_def)
  moreover have "stored_ok h (damage_view k f s) = stored_ok h s"
    by (simp add: stored_ok_def fun_eq_iff on_disk_damage) (simp add: damage_view_def)
  ultimately show ?thesis using assms
    by (simp add: store_ok_def open_leases_def lease_ok_def [abs_def]) (simp add: damage_view_def)
qed

lemma drop_ok:
  assumes "store_ok h s" "\<not> pinned s k"
  shows "store_ok h (drop_view k s)"
proof -
  have m: "map_of (st_entries (drop_view k s)) k' = (if k' = k then None else map_of (st_entries s) k')" for k'
    by (simp add: drop_view_def delete_conv')
  have "lease_ok (drop_view k s) l" if "l \<in> set (st_leases s)" for l
    using assms(1) that unpinned_entry [OF assms _ that] unfolding store_ok_def list_all_iff lease_ok_def m drop_view_other
    by (metis option.distinct(1))
  moreover have "stored_ok h (drop_view k s) k' i" if "map_of (st_entries (drop_view k s)) k' = Some i" for k' i
    using that assms(1) by (auto simp: store_ok_def stored_ok_def m on_disk_drop drop_view_other split: if_splits)
  moreover have "distinct (map de_name (st_disk (drop_view k s)))" "distinct (map fst (st_entries (drop_view k s)))"
    using assms(1) by (auto simp: store_ok_def drop_view_def distinct_map_filter distinct_delete)
  ultimately show ?thesis using assms(1)
    by (simp add: store_ok_def list_all_iff open_leases_def drop_view_other)
qed

lemma remove_all_ok:
  assumes "store_ok h s" "\<forall>r\<in>set rs. \<not> pinned s (ti_key r)"
  shows "store_ok h (snd (remove_all os rs x s))
    \<and> (\<forall>k. pinned s k \<longrightarrow> on_disk (snd (remove_all os rs x s)) k = on_disk s k)
    \<and> (\<forall>k. on_disk s k = None \<longrightarrow> on_disk (snd (remove_all os rs x s)) k = None)"
  using assms
proof (induction rs arbitrary: x s)
  case (Cons r rs)
  then have n: "\<not> pinned s (ti_key r)" by simp
  show ?case
  proof (cases "os (ti_key r)")
    case None
    have "\<forall>r'\<in>set rs. \<not> pinned (drop_view (ti_key r) s) (ti_key r')" using Cons.prems(2) by (simp add: pinned_drop)
    from Cons.IH [OF drop_ok [OF Cons.prems(1) n] this] show ?thesis
      using n None by (simp add: pinned_drop on_disk_drop) metis
  next
    case (Some f)
    have "on_disk (damage_view (ti_key r) f s) k = on_disk s k" if "pinned s k" for k
      using that n by (cases "on_disk s k") (auto simp: on_disk_damage)
    then show ?thesis using Some damage_ok [OF Cons.prems(1)] by (simp add: on_disk_damage)
  qed
qed simp

lemma collect_ok:
  assumes "store_ok h s"
  shows "store_ok h (snd (collect_views os h now ib iv expire s))
    \<and> (\<forall>k. pinned s k \<longrightarrow> on_disk (snd (collect_views os h now ib iv expire s)) k = on_disk s k)
    \<and> (\<forall>k. on_disk s k = None \<longrightarrow> on_disk (snd (collect_views os h now ib iv expire s)) k = None)"
proof -
  have "snd (collect_views os h now ib iv expire s) = s
    \<or> (\<exists>rs x. snd (collect_views os h now ib iv expire s) = snd (remove_all os rs x s) \<and> (\<forall>r\<in>set rs. \<not> pinned s (ti_key r)))"
  proof (cases "inventory h s")
    case (Inr items)
    obtain e x where a: "account items zero_stats = (e, x)" by fastforce
    show ?thesis
    proof (cases "st_retention s")
      case (Some p)
      obtain rs b v where pl: "plan p now ib iv expire items (rx_bytes x) (rx_views x) = (rs, b, v)" by (metis prod_cases3)
      have "\<forall>r\<in>set rs. \<not> pinned s (ti_key r)"
        using plan_totals [OF pl] inventory_items [OF Inr] assms by (auto simp: store_ok_def protected_def)
      then show ?thesis using Inr a Some pl by (cases e) (auto simp: collect_views_def)
    qed (use Inr a in \<open>cases e; simp add: collect_views_def\<close>)
  qed (simp add: collect_views_def)
  then show ?thesis using remove_all_ok [OF assms] assms by auto
qed

lemma pin_ok:
  assumes ok: "store_ok h s" and at: "map_of (st_entries s) key = Some i" and op: "\<not> st_closed s"
  shows "store_ok h (snd (pin i key now s))"
proof -
  have i: "i < length (st_heap s)" using ok at by (auto simp: store_ok_def stored_ok_def)
  define s' where "s' = snd (pin i key now s)"
  have f: "st_disk s' = st_disk s" "st_entries s' = st_entries s" "st_closed s' = st_closed s"
    "st_leases s' = st_leases s @ [\<lparr>le_entry = i, le_released = False\<rparr>]"
    "st_heap s' = (st_heap s)[i := (st_heap s ! i)\<lparr>en_refs := en_refs (st_heap s ! i) + 1\<rparr>]"
    by (simp_all add: s'_def pin_def)
  have e: "stored_ok h s' k j = stored_ok h s k j" for k j
    using i by (cases "j = i") (simp_all add: stored_ok_def on_disk_def f nth_list_update)
  have l: "lease_ok s' l = lease_ok s l" for l by (simp add: lease_ok_def f)
  have "lease_ok s \<lparr>le_entry = i, le_released = False\<rparr>" using i at by (auto simp: lease_ok_def)
  moreover have "en_refs (st_heap s' ! j) = int (open_leases s' j)" if "j < length (st_heap s')" for j
    using ok that by (cases "j = i") (auto simp: f open_leases_def store_ok_def nth_list_update)
  ultimately show ?thesis unfolding s'_def [symmetric]
    using ok op by (simp add: store_ok_def e l f list_all_iff)
qed

lemma add_entry_ok:
  assumes ok: "store_ok h s" and d: "on_disk s key \<noteq> None" and n: "map_of (st_entries s) key = None"
    and k: "snapshot_key h (mf_snapshot m) = Some key"
  shows "store_ok h (add_entry key m s)"
proof -
  define s' where "s' = add_entry key m s"
  have f: "st_disk s' = st_disk s" "st_closed s' = st_closed s" "st_leases s' = st_leases s"
    "st_heap s' = st_heap s @ [\<lparr>en_manifest = m, en_refs = 0\<rparr>]"
    "map_of (st_entries s') = (map_of (st_entries s))(key \<mapsto> length (st_heap s))"
    by (simp_all add: s'_def add_entry_def update_conv')
  have ls: "le_entry l < length (st_heap s) \<and> (\<not> le_released l \<longrightarrow> (\<exists>k. map_of (st_entries s) k = Some (le_entry l)))"
    if "l \<in> set (st_leases s)" for l using ok that by (simp add: store_ok_def list_all_iff lease_ok_def)
  have "stored_ok h s' k' j" if "map_of (st_entries s') k' = Some j" for k' j
    using that ok d k by (auto simp: f stored_ok_def on_disk_def store_ok_def nth_append split: if_splits)
  moreover have "lease_ok s' l" if "l \<in> set (st_leases s)" for l
    using ls [OF that] n unfolding lease_ok_def f by (metis fun_upd_other length_append_singleton less_SucI option.distinct(1))
  moreover have "open_leases s (length (st_heap s)) = 0" using ls by (fastforce simp: open_leases_def filter_empty_conv)
  then have "en_refs (st_heap s' ! j) = int (open_leases s' j)" if "j < length (st_heap s')" for j
    using that ok by (auto simp: f nth_append store_ok_def open_leases_def less_Suc_eq)
  moreover have "distinct (map fst (st_entries s'))" using ok by (simp add: s'_def add_entry_def store_ok_def distinct_update)
  ultimately show ?thesis unfolding s'_def [symmetric] using ok by (simp add: store_ok_def f list_all_iff)
qed

lemma acquire_cases:
  obtains e where "acquire h now required s = (Inl e, s)"
  | key i where "acquire h now required s = pin i key now s" "snapshot_key h required = Some key" "\<not> st_closed s" "map_of (st_entries s) key = Some i"
  | key d m where "acquire h now required s = pin (length (st_heap s)) key now (add_entry key m s)" "snapshot_key h required = Some key"
      "\<not> st_closed s" "map_of (st_entries s) key = None" "on_disk s key = Some d" "de_manifest d = Some m" "mf_snapshot m = required" "de_intact d"
      "check_published_root (Some d) = Inr ()"
proof (cases "snapshot_key h required")
  case (Some key)
  show ?thesis
  proof (cases "st_closed s")
    case False
    show ?thesis
    proof (cases "map_of (st_entries s) key")
      case n: None
      show ?thesis
      proof (cases "check_published_root (on_disk s key)")
        case (Inr u)
        show ?thesis
        proof (cases "on_disk s key")
          case d: (Some d)
          show ?thesis
          proof (cases "de_manifest d")
            case m: (Some m)
            show ?thesis
            proof (cases "mf_snapshot m = required \<and> de_intact d")
              case True
              then show ?thesis using Some False n Inr d m that(3) [of key m d] by (simp add: acquire_def)
            qed (use Some False n Inr d m that(1) [of SnapInvalid] in \<open>auto simp: acquire_def split: if_splits\<close>)
          qed (use Some False n Inr d that(1) in \<open>simp add: acquire_def\<close>)
        qed (use Some False n Inr that(1) in \<open>simp add: acquire_def\<close>)
      qed (use Some False n that(1) in \<open>simp add: acquire_def\<close>)
    qed (use Some False that(2) in \<open>simp add: acquire_def\<close>)
  qed (use Some that(1) in \<open>simp add: acquire_def\<close>)
qed (use that(1) in \<open>simp add: acquire_def\<close>)

lemma acquire_ok:
  assumes "store_ok h s"
  shows "store_ok h (snd (acquire h now required s)) \<and> st_disk (snd (acquire h now required s)) = st_disk s"
proof (cases rule: acquire_cases [of h now required s])
  case (2 key i)
  then show ?thesis using pin_ok [OF assms] by (simp add: pin_def)
next
  case (3 key d m)
  have "store_ok h (add_entry key m s)" by (rule add_entry_ok [OF assms]) (use 3 in auto)
  then have "store_ok h (snd (pin (length (st_heap s)) key now (add_entry key m s)))"
    by (rule pin_ok) (use 3 in \<open>auto simp: add_entry_def update_conv'\<close>)
  then show ?thesis using 3(1) by (simp add: pin_def add_entry_def)
qed (use assms in auto)

lemma acquire_candidates_ok:
  assumes "store_ok h s"
  shows "store_ok h (snd (acquire_candidates h now target is s)) \<and> st_disk (snd (acquire_candidates h now target is s)) = st_disk s"
  using assms
proof (induction "is" arbitrary: s)
  case (Cons i "is")
  obtain r s1 where a: "acquire h now (ti_descriptor i) s = (r, s1)" by fastforce
  then have "store_ok h s1" "st_disk s1 = st_disk s" using acquire_ok [OF Cons.prems, of now "ti_descriptor i"] by simp_all
  then show ?case using Cons.IH [OF Cons.prems] Cons.IH [of s1] a by (auto split: sum.splits snapshot_error.splits)
qed simp

lemma release_ok:
  assumes ok: "store_ok h s"
  shows "store_ok h (release h now l s)"
proof (cases "l \<ge> length (st_leases s) \<or> le_released (st_leases s ! l)")
  case False
  define i where "i = le_entry (st_leases s ! l)"
  define s' where "s' = release h now l s"
  have i: "i < length (st_heap s)" using ok False by (simp add: i_def store_ok_def list_all_length lease_ok_def)
  have f: "st_disk s' = st_disk s" "st_entries s' = st_entries s" "st_closed s' = st_closed s"
    "st_leases s' = (st_leases s)[l := (st_leases s ! l)\<lparr>le_released := True\<rparr>]"
    "st_heap s' = (st_heap s)[i := (st_heap s ! i)\<lparr>en_refs := en_refs (st_heap s ! i) - 1\<rparr>]"
    using False by (simp_all add: s'_def release_def i_def Let_def)
  have e: "stored_ok h s' k j = stored_ok h s k j" for k j
    using i by (cases "j = i") (simp_all add: stored_ok_def on_disk_def f nth_list_update)
  have n: "int (open_leases s' j) = int (open_leases s j) - (if j = i then 1 else 0)" for j
  proof -
    obtain xs y ys where d: "st_leases s = xs @ y # ys" "l = length xs"
      using False id_take_nth_drop [of l "st_leases s"] by (metis length_take min.absorb2 nle_le not_le)
    then show ?thesis using False by (simp add: open_leases_def f i_def list_update_append)
  qed
  have "lease_ok s' x" if "x \<in> set (st_leases s')" for x
  proof -
    have "x = (st_leases s ! l)\<lparr>le_released := True\<rparr> \<or> x \<in> set (st_leases s)" using that set_update_subset_insert f(4) by fastforce
    then show ?thesis using ok False by (auto simp: store_ok_def list_all_iff lease_ok_def f i)
  qed
  moreover have "en_refs (st_heap s' ! j) = int (open_leases s' j)" if "j < length (st_heap s')" for j
    using ok that i unfolding n by (cases "j = i") (auto simp: f store_ok_def nth_list_update)
  moreover have "list_all le_released (st_leases s')" if "st_closed s'"
    using ok that False by (auto simp: f store_ok_def list_all_length)
  ultimately show ?thesis unfolding s'_def [symmetric]
    using ok by (simp add: store_ok_def e f(1-3) list_all_iff)
qed (use assms in \<open>auto simp: release_def\<close>)

lemma release_disk: "st_disk (release h now l s) = st_disk s"
  by (simp add: release_def Let_def)

lemma damage_other: "k' \<noteq> k \<Longrightarrow> on_disk (damage_view k f s) k' = on_disk s k'"
  by (cases "on_disk s k'") (simp_all add: on_disk_damage)

lemma remove_cases:
  obtains "snd (remove_snapshot os h required s) = s"
  | key where "\<not> pinned s key" "snd (remove_snapshot os h required s) = drop_view key s"
  | key f where "\<not> pinned s key" "snd (remove_snapshot os h required s) = damage_view key f s"
proof (cases "snapshot_key h required")
  case (Some key)
  show ?thesis
  proof (cases "st_closed s \<or> pinned s key \<or> st_active s \<noteq> 0")
    case True
    then show ?thesis using Some that(1) unfolding pinned_def by (auto simp: remove_snapshot_def)
  next
    case False
    then have "snd (remove_snapshot os h required s) = (case os key of Some f \<Rightarrow> damage_view key f s | None \<Rightarrow> drop_view key s)"
      using Some unfolding pinned_def by (cases "os key") (simp_all add: remove_snapshot_def)
    then show ?thesis using False that(2,3) [of key] by (cases "os key") simp_all
  qed
qed (use that(1) in \<open>simp add: remove_snapshot_def\<close>)

lemma remove_ok:
  assumes "store_ok h s"
  shows "store_ok h (snd (remove_snapshot os h required s))
    \<and> (\<forall>k. pinned s k \<longrightarrow> on_disk (snd (remove_snapshot os h required s)) k = on_disk s k)"
proof (cases rule: remove_cases [of os h required s])
  case (2 key)
  then show ?thesis using drop_ok [OF assms] by (auto simp: on_disk_drop)
next
  case (3 key f)
  then show ?thesis using damage_ok [OF assms] damage_other by metis
qed (use assms in simp)

lemma find_append: "find P (xs @ ys) = (case find P xs of Some d \<Rightarrow> Some d | None \<Rightarrow> find P ys)"
  by (induction xs) auto

lemma publish_new_ok:
  assumes ok: "store_ok h s" and n: "on_disk s key = None" and k: "snapshot_key h (mf_snapshot m) = Some key"
  shows "store_ok h (publish_new key stage m now s) \<and> (\<forall>k. on_disk s k \<noteq> None \<longrightarrow> on_disk (publish_new key stage m now s) k = on_disk s k)"
proof -
  define s1 where "s1 = s\<lparr>st_disk := st_disk s @ [stage\<lparr>de_name := key, de_manifest := Some m\<rparr>]\<rparr>"
  have od: "on_disk s1 k = (case on_disk s k of Some d \<Rightarrow> Some d | None \<Rightarrow> if k = key then Some (stage\<lparr>de_name := key, de_manifest := Some m\<rparr>) else None)" for k
    by (simp add: on_disk_def s1_def find_append split: option.split)
  have "key \<notin> de_name ` set (st_disk s)" using n by (auto simp: on_disk_def find_None_iff)
  moreover have f: "st_disk s1 = st_disk s @ [stage\<lparr>de_name := key, de_manifest := Some m\<rparr>]" "st_entries s1 = st_entries s"
    "st_heap s1 = st_heap s" "st_leases s1 = st_leases s" "st_closed s1 = st_closed s" by (simp_all add: s1_def)
  moreover have "stored_ok h s k i \<Longrightarrow> stored_ok h s1 k i" for k i by (auto simp: stored_ok_def od f)
  ultimately have "store_ok h s1" using ok
    by (auto simp: store_ok_def open_leases_def lease_ok_def [abs_def])
  moreover have "\<not> stored_ok h s key i" for i using n by (simp add: stored_ok_def)
  then have "map_of (st_entries s1) key = None" using ok f(2) unfolding store_ok_def by (metis not_None_eq)
  ultimately have a: "store_ok h (add_entry key m s1)" by (intro add_entry_ok) (use k od n in auto)
  have p: "publish_new key stage m now s = (add_entry key m s1)\<lparr>st_last_use := (st_last_use s1)(key \<mapsto> now)\<rparr>"
    by (simp add: publish_new_def s1_def)
  have "on_disk (publish_new key stage m now s) k = on_disk s1 k" for k by (simp add: p on_disk_def add_entry_def)
  moreover have "store_ok h (publish_new key stage m now s)"
    using a unfolding p store_ok_def stored_ok_def on_disk_def open_leases_def lease_ok_def [abs_def] by simp
  ultimately show ?thesis using od by (auto split: option.splits)
qed

lemma publish_cases:
  fixes h m
  defines "key \<equiv> dg_key h (mf_snapshot m)"
  obtains "snd (publish_stage os h room now stage m s) = s"
  | n where "snd (publish_stage os h room now stage m s) = snd (collect_views os h now n 1 False s)"
  | n s1 where "snd (publish_stage os h room now stage m s) = publish_new key stage m now s1" "manifest_valid h m" "on_disk s key = None"
      "s1 = s \<or> s1 = snd (collect_views os h now n 1 False s)"
proof (cases "\<not> manifest_valid h m \<or> \<not> de_intact stage \<or> \<not> room \<or> isl (tree_bytes stage) \<or> st_closed s")
  case True
  then show ?thesis using that(1) by (cases "tree_bytes stage") (auto simp: publish_stage_def Let_def)
next
  case False
  then obtain n where n: "tree_bytes stage = Inr n" by (cases "tree_bytes stage") auto
  show ?thesis
  proof (cases "on_disk s key")
    case (Some old)
    have "snd (publish_stage os h room now stage m s) = s"
      using False n Some unfolding key_def by (cases "check_published_root (Some old)") (auto simp: publish_stage_def Let_def)
    then show ?thesis by (rule that(1))
  next
    case None
    obtain e x s1 where c: "collect_views os h now n 1 False s = ((e, x), s1)" by (metis prod.collapse)
    have "snd (publish_stage os h room now stage m s)
      = (if st_retention s = None then publish_new key stage m now s else case e of Some _ \<Rightarrow> s1 | None \<Rightarrow> publish_new key stage m now s1)"
      using False n None c unfolding key_def by (cases e) (auto simp: publish_stage_def Let_def)
    then show ?thesis using that(2) [of n] that(3) [of s n] that(3) [of s1 n] None False c
      by (cases e) (auto split: if_splits)
  qed
qed

lemma publish_ok:
  assumes "store_ok h s"
  shows "store_ok h (snd (publish_stage os h room now stage m s))
    \<and> (\<forall>k. pinned s k \<longrightarrow> on_disk (snd (publish_stage os h room now stage m s)) k = on_disk s k)"
proof (cases rule: publish_cases [of os h room now stage m s])
  case (2 n)
  then show ?thesis using collect_ok [OF assms] by simp
next
  case (3 n s1)
  have key: "snapshot_key h (mf_snapshot m) = Some (dg_key h (mf_snapshot m))"
    using 3(2) by (auto simp: manifest_valid_def snapshot_key_def split: option.splits)
  have s1: "store_ok h s1" "on_disk s1 (dg_key h (mf_snapshot m)) = None" "\<forall>k. pinned s k \<longrightarrow> on_disk s1 k = on_disk s k"
    using 3(3,4) assms collect_ok [OF assms, of os now n 1 False] by auto
  show ?thesis using publish_new_ok [OF s1(1,2) key] s1(3) pinned_on_disk [OF assms] 3(1) by metis
qed (use assms in simp)

lemmas store_step_ok = acquire_ok release_ok remove_ok collect_ok publish_ok

text \<open>What every step keeps: the invariant, and the disk entry of every pinned view.\<close>

lemma step_keeps:
  assumes "store_step h s s'" "store_ok h s"
  shows "store_ok h s' \<and> (\<forall>k. pinned s k \<longrightarrow> on_disk s' k = on_disk s k)"
  using assms
proof (cases rule: store_step.cases)
  case (step_acquire now required)
  then show ?thesis using acquire_ok [OF assms(2)] by (simp add: on_disk_def)
next
  case (step_acquire_base now target)
  then show ?thesis using acquire_candidates_ok [OF assms(2)] assms(2)
    by (cases "inventory h s") (auto simp: acquire_base_def on_disk_def)
next
  case (step_release now l)
  then show ?thesis using release_ok [OF assms(2)] by (simp add: on_disk_def release_disk)
next
  case (step_prune os now)
  then show ?thesis using collect_ok [OF assms(2)] assms(2) by (simp add: prune_views_def)
next
  case (step_close now)
  have "list_all le_released (st_leases s)" if "\<not> list_ex (\<lambda>(key, i). en_refs (st_heap s ! i) \<noteq> 0) (st_entries s)"
  proof (rule ccontr)
    assume "\<not> list_all le_released (st_leases s)"
    then obtain l where "l \<in> set (st_leases s)" "\<not> le_released l" by (auto simp: list_all_iff)
    then obtain k where "map_of (st_entries s) k = Some (le_entry l)" "pinned s k" using open_lease_pinned [OF assms(2)] by metis
    then show False using that map_of_SomeD by (fastforce simp: list_ex_iff pinned_def)
  qed
  then show ?thesis using step_close assms(2)
    by (cases "save_retention_age now s") (auto simp: close_store_def store_ok_def on_disk_def stored_ok_def open_leases_def lease_ok_def [abs_def])
next
  case (step_reopen c now)
  then show ?thesis using assms(2) by (simp add: open_store_def store_ok_def on_disk_def)
qed (use remove_ok [OF assms(2)] publish_ok [OF assms(2)] assms(2) in
  \<open>auto simp: configure_retention_def begin_import_def end_import_def store_ok_def on_disk_def stored_ok_def open_leases_def lease_ok_def [abs_def] split: sum.splits\<close>)

text \<open>
  C14. Whatever operations run, in whatever order, and wherever the process restarts, the store
  keeps its invariant: unique views, entries under the key of their snapshot and on disk, reference
  counts that are exactly the number of leases not yet released, no lease without its entry, and
  no open lease in a closed store.
\<close>

theorem store_invariant: "store_reachable h s \<Longrightarrow> store_ok h s"
proof (induction rule: store_reachable.induct)
  case (reach_open disk c now)
  then show ?case by (simp add: open_store_def store_ok_def)
next
  case (reach_step s s')
  then show ?case using step_keeps by blast
qed

text \<open>A store with one published view that one reader holds.\<close>

definition sample_stage :: disk_entry where
  "sample_stage = \<lparr>de_name = ''import-1'', de_kind = Directory,
     de_part = (\<lambda>p. if p = ''manifest.json'' then Some (Regular 10) else Some Directory),
     de_manifest = None, de_intact = True, de_tree = [Directory, Regular 10, Directory, Regular 90], de_mod_time = 5\<rparr>"

definition opened_store :: snapshot_store where
  "opened_store = open_store [] None 1"

definition importing_store :: snapshot_store where
  "importing_store = snd (begin_import opened_store)"

definition published_store :: snapshot_store where
  "published_store = snd (publish_stage (\<lambda>_. None) toy_digests True 10 sample_stage sample_manifest importing_store)"

definition leased_store :: snapshot_store where
  "leased_store = snd (acquire toy_digests 20 (mf_snapshot sample_manifest) published_store)"

lemma leased_store_reachable: "store_reachable toy_digests leased_store"
proof -
  have "store_reachable toy_digests opened_store" unfolding opened_store_def by (rule reach_open) simp
  then have "store_reachable toy_digests importing_store" unfolding importing_store_def by (rule reach_step) (rule step_begin)
  then have "store_reachable toy_digests published_store" unfolding published_store_def
    by (rule reach_step) (rule step_publish, simp add: importing_store_def opened_store_def open_store_def begin_import_def)
  then show ?thesis unfolding leased_store_def by (rule reach_step) (rule step_acquire)
qed

lemma leased_store_lease: "st_leases leased_store = [\<lparr>le_entry = 0, le_released = False\<rparr>]" "st_closed leased_store = False"
  by code_simp+

theorem store_invariant_witness:
  "store_ok toy_digests leased_store \<and> st_leases leased_store = [\<lparr>le_entry = 0, le_released = False\<rparr>]"
  using store_invariant [OF leased_store_reachable] leased_store_lease(1) by simp

text \<open>
  C15. A view that is being read is never touched: no step of a store in its invariant, whether a
  removal, a collection, an import or a restart, and whatever the file system does, changes what
  is on disk under the snapshot of a lease that has not been released.
\<close>

theorem leased_view_kept:
  assumes "store_ok h s" "store_step h s s'" "l \<in> set (st_leases s)" "\<not> le_released l"
  shows "\<exists>k d. snapshot_key h (mf_snapshot (en_manifest (st_heap s ! le_entry l))) = Some k
    \<and> map_of (st_entries s) k = Some (le_entry l) \<and> on_disk s k = Some d \<and> on_disk s' k = Some d"
proof -
  obtain k where k: "map_of (st_entries s) k = Some (le_entry l)" "stored_ok h s k (le_entry l)" "pinned s k"
    using open_lease_pinned [OF assms(1,3,4)] .
  then obtain d where "on_disk s k = Some d" by (auto simp: stored_ok_def)
  moreover have "on_disk s' k = on_disk s k" using step_keeps [OF assms(2,1)] k(3) by blast
  ultimately show ?thesis using k(1,2) unfolding stored_ok_def by metis
qed

lemma leased_store_ok: "store_ok toy_digests leased_store"
  using leased_store_reachable
proof (induction rule: store_reachable.induct)
  case (reach_open disk c now)
  then show ?case by (simp add: open_store_def store_ok_def)
qed (use step_keeps in blast)

theorem leased_view_kept_witness:
  "\<exists>k d. snapshot_key toy_digests (mf_snapshot (en_manifest (st_heap leased_store ! 0))) = Some k
    \<and> map_of (st_entries leased_store) k = Some 0 \<and> on_disk leased_store k = Some d
    \<and> on_disk (snd (remove_snapshot (\<lambda>_. None) toy_digests (mf_snapshot sample_manifest) leased_store)) k = Some d"
  using leased_view_kept [OF leased_store_ok step_remove, of "\<lparr>le_entry = 0, le_released = False\<rparr>"] leased_store_lease(1) by simp

text \<open>
  A removal that fails half way leaves the entry of the view in the map, so the next \<open>Acquire\<close>
  hands out a lease on what the removal left behind, without the verification that a view read
  from disk gets.
\<close>

lemma failed_removal_served:
  assumes "snapshot_key h required = Some key" "map_of (st_entries s) key = Some i" "en_refs (st_heap s ! i) = 0"
    and "\<not> st_closed s" "st_active s = 0" "os key = Some f" "on_disk s key = Some d"
  defines "s1 \<equiv> snd (remove_snapshot os h required s)"
  shows "\<exists>n s2. acquire h now required s1 = (Inr n, s2) \<and> on_disk s2 key = Some ((f d)\<lparr>de_name := key\<rparr>)"
proof -
  have s1: "s1 = damage_view key f s" using assms by (simp add: s1_def remove_snapshot_def)
  have "acquire h now required s1 = pin i key now s1" using assms(1,2,4) by (simp add: acquire_def s1 damage_view_def)
  then show ?thesis using on_disk_damage [of key f s key] assms(7) by (auto simp: pin_def on_disk_def s1)
qed

definition kept_policy :: retention_policy where
  "kept_policy = \<lparr>rn_max_bytes = 150, rn_max_views = 2, rn_min_age = second, rn_max_age = hour\<rparr>"

definition full_store :: snapshot_store where
  "full_store = published_store\<lparr>st_retention := Some kept_policy\<rparr>"

definition full_items :: "retained_info list" where
  "full_items = [\<lparr>ti_key = replicate 64 (CHR ''c''), ti_descriptor = mf_snapshot sample_manifest, ti_bytes = 100, ti_used = 10, ti_pinned = False\<rparr>]"

lemma full_store_facts:
  "inventory toy_digests full_store = Inr full_items"
  "account full_items zero_stats = (None, \<lparr>rx_views = 1, rx_bytes = 100, rx_pinned = 0, rx_removed = 0, rx_removed_bytes = 0\<rparr>)"
  "st_retention full_store = Some kept_policy" "distinct (map de_name (st_disk full_store))"
  "filter (protected kept_policy (10 * hour)) full_items = []"
  by code_simp+

theorem collect_exact_witness:
  "\<exists>y s' kept. collect_views (\<lambda>_. None) toy_digests (10 * hour) 60 1 False full_store = ((None, y), s')
    \<and> inventory toy_digests s' = Inr kept \<and> bytes_of kept + 60 \<le> 150"
proof -
  obtain e y s' where c: "collect_views (\<lambda>_. None) toy_digests (10 * hour) 60 1 False full_store = ((e, y), s')" by (metis prod.collapse)
  show ?thesis using collect_exact [OF full_store_facts(1-4) _ _ c] c unfolding full_store_facts(5)
    by (auto simp: kept_policy_def over_def)
qed

end
