(* ===== verification/Search_Query.thy ===== *)
theory Search_Query
  imports Operation_Constraints
begin

text \<open>
  \<open>internal/service/search/parser.go\<close>: the parser of GitHub search queries. A query is split into
  tokens, and every token updates the structure of qualifiers; the parser of a qualifier is looked
  up in a table of functions. Pointers to booleans and numbers are options.
\<close>

section \<open>Tokens\<close>

abbreviation quote_char :: char where "quote_char \<equiv> CHR 0x22"

text \<open>\<open>strings.Fields\<close>, with the field read so far.\<close>

function fields_from :: "string \<Rightarrow> string \<Rightarrow> string list" where
  "fields_from current s =
     (case strip_first space_runes s of
        Some t \<Rightarrow> (if current = [] then [] else [current]) @ fields_from [] t
      | None \<Rightarrow> (case s of [] \<Rightarrow> if current = [] then [] else [current] | c # cs \<Rightarrow> fields_from (current @ [c]) cs))"
  by pat_completeness auto
termination
  by (relation "measure (\<lambda>(current, s). length s)") (auto dest: strip_first_shorter)

declare fields_from.simps [simp del]

definition string_fields :: "string \<Rightarrow> string list" where
  "string_fields s = fields_from [] s"

text \<open>The loop over the bytes of the query: the tokens, and whether a quote is open at the end.\<close>

fun token_loop :: "string list \<Rightarrow> string \<Rightarrow> bool \<Rightarrow> string \<Rightarrow> string list \<times> bool" where
  "token_loop tokens current in_quote [] = (if current \<noteq> [] then tokens @ [current] else tokens, in_quote)"
| "token_loop tokens current in_quote (c # cs) =
     (if c = quote_char then token_loop tokens (current @ [c]) (\<not> in_quote) cs
      else if c = CHR '' '' \<and> \<not> in_quote
      then (if current \<noteq> [] then token_loop (tokens @ [current]) [] in_quote cs else token_loop tokens current in_quote cs)
      else token_loop tokens (current @ [c]) in_quote cs)"

definition tokenize_search_query :: "string \<Rightarrow> string list" where
  "tokenize_search_query query =
     (let (tokens, in_quote) = token_loop [] [] False query
      in if in_quote \<and> tokens \<noteq> []
         then (let parts = string_fields (filter (\<lambda>c. c \<noteq> quote_char) (last tokens))
               in if parts \<noteq> [] then butlast tokens @ parts else tokens)
         else tokens)"

text \<open>\<open>SplitN(inner, ":", 2)\<close> when it has two parts.\<close>

definition cut_colon :: "string \<Rightarrow> (string \<times> string) option" where
  "cut_colon s = (if CHR '':'' \<in> set s then Some (takeWhile (\<lambda>c. c \<noteq> CHR '':'') s, tl (dropWhile (\<lambda>c. c \<noteq> CHR '':'') s)) else None)"

definition is_negated :: "string \<Rightarrow> bool" where
  "is_negated token \<longleftrightarrow> prefix ''-'' token \<and> length token > 1 \<and> CHR '':'' \<in> set token"

definition inner_token :: "string \<Rightarrow> string" where
  "inner_token token = (if is_negated token then tl token else token)"

definition unquote :: "string \<Rightarrow> string" where
  "unquote s = trim_char quote_char s"

text \<open>\<open>fmt.Sscanf\<close> with \<open>%d\<close>: blanks are skipped, a newline among them fails, what follows the digits is ignored.\<close>

fun scan_blanks :: "string \<Rightarrow> string option" where
  "scan_blanks [] = Some []"
| "scan_blanks (c # cs) =
     (if c = CHR 0x0D \<and> prefix [CHR 0x0A] cs then scan_blanks cs
      else if c = CHR 0x0A then None
      else if c \<in> {CHR '' '', CHR 0x09, CHR 0x0B, CHR 0x0C, CHR 0x0D} then scan_blanks cs
      else Some (c # cs))"

definition parse_number :: "string \<Rightarrow> int option" where
  "parse_number s =
     (case scan_blanks s of
        None \<Rightarrow> None
      | Some r \<Rightarrow>
          (let sign = (case r of c # _ \<Rightarrow> if c = CHR ''+'' \<or> c = CHR ''-'' then [c] else [] | [] \<Rightarrow> []);
               digits = takeWhile (\<lambda>c. digit_of c \<noteq> None) (drop (length sign) r)
           in if digits = [] then None else parse_int64 (sign @ digits)))"

section \<open>Qualifiers\<close>

record core_filters =
  cf_repo :: string
  cf_repos :: "string list"
  cf_state :: string
  cf_state_conflict :: bool
  cf_author :: string
  cf_assignee :: string
  cf_review_requested :: string
  cf_labels :: "string list list"
  cf_free_text :: "string list"
  cf_is_pr :: bool
  cf_is_issue :: bool
  cf_number :: "int option"
  cf_draft :: bool
  cf_draft_set :: bool
  cf_review :: string
  cf_reviewed_by :: string
  cf_sort :: string
  cf_order :: string
  cf_reason :: string
  cf_involves :: string
  cf_merged :: "bool option"

record negation_filters =
  nf_labels :: "string list list"
  nf_author :: string
  nf_assignee :: string

record metadata_filters =
  md_no_label :: bool
  md_no_assignee :: bool
  md_no_milestone :: bool
  md_no_project :: bool
  md_has_label :: bool
  md_has_assignee :: bool

text \<open>The plain text fields of \<open>ParserFields\<close> are named by a type of their own.\<close>

datatype text_field =
  Mentions | Team | Commenter | UserReviewRequested | TeamReviewRequested | Milestone | Project | Language
| User | Org | Fork | Visibility | Status | Linked | Comments | Interactions | Reactions | Closed | Created
| Pushed | Updated | MergedDate | Head | Base | Size | Topics | Stars | Forks | License

record parser_fields =
  pf_text :: "text_field \<Rightarrow> string"
  pf_topic :: "string list"
  pf_archived :: "bool option"
  pf_is_locked :: "bool option"
  pf_is_sponsored :: "bool option"
  pf_in :: "string list"

record search_qualifiers =
  sq_core :: core_filters
  sq_negation :: negation_filters
  sq_metadata :: metadata_filters
  sq_fields :: parser_fields

definition zero_core :: core_filters where
  "zero_core = \<lparr>cf_repo = [], cf_repos = [], cf_state = [], cf_state_conflict = False, cf_author = [], cf_assignee = [],
     cf_review_requested = [], cf_labels = [], cf_free_text = [], cf_is_pr = False, cf_is_issue = False, cf_number = None,
     cf_draft = False, cf_draft_set = False, cf_review = [], cf_reviewed_by = [], cf_sort = [], cf_order = [],
     cf_reason = [], cf_involves = [], cf_merged = None\<rparr>"

definition zero_qualifiers :: search_qualifiers where
  "zero_qualifiers = \<lparr>sq_core = zero_core, sq_negation = \<lparr>nf_labels = [], nf_author = [], nf_assignee = []\<rparr>,
     sq_metadata = \<lparr>md_no_label = False, md_no_assignee = False, md_no_milestone = False, md_no_project = False,
       md_has_label = False, md_has_assignee = False\<rparr>,
     sq_fields = \<lparr>pf_text = (\<lambda>_. []), pf_topic = [], pf_archived = None, pf_is_locked = None, pf_is_sponsored = None, pf_in = []\<rparr>\<rparr>"

definition on_core :: "(core_filters \<Rightarrow> core_filters) \<Rightarrow> search_qualifiers \<Rightarrow> search_qualifiers" where
  "on_core f q = q\<lparr>sq_core := f (sq_core q)\<rparr>"

definition on_negation :: "(negation_filters \<Rightarrow> negation_filters) \<Rightarrow> search_qualifiers \<Rightarrow> search_qualifiers" where
  "on_negation f q = q\<lparr>sq_negation := f (sq_negation q)\<rparr>"

definition on_metadata :: "(metadata_filters \<Rightarrow> metadata_filters) \<Rightarrow> search_qualifiers \<Rightarrow> search_qualifiers" where
  "on_metadata f q = q\<lparr>sq_metadata := f (sq_metadata q)\<rparr>"

definition on_fields :: "(parser_fields \<Rightarrow> parser_fields) \<Rightarrow> search_qualifiers \<Rightarrow> search_qualifiers" where
  "on_fields f q = q\<lparr>sq_fields := f (sq_fields q)\<rparr>"

type_synonym qualifier_parser = "string \<Rightarrow> string \<Rightarrow> bool \<Rightarrow> search_qualifiers \<Rightarrow> search_qualifiers"

definition parse_label_group :: "string \<Rightarrow> string list" where
  "parse_label_group v = filter (\<lambda>p. p \<noteq> []) (map trim_space (split_on (CHR '','') (unquote v)))"

definition core_field :: "(string \<Rightarrow> core_filters \<Rightarrow> core_filters) \<Rightarrow> qualifier_parser" where
  "core_field upd v raw negated q = (if \<not> negated then on_core (upd v) q else q)"

definition text_parser :: "text_field \<Rightarrow> qualifier_parser" where
  "text_parser f v raw negated q = (if \<not> negated then on_fields (\<lambda>p. p\<lparr>pf_text := (pf_text p)(f := v)\<rparr>) q else q)"

definition parse_label_qualifier :: qualifier_parser where
  "parse_label_qualifier v raw negated q =
     (let group = parse_label_group raw
      in if group \<noteq> [] then
           if negated then on_negation (\<lambda>n. n\<lparr>nf_labels := nf_labels n @ [group]\<rparr>) q
           else on_core (\<lambda>c. c\<lparr>cf_labels := cf_labels c @ [group]\<rparr>) q
         else q)"

definition parse_topic_qualifier :: qualifier_parser where
  "parse_topic_qualifier v raw negated q =
     (if negated then q
      else on_fields (\<lambda>p. p\<lparr>pf_topic := pf_topic p @ filter (\<lambda>t. t \<noteq> []) (map trim_space (split_on (CHR '','') v))\<rparr>) q)"

definition parse_repo_qualifier :: qualifier_parser where
  "parse_repo_qualifier v raw negated q =
     (if negated \<or> v = [] then q else on_core (\<lambda>c. c\<lparr>cf_repo := v, cf_repos := cf_repos c @ [v]\<rparr>) q)"

definition state_filter :: "string \<Rightarrow> core_filters \<Rightarrow> core_filters" where
  "state_filter v c =
     (let state = to_lower v
      in if cf_state_conflict c then c
         else if state = [] then c
         else if state = ''all'' then (if cf_state c = [] then c\<lparr>cf_state := state\<rparr> else c)
         else if cf_state c = [] \<or> cf_state c = ''all'' then c\<lparr>cf_state := state\<rparr>
         else if cf_state c \<noteq> state then c\<lparr>cf_state_conflict := True\<rparr>
         else c)"

definition set_state_filter :: "string \<Rightarrow> search_qualifiers \<Rightarrow> search_qualifiers" where
  "set_state_filter v q = on_core (state_filter v) q"

definition parse_state_qualifier :: qualifier_parser where
  "parse_state_qualifier v raw negated q = (if \<not> negated then set_state_filter v q else q)"

definition only_pr :: "search_qualifiers \<Rightarrow> search_qualifiers" where
  "only_pr q = on_core (\<lambda>c. c\<lparr>cf_is_pr := True, cf_is_issue := False\<rparr>) q"

definition only_issue :: "search_qualifiers \<Rightarrow> search_qualifiers" where
  "only_issue q = on_core (\<lambda>c. c\<lparr>cf_is_issue := True, cf_is_pr := False\<rparr>) q"

definition parse_is_qualifier :: qualifier_parser where
  "parse_is_qualifier v raw negated q =
     (let w = to_lower v
      in if w = ''open'' \<or> w = ''closed'' then (if \<not> negated then set_state_filter v q else q)
         else if w = ''pr'' then (if \<not> negated then only_pr q else only_issue q)
         else if w = ''merged'' then
           (if \<not> negated then on_core (\<lambda>c. c\<lparr>cf_merged := Some True\<rparr>) (set_state_filter ''closed'' (only_pr q)) else q)
         else if w = ''unmerged'' then
           (if \<not> negated then on_core (\<lambda>c. c\<lparr>cf_merged := Some False\<rparr>) (only_pr q) else q)
         else if w = ''draft'' then on_core (\<lambda>c. c\<lparr>cf_draft_set := True, cf_is_pr := True, cf_draft := \<not> negated\<rparr>) q
         else if w = ''locked'' then on_fields (\<lambda>p. p\<lparr>pf_is_locked := Some (\<not> negated)\<rparr>) q
         else if w = ''unlocked'' then on_fields (\<lambda>p. p\<lparr>pf_is_locked := Some negated\<rparr>) q
         else if w = ''sponsored'' then on_fields (\<lambda>p. p\<lparr>pf_is_sponsored := Some (\<not> negated)\<rparr>) q
         else if w = ''issue'' then (if \<not> negated then only_issue q else only_pr q)
         else q)"

definition parse_author_qualifier :: qualifier_parser where
  "parse_author_qualifier v raw negated q =
     (if negated then on_negation (\<lambda>n. n\<lparr>nf_author := v\<rparr>) q else on_core (\<lambda>c. c\<lparr>cf_author := v\<rparr>) q)"

definition parse_assignee_qualifier :: qualifier_parser where
  "parse_assignee_qualifier v raw negated q =
     (if negated then on_negation (\<lambda>n. n\<lparr>nf_assignee := v\<rparr>) q else on_core (\<lambda>c. c\<lparr>cf_assignee := v\<rparr>) q)"

definition parse_review_qualifier :: qualifier_parser where
  "parse_review_qualifier v raw negated q =
     (if \<not> negated then on_core (\<lambda>c. c\<lparr>cf_review := v, cf_is_pr := True\<rparr>) q else q)"

definition parse_in_qualifier :: qualifier_parser where
  "parse_in_qualifier v raw negated q =
     (if \<not> negated then on_fields (\<lambda>p. p\<lparr>pf_in := pf_in p @ split_on (CHR '','') v\<rparr>) q else q)"

definition parse_draft_qualifier :: qualifier_parser where
  "parse_draft_qualifier v raw negated q =
     (let b = (v = ''true'')
      in on_core (\<lambda>c. c\<lparr>cf_draft_set := True, cf_is_pr := True, cf_draft := (if negated then \<not> b else b)\<rparr>) q)"

definition parse_archived_qualifier :: qualifier_parser where
  "parse_archived_qualifier v raw negated q =
     (let b = (v = ''true'') in on_fields (\<lambda>p. p\<lparr>pf_archived := Some (if negated then \<not> b else b)\<rparr>) q)"

definition parse_type_qualifier :: qualifier_parser where
  "parse_type_qualifier v raw negated q =
     (let w = to_lower v
      in if w = ''pr'' then (if \<not> negated then only_pr q else only_issue q)
         else if w = ''issue'' then (if \<not> negated then only_issue q else only_pr q)
         else q)"

definition parse_sort_qualifier :: qualifier_parser where
  "parse_sort_qualifier v raw negated q = (if \<not> negated then on_core (\<lambda>c. c\<lparr>cf_sort := v\<rparr>) q else q)"

definition parse_order_qualifier :: qualifier_parser where
  "parse_order_qualifier v raw negated q = (if \<not> negated then on_core (\<lambda>c. c\<lparr>cf_order := v\<rparr>) q else q)"

definition parse_no_qualifier :: qualifier_parser where
  "parse_no_qualifier v raw negated q =
     (if negated then q
      else (let w = to_lower v
            in if w = ''label'' then on_metadata (\<lambda>m. m\<lparr>md_no_label := True\<rparr>) q
               else if w = ''assignee'' then on_metadata (\<lambda>m. m\<lparr>md_no_assignee := True\<rparr>) q
               else if w = ''milestone'' then on_metadata (\<lambda>m. m\<lparr>md_no_milestone := True\<rparr>) q
               else if w = ''project'' then on_metadata (\<lambda>m. m\<lparr>md_no_project := True\<rparr>) q
               else q))"

definition parse_has_qualifier :: qualifier_parser where
  "parse_has_qualifier v raw negated q =
     (if negated then q
      else (let w = to_lower v
            in if w = ''label'' then on_metadata (\<lambda>m. m\<lparr>md_has_label := True\<rparr>) q
               else if w = ''assignee'' then on_metadata (\<lambda>m. m\<lparr>md_has_assignee := True\<rparr>) q
               else q))"

definition qualifier_parsers :: "(string \<times> qualifier_parser) list" where
  "qualifier_parsers =
     [(''repo'', parse_repo_qualifier), (''label'', parse_label_qualifier), (''state'', parse_state_qualifier),
      (''is'', parse_is_qualifier), (''author'', parse_author_qualifier), (''assignee'', parse_assignee_qualifier),
      (''review-requested'', core_field (\<lambda>v c. c\<lparr>cf_review_requested := v\<rparr>)),
      (''user-review-requested'', text_parser UserReviewRequested), (''team-review-requested'', text_parser TeamReviewRequested),
      (''reviewed-by'', core_field (\<lambda>v c. c\<lparr>cf_reviewed_by := v\<rparr>)), (''review'', parse_review_qualifier),
      (''team'', text_parser Team), (''commenter'', text_parser Commenter), (''mentions'', text_parser Mentions),
      (''project'', text_parser Project), (''milestone'', text_parser Milestone), (''language'', text_parser Language),
      (''topic'', parse_topic_qualifier), (''user'', text_parser User), (''org'', text_parser Org), (''fork'', text_parser Fork),
      (''visibility'', text_parser Visibility), (''status'', text_parser Status), (''linked'', text_parser Linked),
      (''comments'', text_parser Comments), (''interactions'', text_parser Interactions), (''reactions'', text_parser Reactions),
      (''head'', text_parser Head), (''base'', text_parser Base), (''closed'', text_parser Closed), (''created'', text_parser Created),
      (''pushed'', text_parser Pushed), (''updated'', text_parser Updated), (''size'', text_parser Size), (''topics'', text_parser Topics),
      (''number-topics'', text_parser Topics), (''stars'', text_parser Stars), (''forks'', text_parser Forks),
      (''license'', text_parser License), (''merged'', text_parser MergedDate), (''in'', parse_in_qualifier),
      (''draft'', parse_draft_qualifier), (''archived'', parse_archived_qualifier), (''type'', parse_type_qualifier),
      (''sort'', parse_sort_qualifier), (''order'', parse_order_qualifier),
      (''no'', parse_no_qualifier), (''has'', parse_has_qualifier),
      (''reason'', core_field (\<lambda>v c. c\<lparr>cf_reason := v\<rparr>)), (''involves'', core_field (\<lambda>v c. c\<lparr>cf_involves := v\<rparr>))]"

definition add_free_text :: "string \<Rightarrow> search_qualifiers \<Rightarrow> search_qualifiers" where
  "add_free_text token q = on_core (\<lambda>c. c\<lparr>cf_free_text := cf_free_text c @ [unquote token]\<rparr>) q"

definition parse_token :: "string \<Rightarrow> search_qualifiers \<Rightarrow> search_qualifiers" where
  "parse_token token q =
     (case (if \<not> is_negated token \<and> prefix ''#'' token then parse_number (tl token) else None) of
        Some n \<Rightarrow> on_core (\<lambda>c. c\<lparr>cf_number := Some n\<rparr>) q
      | None \<Rightarrow>
          (case cut_colon (inner_token token) of
             None \<Rightarrow> if \<not> is_negated token then add_free_text token q else q
           | Some (key, value) \<Rightarrow>
               (case map_of qualifier_parsers (to_lower key) of
                  Some parser \<Rightarrow> parser (unquote value) value (is_negated token) q
                | None \<Rightarrow> if \<not> is_negated token then add_free_text token q else q)))"

definition parse_search_query :: "string \<Rightarrow> search_qualifiers" where
  "parse_search_query query = fold parse_token (tokenize_search_query query) zero_qualifiers"

section \<open>Commit and code queries\<close>

record commit_query =
  cq_free_text :: "string list"
  cq_repo :: string
  cq_repos :: "string list"
  cq_author :: string
  cq_committer :: string
  cq_author_name :: string
  cq_author_email :: string
  cq_committer_name :: string
  cq_committer_email :: string
  cq_hash :: string
  cq_parent :: string
  cq_tree :: string
  cq_author_date :: string
  cq_committer_date :: string
  cq_merge :: "bool option"
  cq_org :: string
  cq_user :: string
  cq_visibility :: string
  cq_has_qualifiers :: bool

definition zero_commit_query :: commit_query where
  "zero_commit_query = \<lparr>cq_free_text = [], cq_repo = [], cq_repos = [], cq_author = [], cq_committer = [], cq_author_name = [],
     cq_author_email = [], cq_committer_name = [], cq_committer_email = [], cq_hash = [], cq_parent = [], cq_tree = [],
     cq_author_date = [], cq_committer_date = [], cq_merge = None, cq_org = [], cq_user = [], cq_visibility = [], cq_has_qualifiers = False\<rparr>"

definition has_commit_filters :: "commit_query \<Rightarrow> bool" where
  "has_commit_filters q \<longleftrightarrow> cq_author q \<noteq> [] \<or> cq_committer q \<noteq> [] \<or> cq_author_name q \<noteq> [] \<or> cq_author_email q \<noteq> []
     \<or> cq_committer_name q \<noteq> [] \<or> cq_committer_email q \<noteq> [] \<or> cq_hash q \<noteq> [] \<or> cq_parent q \<noteq> [] \<or> cq_tree q \<noteq> []
     \<or> cq_author_date q \<noteq> [] \<or> cq_committer_date q \<noteq> [] \<or> cq_merge q \<noteq> None"

definition commit_qualifier_keys :: "string list" where
  "commit_qualifier_keys =
     [''author'', ''author-date'', ''author-email'', ''author-name'', ''committer'', ''committer-date'', ''committer-email'',
      ''committer-name'', ''hash'', ''is'', ''merge'', ''org'', ''parent'', ''repo'', ''tree'', ''user'', ''visibility'']"

definition set_commit_qualifier :: "string \<Rightarrow> string \<Rightarrow> commit_query \<Rightarrow> commit_query" where
  "set_commit_qualifier key value q =
     (if key = ''repo'' then (if value \<noteq> [] then q\<lparr>cq_repo := value, cq_repos := cq_repos q @ [value]\<rparr> else q)
      else if key = ''author'' then q\<lparr>cq_author := value\<rparr>
      else if key = ''committer'' then q\<lparr>cq_committer := value\<rparr>
      else if key = ''author-name'' then q\<lparr>cq_author_name := value\<rparr>
      else if key = ''author-email'' then q\<lparr>cq_author_email := value\<rparr>
      else if key = ''committer-name'' then q\<lparr>cq_committer_name := value\<rparr>
      else if key = ''committer-email'' then q\<lparr>cq_committer_email := value\<rparr>
      else if key = ''hash'' then q\<lparr>cq_hash := value\<rparr>
      else if key = ''parent'' then q\<lparr>cq_parent := value\<rparr>
      else if key = ''tree'' then q\<lparr>cq_tree := value\<rparr>
      else if key = ''author-date'' then q\<lparr>cq_author_date := value\<rparr>
      else if key = ''committer-date'' then q\<lparr>cq_committer_date := value\<rparr>
      else if key = ''is'' then (if to_lower value = ''merge'' then q\<lparr>cq_merge := Some True\<rparr> else q)
      else if key = ''merge'' then q\<lparr>cq_merge := Some (to_lower value = ''true'' \<or> value = [])\<rparr>
      else if key = ''org'' then q\<lparr>cq_org := value\<rparr>
      else if key = ''user'' then q\<lparr>cq_user := value\<rparr>
      else if key = ''visibility'' then q\<lparr>cq_visibility := to_lower value\<rparr>
      else q)"

definition commit_token :: "string \<Rightarrow> commit_query \<Rightarrow> commit_query" where
  "commit_token token q =
     (case cut_colon (inner_token token) of
        None \<Rightarrow> q\<lparr>cq_free_text := cq_free_text q @ [unquote token]\<rparr>
      | Some (key0, raw) \<Rightarrow>
          (let key = to_lower key0; value = unquote raw
           in if key \<in> set commit_qualifier_keys
              then (let q1 = q\<lparr>cq_has_qualifiers := True\<rparr> in if is_negated token then q1 else set_commit_qualifier key value q1)
              else if \<not> is_negated token then q\<lparr>cq_free_text := cq_free_text q @ [unquote token]\<rparr>
              else q))"

definition parse_commit_search_query :: "string \<Rightarrow> commit_query" where
  "parse_commit_search_query query = fold commit_token (tokenize_search_query query) zero_commit_query"

record code_query =
  ce_free_text :: "string list"
  ce_repos :: "string list"
  ce_repo :: string
  ce_filename :: string
  ce_extensions :: "string list"
  ce_path :: string
  ce_language :: string
  ce_negated_qualifiers :: "string list"
  ce_has_qualifiers :: bool

definition zero_code_query :: code_query where
  "zero_code_query = \<lparr>ce_free_text = [], ce_repos = [], ce_repo = [], ce_filename = [], ce_extensions = [], ce_path = [],
     ce_language = [], ce_negated_qualifiers = [], ce_has_qualifiers = False\<rparr>"

definition code_qualifier_keys :: "string list" where
  "code_qualifier_keys = [''repo'', ''filename'', ''extension'', ''path'', ''language'']"

definition dotted_extension :: "string \<Rightarrow> string" where
  "dotted_extension part = (let ext = trim_space part in if ext \<noteq> [] \<and> \<not> prefix ''.'' ext then ''.'' @ ext else ext)"

definition set_code_qualifier :: "string \<Rightarrow> string \<Rightarrow> code_query \<Rightarrow> code_query" where
  "set_code_qualifier key value q =
     (if key = ''repo'' then (if value \<noteq> [] then q\<lparr>ce_repo := value, ce_repos := ce_repos q @ [value]\<rparr> else q)
      else if key = ''filename'' then q\<lparr>ce_filename := value\<rparr>
      else if key = ''extension'' then q\<lparr>ce_extensions := ce_extensions q @ map dotted_extension (split_on (CHR '','') value)\<rparr>
      else if key = ''path'' then q\<lparr>ce_path := value\<rparr>
      else if key = ''language'' then q\<lparr>ce_language := to_lower value\<rparr>
      else q)"

definition code_token :: "string \<Rightarrow> code_query \<Rightarrow> code_query" where
  "code_token token q =
     (case cut_colon (inner_token token) of
        None \<Rightarrow> q\<lparr>ce_free_text := ce_free_text q @ [unquote token]\<rparr>
      | Some (key0, raw) \<Rightarrow>
          (let key = to_lower key0; value = unquote raw
           in if key \<in> set code_qualifier_keys
              then (let q1 = q\<lparr>ce_has_qualifiers := True\<rparr>
                    in if is_negated token then q1\<lparr>ce_negated_qualifiers := ce_negated_qualifiers q1 @ [token]\<rparr>
                       else set_code_qualifier key value q1)
              else if \<not> is_negated token then q\<lparr>ce_free_text := ce_free_text q @ [unquote token]\<rparr>
              else q))"

definition parse_code_search_query :: "string \<Rightarrow> code_query" where
  "parse_code_search_query query = fold code_token (tokenize_search_query query) zero_code_query"

definition language_extensions :: "(string \<times> string list) list" where
  "language_extensions =
     [(''go'', [''.go'']), (''golang'', [''.go'']), (''python'', [''.py'', ''.pyw'', ''.pyi'']), (''py'', [''.py'', ''.pyw'', ''.pyi'']),
      (''javascript'', [''.js'', ''.jsx'', ''.mjs'', ''.cjs'']), (''js'', [''.js'', ''.jsx'', ''.mjs'', ''.cjs'']),
      (''typescript'', [''.ts'', ''.tsx'', ''.mts'', ''.cts'']), (''ts'', [''.ts'', ''.tsx'', ''.mts'', ''.cts'']),
      (''java'', [''.java'']), (''c'', [''.c'', ''.h'']), (''c++'', [''.cpp'', ''.cc'', ''.cxx'', ''.hpp'', ''.hxx'']),
      (''cpp'', [''.cpp'', ''.cc'', ''.cxx'', ''.hpp'', ''.hxx'']), (''c#'', [''.cs'']), (''csharp'', [''.cs'']),
      (''ruby'', [''.rb'', ''.erb'', ''.rake'']), (''rb'', [''.rb'', ''.erb'', ''.rake'']), (''rust'', [''.rs'']),
      (''php'', [''.php'', ''.php3'', ''.php4'', ''.php5'', ''.phtml'']), (''swift'', [''.swift'']), (''kotlin'', [''.kt'', ''.kts'']),
      (''scala'', [''.scala'', ''.sc'']), (''html'', [''.html'', ''.htm'', ''.xhtml'']), (''css'', [''.css'', ''.scss'', ''.sass'', ''.less'']),
      (''shell'', [''.sh'', ''.bash'', ''.zsh'', ''.fish'']), (''bash'', [''.sh'', ''.bash'']), (''sql'', [''.sql'']),
      (''yaml'', [''.yaml'', ''.yml'']), (''yml'', [''.yaml'', ''.yml'']), (''json'', [''.json'']), (''xml'', [''.xml'']),
      (''markdown'', [''.md'', ''.markdown'']), (''md'', [''.md'', ''.markdown'']), (''dockerfile'', [''Dockerfile'', ''.dockerfile'']),
      (''makefile'', [''Makefile'', ''makefile'', ''.mk'']), (''text'', [''.txt'']), (''plaintext'', [''.txt''])]"

definition extensions_for_language :: "string \<Rightarrow> string list" where
  "extensions_for_language language = (case map_of language_extensions (to_lower language) of Some es \<Rightarrow> es | None \<Rightarrow> [])"

section \<open>Tokens of a query\<close>

text \<open>A token is closed when its quotes are paired and its blanks are inside them.\<close>

fun closes :: "bool \<Rightarrow> string \<Rightarrow> bool" where
  "closes in_quote [] \<longleftrightarrow> \<not> in_quote"
| "closes in_quote (c # cs) \<longleftrightarrow>
     (if c = quote_char then closes (\<not> in_quote) cs else (in_quote \<or> c \<noteq> CHR '' '') \<and> closes in_quote cs)"

definition closed_token :: "string \<Rightarrow> bool" where
  "closed_token t \<longleftrightarrow> t \<noteq> [] \<and> closes False t"

lemma token_loop_closes:
  "closes b t \<Longrightarrow> token_loop ts cur b (t @ rest) = token_loop ts (cur @ t) False rest"
  by (induction b t arbitrary: cur rule: closes.induct) (auto split: if_splits)

lemma token_loop_prefix:
  "list_all closed_token ts \<Longrightarrow> token_loop tokens [] False (join_with '' '' (ts @ [x])) = token_loop (tokens @ ts) [] False x"
proof (induction ts arbitrary: tokens)
  case (Cons u us)
  obtain v vs where v: "us @ [x] = v # vs" by (cases "us @ [x]") auto
  have u: "u \<noteq> []" "closes False u" using Cons.prems by (auto simp: closed_token_def)
  have "token_loop tokens [] False (join_with '' '' ((u # us) @ [x])) = token_loop tokens u False ('' '' @ join_with '' '' (us @ [x]))"
    using token_loop_closes [OF u(2), of tokens "[]"] v by simp
  also have "\<dots> = token_loop (tokens @ [u]) [] False (join_with '' '' (us @ [x]))" using u(1) by simp
  finally show ?case using Cons.IH [of "tokens @ [u]"] Cons.prems by simp
qed simp

text \<open>Behind an open quote nothing splits.\<close>

lemma token_loop_open:
  "quote_char \<notin> set s \<Longrightarrow> token_loop ts cur True s = (if cur @ s \<noteq> [] then ts @ [cur @ s] else ts, True)"
  by (induction s arbitrary: cur) auto

text \<open>
  C40. Splitting a query undoes writing it: tokens whose quotes are paired and whose blanks are
  quoted, joined by blanks, are read back as they were. A quote that is never closed does not
  swallow what follows it: the tokens before it are kept and the rest is split at its blanks.
\<close>

theorem search_tokens_round_trip:
  assumes "list_all closed_token ts"
  shows "tokenize_search_query (join_with '' '' ts) = ts
    \<and> (\<forall>p rest. closes False p \<and> quote_char \<notin> set rest \<and> string_fields (filter (\<lambda>c. c \<noteq> quote_char) (p @ rest)) \<noteq> []
        \<longrightarrow> tokenize_search_query (join_with '' '' (ts @ [p @ quote_char # rest])) = ts @ string_fields (filter (\<lambda>c. c \<noteq> quote_char) (p @ rest)))"
proof (intro conjI allI impI)
  show "tokenize_search_query (join_with '' '' ts) = ts"
  proof (cases ts rule: rev_cases)
    case Nil
    then show ?thesis by (simp add: tokenize_search_query_def)
  next
    case (snoc us t)
    then have t: "t \<noteq> []" "closes False t" "list_all closed_token us" using assms by (auto simp: closed_token_def)
    have "token_loop [] [] False (join_with '' '' ts) = (ts, False)"
      using token_loop_prefix [OF t(3), of "[]" t] token_loop_closes [OF t(2), of us "[]" "[]"] t(1) snoc by simp
    then show ?thesis by (simp add: tokenize_search_query_def)
  qed
next
  fix p rest
  assume h: "closes False p \<and> quote_char \<notin> set rest \<and> string_fields (filter (\<lambda>c. c \<noteq> quote_char) (p @ rest)) \<noteq> []"
  have "token_loop [] [] False (join_with '' '' (ts @ [p @ quote_char # rest])) = (ts @ [p @ quote_char # rest], True)"
    using token_loop_prefix [OF assms, of "[]" "p @ quote_char # rest"] token_loop_closes [of False p ts "[]" "quote_char # rest"]
      token_loop_open [of rest ts "p @ [quote_char]"] h by simp
  then show "tokenize_search_query (join_with '' '' (ts @ [p @ quote_char # rest])) = ts @ string_fields (filter (\<lambda>c. c \<noteq> quote_char) (p @ rest))"
    using h by (simp add: tokenize_search_query_def)
qed

definition quoted_label :: string where
  "quoted_label = ''label:'' @ [quote_char] @ ''bug fix'' @ [quote_char]"

lemma quoted_label_split:
  "closed_token quoted_label" "string_fields (filter (\<lambda>c. c \<noteq> quote_char) (''label:'' @ ''bug state:open'')) = [''label:bug'', ''state:open'']"
  by code_simp+

theorem search_tokens_round_trip_witness:
  "tokenize_search_query (join_with '' '' [quoted_label]) = [quoted_label]
    \<and> tokenize_search_query (join_with '' '' [quoted_label, ''label:'' @ quote_char # ''bug state:open''])
      = [quoted_label, ''label:bug'', ''state:open'']"
proof -
  have c: "list_all closed_token [quoted_label]" using quoted_label_split(1) by simp
  have p: "closes False ''label:''" "quote_char \<notin> set ''bug state:open''" by simp_all
  note r = search_tokens_round_trip [OF c]
  from conjunct2 [OF r, rule_format, of "''label:''" "''bug state:open''", unfolded quoted_label_split(2)] p
  have "tokenize_search_query (join_with '' '' ([quoted_label] @ [''label:'' @ quote_char # ''bug state:open'']))
      = [quoted_label] @ [''label:bug'', ''state:open'']" by blast
  then show ?thesis using conjunct1 [OF r] by simp
qed

section \<open>The state of a query\<close>

definition state_vote :: "string \<Rightarrow> string option" where
  "state_vote token =
     (if is_negated token \<or> (prefix ''#'' token \<and> parse_number (tl token) \<noteq> None) then None
      else case cut_colon token of
             None \<Rightarrow> None
           | Some (key, value) \<Rightarrow>
               (let w = to_lower (unquote value)
                in if to_lower key = ''state'' then (if w = [] then None else Some w)
                   else if to_lower key = ''is''
                   then (if w = ''open'' \<or> w = ''closed'' then Some w else if w = ''merged'' then Some ''closed'' else None)
                   else None))"

definition state_of :: "search_qualifiers \<Rightarrow> string \<times> bool" where
  "state_of q = (cf_state (sq_core q), cf_state_conflict (sq_core q))"

definition keeps_state :: "qualifier_parser \<Rightarrow> bool" where
  "keeps_state p \<longleftrightarrow> (\<forall>v raw n q. state_of (p v raw n q) = state_of q)"

lemma on_core_state [simp]:
  "cf_state (f (sq_core q)) = cf_state (sq_core q) \<Longrightarrow> cf_state_conflict (f (sq_core q)) = cf_state_conflict (sq_core q)
    \<Longrightarrow> state_of (on_core f q) = state_of q"
  "state_of (on_negation g q) = state_of q" "state_of (on_metadata h q) = state_of q" "state_of (on_fields k q) = state_of q"
  by (simp_all add: state_of_def on_core_def on_negation_def on_metadata_def on_fields_def)

lemma other_parsers_keep_state:
  "list_all (\<lambda>(k, p). k = ''state'' \<or> k = ''is'' \<or> keeps_state p) qualifier_parsers"
  by (simp add: qualifier_parsers_def keeps_state_def core_field_def text_parser_def parse_label_qualifier_def parse_topic_qualifier_def
      parse_repo_qualifier_def parse_author_qualifier_def parse_assignee_qualifier_def parse_review_qualifier_def parse_in_qualifier_def
      parse_draft_qualifier_def parse_archived_qualifier_def parse_type_qualifier_def parse_sort_qualifier_def parse_order_qualifier_def parse_no_qualifier_def parse_has_qualifier_def
      only_pr_def only_issue_def Let_def)

definition all_states :: string where "all_states = ''all''"

definition state_step :: "string \<Rightarrow> string \<times> bool \<Rightarrow> string \<times> bool" where
  "state_step v st =
     (let (s, conflict) = st
      in if conflict \<or> v = [] then st
         else if v = all_states then (if s = [] then (v, conflict) else st)
         else if s = [] \<or> s = all_states then (v, conflict)
         else (s, s \<noteq> v))"

lemma set_state_step: "state_of (set_state_filter v q) = state_step (to_lower v) (state_of q)"
  by (auto simp: state_of_def set_state_filter_def on_core_def state_filter_def state_step_def all_states_def Let_def)

lemma is_parser_state:
  "state_of (parse_is_qualifier v raw negated q) =
     (let w = to_lower v
      in if negated then state_of q
         else if w = ''open'' \<or> w = ''closed'' then state_step w (state_of q)
         else if w = ''merged'' then state_step ''closed'' (state_of q)
         else state_of q)"
proof -
  have "state_of (on_core (\<lambda>c. c\<lparr>cf_merged := m\<rparr>) q) = state_of q" "state_of (only_pr q) = state_of q" "state_of (only_issue q) = state_of q" for m q
    by (simp_all add: only_pr_def only_issue_def)
  moreover have "to_lower ''closed'' = ''closed''" by code_simp
  ultimately show ?thesis by (simp add: parse_is_qualifier_def Let_def set_state_step)
qed

lemma parse_token_state:
  "state_of (parse_token t q) = (case state_vote t of None \<Rightarrow> state_of q | Some v \<Rightarrow> state_step v (state_of q))"
proof (cases "\<not> is_negated t \<and> prefix ''#'' t \<and> parse_number (tl t) \<noteq> None")
  case True
  then show ?thesis by (auto simp: parse_token_def state_vote_def)
next
  case False
  then have n: "(if \<not> is_negated t \<and> prefix ''#'' t then parse_number (tl t) else None) = None" by auto
  show ?thesis
  proof (cases "cut_colon (inner_token t)")
    case None
    then show ?thesis using n by (auto simp: parse_token_def state_vote_def inner_token_def add_free_text_def)
  next
    case (Some kv)
    obtain key raw where kv: "kv = (key, raw)" by fastforce
    have pt: "parse_token t q = (case map_of qualifier_parsers (to_lower key) of
        Some parser \<Rightarrow> parser (unquote raw) raw (is_negated t) q
      | None \<Rightarrow> if \<not> is_negated t then add_free_text t q else q)"
      unfolding parse_token_def n Some kv by simp
    have vote: "state_vote t = (if is_negated t then None else
       let w = to_lower (unquote raw)
       in if to_lower key = ''state'' then (if w = [] then None else Some w)
          else if to_lower key = ''is'' then (if w = ''open'' \<or> w = ''closed'' then Some w else if w = ''merged'' then Some ''closed'' else None)
          else None)"
      using False Some kv by (auto simp: state_vote_def inner_token_def)
    consider "to_lower key = ''state''" | "to_lower key = ''is''" | "to_lower key \<noteq> ''state''" "to_lower key \<noteq> ''is''" by blast
    then show ?thesis
    proof cases
      case 1
      then have "map_of qualifier_parsers (to_lower key) = Some parse_state_qualifier" by (simp add: qualifier_parsers_def)
      then show ?thesis using 1 vote by (simp add: pt parse_state_qualifier_def set_state_step Let_def state_step_def)
    next
      case 2
      then have "map_of qualifier_parsers (to_lower key) = Some parse_is_qualifier" by (simp add: qualifier_parsers_def)
      then show ?thesis using 2 vote by (simp add: pt is_parser_state Let_def)
    next
      case 3
      have "state_of (parse_token t q) = state_of q"
      proof (cases "map_of qualifier_parsers (to_lower key)")
        case None
        then show ?thesis by (simp add: pt add_free_text_def)
      next
        case (Some parser)
        then have "keeps_state parser" using map_of_SomeD [OF Some] other_parsers_keep_state 3 by (auto simp: list_all_iff)
        then show ?thesis using Some by (simp add: pt keeps_state_def)
      qed
      then show ?thesis using 3 vote by simp
    qed
  qed
qed

text \<open>What follows the digits of a number is ignored.\<close>

lemma number_prefix_taken: "parse_number ''12abc'' = Some 12"
  by code_simp

text \<open>The votes of a list of tokens, and what a state and its conflict flag say of them.\<close>

definition votes :: "string list \<Rightarrow> string set" where
  "votes ts = {v. \<exists>t\<in>set ts. state_vote t = Some v}"

definition decided :: "string set \<Rightarrow> string \<times> bool \<Rightarrow> bool" where
  "decided vs st \<longleftrightarrow> (snd st \<longleftrightarrow> (\<exists>a\<in>vs - {all_states}. \<exists>b\<in>vs - {all_states}. a \<noteq> b))
     \<and> (\<not> snd st \<longrightarrow> (\<forall>a\<in>vs - {all_states}. fst st = a) \<and> (vs \<subseteq> {all_states} \<longrightarrow> fst st = (if all_states \<in> vs then all_states else [])))"

lemma vote_nonempty: "state_vote t = Some v \<Longrightarrow> v \<noteq> []"
  by (auto simp: state_vote_def Let_def split: if_splits option.splits)

lemma decided_step:
  assumes "decided vs st" "v \<noteq> []" "[] \<notin> vs"
  shows "decided (insert v vs) (state_step v st)"
proof (cases "snd st")
  case True
  then have "\<exists>a\<in>vs - {all_states}. \<exists>b\<in>vs - {all_states}. a \<noteq> b" using assms(1) by (simp add: decided_def)
  then show ?thesis using True by (cases st) (auto simp: decided_def state_step_def)
next
  case False
  note d = assms(1) [unfolded decided_def]
  show ?thesis
  proof (cases "vs \<subseteq> {all_states}")
    case none: True
    then have s: "fst st = (if all_states \<in> vs then all_states else [])" using d False by simp
    show ?thesis
    proof (cases "v = all_states")
      case True
      then have "state_step v st = (all_states, False)" using s False by (cases st) (auto simp: state_step_def)
      then show ?thesis using True none by (auto simp: decided_def)
    next
      case v: False
      then have "state_step v st = (v, False)" using s False assms(2) by (cases st) (auto simp: state_step_def split: if_splits)
      then show ?thesis using v none by (auto simp: decided_def)
    qed
  next
    case some: False
    then obtain a where a: "a \<in> vs" "a \<noteq> all_states" by auto
    then have s: "fst st = a" "\<forall>b\<in>vs - {all_states}. b = a" "a \<noteq> []" using d False assms(3) by auto
    then have "state_step v st = (a, v \<noteq> all_states \<and> v \<noteq> a)" using False assms(2) a(2) by (cases st) (auto simp: state_step_def)
    moreover have "vs - {all_states} = {a}" using a s(2) by blast
    then have "insert v vs - {all_states} = (if v = all_states then {a} else {v, a})" by auto
    moreover have "\<not> insert v vs \<subseteq> {all_states}" using a by blast
    ultimately show ?thesis by (auto simp: decided_def)
  qed
qed

lemma decided_fold:
  assumes "decided vs (state_of q)" "[] \<notin> vs"
  shows "decided (vs \<union> votes ts) (state_of (fold parse_token ts q))"
  using assms
proof (induction ts arbitrary: vs q)
  case Nil
  then show ?case by (simp add: votes_def)
next
  case (Cons t ts)
  show ?case
  proof (cases "state_vote t")
    case None
    then have "votes (t # ts) = votes ts" by (auto simp: votes_def)
    then show ?thesis using Cons None by (simp add: parse_token_state)
  next
    case (Some v)
    have "votes (t # ts) = insert v (votes ts)" using Some by (auto simp: votes_def)
    moreover have "decided (insert v vs) (state_of (parse_token t q))"
      using decided_step [OF Cons.prems(1) vote_nonempty [OF Some] Cons.prems(2)] Some by (simp add: parse_token_state)
    then have "decided (insert v vs \<union> votes ts) (state_of (fold parse_token ts (parse_token t q)))"
      using Cons.IH Cons.prems(2) vote_nonempty [OF Some] by blast
    ultimately show ?thesis by simp
  qed
qed

text \<open>
  The state a query asks for does not depend on the order of its qualifiers. Each \<open>state:\<close>,
  \<open>is:open\<close>, \<open>is:closed\<close> and \<open>is:merged\<close> votes for a state: the query is in conflict exactly when two
  votes other than \<open>all\<close> differ; without a conflict the state is the one that is voted for, \<open>all\<close>
  when only that is, and empty when there is no vote.
\<close>

theorem search_state_decided:
  "decided (votes (tokenize_search_query query)) (state_of (parse_search_query query))"
proof -
  have "decided {} (state_of zero_qualifiers)" by (simp add: decided_def state_of_def zero_qualifiers_def zero_core_def)
  from decided_fold [OF this, of "tokenize_search_query query"] show ?thesis by (simp add: parse_search_query_def)
qed

end
