(* ===== verification/Access_Grant.thy ===== *)
theory Access_Grant
  imports Durable_Authorize Operation_Catalog Authority_Properties
begin

text \<open>
  The authority of an Access Grant, \<open>evaluateAccessGrantAuthority\<close> and its helpers in
  \<open>internal/service/access_grant.go\<close>: what a workload observed in some execution context may do on
  one repository. \<open>order\<close> is the iteration order of maps, \<open>digest\<close> the SHA-256 of the JSON form of a
  revision, \<open>fresh\<close> and \<open>ctx\<close> are what \<open>HasRepoAccess\<close> needs for its repair.
\<close>

section \<open>Model\<close>

datatype intake_error = IntakeUnavailable | PullDisabled | PullSourceUnavailable | PullContextInvalid | PullRejected

datatype grant_error =
  GrantUnavailable | GrantCredentialInvalid | GrantDenied | GrantConflict | GrantValidation
  | GrantStore store_error | GrantDuplicate | GrantIntake intake_error

record source_ref =
  sr_source_instance_id :: string
  sr_workspace_id :: string
  sr_agent_id :: string
  sr_task_id :: string
  sr_run_id :: string
  sr_issue_id :: string
  sr_runtime_id :: string

record revision_input =
  rv_actor_user_id :: nat
  rv_executor_user_id :: nat
  rv_source_instance_id :: string
  rv_workspace_id :: string
  rv_agent_id :: string
  rv_repository_id :: nat
  rv_repository :: string
  rv_target :: string
  rv_agent_selector_outcome :: string
  rv_default_policy_class :: string
  rv_default_policy_revision :: string
  rv_default_binding_revision :: string
  rv_requested_policy_class :: string
  rv_policy_class_outcome :: string
  rv_effective_policy_classes :: "string list"
  rv_requested_operations :: "string list"
  rv_effective_operations :: "string list"
  rv_resource_policy_revision :: string
  rv_elevated_binding_revision :: string
  rv_elevated_policy_revision :: string

record grant_authority =
  ga_actor :: user_row
  ga_executor :: user_row
  ga_repository :: repo_row
  ga_default :: "team_binding \<times> policy_class"
  ga_elevated :: "(team_binding \<times> policy_class) option"
  ga_agent_selector :: string
  ga_requested_policy_class :: string
  ga_agent_selector_outcome :: string
  ga_policy_class_outcome :: string
  ga_effective_policy_classes :: "string list"
  ga_requested_operations :: "string list"
  ga_effective_operations :: "string list"
  ga_warnings :: "string list"
  ga_resource :: resource_policy
  ga_authority_revision :: string

definition invalid_selector_marker :: string where "invalid_selector_marker = ''__ags_invalid_selector__''"
definition invalid_policy_class_marker :: string where "invalid_policy_class_marker = ''__ags_invalid_policy_class__''"

definition active_grant_user :: "user_row \<Rightarrow> bool" where
  "active_grant_user u \<longleftrightarrow> ur_id u \<noteq> 0 \<and> ur_status u = ''active'' \<and> ur_type u = ''User'' \<and> \<not> ur_is_anonymous u"

definition active_canonical_actor :: "user_row \<Rightarrow> bool" where
  "active_canonical_actor u \<longleftrightarrow> active_grant_user u \<and> ur_type u = ''User'' \<and> ur_kind u = ''agent'' \<and> \<not> ur_site_admin u \<and> \<not> ur_is_anonymous u"

definition covers_operations :: "nat \<Rightarrow> user_row option \<Rightarrow> database \<Rightarrow> nat \<Rightarrow> nat \<Rightarrow> string list \<Rightarrow> bool \<times> database" where
  "covers_operations fresh ctx d repo_id user_id names =
     (case has_repo_access fresh ctx d repo_id user_id of
        (Inl e, d') \<Rightarrow> (False, d')
      | (Inr perm, d') \<Rightarrow> (list_all (\<lambda>n. case lookup_operation n of None \<Rightarrow> False
            | Some oper \<Rightarrow> at_least perm (repo_permission_for (op_required oper))) names, d'))"

definition normalize_grant_operations :: "string list \<Rightarrow> string list" where
  "normalize_grant_operations values = sort (first_seen [] (filter (\<lambda>v. v \<noteq> []) (map fold_key values)))"

definition contains_operation :: "string list \<Rightarrow> string \<Rightarrow> bool" where
  "contains_operation values wanted = sorted_member values wanted"

definition append_unique :: "string list \<Rightarrow> string \<Rightarrow> string list" where
  "append_unique values wanted = (if wanted \<in> set values then values else values @ [wanted])"

text \<open>The selector: what is kept of it, the outcome and the warnings.\<close>

definition select_agent :: "source_ref \<Rightarrow> user_row \<Rightarrow> string \<Rightarrow> string \<times> string \<times> string list" where
  "select_agent source actor agent_selector =
     (let selector = trim_space agent_selector
      in if is_secret_shaped selector \<or> selector = invalid_selector_marker
         then (invalid_selector_marker, ''ignored_invalid'', [''agent_selector_ignored_invalid''])
         else if selector \<noteq> [] then
           if selector = sr_agent_id source \<or> selector = ur_login actor \<or> selector = format_int (int (ur_id actor))
           then (selector, ''accepted'', [])
           else (selector, ''ignored_unbound'', [''agent_selector_ignored_unbound''])
         else (selector, ''default'', []))"

definition choose_class :: "string \<Rightarrow> bool \<Rightarrow> string \<Rightarrow> string list \<Rightarrow> string \<times> string \<times> string list" where
  "choose_class dflt_class merge_eligible requested w =
     (let cls = trim_space requested; outcome = (if merge_eligible then ''accepted_role'' else ''default'')
      in if is_secret_shaped cls \<or> cls = invalid_policy_class_marker
         then (invalid_policy_class_marker, ''ignored_invalid'', w @ [''policy_class_ignored_invalid''])
         else if cls \<noteq> [] \<and> cls \<noteq> dflt_class
         then (cls, if \<not> merge_eligible then ''ignored_unbound'' else outcome, append_unique w ''policy_class_ignored'')
         else (cls, outcome, w))"

definition safe_operation :: "string \<Rightarrow> string list \<times> string list \<Rightarrow> string list \<times> string list" where
  "safe_operation raw st =
     (let operation = canonical_name raw
      in if is_secret_shaped operation then (fst st, append_unique (snd st) ''operation_ignored_invalid'')
         else (fst st @ [operation], snd st))"

definition requested_operations :: "string list \<Rightarrow> string list \<Rightarrow> string list \<times> string list" where
  "requested_operations raw w =
     (let (safe, w1) = fold safe_operation (normalize_grant_operations raw) ([], w) in (normalize_grant_operations safe, w1))"

definition allowed_operations :: "bool \<Rightarrow> string list" where
  "allowed_operations merge_eligible = standard_operations @ (if merge_eligible then [''pr.merge''] else [])"

definition request_operation :: "string list \<Rightarrow> string \<Rightarrow> string list \<times> string list \<Rightarrow> string list \<times> string list" where
  "request_operation allowed operation st =
     (if operation \<notin> set allowed then (fst st, append_unique (snd st) ''operation_ignored_outside_envelope'')
      else if \<not> is_default_operation operation \<or> \<not> is_known operation
      then (fst st, append_unique (snd st) ''operation_ignored_deferred'')
      else (append_unique (fst st) operation, snd st))"

definition effective_operation ::
  "(string list \<Rightarrow> string list) \<Rightarrow> auth_set option \<Rightarrow> (team_binding \<times> policy_class) option \<Rightarrow> string \<Rightarrow> string \<Rightarrow> string
     \<Rightarrow> string list \<times> string list \<Rightarrow> string list \<times> string list" where
  "effective_operation order auth elevated target repository raw st =
     (let operation = canonical_name raw
      in if \<not> is_default_operation operation \<or> \<not> is_known operation
         then (fst st, append_unique (snd st) ''operation_ignored_deferred'')
         else case resolve_resource_operation order auth
                \<lparr>rr_target = target, rr_service = ''ags'', rr_repository = repository, rr_operation = operation, rr_policy_class = []\<rparr> of
                Inr _ \<Rightarrow> (fst st @ [operation], snd st)
              | Inl _ \<Rightarrow>
                  if is_privileged operation \<and> elevated = None
                  then (fst st, append_unique (snd st) ''operation_ignored_resource_policy'')
                  else (fst st @ [operation],
                    if is_standard operation then append_unique (snd st) ''resource_policy_softened_for_collaboration_passthrough'' else snd st))"

definition revision_of ::
  "user_row \<Rightarrow> user_row \<Rightarrow> source_ref \<Rightarrow> repo_row \<Rightarrow> resource_policy \<Rightarrow> team_binding \<times> policy_class
     \<Rightarrow> (team_binding \<times> policy_class) option \<Rightarrow> string \<Rightarrow> string \<Rightarrow> string \<Rightarrow> string list \<Rightarrow> string list \<Rightarrow> string list \<Rightarrow> revision_input" where
  "revision_of actor executor source repository resource dflt elevated selector_outcome requested_class class_outcome classes requested eff =
     \<lparr>rv_actor_user_id = ur_id actor, rv_executor_user_id = ur_id executor, rv_source_instance_id = sr_source_instance_id source,
       rv_workspace_id = sr_workspace_id source, rv_agent_id = sr_agent_id source, rv_repository_id = re_id repository,
       rv_repository = re_full_name repository, rv_target = rp_target resource, rv_agent_selector_outcome = selector_outcome,
       rv_default_policy_class = pc_id (snd dflt), rv_default_policy_revision = pc_policy_revision (snd dflt),
       rv_default_binding_revision = tb_binding_revision (fst dflt), rv_requested_policy_class = requested_class,
       rv_policy_class_outcome = class_outcome, rv_effective_policy_classes = classes, rv_requested_operations = requested,
       rv_effective_operations = eff, rv_resource_policy_revision = rp_policy_revision resource,
       rv_elevated_binding_revision = (case elevated of None \<Rightarrow> [] | Some (b, _) \<Rightarrow> tb_binding_revision b),
       rv_elevated_policy_revision = (case elevated of None \<Rightarrow> [] | Some (_, c) \<Rightarrow> pc_policy_revision c)\<rparr>"

text \<open>What follows the check of the executor, with the executor and the default authority found.\<close>

definition grant_scope ::
  "(string list \<Rightarrow> string list) \<Rightarrow> (revision_input \<Rightarrow> string) \<Rightarrow> auth_set option \<Rightarrow> user_row \<Rightarrow> user_row \<Rightarrow> source_ref \<Rightarrow> repo_row
     \<Rightarrow> team_binding \<times> policy_class \<Rightarrow> string \<Rightarrow> string \<Rightarrow> string \<Rightarrow> string list \<Rightarrow> grant_error + grant_authority" where
  "grant_scope order digest auth actor executor source repository dflt agent_selector requested_class access_role ops =
     (let (selector, selector_outcome, w0) = select_agent source actor agent_selector;
          classes = [pc_id (snd dflt)];
          elevated = None;
          role = to_lower (trim_space access_role);
          eligible = is_pr_merge_role role;
          w1 = (if role \<noteq> [] \<and> \<not> eligible then append_unique w0 ''access_role_ignored_invalid'' else w0);
          (cls, class_outcome, w2) = choose_class (pc_id (snd dflt)) eligible requested_class w1;
          (wanted, w3) = requested_operations ops w2;
          allowed = allowed_operations eligible;
          (requested, w4) = fold (request_operation allowed) wanted (allowed, w3)
      in case resolve_resource_operation order auth
           \<lparr>rr_target = [], rr_service = ''ags'', rr_repository = re_full_name repository, rr_operation = ''repo.read'', rr_policy_class = []\<rparr> of
           Inl _ \<Rightarrow> Inl GrantDenied
         | Inr (resource, _) \<Rightarrow>
             (let (eff, w5) = fold (effective_operation order auth elevated (rp_target resource) (re_full_name repository)) (order requested) ([], w4)
              in if eff = [] then Inl GrantDenied
                 else Inr \<lparr>ga_actor = actor, ga_executor = executor, ga_repository = repository, ga_default = dflt, ga_elevated = elevated,
                   ga_agent_selector = selector, ga_requested_policy_class = cls, ga_agent_selector_outcome = selector_outcome,
                   ga_policy_class_outcome = class_outcome, ga_effective_policy_classes = sort classes,
                   ga_requested_operations = sort wanted, ga_effective_operations = sort eff, ga_warnings = sort w5, ga_resource = resource,
                   ga_authority_revision = digest (revision_of actor executor source repository resource dflt elevated
                     selector_outcome cls class_outcome (sort classes) (sort wanted) (sort eff))\<rparr>))"

definition evaluate_grant ::
  "(string list \<Rightarrow> string list) \<Rightarrow> (revision_input \<Rightarrow> string) \<Rightarrow> nat \<Rightarrow> user_row option \<Rightarrow> auth_set option \<Rightarrow> database \<Rightarrow> user_row
     \<Rightarrow> source_ref \<Rightarrow> repo_row \<Rightarrow> string \<Rightarrow> string \<Rightarrow> string \<Rightarrow> string list \<Rightarrow> (grant_error + grant_authority) \<times> database" where
  "evaluate_grant order digest fresh ctx auth d actor source repository agent_selector requested_class access_role ops =
     (case resolve_runtime_policy_authority auth (sr_source_instance_id source) (sr_workspace_id source) default_dynamic_policy_class of
        Inl _ \<Rightarrow> (Inl GrantDenied, d)
      | Inr dflt \<Rightarrow>
          (case first_row (\<lambda>u. ur_id u = tb_principal_id (fst dflt)) (db_users d) of
             Inl _ \<Rightarrow> (Inl GrantDenied, d)
           | Inr executor \<Rightarrow>
               if \<not> active_grant_user executor then (Inl GrantDenied, d)
               else (let (covers, d1) = covers_operations fresh ctx d (re_id repository) (ur_id executor) standard_operations
                     in if \<not> covers then (Inl GrantDenied, d1)
                        else (grant_scope order digest auth actor executor source repository dflt agent_selector requested_class access_role ops, d1))))"

definition renewal_role :: "grant_authority \<Rightarrow> string" where
  "renewal_role a = (if (case ga_elevated a of None \<Rightarrow> [] | Some (b, _) \<Rightarrow> tb_binding_revision b) \<noteq> []
      \<or> contains_operation (ga_effective_operations a) ''pr.merge'' then access_role_maintainer else [])"

section \<open>A small workload\<close>

definition workload_config :: auth_config where
  "workload_config = sample_config\<lparr>
     ac_team_bindings := Some [sample_team\<lparr>tb_policy_class := default_dynamic_policy_class, tb_principal_id := 1\<rparr>],
     ac_policy_classes := Some [sample_class\<lparr>pc_id := default_dynamic_policy_class, pc_operations := default_dynamic_policy_operations\<rparr>]\<rparr>"

definition workload_source :: source_ref where
  "workload_source = \<lparr>sr_source_instance_id = ''multica-1'', sr_workspace_id = ''ws'', sr_agent_id = ''a7'', sr_task_id = ''t'',
     sr_run_id = ''r'', sr_issue_id = ''i'', sr_runtime_id = ''rt''\<rparr>"

definition workload_actor :: user_row where
  "workload_actor = \<lparr>ur_id = 9, ur_type = ''User'', ur_kind = ''agent'', ur_status = ''active'', ur_site_admin = False, ur_default_permission = [],
     ur_login = ''agent-a7'', ur_name = ''agent'', ur_is_anonymous = False\<rparr>"

definition workload_grant :: "string \<Rightarrow> string \<Rightarrow> string \<Rightarrow> string list \<Rightarrow> (grant_error + grant_authority) \<times> database" where
  "workload_grant selector cls role ops = evaluate_grant (\<lambda>xs. xs) (\<lambda>v. rv_policy_class_outcome v) 5 None (Some (built workload_config))
     (sample_database sample_tables []) workload_actor workload_source (ts_repositories sample_tables ! 0) selector cls role ops"

section \<open>The envelope of a grant\<close>

lemma first_seen_result: "set (first_seen seen xs) = set xs - set seen \<and> distinct (first_seen seen xs)"
  by (induction seen xs rule: first_seen.induct) auto

lemma normalized_operations:
  "sorted (normalize_grant_operations xs)" "distinct (normalize_grant_operations xs)"
  "set (normalize_grant_operations xs) = fold_key ` set xs - {[]}"
  using first_seen_result [of "[]" "filter (\<lambda>v. v \<noteq> []) (map fold_key xs)"]
  by (auto simp: normalize_grant_operations_def)

lemma normalized_determined:
  "sorted xs \<Longrightarrow> distinct xs \<Longrightarrow> set xs = set (normalize_grant_operations ys) \<Longrightarrow> xs = normalize_grant_operations ys"
  by (rule sorted_distinct_set_unique) (simp_all add: normalized_operations)

lemma allowed_known:
  "\<forall>n\<in>set (allowed_operations e). canonical_name n = n \<and> is_default_operation n \<and> is_known n \<and> (is_privileged n \<longleftrightarrow> n = ''pr.merge'')"
proof -
  have "list_all (\<lambda>n. canonical_name n = n \<and> is_default_operation n \<and> is_known n \<and> (is_privileged n \<longleftrightarrow> n = ''pr.merge'')) (allowed_operations True)"
    by code_simp
  then show ?thesis by (cases e) (auto simp: allowed_operations_def list_all_iff)
qed


lemma standard_facts: "distinct standard_operations" "''pr.merge'' \<notin> set standard_operations" "''git.push'' \<in> set standard_operations"
  "standard_operations \<noteq> []"
  by code_simp+

lemma requested_allowed: "fst (fold (request_operation allowed) wanted (allowed, w)) = allowed"
proof (induction wanted arbitrary: w)
  case (Cons x xs)
  have "fst (request_operation allowed x (allowed, w)) = allowed" by (simp add: request_operation_def append_unique_def)
  then show ?case using Cons by (metis fold_simps(2) surjective_pairing)
qed simp

text \<open>Whether the resource that is evaluated for \<open>pr.merge\<close> resolves; see \<open>merge_always_resolves\<close>.\<close>

definition merge_resolves :: "(string list \<Rightarrow> string list) \<Rightarrow> auth_set option \<Rightarrow> string \<Rightarrow> string \<Rightarrow> bool" where
  "merge_resolves order auth target repository \<longleftrightarrow> \<not> isl (resolve_resource_operation order auth
     \<lparr>rr_target = target, rr_service = ''ags'', rr_repository = repository, rr_operation = ''pr.merge'', rr_policy_class = []\<rparr>)"

lemma effective_fold:
  assumes "set ns \<subseteq> set (allowed_operations e)"
  shows "fst (fold (effective_operation order auth None target repository) ns (acc, w))
    = acc @ filter (\<lambda>n. n = ''pr.merge'' \<longrightarrow> merge_resolves order auth target repository) ns"
  using assms
proof (induction ns arbitrary: acc w)
  case (Cons n ns)
  have n: "canonical_name n = n" "is_default_operation n" "is_known n" "is_privileged n \<longleftrightarrow> n = ''pr.merge''"
    using Cons.prems allowed_known by auto
  obtain acc1 w1 where s: "effective_operation order auth None target repository n (acc, w) = (acc1, w1)" by fastforce
  have "acc1 = acc @ (if n = ''pr.merge'' \<longrightarrow> merge_resolves order auth target repository then [n] else [])"
    using s n by (auto simp: effective_operation_def merge_resolves_def Let_def split: sum.splits if_splits)
  then show ?case using Cons s by auto
qed simp

lemma choose_class_outcome:
  "choose_class dflt e requested w = (cls, outcome, w') \<Longrightarrow> choose_class dflt e cls v = (cls', outcome', v') \<Longrightarrow> cls' = cls \<and> outcome' = outcome"
proof -
  have m: "trim_space invalid_policy_class_marker = invalid_policy_class_marker" by code_simp
  assume "choose_class dflt e requested w = (cls, outcome, w')" "choose_class dflt e cls v = (cls', outcome', v')"
  then show ?thesis by (auto simp: choose_class_def Let_def m split: if_splits)
qed

lemma select_agent_again: "select_agent source actor (fst (select_agent source actor x)) = select_agent source actor x"
proof -
  have m: "trim_space invalid_selector_marker = invalid_selector_marker" by code_simp
  show ?thesis by (auto simp: select_agent_def Let_def m)
qed

lemma safe_fold: "fst (fold safe_operation xs (acc, w)) = acc @ filter (\<lambda>n. \<not> is_secret_shaped n) (map canonical_name xs)"
proof (induction xs arbitrary: acc w)
  case (Cons x xs)
  obtain acc1 w1 where s: "safe_operation x (acc, w) = (acc1, w1)" by fastforce
  then have "acc1 = acc @ (if is_secret_shaped (canonical_name x) then [] else [canonical_name x])"
    by (auto simp: safe_operation_def Let_def split: if_splits)
  then show ?case using Cons s by auto
qed simp

lemma requested_fst:
  "fst (requested_operations ops w) = normalize_grant_operations (filter (\<lambda>n. \<not> is_secret_shaped n) (map canonical_name (normalize_grant_operations ops)))"
  unfolding requested_operations_def using safe_fold [of "normalize_grant_operations ops" "[]" w] by (simp add: case_prod_beta)

lemma canonical_fold: "fold_key x = x \<Longrightarrow> fold_key (canonical_name x) = canonical_name x \<and> canonical_name (canonical_name x) = canonical_name x \<and> (canonical_name x = [] \<longrightarrow> x = [])"
proof -
  have a: "fold_key ''review.write'' = ''review.write''" "canonical_name ''review.write'' = ''review.write''" by code_simp+
  assume "fold_key x = x"
  then have "trim_space x = x" by (metis trim_fold_key)
  then have "canonical_name x = (if x = ''review.submit'' then ''review.write'' else x)" by (simp add: canonical_name_def)
  then show ?thesis using a \<open>fold_key x = x\<close> by (auto split: if_splits)
qed

lemma requested_again: "fst (requested_operations (fst (requested_operations ops w)) v) = fst (requested_operations ops w)"
proof -
  define N where "N = normalize_grant_operations ops"
  define R where "R = fst (requested_operations ops w)"
  have N: "fold_key x = x" "x \<noteq> []" if "x \<in> set N" for x using that normalized_operations(3) [of ops] by (auto simp: N_def)
  define A where "A = canonical_name ` set N \<inter> {n. \<not> is_secret_shaped n}"
  have A: "\<forall>c\<in>A. fold_key c = c \<and> canonical_name c = c \<and> c \<noteq> []"
  proof
    fix c
    assume "c \<in> A"
    then obtain x where "x \<in> set N" "c = canonical_name x" by (auto simp: A_def)
    then show "fold_key c = c \<and> canonical_name c = c \<and> c \<noteq> []" using canonical_fold [OF N(1)] N(2) by metis
  qed
  then have "fold_key ` A = (\<lambda>x. x) ` A" by (intro image_cong) auto
  moreover have "set R = fold_key ` A - {[]}"
    unfolding R_def requested_fst normalized_operations(3) A_def by (auto simp: N_def)
  ultimately have R: "set R = A" using A by auto
  have fixed: "fold_key r = r" "canonical_name r = r" "r \<noteq> []" if "r \<in> set R" for r
    using that A unfolding R by blast+
  have open_: "\<not> is_secret_shaped r" if "r \<in> set R" for r using that unfolding R A_def by blast
  have nR: "normalize_grant_operations R = R"
  proof (rule normalized_determined [symmetric])
    show "sorted R" "distinct R" by (simp_all add: R_def requested_fst normalized_operations)
    have "fold_key ` set R = (\<lambda>x. x) ` set R" using fixed(1) by (rule image_cong [OF refl])
    then show "set R = set (normalize_grant_operations R)" using fixed(3) unfolding normalized_operations(3) by auto
  qed
  have "map canonical_name R = R" using fixed(2) by (rule map_idI)
  moreover have "filter (\<lambda>n. \<not> is_secret_shaped n) R = R" using open_ by (simp add: filter_id_conv)
  ultimately have "fst (requested_operations R v) = R" unfolding requested_fst nR by (simp add: nR)
  then show ?thesis by (simp add: R_def)
qed

definition grant_envelope :: "bool \<Rightarrow> bool \<Rightarrow> string list" where
  "grant_envelope eligible listed = sort (standard_operations @ (if eligible \<and> listed then [''pr.merge''] else []))"

lemma merge_in_envelope [simp]: "''pr.merge'' \<in> set (grant_envelope e l) \<longleftrightarrow> e \<and> l"
  using standard_facts(2) by (simp add: grant_envelope_def)

lemma is_pr_merge_role_fold: "is_pr_merge_role (to_lower (trim_space r)) = is_pr_merge_role r"
  unfolding is_pr_merge_role_def fold_key_def [symmetric] by simp

text \<open>A scope, with everything that does not depend on the resource policy worked out.\<close>

lemma grant_scope_form:
  obtains so cls co w w' w4 where
    "choose_class (pc_id (snd dflt)) (is_pr_merge_role role) req w = (cls, co, w')"
    "grant_scope order digest auth actor executor source repository dflt sel req role ops =
     (case resolve_resource_operation order auth \<lparr>rr_target = [], rr_service = ''ags'', rr_repository = re_full_name repository,
       rr_operation = ''repo.read'', rr_policy_class = []\<rparr> of
        Inl _ \<Rightarrow> Inl GrantDenied
      | Inr (resource, _) \<Rightarrow>
          (let (eff, w5) = fold (effective_operation order auth None (rp_target resource) (re_full_name repository))
             (order (allowed_operations (is_pr_merge_role role))) ([], w4)
           in if eff = [] then Inl GrantDenied
              else Inr \<lparr>ga_actor = actor, ga_executor = executor, ga_repository = repository, ga_default = dflt, ga_elevated = None,
       ga_agent_selector = fst (select_agent source actor sel), ga_requested_policy_class = cls,
       ga_agent_selector_outcome = fst (snd (select_agent source actor sel)),
       ga_policy_class_outcome = co, ga_effective_policy_classes = [pc_id (snd dflt)],
       ga_requested_operations = fst (requested_operations ops []), ga_effective_operations = sort eff, ga_warnings = sort w5, ga_resource = resource,
       ga_authority_revision = digest (revision_of actor executor source repository resource dflt None
         (fst (snd (select_agent source actor sel))) cls co [pc_id (snd dflt)] (fst (requested_operations ops [])) (sort eff))\<rparr>))"
proof -
  obtain selector so w0 where s: "select_agent source actor sel = (selector, so, w0)" by (metis prod_cases3)
  define e where "e = is_pr_merge_role role"
  define w1 where "w1 = (if to_lower (trim_space role) \<noteq> [] \<and> \<not> e then append_unique w0 ''access_role_ignored_invalid'' else w0)"
  obtain cls co w2 where c: "choose_class (pc_id (snd dflt)) e req w1 = (cls, co, w2)" by (metis prod_cases3)
  obtain wanted w3 where q: "requested_operations ops w2 = (wanted, w3)" by fastforce
  obtain requested w4 where r: "fold (request_operation (allowed_operations e)) wanted (allowed_operations e, w3) = (requested, w4)" by fastforce
  have req: "requested = allowed_operations e" using requested_allowed [of "allowed_operations e" wanted w3] r by simp
  have "wanted = fst (requested_operations ops [])" "sorted wanted"
    using q requested_fst [of ops w2] requested_fst [of ops "[]"] normalized_operations(1) by simp_all
  then have w: "wanted = fst (requested_operations ops [])" "sort wanted = wanted" by (simp_all add: sorted_sort_id)
  have one: "sort [pc_id (snd dflt)] = [pc_id (snd dflt)]" by simp
  note steps = c [unfolded w1_def e_def] q r [unfolded e_def req]
  show ?thesis
    by (rule that [OF c [unfolded e_def], of w4],
      unfold grant_scope_def s fst_conv snd_conv w(1) [symmetric] Let_def prod.case is_pr_merge_role_fold steps one w(2))
      (simp add: steps)
qed

lemma effective_envelope:
  assumes "map_order order"
  shows "sort (fst (fold (effective_operation order auth None target repository) (order (allowed_operations e)) ([], w)))
    = grant_envelope e (merge_resolves order auth target repository)"
proof -
  have m: "mset (order (allowed_operations e)) = mset (allowed_operations e)" using assms by (simp add: map_order_def)
  then have "set (order (allowed_operations e)) \<subseteq> set (allowed_operations e)" using mset_eq_setD by blast
  note eff = effective_fold [OF this, of order auth target repository "[]" w, simplified]
  have "filter (\<lambda>n. n = ''pr.merge'' \<longrightarrow> l) (allowed_operations e) = standard_operations @ (if e \<and> l then [''pr.merge''] else [])" for l
    using standard_facts(2) by (cases l) (auto simp: allowed_operations_def filter_id_conv)
  then have "mset (fst (fold (effective_operation order auth None target repository) (order (allowed_operations e)) ([], w)))
      = mset (standard_operations @ (if e \<and> merge_resolves order auth target repository then [''pr.merge''] else []))"
    unfolding eff using arg_cong [OF m, of "filter_mset (\<lambda>n. n = ''pr.merge'' \<longrightarrow> merge_resolves order auth target repository)"]
    by (simp flip: mset_filter)
  then show ?thesis unfolding grant_envelope_def by (intro properties_for_sort) simp_all
qed

lemma envelope_not_empty: "grant_envelope e l \<noteq> []"
  using standard_facts(4) by (simp add: grant_envelope_def flip: set_empty)

text \<open>What a scope that is granted consists of.\<close>

lemma grant_scope_parts:
  assumes "grant_scope order digest auth actor executor source repository dflt sel req role ops = Inr a" "map_order order"
  shows "ga_agent_selector a = fst (select_agent source actor sel)" "ga_agent_selector_outcome a = fst (snd (select_agent source actor sel))"
    "ga_requested_operations a = fst (requested_operations ops [])" "ga_effective_policy_classes a = [pc_id (snd dflt)]"
    "\<exists>w w'. choose_class (pc_id (snd dflt)) (is_pr_merge_role role) req w = (ga_requested_policy_class a, ga_policy_class_outcome a, w')"
    "ga_effective_operations a = grant_envelope (is_pr_merge_role role) (merge_resolves order auth (rp_target (ga_resource a)) (re_full_name repository))"
    "(\<exists>r. resolve_resource_operation order auth \<lparr>rr_target = [], rr_service = ''ags'', rr_repository = re_full_name repository,
       rr_operation = ''repo.read'', rr_policy_class = []\<rparr> = Inr (ga_resource a, r))"
    "ga_authority_revision a = digest (revision_of actor executor source repository (ga_resource a) dflt None (ga_agent_selector_outcome a)
       (ga_requested_policy_class a) (ga_policy_class_outcome a) (ga_effective_policy_classes a) (ga_requested_operations a) (ga_effective_operations a))"
    "ga_elevated a = None" "ga_executor a = executor" "ga_default a = dflt" "ga_actor a = actor" "ga_repository a = repository"
proof -
  obtain cls co w w' w4 where form: "choose_class (pc_id (snd dflt)) (is_pr_merge_role role) req w = (cls, co, w')"
    "grant_scope order digest auth actor executor source repository dflt sel req role ops =
     (case resolve_resource_operation order auth \<lparr>rr_target = [], rr_service = ''ags'', rr_repository = re_full_name repository,
       rr_operation = ''repo.read'', rr_policy_class = []\<rparr> of
        Inl _ \<Rightarrow> Inl GrantDenied
      | Inr (resource, _) \<Rightarrow>
          (let (eff, w5) = fold (effective_operation order auth None (rp_target resource) (re_full_name repository))
             (order (allowed_operations (is_pr_merge_role role))) ([], w4)
           in if eff = [] then Inl GrantDenied
              else Inr \<lparr>ga_actor = actor, ga_executor = executor, ga_repository = repository, ga_default = dflt, ga_elevated = None,
       ga_agent_selector = fst (select_agent source actor sel), ga_requested_policy_class = cls,
       ga_agent_selector_outcome = fst (snd (select_agent source actor sel)),
       ga_policy_class_outcome = co, ga_effective_policy_classes = [pc_id (snd dflt)],
       ga_requested_operations = fst (requested_operations ops []), ga_effective_operations = sort eff, ga_warnings = sort w5, ga_resource = resource,
       ga_authority_revision = digest (revision_of actor executor source repository resource dflt None
         (fst (snd (select_agent source actor sel))) cls co [pc_id (snd dflt)] (fst (requested_operations ops [])) (sort eff))\<rparr>))"
    by (rule grant_scope_form)
  have chosen: "\<exists>w w'. choose_class (pc_id (snd dflt)) (is_pr_merge_role role) req w = (cls, co, w')" using form(1) by blast
  have eff: "fold (effective_operation order auth None (rp_target resource) (re_full_name repository))
      (order (allowed_operations (is_pr_merge_role role))) ([], w4) = (eff, w5) \<Longrightarrow>
    sort eff = grant_envelope (is_pr_merge_role role) (merge_resolves order auth (rp_target resource) (re_full_name repository))" for eff w5 resource
    using effective_envelope [OF assms(2), of auth "rp_target resource" "re_full_name repository" "is_pr_merge_role role" w4] by simp
  show "ga_agent_selector a = fst (select_agent source actor sel)" "ga_agent_selector_outcome a = fst (snd (select_agent source actor sel))"
    "ga_requested_operations a = fst (requested_operations ops [])" "ga_effective_policy_classes a = [pc_id (snd dflt)]"
    "\<exists>w w'. choose_class (pc_id (snd dflt)) (is_pr_merge_role role) req w = (ga_requested_policy_class a, ga_policy_class_outcome a, w')"
    "ga_effective_operations a = grant_envelope (is_pr_merge_role role) (merge_resolves order auth (rp_target (ga_resource a)) (re_full_name repository))"
    "(\<exists>r. resolve_resource_operation order auth \<lparr>rr_target = [], rr_service = ''ags'', rr_repository = re_full_name repository,
       rr_operation = ''repo.read'', rr_policy_class = []\<rparr> = Inr (ga_resource a, r))"
    "ga_authority_revision a = digest (revision_of actor executor source repository (ga_resource a) dflt None (ga_agent_selector_outcome a)
       (ga_requested_policy_class a) (ga_policy_class_outcome a) (ga_effective_policy_classes a) (ga_requested_operations a) (ga_effective_operations a))"
    "ga_elevated a = None" "ga_executor a = executor" "ga_default a = dflt" "ga_actor a = actor" "ga_repository a = repository"
    using assms(1) form(2) by (auto split: sum.splits prod.splits if_splits simp: Let_def chosen dest: eff)
qed

text \<open>Nothing that is asked for decides whether a grant is given.\<close>

definition grant_available ::
  "(string list \<Rightarrow> string list) \<Rightarrow> nat \<Rightarrow> user_row option \<Rightarrow> auth_set option \<Rightarrow> database \<Rightarrow> source_ref \<Rightarrow> repo_row \<Rightarrow> bool" where
  "grant_available order fresh ctx auth d source repository \<longleftrightarrow>
     (case resolve_runtime_policy_authority auth (sr_source_instance_id source) (sr_workspace_id source) default_dynamic_policy_class of
        Inl _ \<Rightarrow> False
      | Inr dflt \<Rightarrow>
          (case first_row (\<lambda>u. ur_id u = tb_principal_id (fst dflt)) (db_users d) of
             Inl _ \<Rightarrow> False
           | Inr executor \<Rightarrow> active_grant_user executor \<and> fst (covers_operations fresh ctx d (re_id repository) (ur_id executor) standard_operations)))
     \<and> \<not> isl (resolve_resource_operation order auth
           \<lparr>rr_target = [], rr_service = ''ags'', rr_repository = re_full_name repository, rr_operation = ''repo.read'', rr_policy_class = []\<rparr>)"

lemma grant_scope_error: "grant_scope order digest auth actor executor source repository dflt sel cls role ops = Inl e \<Longrightarrow> e = GrantDenied"
  by (auto simp: grant_scope_def Let_def split: sum.splits prod.splits if_splits)

lemma grant_scope_given:
  assumes "map_order order"
  shows "isl (grant_scope order digest auth actor executor source repository dflt sel cls role ops) \<longleftrightarrow> isl (resolve_resource_operation order auth \<lparr>rr_target = [], rr_service = ''ags'', rr_repository = re_full_name repository,
       rr_operation = ''repo.read'', rr_policy_class = []\<rparr>)"
proof -
  have some: "fst (fold (effective_operation order auth None target repository) (order (allowed_operations e)) ([], w)) \<noteq> []" for target repository e w
    using effective_envelope [OF assms, of auth target repository e w] envelope_not_empty by (metis sort_key_simps(1))
  show ?thesis
    by (rule grant_scope_form [of dflt role cls order digest auth actor executor source repository sel ops])
      (auto simp: some case_prod_beta Let_def split: sum.splits)
qed

lemma grant_given:
  assumes "map_order order"
  shows "if grant_available order fresh ctx auth d source repository
     then \<exists>a. fst (evaluate_grant order digest fresh ctx auth d actor source repository selector cls role ops) = Inr a
     else fst (evaluate_grant order digest fresh ctx auth d actor source repository selector cls role ops) = Inl GrantDenied"
proof -
  have scope: "(if isl (resolve_resource_operation order auth \<lparr>rr_target = [], rr_service = ''ags'', rr_repository = re_full_name repository,
       rr_operation = ''repo.read'', rr_policy_class = []\<rparr>) then x = Inl GrantDenied else \<exists>a. x = Inr a)"
    if "x = grant_scope order digest auth actor executor source repository dflt selector cls role ops" for x executor dflt
  proof -
    have "isl x \<longleftrightarrow> isl (resolve_resource_operation order auth \<lparr>rr_target = [], rr_service = ''ags'', rr_repository = re_full_name repository,
       rr_operation = ''repo.read'', rr_policy_class = []\<rparr>)" unfolding that by (rule grant_scope_given [OF assms])
    moreover have "x = Inl e \<Longrightarrow> e = GrantDenied" for e unfolding that by (rule grant_scope_error)
    ultimately show ?thesis by (cases x) simp_all
  qed
  show ?thesis
  proof (cases "resolve_runtime_policy_authority auth (sr_source_instance_id source) (sr_workspace_id source) default_dynamic_policy_class")
    case authority: (Inr dflt)
    show ?thesis
    proof (cases "first_row (\<lambda>u. ur_id u = tb_principal_id (fst dflt)) (db_users d)")
      case (Inr executor)
      then show ?thesis using authority scope [OF refl, of executor dflt]
        by (cases "covers_operations fresh ctx d (re_id repository) (ur_id executor) standard_operations")
          (simp add: evaluate_grant_def grant_available_def split: if_splits)
    qed (simp add: evaluate_grant_def grant_available_def authority)
  qed (simp add: evaluate_grant_def grant_available_def)
qed

text \<open>
  C24. Nothing a workload asks for decides whether it gets a grant: whatever the selector, the policy
  class, the role and the operations, evaluation either gives a grant, exactly when the source has
  its default authority, the executor is active and covers every standard operation on the
  repository, and a resource policy lets the repository be read; or it answers
  \<open>ErrAccessGrantDenied\<close>.
\<close>

theorem grant_decision:
  assumes "map_order order"
  shows "if grant_available order fresh ctx auth d source repository
     then \<exists>a. fst (evaluate_grant order digest fresh ctx auth d actor source repository selector cls role ops) = Inr a
     else fst (evaluate_grant order digest fresh ctx auth d actor source repository selector cls role ops) = Inl GrantDenied"
  using assms by (rule grant_given)

text \<open>What an evaluation that succeeds has found.\<close>

lemma evaluate_grant_parts:
  assumes "evaluate_grant order digest fresh ctx auth d actor source repository sel req role ops = (Inr a, d')"
  obtains dflt executor p where
    "resolve_runtime_policy_authority auth (sr_source_instance_id source) (sr_workspace_id source) default_dynamic_policy_class = Inr dflt"
    "first_row (\<lambda>u. ur_id u = tb_principal_id (fst dflt)) (db_users d) = Inr executor" "active_grant_user executor"
    "has_repo_access fresh ctx d (re_id repository) (ur_id executor) = (Inr p, d')" "at_least p RepoPermissionWrite"
    "grant_scope order digest auth actor executor source repository dflt sel req role ops = Inr a"
    "ur_id executor = tb_principal_id (fst dflt)"
proof -
  obtain dflt where dflt: "resolve_runtime_policy_authority auth (sr_source_instance_id source) (sr_workspace_id source) default_dynamic_policy_class = Inr dflt"
    using assms by (auto simp: evaluate_grant_def split: sum.splits)
  obtain executor where ex: "first_row (\<lambda>u. ur_id u = tb_principal_id (fst dflt)) (db_users d) = Inr executor"
    using assms dflt by (auto simp: evaluate_grant_def split: sum.splits)
  have act: "active_grant_user executor" using assms dflt ex by (auto simp: evaluate_grant_def split: if_splits)
  obtain covers d1 where cv: "covers_operations fresh ctx d (re_id repository) (ur_id executor) standard_operations = (covers, d1)" by fastforce
  then have sc: "covers" "d1 = d'" "grant_scope order digest auth actor executor source repository dflt sel req role ops = Inr a"
    using assms dflt ex act by (auto simp: evaluate_grant_def split: if_splits)
  obtain p where p: "has_repo_access fresh ctx d (re_id repository) (ur_id executor) = (Inr p, d')"
    "list_all (\<lambda>n. case lookup_operation n of None \<Rightarrow> False | Some oper \<Rightarrow> at_least p (repo_permission_for (op_required oper))) standard_operations"
    using cv sc(1,2) by (auto simp: covers_operations_def split: prod.splits sum.splits)
  have "map_option op_required (lookup_operation ''git.push'') = Some PermissionWrite" by code_simp
  then have "at_least p RepoPermissionWrite" using p(2) standard_facts(3) by (auto simp: list_all_iff repo_permission_for_def split: option.splits)
  moreover have "ur_id executor = tb_principal_id (fst dflt)" using ex find_set by (fastforce simp: first_row_def split: option.splits)
  ultimately show ?thesis using that dflt ex act p(1) sc(3) by blast
qed



lemma workload_covers:
  "fst (covers_operations 5 None (sample_database sample_tables []) 7 1 standard_operations)"
  by code_simp

lemma workload_values:
  "case new_set workload_config of
     Inl _ \<Rightarrow> False
   | Inr s \<Rightarrow> map_option tb_principal_id (case resolve_runtime_policy_authority (Some s) ''multica-1'' ''ws'' default_dynamic_policy_class of Inl _ \<Rightarrow> None | Inr x \<Rightarrow> Some (fst x)) = Some 1
       \<and> clean_set s
       \<and> (case resolve_resource_operation (\<lambda>xs. xs) (Some s) \<lparr>rr_target = [], rr_service = ''ags'', rr_repository = ''org/repo'', rr_operation = ''repo.read'', rr_policy_class = []\<rparr> of
            Inl _ \<Rightarrow> False
          | Inr (r, _) \<Rightarrow> merge_resolves (\<lambda>xs. xs) (Some s) (rp_target r) ''org/repo'')"
  by code_simp

lemma workload_given: "\<exists>a d'. workload_grant selector cls role ops = (Inr a, d') \<and> merge_resolves (\<lambda>xs. xs) (Some (built workload_config)) (rp_target (ga_resource a)) ''org/repo''"
proof -
  obtain s where s: "new_set workload_config = Inr s" using workload_values by (auto split: sum.splits)
  then have b: "built workload_config = s" by (simp add: built_def)
  note vals = workload_values [unfolded s sum.case]
  obtain dflt where dflt: "resolve_runtime_policy_authority (Some s) ''multica-1'' ''ws'' default_dynamic_policy_class = Inr dflt" "tb_principal_id (fst dflt) = 1"
    using vals by (auto split: sum.splits)
  obtain resource r where r: "resolve_resource_operation (\<lambda>xs. xs) (Some s) \<lparr>rr_target = [], rr_service = ''ags'', rr_repository = ''org/repo'', rr_operation = ''repo.read'', rr_policy_class = []\<rparr> = Inr (resource, r)"
    "merge_resolves (\<lambda>xs. xs) (Some s) (rp_target resource) ''org/repo''" using vals by (auto split: sum.splits)
  have u: "first_row (\<lambda>u. ur_id u = 1) (db_users (sample_database sample_tables [])) = Inr (ts_users sample_tables ! 0)"
    "active_grant_user (ts_users sample_tables ! 0)" "ur_id (ts_users sample_tables ! 0) = 1"
    "re_id (ts_repositories sample_tables ! 0) = 7" "re_full_name (ts_repositories sample_tables ! 0) = ''org/repo''" by code_simp+
  have "grant_available (\<lambda>xs. xs) 5 None (Some s) (sample_database sample_tables []) workload_source (ts_repositories sample_tables ! 0)"
    using workload_covers u(2) by (simp add: grant_available_def workload_source_def dflt u [unfolded One_nat_def] r)
  then obtain a d' where a: "workload_grant selector cls role ops = (Inr a, d')"
    using grant_given [OF map_order_id, of 5 None "Some s" "sample_database sample_tables []" workload_source "ts_repositories sample_tables ! 0"]
    unfolding workload_grant_def b by (metis prod.collapse)
  obtain dflt' executor p where "grant_scope (\<lambda>xs. xs) rv_policy_class_outcome (Some s) workload_actor executor workload_source (ts_repositories sample_tables ! 0) dflt' selector cls role ops = Inr a"
    by (rule evaluate_grant_parts [OF a [unfolded workload_grant_def b]])
  from grant_scope_parts(7) [OF this map_order_id] have "ga_resource a = resource" by (simp add: u r)
  then show ?thesis using a r b by auto
qed

lemma workload_merges:
  assumes "workload_grant selector cls ''Maintainer'' ops = (Inr a, d')"
  shows "''pr.merge'' \<in> set (ga_effective_operations a)"
proof -
  have m: "is_pr_merge_role ''Maintainer''" "re_full_name (ts_repositories sample_tables ! 0) = ''org/repo''" by code_simp+
  obtain dflt executor p where "grant_scope (\<lambda>xs. xs) rv_policy_class_outcome (Some (built workload_config)) workload_actor executor workload_source
      (ts_repositories sample_tables ! 0) dflt selector cls ''Maintainer'' ops = Inr a"
    by (rule evaluate_grant_parts [OF assms [unfolded workload_grant_def]])
  then show ?thesis using grant_scope_parts(6) [OF _ map_order_id] workload_given [of selector cls "''Maintainer''" ops] assms m by auto
qed

theorem grant_decision_witness:
  "\<not> grant_available (\<lambda>xs. xs) 5 None None (sample_database sample_tables []) workload_source (ts_repositories sample_tables ! 0)
   \<and> fst (evaluate_grant (\<lambda>xs. xs) rv_policy_class_outcome 5 None None (sample_database sample_tables []) workload_actor workload_source
        (ts_repositories sample_tables ! 0) [] [] ''maintainer'' [''git.push'']) = Inl GrantDenied"
proof -
  have n: "\<not> grant_available (\<lambda>xs. xs) 5 None None (sample_database sample_tables []) workload_source (ts_repositories sample_tables ! 0)"
    by (simp add: grant_available_def resolve_runtime_policy_authority_def configured_def)
  with grant_decision [OF map_order_id, of 5 None None "sample_database sample_tables []" workload_source "ts_repositories sample_tables ! 0"]
  show ?thesis by simp
qed



text \<open>
  C25. Renewing changes nothing: evaluating a grant again with what is stored of it, on the same
  snapshot and for the same actor, source and repository, gives the same operations, classes and
  authority revision, provided that a merge role had its effect in the first place, which it has on
  every constructed snapshot.
\<close>

theorem renewal_stable:
  assumes "map_order order"
    and "evaluate_grant order digest fresh ctx auth d actor source repository selector cls role ops = (Inr a, d')"
    and "evaluate_grant order digest fresh2 ctx2 auth d2 actor source repository (ga_agent_selector a) (ga_requested_policy_class a)
           (renewal_role a) (ga_requested_operations a) = (Inr b, d2')"
    and "is_pr_merge_role role \<Longrightarrow> ''pr.merge'' \<in> set (ga_effective_operations a)"
  shows "ga_effective_operations b = ga_effective_operations a \<and> ga_effective_policy_classes b = ga_effective_policy_classes a
    \<and> ga_authority_revision b = ga_authority_revision a \<and> ur_id (ga_executor b) = ur_id (ga_executor a)
    \<and> rp_target (ga_resource b) = rp_target (ga_resource a)"
proof -
  obtain dflt executor p where e: "resolve_runtime_policy_authority auth (sr_source_instance_id source) (sr_workspace_id source) default_dynamic_policy_class = Inr dflt"
    "grant_scope order digest auth actor executor source repository dflt selector cls role ops = Inr a" "ur_id executor = tb_principal_id (fst dflt)"
    by (rule evaluate_grant_parts [OF assms(2)])
  obtain dflt2 executor2 p2 where f: "resolve_runtime_policy_authority auth (sr_source_instance_id source) (sr_workspace_id source) default_dynamic_policy_class = Inr dflt2"
    "grant_scope order digest auth actor executor2 source repository dflt2 (ga_agent_selector a) (ga_requested_policy_class a) (renewal_role a) (ga_requested_operations a) = Inr b"
    "ur_id executor2 = tb_principal_id (fst dflt2)"
    by (rule evaluate_grant_parts [OF assms(3)])
  have dflt: "dflt2 = dflt" using e(1) f(1) by simp
  note pa = grant_scope_parts [OF e(2) assms(1)]
  note pb = grant_scope_parts [OF f(2) [unfolded dflt] assms(1)]
  have resource: "ga_resource b = ga_resource a" using pa(7) pb(7) by auto
  have roles: "is_pr_merge_role access_role_maintainer" "\<not> is_pr_merge_role []" by code_simp+
  have "sorted (ga_effective_operations a)" unfolding pa(6) grant_envelope_def by simp
  then have "renewal_role a = (if ''pr.merge'' \<in> set (ga_effective_operations a) then access_role_maintainer else [])"
    by (simp add: renewal_role_def contains_operation_def sorted_member_iff pa(9))
  moreover have "''pr.merge'' \<in> set (ga_effective_operations a) \<longleftrightarrow> is_pr_merge_role role" using assms(4) unfolding pa(6) by auto
  ultimately have role: "is_pr_merge_role (renewal_role a) = is_pr_merge_role role" using roles by simp
  have eff: "ga_effective_operations b = ga_effective_operations a" unfolding pa(6) pb(6) role resource ..
  have ops: "ga_requested_operations b = ga_requested_operations a" unfolding pb(3) pa(3) by (rule requested_again)
  have sel: "ga_agent_selector_outcome b = ga_agent_selector_outcome a" unfolding pb(2) pa(1,2) select_agent_again ..
  obtain w w' v v' where "choose_class (pc_id (snd dflt)) (is_pr_merge_role role) cls w = (ga_requested_policy_class a, ga_policy_class_outcome a, w')"
    "choose_class (pc_id (snd dflt)) (is_pr_merge_role role) (ga_requested_policy_class a) v = (ga_requested_policy_class b, ga_policy_class_outcome b, v')"
    using pa(5) pb(5) role by auto
  note outcome = choose_class_outcome [OF this]
  have cs: "ga_effective_policy_classes b = ga_effective_policy_classes a" unfolding pa(4) pb(4) ..
  have ids: "ur_id executor2 = ur_id executor" using e(3) f(3) dflt by simp
  then have "revision_of actor executor2 source repository resource dflt None so c co cl w x
      = revision_of actor executor source repository resource dflt None so c co cl w x" for resource so c co cl w x
    by (simp add: revision_of_def)
  then have "ga_authority_revision b = ga_authority_revision a"
    unfolding pa(8) pb(8) resource sel ops eff cs by (simp add: outcome)
  then show ?thesis using eff cs ids resource pa(10) pb(10) by simp
qed

theorem renewal_stable_witness:
  "\<exists>a b d1 d2. workload_grant '' agent-a7 '' ''other'' ''Maintainer'' [''Review.Submit'', ''repo.delete''] = (Inr a, d1)
     \<and> workload_grant (ga_agent_selector a) (ga_requested_policy_class a) (renewal_role a) (ga_requested_operations a) = (Inr b, d2)
     \<and> ga_authority_revision b = ga_authority_revision a"
proof -
  obtain a d1 b d2 where g: "workload_grant '' agent-a7 '' ''other'' ''Maintainer'' [''Review.Submit'', ''repo.delete''] = (Inr a, d1)"
    "workload_grant (ga_agent_selector a) (ga_requested_policy_class a) (renewal_role a) (ga_requested_operations a) = (Inr b, d2)"
    using workload_given by metis
  from workload_merges [OF g(1)] have "is_pr_merge_role ''Maintainer'' \<Longrightarrow> ''pr.merge'' \<in> set (ga_effective_operations a)" by simp
  from renewal_stable [OF map_order_id g(1) [unfolded workload_grant_def] g(2) [unfolded workload_grant_def] this] g show ?thesis by blast
qed

end
