(* ===== verification/Grant_Store.thy ===== *)
theory Grant_Store
  imports Access_Grant Operation_Constraints Go_Time
begin

text \<open>
  The life of an Access Grant: \<open>internal/service/access_grant.go\<close> and \<open>execution_context.go\<close> over the
  tables of grants, transport sessions, invocations, identities and context snapshots. The facts of a
  grant or session that never change are a record of their own. A \<open>grant_env\<close> holds what an
  operation gets from outside: the configuration snapshot, digests, fresh identifiers, the random
  part of a credential and the readings of the clock, numbered in the order the code takes them.
  A transaction that fails leaves the store as it was before it.
\<close>

section \<open>Rows\<close>

record context_facts =
  cx_workspace_slug :: string
  cx_agent_name :: string
  cx_squad_id :: "string option"
  cx_issue :: "(string \<times> string) option"
  cx_trigger_id :: "string option"
  cx_runtime_id :: "string option"

text \<open>The two JSON columns of a snapshot are \<open>None\<close> where \<open>json.Unmarshal\<close> refuses them.\<close>

record snapshot_row =
  sn_id :: string
  sn_source :: "source_ref option"
  sn_context :: "context_facts option"
  sn_digest :: string
  sn_observed_at :: instant
  sn_created_at :: instant

record identity_row =
  id_provider :: string
  id_subject :: string
  id_user_id :: nat

record grant_facts =
  gf_id :: string
  gf_credential_hash :: string
  gf_credential_prefix :: string
  gf_actor_user_id :: nat
  gf_executor_user_id :: nat
  gf_snapshot_id :: string
  gf_source :: source_ref
  gf_repository_id :: nat
  gf_repository_full_name :: string
  gf_target_instance :: string
  gf_agent_selector :: string
  gf_agent_selector_outcome :: string
  gf_default_policy_class :: string
  gf_requested_policy_class :: string
  gf_policy_class_outcome :: string
  gf_effective_policy_classes :: "string list"
  gf_requested_operations :: "string list"
  gf_effective_operations :: "string list"
  gf_warnings :: "string list"
  gf_default_binding_revision :: string
  gf_elevated_binding_revision :: string
  gf_resource_policy_revision :: string
  gf_authority_revision :: string
  gf_renewed_from :: string
  gf_created_at :: instant
  gf_expires_at :: instant

record grant_row =
  gr_facts :: grant_facts
  gr_last_used_at :: "instant option"
  gr_revoked_at :: "instant option"
  gr_revocation_reason :: string

text \<open>
  An invocation is the receipt of an authorization and, for \<open>pr.merge\<close>, the durable intent of one
  effect of the provider: what the effect is, which never changes, and how far it has come.
\<close>

datatype intent_state =
  Planned | Dispatching | RecoveryNeeded | Completed | DeniedState | ConflictState | OtherState string

record effect_facts =
  ef_ags_pr_number :: int
  ef_provider :: string
  ef_provider_repo :: string
  ef_provider_pr_number :: int
  ef_expected_head :: string
  ef_expected_base :: string
  ef_base_ref :: string
  ef_method :: string

record effect_progress =
  ep_state :: intent_state
  ep_authorization_outcome :: string
  ep_provider_attempt :: string
  ep_provider_outcome :: string
  ep_provider_merged :: bool
  ep_merge_sha :: string
  ep_denial_code :: string
  ep_updated_at :: instant
  ep_finished_at :: "instant option"

record invocation_row =
  iv_id :: string
  iv_effect_key :: "string option"
  iv_grant_id :: string
  iv_actor_user_id :: nat
  iv_executor_user_id :: nat
  iv_repository_id :: nat
  iv_repository :: string
  iv_operation :: string
  iv_constraints :: vals
  iv_authority_revision :: string
  iv_effect :: effect_facts
  iv_created_at :: instant
  iv_progress :: effect_progress

record merge_delegation =
  md_id :: string
  md_revision :: string
  md_not_after :: "instant option"
  md_facts_digest :: string
  md_target_instance :: string
  md_canonical_repository_id :: string
  md_provider :: string
  md_provider_binding_id :: string
  md_provider_binding_revision :: string
  md_provider_repository :: string
  md_ags_pr_number :: int
  md_provider_pr_number :: int
  md_expected_head_sha :: string
  md_expected_base_sha :: string
  md_base_ref :: string
  md_method :: string
  md_projection_revision :: string

record session_trace =
  tr_workspace :: string
  tr_agent_name :: string
  tr_squad_id :: string
  tr_issue_id :: string
  tr_issue_key :: string
  tr_trigger_id :: string
  tr_runtime_id :: string
  tr_role :: string
  tr_quality :: string
  tr_missing_fields :: "string list"
  tr_delegated_by_user_id :: "nat option"
  tr_delegated_by_login :: string
  tr_delegated_by_source :: string

record session_facts =
  sf_id :: string
  sf_credential_hash :: string
  sf_credential_prefix :: string
  sf_principal_user_id :: nat
  sf_principal_login :: string
  sf_access_grant_id :: string
  sf_access_grant_revision :: string
  sf_actor_user_id :: nat
  sf_issuer :: string
  sf_assertion_version :: int
  sf_assertion_purpose :: string
  sf_assertion_jti :: string
  sf_assertion_audience :: string
  sf_assertion_key_id :: string
  sf_contract_revision :: string
  sf_credential_mode :: string
  sf_binding_id :: string
  sf_binding_revision :: string
  sf_team_identity_id :: string
  sf_team_binding_revision :: string
  sf_policy_class :: string
  sf_membership_epoch :: int
  sf_issuer_instance_id :: string
  sf_trust_revision :: string
  sf_issuer_subject :: string
  sf_correlation_id :: string
  sf_issuer_workspace_id :: string
  sf_external_agent_id :: string
  sf_external_task_id :: string
  sf_external_run_id :: string
  sf_workload_context_schema :: string
  sf_target_instance :: string
  sf_resource_service :: string
  sf_repository_id :: nat
  sf_operation_name :: string
  sf_operation_constraints :: vals
  sf_merge :: merge_delegation
  sf_granted_capabilities :: "string list"
  sf_policy_version :: string
  sf_policy_snapshot_hash :: string
  sf_native_grant_revision :: string
  sf_resource_policy_revision :: string
  sf_trace :: session_trace
  sf_created_at :: instant
  sf_expires_at :: instant

record session_row =
  ss_facts :: session_facts
  ss_expiry_audited_at :: "instant option"
  ss_last_used_at :: "instant option"
  ss_revoked_at :: "instant option"
  ss_revoked_by_user_id :: "nat option"
  ss_revocation_reason :: string

text \<open>
  The details of an audit entry about a session, without credential, hash or fingerprint, and the
  entry with them; its creation time and the identifier the database gives are left out.
\<close>

record audit_details =
  ad_contract_revision :: string
  ad_session_id :: string
  ad_principal :: "nat \<times> string"
  ad_binding :: "string \<times> string"
  ad_team :: "string \<times> string"
  ad_policy_class :: string
  ad_membership_epoch :: int
  ad_issuer_instance_id :: string
  ad_trust_revision :: string
  ad_assertion_key_id :: string
  ad_issuer_subject :: string
  ad_correlation_id :: string
  ad_delegated_by :: "nat option \<times> string \<times> string"
  ad_workspace :: "string \<times> string"
  ad_agent :: "string \<times> string"
  ad_squad_id :: string
  ad_task_id :: string
  ad_run_id :: string
  ad_issue :: "string \<times> string"
  ad_trigger_id :: string
  ad_runtime_id :: string
  ad_role :: string
  ad_trace_quality :: string
  ad_missing_fields :: "string list"
  ad_target_instance :: string
  ad_resource_service :: string
  ad_repository_id :: nat
  ad_session_operation :: string
  ad_constraints :: vals
  ad_merge :: "string \<times> string \<times> string"
  ad_capabilities :: "string list"
  ad_native_grant_revision :: string
  ad_resource_policy_revision :: string
  ad_policy_version :: string
  ad_expires_at :: instant
  ad_revoked_at :: "instant option"
  ad_operation :: string
  ad_outcome :: string
  ad_reason :: string

record audit_row =
  au_user_id :: nat
  au_actor :: "(nat \<times> string) option"
  au_action :: string
  au_repository :: string
  au_target_login :: string
  au_details :: audit_details

record grant_store =
  gs_db :: database
  gs_redirects :: "(string \<times> nat) list"
  gs_identities :: "identity_row list"
  gs_snapshots :: "snapshot_row list"
  gs_grants :: "grant_row list"
  gs_sessions :: "session_row list"
  gs_invocations :: "invocation_row list"
  gs_audit :: "audit_row list"

record grant_env =
  ev_order :: "string list \<Rightarrow> string list"
  ev_revision :: "revision_input \<Rightarrow> string"
  ev_sha :: "string \<Rightarrow> string"
  ev_context_digest :: "source_ref \<Rightarrow> instant \<Rightarrow> string"
  ev_auth :: "auth_set option"
  ev_ctx :: "user_row option"
  ev_fresh_team :: nat
  ev_fresh_user :: nat
  ev_uuid :: "nat \<Rightarrow> string"
  ev_secret :: "string option"
  ev_clock :: "nat \<Rightarrow> instant"

definition grant_token_prefix :: string where "grant_token_prefix = ''ags_grant_''"
definition canonical_actor_provider :: string where "canonical_actor_provider = ''execution_context''"
definition maximum_grant_ttl :: duration where "maximum_grant_ttl = 30 * minute"
definition transport_mode :: string where "transport_mode = ''access_grant_transport''"
definition unverified_warning :: string where "unverified_warning = ''execution_context_unverified''"

section \<open>Context snapshots\<close>

record pulled =
  pu_source :: source_ref
  pu_observed_at :: string
  pu_context :: context_facts
  pu_digest :: string

text \<open>\<open>ii_pull\<close> is what the puller answers, \<open>None\<close> without a puller.\<close>

record intake_input =
  ii_source_instance_id :: string
  ii_workspace_id :: string
  ii_agent_id :: string
  ii_task_id :: string
  ii_pull :: "(intake_error + pulled) option"

record intake_result =
  in_snapshot_id :: string
  in_source :: source_ref
  in_digest :: string
  in_context :: context_facts
  in_provisional :: bool

definition intake_execution_context :: "grant_env \<Rightarrow> instant \<Rightarrow> intake_input \<Rightarrow> grant_store \<Rightarrow> (intake_error + intake_result) \<times> grant_store" where
  "intake_execution_context env now input st =
     (case ii_pull input of
        None \<Rightarrow> (Inl IntakeUnavailable, st)
      | Some (Inl e) \<Rightarrow> (Inl e, st)
      | Some (Inr p) \<Rightarrow>
          (case parse_rfc3339 (pu_observed_at p) of
             None \<Rightarrow> (Inl PullContextInvalid, st)
           | Some observed \<Rightarrow>
               if ev_uuid env 0 \<in> sn_id ` set (gs_snapshots st) then (Inl IntakeUnavailable, st)
               else (Inr \<lparr>in_snapshot_id = ev_uuid env 0, in_source = pu_source p, in_digest = pu_digest p, in_context = pu_context p,
                       in_provisional = False\<rparr>,
                     st\<lparr>gs_snapshots := gs_snapshots st @ [\<lparr>sn_id = ev_uuid env 0, sn_source = Some (pu_source p),
                       sn_context = Some (pu_context p), sn_digest = pu_digest p, sn_observed_at = observed, sn_created_at = now\<rparr>]\<rparr>)))"

definition is_availability_error :: "intake_error \<Rightarrow> bool" where
  "is_availability_error e \<longleftrightarrow> e = IntakeUnavailable \<or> e = PullDisabled \<or> e = PullSourceUnavailable"

definition empty_context :: context_facts where
  "empty_context = \<lparr>cx_workspace_slug = [], cx_agent_name = [], cx_squad_id = None, cx_issue = None, cx_trigger_id = None, cx_runtime_id = None\<rparr>"

definition locator_source :: "intake_input \<Rightarrow> source_ref" where
  "locator_source input = \<lparr>sr_source_instance_id = trim_space (ii_source_instance_id input), sr_workspace_id = trim_space (ii_workspace_id input),
     sr_agent_id = trim_space (ii_agent_id input), sr_task_id = trim_space (ii_task_id input), sr_run_id = trim_space (ii_task_id input),
     sr_issue_id = [], sr_runtime_id = []\<rparr>"

definition provisional_intake_from_locator :: "grant_env \<Rightarrow> instant \<Rightarrow> intake_input \<Rightarrow> grant_store \<Rightarrow> (intake_error + intake_result) \<times> grant_store" where
  "provisional_intake_from_locator env now input st =
     (let source = locator_source input; digest = ev_context_digest env source (now)
      in if ev_uuid env 0 \<in> sn_id ` set (gs_snapshots st) then (Inl IntakeUnavailable, st)
         else (Inr \<lparr>in_snapshot_id = ev_uuid env 0, in_source = source, in_digest = digest, in_context = empty_context, in_provisional = True\<rparr>,
               st\<lparr>gs_snapshots := gs_snapshots st @ [\<lparr>sn_id = ev_uuid env 0, sn_source = Some source, sn_context = Some empty_context,
                 sn_digest = digest, sn_observed_at = now, sn_created_at = now\<rparr>]\<rparr>))"

definition intake_for_access_grant :: "grant_env \<Rightarrow> instant \<Rightarrow> intake_input \<Rightarrow> grant_store \<Rightarrow> (intake_error + intake_result) \<times> grant_store" where
  "intake_for_access_grant env now input st =
     (case intake_execution_context env now input st of
        (Inr r, st1) \<Rightarrow> (Inr r, st1)
      | (Inl e, st1) \<Rightarrow> if \<not> is_availability_error e then (Inl e, st1) else provisional_intake_from_locator env now input st1)"

definition get_snapshot :: "grant_store \<Rightarrow> string \<Rightarrow> grant_error + snapshot_row \<times> source_ref \<times> context_facts" where
  "get_snapshot st i =
     (case find (\<lambda>r. sn_id r = i) (gs_snapshots st) of
        None \<Rightarrow> Inl (GrantStore NotFound)
      | Some r \<Rightarrow> (case sn_source r of
          None \<Rightarrow> Inl (GrantIntake IntakeUnavailable)
        | Some source \<Rightarrow> (case sn_context r of
            None \<Rightarrow> Inl (GrantIntake IntakeUnavailable)
          | Some current \<Rightarrow> Inr (r, source, current))))"

definition snapshot_digest :: "grant_store \<Rightarrow> string \<Rightarrow> string" where
  "snapshot_digest st i = (case find (\<lambda>r. sn_id r = i) (gs_snapshots st) of None \<Rightarrow> [] | Some r \<Rightarrow> sn_digest r)"

section \<open>Repositories and actors\<close>

definition lookup_repo :: "grant_store \<Rightarrow> string \<Rightarrow> store_error + repo_row" where
  "lookup_repo st name =
     (case first_row (\<lambda>r. re_full_name r = name) (db_repositories (gs_db st)) of
        Inr r \<Rightarrow> Inr r
      | Inl NotFound \<Rightarrow> (case find (\<lambda>(old, _). old = name) (gs_redirects st) of
            None \<Rightarrow> Inl NotFound
          | Some (_, i) \<Rightarrow> first_row (\<lambda>r. re_id r = i) (db_repositories (gs_db st)))
      | Inl e \<Rightarrow> Inl e)"

definition canonical_actor_subject :: "(string \<Rightarrow> string) \<Rightarrow> string \<Rightarrow> string \<Rightarrow> string" where
  "canonical_actor_subject sha source_instance agent =
     (let raw = trim_space source_instance @ ''/'' @ trim_space agent
      in if length raw \<le> 255 then raw else ''sha256:'' @ sha raw)"

definition canonical_actor_digest :: "(string \<Rightarrow> string) \<Rightarrow> string \<Rightarrow> string \<Rightarrow> string" where
  "canonical_actor_digest sha source_instance agent = sha (trim_space source_instance @ [CHR 0x00] @ trim_space agent)"

definition slug_byte :: "char \<Rightarrow> bool" where
  "slug_byte c \<longleftrightarrow> char_between CHR ''a'' CHR ''z'' c \<or> char_between CHR ''0'' CHR ''9'' c"

text \<open>\<open>ReplaceAllString\<close> of runs of other bytes by a dash; the flag tells that a run is being replaced.\<close>

fun slug_runs :: "bool \<Rightarrow> string \<Rightarrow> string" where
  "slug_runs run [] = []"
| "slug_runs run (c # cs) = (if slug_byte c then c # slug_runs False cs else if run then slug_runs True cs else CHR ''-'' # slug_runs True cs)"

definition canonical_actor_login :: "(string \<Rightarrow> string) \<Rightarrow> string \<Rightarrow> string \<Rightarrow> string \<Rightarrow> string" where
  "canonical_actor_login sha source_instance agent name =
     (let s0 = trim_char (CHR ''-'') (slug_runs False (to_lower (trim_space name)));
          s1 = (if s0 = [] then ''runtime'' else s0);
          s2 = (if length s1 > 18 then trim_char (CHR ''-'') (take 18 s1) else s1)
      in ''agent-'' @ s2 @ ''-'' @ take 12 (canonical_actor_digest sha source_instance agent))"

definition create_actor :: "grant_env \<Rightarrow> string \<Rightarrow> string \<Rightarrow> string \<Rightarrow> grant_store \<Rightarrow> (grant_error + user_row) \<times> grant_store" where
  "create_actor env subject login agent_name st =
     (let trimmed = trim_space agent_name;
          name = (if trimmed = [] \<or> is_secret_shaped trimmed then login else trimmed);
          actor = \<lparr>ur_id = ev_fresh_user env, ur_type = ''User'', ur_kind = ''agent'', ur_status = ''active'', ur_site_admin = False,
            ur_default_permission = ''none'', ur_login = login, ur_name = name, ur_is_anonymous = False\<rparr>
      in (Inr actor, st\<lparr>gs_db := (gs_db st)\<lparr>db_users := map_option (\<lambda>us. us @ [actor]) (db_users (gs_db st))\<rparr>,
           gs_identities := gs_identities st @ [\<lparr>id_provider = canonical_actor_provider, id_subject = subject, id_user_id = ur_id actor\<rparr>]\<rparr>))"

definition actor_transaction :: "grant_env \<Rightarrow> source_ref \<Rightarrow> context_facts \<Rightarrow> grant_store \<Rightarrow> (grant_error + user_row) \<times> grant_store" where
  "actor_transaction env source current st =
     (let subject = canonical_actor_subject (ev_sha env) (sr_source_instance_id source) (sr_agent_id source);
          users = db_users (gs_db st)
      in case find (\<lambda>i. id_provider i = canonical_actor_provider \<and> id_subject i = subject) (gs_identities st) of
           Some i \<Rightarrow>
             (case first_row (\<lambda>u. ur_id u = id_user_id i) users of
                Inr user \<Rightarrow> if \<not> active_canonical_actor user then (Inl GrantDenied, st) else (Inr user, st)
              | Inl NotFound \<Rightarrow> (Inl GrantDenied, st)
              | Inl e \<Rightarrow> (Inl (GrantStore e), st))
         | None \<Rightarrow>
             (let login = canonical_actor_login (ev_sha env) (sr_source_instance_id source) (sr_agent_id source) (cx_agent_name current)
              in case first_row (\<lambda>u. ur_login u = login) users of
                   Inr _ \<Rightarrow>
                     (let login2 = ''agent-'' @ take 20 (canonical_actor_digest (ev_sha env) (sr_source_instance_id source) (sr_agent_id source))
                      in case first_row (\<lambda>u. ur_login u = login2) users of
                           Inr _ \<Rightarrow> (Inl GrantConflict, st)
                         | Inl NotFound \<Rightarrow> create_actor env subject login2 (cx_agent_name current) st
                         | Inl e \<Rightarrow> (Inl (GrantStore e), st))
                 | Inl NotFound \<Rightarrow> create_actor env subject login (cx_agent_name current) st
                 | Inl e \<Rightarrow> (Inl (GrantStore e), st)))"

fun actor_attempts :: "nat \<Rightarrow> grant_env \<Rightarrow> source_ref \<Rightarrow> context_facts \<Rightarrow> grant_store \<Rightarrow> (grant_error + user_row) \<times> grant_store" where
  "actor_attempts 0 env source current st = (Inl GrantConflict, st)"
| "actor_attempts (Suc n) env source current st =
     (case actor_transaction env source current st of
        (Inr actor, st1) \<Rightarrow> (Inr actor, st1)
      | (Inl GrantConflict, st1) \<Rightarrow> actor_attempts n env source current st1
      | (Inl e, st1) \<Rightarrow> (Inl e, st1))"

definition resolve_or_create_actor :: "grant_env \<Rightarrow> source_ref \<Rightarrow> context_facts \<Rightarrow> grant_store \<Rightarrow> (grant_error + user_row) \<times> grant_store" where
  "resolve_or_create_actor = actor_attempts 4"

section \<open>Grants\<close>

text \<open>\<open>newAccessGrantCredential\<close>; the 32 random bytes come encoded, \<open>None\<close> when \<open>rand.Read\<close> fails.\<close>

definition new_grant_credential :: "grant_env \<Rightarrow> (string \<times> string \<times> string) option" where
  "new_grant_credential env = map_option (\<lambda>r. let raw = grant_token_prefix @ r in (raw, ev_sha env raw, take 20 raw)) (ev_secret env)"

definition max_session_duration :: "resource_policy \<Rightarrow> duration" where
  "max_session_duration p = (if rp_ttl p > 0 then rp_ttl p else case parse_duration (rp_max_session_ttl p) of Some d \<Rightarrow> d | None \<Rightarrow> 0)"

definition build_access_grant ::
  "grant_env \<Rightarrow> instant \<Rightarrow> intake_result \<Rightarrow> repo_row \<Rightarrow> string \<Rightarrow> string \<Rightarrow> string \<Rightarrow> string list \<Rightarrow> string \<Rightarrow> grant_store
     \<Rightarrow> (grant_error + grant_row \<times> string \<times> user_row \<times> user_row) \<times> grant_store" where
  "build_access_grant env now intake repository agent_selector requested_class access_role requested_ops renewed_from st =
     (if ev_auth env = None then (Inl GrantUnavailable, st)
      else case resolve_or_create_actor env (in_source intake) (in_context intake) st of
        (Inl e, st1) \<Rightarrow> (Inl e, st1)
      | (Inr actor, st1) \<Rightarrow>
          (case evaluate_grant (ev_order env) (ev_revision env) (ev_fresh_team env) (ev_ctx env) (ev_auth env) (gs_db st1) actor
                  (in_source intake) repository agent_selector requested_class access_role requested_ops of
             (Inl e, d) \<Rightarrow> (Inl e, st1\<lparr>gs_db := d\<rparr>)
           | (Inr a, d) \<Rightarrow>
               (case new_grant_credential env of
                  None \<Rightarrow> (Inl GrantUnavailable, st1\<lparr>gs_db := d\<rparr>)
                | Some (raw, hash, shown) \<Rightarrow>
                    (let ttl0 = max_session_duration (ga_resource a);
                         ttl = (if ttl0 \<le> 0 \<or> ttl0 > maximum_grant_ttl then maximum_grant_ttl else ttl0);
                         facts = \<lparr>gf_id = ev_uuid env 1, gf_credential_hash = hash, gf_credential_prefix = shown,
                           gf_actor_user_id = ur_id actor, gf_executor_user_id = ur_id (ga_executor a), gf_snapshot_id = in_snapshot_id intake,
                           gf_source = in_source intake, gf_repository_id = re_id repository, gf_repository_full_name = re_full_name repository,
                           gf_target_instance = rp_target (ga_resource a), gf_agent_selector = ga_agent_selector a,
                           gf_agent_selector_outcome = ga_agent_selector_outcome a, gf_default_policy_class = pc_id (snd (ga_default a)),
                           gf_requested_policy_class = ga_requested_policy_class a, gf_policy_class_outcome = ga_policy_class_outcome a,
                           gf_effective_policy_classes = ga_effective_policy_classes a, gf_requested_operations = ga_requested_operations a,
                           gf_effective_operations = ga_effective_operations a, gf_warnings = ga_warnings a,
                           gf_default_binding_revision = tb_binding_revision (fst (ga_default a)),
                           gf_elevated_binding_revision = (case ga_elevated a of None \<Rightarrow> [] | Some (b, _) \<Rightarrow> tb_binding_revision b),
                           gf_resource_policy_revision = rp_policy_revision (ga_resource a), gf_authority_revision = ga_authority_revision a,
                           gf_renewed_from = renewed_from, gf_created_at = now, gf_expires_at = now + ttl\<rparr>
                     in (Inr (\<lparr>gr_facts = facts, gr_last_used_at = None, gr_revoked_at = None, gr_revocation_reason = []\<rparr>,
                              raw, actor, ga_executor a), st1\<lparr>gs_db := d\<rparr>)))))"

text \<open>The insertion of a row, which the primary key and the unique hash of the credential may refuse.\<close>

definition insert_grant :: "grant_row \<Rightarrow> grant_store \<Rightarrow> grant_store option" where
  "insert_grant g st =
     (if gf_id (gr_facts g) \<in> (gf_id \<circ> gr_facts) ` set (gs_grants st)
        \<or> gf_credential_hash (gr_facts g) \<in> (gf_credential_hash \<circ> gr_facts) ` set (gs_grants st) then None
      else Some (st\<lparr>gs_grants := gs_grants st @ [g]\<rparr>))"

definition insert_invocation :: "invocation_row \<Rightarrow> grant_store \<Rightarrow> grant_store option" where
  "insert_invocation i st =
     (if iv_id i \<in> iv_id ` set (gs_invocations st) \<or> iv_effect_key i \<noteq> None \<and> iv_effect_key i \<in> iv_effect_key ` set (gs_invocations st) then None
      else Some (st\<lparr>gs_invocations := gs_invocations st @ [i]\<rparr>))"

definition update_grants :: "(grant_row \<Rightarrow> bool) \<Rightarrow> (grant_row \<Rightarrow> grant_row) \<Rightarrow> grant_store \<Rightarrow> grant_store" where
  "update_grants P f st = st\<lparr>gs_grants := map (\<lambda>g. if P g then f g else g) (gs_grants st)\<rparr>"

definition revoke_transport_sessions :: "string \<Rightarrow> instant \<Rightarrow> string \<Rightarrow> grant_store \<Rightarrow> grant_store" where
  "revoke_transport_sessions grant_id revoked_at reason st =
     st\<lparr>gs_sessions := map (\<lambda>s. if sf_access_grant_id (ss_facts s) = grant_id \<and> sf_credential_mode (ss_facts s) = transport_mode \<and> ss_revoked_at s = None
       then s\<lparr>ss_revoked_at := Some revoked_at, ss_revocation_reason := reason\<rparr> else s) (gs_sessions st)\<rparr>"

definition grant_by_id :: "grant_store \<Rightarrow> string \<Rightarrow> grant_row option" where
  "grant_by_id st i = find (\<lambda>g. gf_id (gr_facts g) = i) (gs_grants st)"

section \<open>Receipts\<close>

definition grant_state :: "grant_row \<Rightarrow> instant \<Rightarrow> string" where
  "grant_state g now =
     (if gr_revoked_at g \<noteq> None then ''revoked'' else if \<not> now < gf_expires_at (gr_facts g) then ''expired'' else ''active'')"

definition grant_association :: "grant_facts \<Rightarrow> string \<times> string" where
  "grant_association g =
     (let core = trim_space (sr_workspace_id (gf_source g)) \<noteq> [] \<and> trim_space (sr_agent_id (gf_source g)) \<noteq> []
            \<and> trim_space (sr_task_id (gf_source g)) \<noteq> [];
          unverified = unverified_warning \<in> set (gf_warnings g);
          status = (if trim_space (gf_agent_selector g) \<noteq> []
                       \<and> (gf_agent_selector_outcome g = ''ignored_unbound'' \<or> gf_agent_selector_outcome g = ''ignored_invalid'') then ''conflict''
                    else if \<not> core then ''unlinked'' else if unverified then ''provisional'' else ''linked'')
      in (status, if gf_actor_user_id g \<noteq> 0 \<and> gf_actor_user_id g = gf_executor_user_id g \<and> status = ''linked''
                  then ''durable_agent'' else ''temporary_agent''))"

text \<open>
  A receipt: the facts without hash and prefix of the credential, with what is computed from them.
\<close>

record grant_receipt =
  rc_id :: string
  rc_actor :: "nat \<times> string \<times> string \<times> string"
  rc_executor :: "nat \<times> string \<times> string"
  rc_source :: source_ref
  rc_snapshot_id :: string
  rc_context_digest :: string
  rc_repository :: "nat \<times> string \<times> string"
  rc_agent_selector_outcome :: string
  rc_default_policy_class :: string
  rc_requested_policy_class :: string
  rc_policy_class_outcome :: string
  rc_effective_policy_classes :: "string list"
  rc_requested_operations :: "string list"
  rc_effective_operations :: "string list"
  rc_warnings :: "string list"
  rc_association_status :: string
  rc_identity_kind :: string
  rc_authority_revision :: string
  rc_renewed_from :: string
  rc_state :: string
  rc_created_at :: instant
  rc_expires_at :: instant
  rc_last_used_at :: "instant option"
  rc_revoked_at :: "instant option"
  rc_revocation_reason :: string

definition access_grant_receipt :: "grant_row \<Rightarrow> user_row \<Rightarrow> user_row \<Rightarrow> string \<Rightarrow> instant \<Rightarrow> grant_receipt" where
  "access_grant_receipt g actor executor digest now =
     (let f = gr_facts g
      in \<lparr>rc_id = gf_id f, rc_actor = (ur_id actor, ur_login actor, ur_name actor, ur_kind actor),
          rc_executor = (ur_id executor, ur_login executor, ur_kind executor), rc_source = gf_source f, rc_snapshot_id = gf_snapshot_id f,
          rc_context_digest = digest, rc_repository = (gf_repository_id f, gf_repository_full_name f, gf_target_instance f),
          rc_agent_selector_outcome = gf_agent_selector_outcome f, rc_default_policy_class = gf_default_policy_class f,
          rc_requested_policy_class = (if gf_requested_policy_class f = invalid_policy_class_marker then [] else gf_requested_policy_class f),
          rc_policy_class_outcome = gf_policy_class_outcome f, rc_effective_policy_classes = gf_effective_policy_classes f,
          rc_requested_operations = gf_requested_operations f, rc_effective_operations = gf_effective_operations f,
          rc_warnings = sort (append_unique (gf_warnings f) ''collaboration_passthrough_transport''),
          rc_association_status = fst (grant_association f), rc_identity_kind = snd (grant_association f),
          rc_authority_revision = gf_authority_revision f, rc_renewed_from = gf_renewed_from f, rc_state = grant_state g now,
          rc_created_at = gf_created_at f, rc_expires_at = gf_expires_at f, rc_last_used_at = gr_last_used_at g,
          rc_revoked_at = gr_revoked_at g, rc_revocation_reason = gr_revocation_reason g\<rparr>)"

record invocation_receipt =
  ir_row :: invocation_row
  ir_constraints :: "(string \<times> json_value) list"

definition invocation_receipt_of :: "invocation_row \<Rightarrow> invocation_receipt" where
  "invocation_receipt_of i =
     \<lparr>ir_row = i, ir_constraints = (case to_json (iv_operation i) (iv_constraints i) of Some c \<Rightarrow> c | None \<Rightarrow> [])\<rparr>"

section \<open>Operations\<close>

record issue_input =
  is_context :: intake_input
  is_repository :: string
  is_agent_selector :: string
  is_policy_class :: string
  is_access_role :: string
  is_additional_operations :: "string list"

definition mark_provisional :: "bool \<Rightarrow> grant_row \<Rightarrow> grant_row" where
  "mark_provisional provisional g =
     (if provisional then g\<lparr>gr_facts := (gr_facts g)\<lparr>gf_warnings := append_unique (gf_warnings (gr_facts g)) unverified_warning\<rparr>\<rparr> else g)"

definition issue_access_grant :: "grant_env \<Rightarrow> issue_input \<Rightarrow> grant_store \<Rightarrow> (grant_error + string \<times> grant_receipt) \<times> grant_store" where
  "issue_access_grant env input st =
     (let name = trim_char (CHR ''/'') (trim_space (is_repository input))
      in if name = [] \<or> is_secret_shaped name then (Inl GrantValidation, st)
         else case lookup_repo st name of
           Inl _ \<Rightarrow> (Inl GrantDenied, st)
         | Inr repository \<Rightarrow>
             if re_disabled repository then (Inl GrantDenied, st)
             else case intake_for_access_grant env (ev_clock env 0) (is_context input) st of
               (Inl e, st1) \<Rightarrow> (Inl (GrantIntake e), st1)
             | (Inr intake, st1) \<Rightarrow>
                 (case build_access_grant env (ev_clock env 1) intake repository (is_agent_selector input) (is_policy_class input)
                         (is_access_role input) (is_additional_operations input) [] st1 of
                    (Inl e, st2) \<Rightarrow> (Inl e, st2)
                  | (Inr (g0, raw, actor, executor), st2) \<Rightarrow>
                      (let g = mark_provisional (in_provisional intake) g0
                       in case insert_grant g st2 of
                            None \<Rightarrow> (Inl GrantUnavailable, st2)
                          | Some st3 \<Rightarrow> (Inr (raw, access_grant_receipt g actor executor (in_digest intake) (ev_clock env 2)), st3))))"

definition load_grant_credential :: "grant_env \<Rightarrow> string \<Rightarrow> grant_store \<Rightarrow> grant_error + grant_row \<times> user_row \<times> user_row" where
  "load_grant_credential env raw st =
     (if \<not> prefix grant_token_prefix raw \<or> length raw < length grant_token_prefix + 32 \<or> length raw > 256 then Inl GrantCredentialInvalid
      else case find (\<lambda>g. gf_credential_hash (gr_facts g) = ev_sha env raw) (gs_grants st) of
        None \<Rightarrow> Inl GrantCredentialInvalid
      | Some g \<Rightarrow>
          (case first_row (\<lambda>u. ur_id u = gf_actor_user_id (gr_facts g)) (db_users (gs_db st)) of
             Inl _ \<Rightarrow> Inl GrantCredentialInvalid
           | Inr actor \<Rightarrow>
               (case first_row (\<lambda>u. ur_id u = gf_executor_user_id (gr_facts g)) (db_users (gs_db st)) of
                  Inl _ \<Rightarrow> Inl GrantCredentialInvalid
                | Inr executor \<Rightarrow> Inr (g, actor, executor))))"

definition grant_live :: "grant_row \<Rightarrow> instant \<Rightarrow> bool" where
  "grant_live g now \<longleftrightarrow> gr_revoked_at g = None \<and> now < gf_expires_at (gr_facts g)"

definition resolve_active_grant :: "grant_env \<Rightarrow> instant \<Rightarrow> string \<Rightarrow> grant_store \<Rightarrow> grant_error + grant_row \<times> user_row \<times> user_row" where
  "resolve_active_grant env now raw st =
     rbind (load_grant_credential env raw st) (\<lambda>(g, actor, executor).
       if \<not> grant_live g now then Inl GrantCredentialInvalid else Inr (g, actor, executor))"

definition grant_renewal_role :: "grant_facts \<Rightarrow> string" where
  "grant_renewal_role f = (if gf_elevated_binding_revision f \<noteq> [] \<or> contains_operation (gf_effective_operations f) ''pr.merge''
     then access_role_maintainer else [])"

definition same_source_facts :: "source_ref \<Rightarrow> source_ref \<Rightarrow> bool" where
  "same_source_facts a b \<longleftrightarrow> sr_source_instance_id a = sr_source_instance_id b \<and> sr_workspace_id a = sr_workspace_id b
     \<and> sr_agent_id a = sr_agent_id b \<and> sr_task_id a = sr_task_id b \<and> sr_run_id a = sr_run_id b"

definition renewal_intake :: "grant_env \<Rightarrow> intake_input \<Rightarrow> grant_facts \<Rightarrow> grant_store \<Rightarrow> (grant_error + intake_result) \<times> grant_store" where
  "renewal_intake env input old st =
     (case intake_execution_context env (ev_clock env 1) input st of
        (Inr r, st1) \<Rightarrow> (Inr r, st1)
      | (Inl e, st1) \<Rightarrow>
          if is_availability_error e
          then (Inr \<lparr>in_snapshot_id = gf_snapshot_id old, in_source = (gf_source old)\<lparr>sr_issue_id := [], sr_runtime_id := []\<rparr>, in_digest = [],
                  in_context = empty_context, in_provisional = True\<rparr>, st1)
          else (Inl (GrantIntake e), st1))"

definition renewal_agrees :: "grant_facts \<Rightarrow> grant_facts \<Rightarrow> bool" where
  "renewal_agrees new old \<longleftrightarrow>
     gf_actor_user_id new = gf_actor_user_id old \<and> gf_executor_user_id new = gf_executor_user_id old
     \<and> gf_repository_id new = gf_repository_id old \<and> gf_target_instance new = gf_target_instance old
     \<and> gf_authority_revision new = gf_authority_revision old
     \<and> gf_effective_operations new = gf_effective_operations old
     \<and> gf_effective_policy_classes new = gf_effective_policy_classes old"

definition renewal_transaction :: "instant \<Rightarrow> grant_row \<Rightarrow> grant_facts \<Rightarrow> grant_store \<Rightarrow> grant_error + grant_store" where
  "renewal_transaction now g old st =
     (case grant_by_id st (gf_id old) of
        None \<Rightarrow> Inl (GrantStore NotFound)
      | Some current \<Rightarrow>
          if \<not> grant_live current now \<or> gf_authority_revision (gr_facts current) \<noteq> gf_authority_revision old then Inl GrantConflict
          else (case insert_grant g st of
                  None \<Rightarrow> Inl GrantDuplicate
                | Some st1 \<Rightarrow>
                    Inr (revoke_transport_sessions (gf_id old) now ''access_grant_renewed''
                      (update_grants (\<lambda>r. gf_id (gr_facts r) = gf_id old \<and> gr_revoked_at r = None)
                        (\<lambda>r. r\<lparr>gr_revoked_at := Some now, gr_revocation_reason := ''renewed''\<rparr>) st1))))"

definition renew_access_grant :: "grant_env \<Rightarrow> string \<Rightarrow> intake_input \<Rightarrow> grant_store \<Rightarrow> (grant_error + string \<times> grant_receipt) \<times> grant_store" where
  "renew_access_grant env raw input st =
     (case resolve_active_grant env (ev_clock env 0) raw st of
        Inl e \<Rightarrow> (Inl e, st)
      | Inr (old_row, _, _) \<Rightarrow>
          (let old = gr_facts old_row
           in case renewal_intake env input old st of
                (Inl e, st1) \<Rightarrow> (Inl e, st1)
              | (Inr intake, st1) \<Rightarrow>
                  if \<not> same_source_facts (in_source intake) (gf_source old) then (Inl GrantConflict, st1)
                  else case lookup_repo st1 (gf_repository_full_name old) of
                    Inl _ \<Rightarrow> (Inl GrantConflict, st1)
                  | Inr repository \<Rightarrow>
                      if re_id repository \<noteq> gf_repository_id old \<or> re_disabled repository then (Inl GrantConflict, st1)
                      else case build_access_grant env (ev_clock env 2) intake repository (gf_agent_selector old) (gf_requested_policy_class old)
                             (grant_renewal_role old) (gf_requested_operations old) (gf_id old) st1 of
                        (Inl e, st2) \<Rightarrow> (Inl e, st2)
                      | (Inr (g0, token, actor, executor), st2) \<Rightarrow>
                          (let g = mark_provisional (in_provisional intake) g0
                           in if \<not> renewal_agrees (gr_facts g) old then (Inl GrantConflict, st2)
                              else case renewal_transaction (ev_clock env 3) g old st2 of
                                Inl e \<Rightarrow> (Inl e, st2)
                              | Inr st3 \<Rightarrow> (Inr (token, access_grant_receipt g actor executor (in_digest intake) (ev_clock env 3)), st3))))"

definition revocation_reason :: "string \<Rightarrow> string option" where
  "revocation_reason raw =
     (let reason = (let r = trim_space raw in if r = [] then ''caller_revoked'' else r)
      in if length reason > 255 \<or> contains_any reason [CHR 0x0D, CHR 0x0A, CHR 0x00] \<or> is_secret_shaped reason then None else Some reason)"

definition revocation_transaction :: "instant \<Rightarrow> string \<Rightarrow> string \<Rightarrow> grant_store \<Rightarrow> grant_error + grant_row \<times> grant_store" where
  "revocation_transaction now reason i st =
     (case grant_by_id st i of
        None \<Rightarrow> Inl (GrantStore NotFound)
      | Some current \<Rightarrow>
          (case gr_revoked_at current of
             None \<Rightarrow>
               Inr (current\<lparr>gr_revoked_at := Some now, gr_revocation_reason := reason\<rparr>,
                 revoke_transport_sessions i now ''access_grant_revoked''
                   (update_grants (\<lambda>r. gf_id (gr_facts r) = i \<and> gr_revoked_at r = None)
                     (\<lambda>r. r\<lparr>gr_revoked_at := Some now, gr_revocation_reason := reason\<rparr>) st))
           | Some first \<Rightarrow> Inr (current, revoke_transport_sessions i first ''access_grant_revoked'' st)))"

definition revoke_access_grant :: "grant_env \<Rightarrow> string \<Rightarrow> string \<Rightarrow> grant_store \<Rightarrow> (grant_error + grant_receipt) \<times> grant_store" where
  "revoke_access_grant env raw raw_reason st =
     (case load_grant_credential env raw st of
        Inl e \<Rightarrow> (Inl e, st)
      | Inr (g, actor, executor) \<Rightarrow>
          (case revocation_reason raw_reason of
             None \<Rightarrow> (Inl GrantValidation, st)
           | Some reason \<Rightarrow>
               (case revocation_transaction (ev_clock env 0) reason (gf_id (gr_facts g)) st of
                  Inl e \<Rightarrow> (Inl e, st)
                | Inr (current, st1) \<Rightarrow>
                    (Inr (access_grant_receipt current actor executor (snapshot_digest st1 (gf_snapshot_id (gr_facts current))) (ev_clock env 0)), st1))))"

definition get_access_grant :: "grant_env \<Rightarrow> string \<Rightarrow> grant_store \<Rightarrow> grant_error + grant_receipt" where
  "get_access_grant env raw st =
     rbind (load_grant_credential env raw st) (\<lambda>(g, actor, executor).
       Inr (access_grant_receipt g actor executor (snapshot_digest st (gf_snapshot_id (gr_facts g))) (ev_clock env 0)))"

definition collaboration_envelope_covers :: "string list \<Rightarrow> string list \<Rightarrow> bool" where
  "collaboration_envelope_covers granted live \<longleftrightarrow> list_all (\<lambda>n. n \<in> set live) granted"

definition current_actor :: "grant_env \<Rightarrow> grant_facts \<Rightarrow> grant_store \<Rightarrow> grant_error + user_row \<times> user_row" where
  "current_actor env f st =
     (case first_row (\<lambda>u. ur_id u = gf_actor_user_id f) (db_users (gs_db st)) of
        Inl _ \<Rightarrow> Inl GrantConflict
      | Inr actor \<Rightarrow>
          if \<not> active_canonical_actor actor then Inl GrantConflict
          else case first_row (\<lambda>u. ur_id u = gf_executor_user_id f) (db_users (gs_db st)) of
            Inl _ \<Rightarrow> Inl GrantConflict
          | Inr executor \<Rightarrow>
              if \<not> active_grant_user executor then Inl GrantConflict
              else (case find (\<lambda>i. id_provider i = canonical_actor_provider
                        \<and> id_subject i = canonical_actor_subject (ev_sha env) (sr_source_instance_id (gf_source f)) (sr_agent_id (gf_source f)))
                      (gs_identities st) of
                 None \<Rightarrow> Inl GrantConflict
               | Some i \<Rightarrow> if id_user_id i \<noteq> ur_id actor then Inl GrantConflict else Inr (actor, executor)))"

definition revalidate_access_grant :: "grant_env \<Rightarrow> instant \<Rightarrow> grant_row \<Rightarrow> grant_store \<Rightarrow> (grant_error + user_row \<times> user_row \<times> repo_row) \<times> grant_store" where
  "revalidate_access_grant env now g st =
     (let f = gr_facts g
      in if \<not> grant_live g now then (Inl GrantCredentialInvalid, st)
         else case current_actor env f st of
           Inl e \<Rightarrow> (Inl e, st)
         | Inr (actor, executor) \<Rightarrow>
             (case lookup_repo st (gf_repository_full_name f) of
                Inl _ \<Rightarrow> (Inl GrantConflict, st)
              | Inr repository \<Rightarrow>
                  if re_id repository \<noteq> gf_repository_id f \<or> re_disabled repository then (Inl GrantConflict, st)
                  else case get_snapshot st (gf_snapshot_id f) of
                    Inl _ \<Rightarrow> (Inl GrantConflict, st)
                  | Inr (_, source, _) \<Rightarrow>
                      if sr_source_instance_id source \<noteq> sr_source_instance_id (gf_source f) \<or> sr_workspace_id source \<noteq> sr_workspace_id (gf_source f)
                         \<or> sr_agent_id source \<noteq> sr_agent_id (gf_source f) \<or> sr_task_id source \<noteq> sr_task_id (gf_source f)
                      then (Inl GrantConflict, st)
                      else (case evaluate_grant (ev_order env) (ev_revision env) (ev_fresh_team env) (ev_ctx env) (ev_auth env) (gs_db st) actor source
                                   repository (gf_agent_selector f) (gf_requested_policy_class f) (grant_renewal_role f) (gf_requested_operations f) of
                              (Inl _, d) \<Rightarrow> (Inl GrantConflict, st\<lparr>gs_db := d\<rparr>)
                            | (Inr a, d) \<Rightarrow>
                                if ur_id (ga_executor a) \<noteq> ur_id executor then (Inl GrantConflict, st\<lparr>gs_db := d\<rparr>)
                                else if ga_effective_operations a \<noteq> gf_effective_operations f
                                       \<and> \<not> collaboration_envelope_covers (gf_effective_operations f) (ga_effective_operations a)
                                then (Inl GrantConflict, st\<lparr>gs_db := d\<rparr>)
                                else (Inr (actor, executor, repository), st\<lparr>gs_db := d\<rparr>))))"

definition no_effect :: effect_facts where
  "no_effect = \<lparr>ef_ags_pr_number = 0, ef_provider = [], ef_provider_repo = [], ef_provider_pr_number = 0,
     ef_expected_head = [], ef_expected_base = [], ef_base_ref = [], ef_method = []\<rparr>"

definition new_invocation :: "string \<Rightarrow> grant_facts \<Rightarrow> string \<Rightarrow> vals \<Rightarrow> instant \<Rightarrow> invocation_row" where
  "new_invocation i f operation constraints now =
     \<lparr>iv_id = i, iv_effect_key = None, iv_grant_id = gf_id f, iv_actor_user_id = gf_actor_user_id f, iv_executor_user_id = gf_executor_user_id f,
       iv_repository_id = gf_repository_id f, iv_repository = gf_repository_full_name f, iv_operation = operation,
       iv_constraints = constraints, iv_authority_revision = gf_authority_revision f, iv_effect = no_effect, iv_created_at = now,
       iv_progress = \<lparr>ep_state = Completed, ep_authorization_outcome = ''allowed'', ep_provider_attempt = ''not_attempted'',
         ep_provider_outcome = ''not_applicable'', ep_provider_merged = False, ep_merge_sha = [], ep_denial_code = [],
         ep_updated_at = now, ep_finished_at = Some now\<rparr>\<rparr>"

definition authorize_grant_operation ::
  "grant_env \<Rightarrow> string \<Rightarrow> string \<Rightarrow> (string \<times> json_value) list \<Rightarrow> grant_store \<Rightarrow> (grant_error + invocation_receipt) \<times> grant_store" where
  "authorize_grant_operation env raw raw_operation input st =
     (case resolve_active_grant env (ev_clock env 0) raw st of
        Inl e \<Rightarrow> (Inl e, st)
      | Inr (g, _, _) \<Rightarrow>
          (let f = gr_facts g; operation = to_lower (trim_space raw_operation)
           in if \<not> contains_operation (gf_effective_operations f) operation then (Inl GrantDenied, st)
              else case normalize_json operation input of
                None \<Rightarrow> (Inl GrantValidation, st)
              | Some constraints \<Rightarrow>
                  if operation = ''pr.merge'' then (Inl GrantDenied, st)
                  else case revalidate_access_grant env (ev_clock env 1) g st of
                    (Inl e, st1) \<Rightarrow> (Inl e, st1)
                  | (Inr _, st1) \<Rightarrow>
                      (let invocation = new_invocation (ev_uuid env 0) f operation constraints (ev_clock env 2)
                       in case insert_invocation invocation st1 of
                            None \<Rightarrow> (Inl GrantUnavailable, st1)
                          | Some st2 \<Rightarrow>
                              (Inr (invocation_receipt_of invocation),
                               update_grants (\<lambda>r. gf_id (gr_facts r) = gf_id f) (\<lambda>r. r\<lparr>gr_last_used_at := Some (ev_clock env 2)\<rparr>) st2))))"

end
