(* ===== verification/Transport_Session.thy ===== *)
theory Transport_Session
  imports Grant_Store
begin

text \<open>
  Transport sessions of an Access Grant: how \<open>access_grant_transport.go\<close> derives one, how
  \<open>delegated_session_use_time.go\<close> checks it again before every effect, how \<open>delegated_session.go\<close>
  authenticates and redacts it, and the sweep of \<open>delegated_session_expiry.go\<close>. The epoch of the
  configuration that a check also reports is left out.
\<close>

section \<open>Redaction\<close>

fun contains_text :: "string \<Rightarrow> string \<Rightarrow> bool" where
  "contains_text p [] = (p = [])"
| "contains_text p (c # cs) = (prefix p (c # cs) \<or> contains_text p cs)"

definition safe_authority_text :: "string \<Rightarrow> string" where
  "safe_authority_text raw =
     (let v = trim_space raw; lower = to_lower v
      in if v = [] then []
         else if contains_text ''ags_sess_'' lower \<or> contains_text ''mat_'' lower \<or> contains_text ''-----begin'' lower
            \<or> contains_text ''private key'' lower \<or> (prefix ''eyJ'' v \<and> count_list v CHR ''.'' = 2)
         then ''redacted'' else v)"

definition safe_audit_text :: "string \<Rightarrow> string" where
  "safe_audit_text raw = take 160 (safe_authority_text raw)"

text \<open>The redaction of a map whose keys may meet: a Go map keeps one of the values.\<close>

definition redact_vals :: "vals \<Rightarrow> vals" where
  "redact_vals v = fold (\<lambda>(k, x). AList.update (safe_authority_text k) (safe_authority_text x)) v []"

definition redact_merge :: "merge_delegation \<Rightarrow> merge_delegation" where
  "redact_merge m = m\<lparr>md_id := safe_authority_text (md_id m), md_revision := safe_authority_text (md_revision m),
     md_facts_digest := safe_authority_text (md_facts_digest m), md_target_instance := safe_authority_text (md_target_instance m),
     md_canonical_repository_id := safe_authority_text (md_canonical_repository_id m), md_provider := safe_authority_text (md_provider m),
     md_provider_binding_id := safe_authority_text (md_provider_binding_id m),
     md_provider_binding_revision := safe_authority_text (md_provider_binding_revision m),
     md_provider_repository := safe_authority_text (md_provider_repository m),
     md_expected_head_sha := safe_authority_text (md_expected_head_sha m), md_expected_base_sha := safe_authority_text (md_expected_base_sha m),
     md_base_ref := safe_authority_text (md_base_ref m), md_method := safe_authority_text (md_method m),
     md_projection_revision := safe_authority_text (md_projection_revision m)\<rparr>"

definition redact_trace :: "session_trace \<Rightarrow> session_trace" where
  "redact_trace t = t\<lparr>tr_workspace := safe_authority_text (tr_workspace t), tr_agent_name := safe_authority_text (tr_agent_name t),
     tr_squad_id := safe_authority_text (tr_squad_id t), tr_issue_id := safe_authority_text (tr_issue_id t),
     tr_issue_key := safe_authority_text (tr_issue_key t), tr_trigger_id := safe_authority_text (tr_trigger_id t),
     tr_runtime_id := safe_authority_text (tr_runtime_id t), tr_role := safe_authority_text (tr_role t),
     tr_quality := safe_authority_text (tr_quality t), tr_missing_fields := map safe_authority_text (tr_missing_fields t),
     tr_delegated_by_login := safe_authority_text (tr_delegated_by_login t)\<rparr>"

definition redact_facts :: "session_facts \<Rightarrow> session_facts" where
  "redact_facts f = f\<lparr>sf_principal_login := safe_authority_text (sf_principal_login f), sf_issuer := safe_authority_text (sf_issuer f),
     sf_assertion_purpose := safe_authority_text (sf_assertion_purpose f), sf_assertion_jti := safe_authority_text (sf_assertion_jti f),
     sf_assertion_audience := safe_authority_text (sf_assertion_audience f), sf_assertion_key_id := safe_authority_text (sf_assertion_key_id f),
     sf_contract_revision := safe_authority_text (sf_contract_revision f), sf_credential_mode := safe_authority_text (sf_credential_mode f),
     sf_binding_id := safe_authority_text (sf_binding_id f), sf_binding_revision := safe_authority_text (sf_binding_revision f),
     sf_team_identity_id := safe_authority_text (sf_team_identity_id f), sf_team_binding_revision := safe_authority_text (sf_team_binding_revision f),
     sf_policy_class := safe_authority_text (sf_policy_class f), sf_issuer_instance_id := safe_authority_text (sf_issuer_instance_id f),
     sf_trust_revision := safe_authority_text (sf_trust_revision f), sf_issuer_subject := safe_authority_text (sf_issuer_subject f),
     sf_correlation_id := safe_authority_text (sf_correlation_id f), sf_issuer_workspace_id := safe_authority_text (sf_issuer_workspace_id f),
     sf_external_agent_id := safe_authority_text (sf_external_agent_id f), sf_external_task_id := safe_authority_text (sf_external_task_id f),
     sf_external_run_id := safe_authority_text (sf_external_run_id f), sf_workload_context_schema := safe_authority_text (sf_workload_context_schema f),
     sf_target_instance := safe_authority_text (sf_target_instance f), sf_resource_service := safe_authority_text (sf_resource_service f),
     sf_operation_name := safe_authority_text (sf_operation_name f), sf_operation_constraints := redact_vals (sf_operation_constraints f),
     sf_merge := redact_merge (sf_merge f), sf_granted_capabilities := map safe_authority_text (sf_granted_capabilities f),
     sf_policy_version := safe_authority_text (sf_policy_version f), sf_native_grant_revision := safe_authority_text (sf_native_grant_revision f),
     sf_resource_policy_revision := safe_authority_text (sf_resource_policy_revision f), sf_trace := redact_trace (sf_trace f)\<rparr>"

definition redact_session :: "session_row \<Rightarrow> session_row" where
  "redact_session s = s\<lparr>ss_facts := redact_facts (ss_facts s), ss_revocation_reason := safe_authority_text (ss_revocation_reason s)\<rparr>"

definition session_state :: "session_row \<Rightarrow> instant \<Rightarrow> string" where
  "session_state s now =
     (if ss_revoked_at s \<noteq> None then ''revoked'' else if \<not> now < sf_expires_at (ss_facts s) then ''expired'' else ''active'')"

text \<open>The receipt of a session, without credential, hash or fingerprint.\<close>

record session_receipt =
  sc_contract_revision :: string
  sc_id :: string
  sc_principal :: "nat \<times> string"
  sc_binding_id :: string
  sc_team_identity_id :: string
  sc_team_binding_revision :: string
  sc_policy_class :: string
  sc_membership_epoch :: int
  sc_credential_mode :: string
  sc_actor :: "(string \<times> string) list"
  sc_workload_context :: "(string \<times> string) list"
  sc_trace_quality :: string
  sc_missing_fields :: "string list"
  sc_target :: "string \<times> string"
  sc_resource :: "string \<times> string"
  sc_operation :: "string \<times> vals"
  sc_effective_ttl :: duration
  sc_authorization_basis :: "(string \<times> string) list"
  sc_granted_capabilities :: "string list"
  sc_policy_version :: string
  sc_state :: string
  sc_created_at :: instant
  sc_expires_at :: instant
  sc_last_used_at :: "instant option"
  sc_revoked_at :: "instant option"
  sc_revoked_by_user_id :: "nat option"
  sc_revocation_reason :: string

definition session_receipt_of :: "session_row \<Rightarrow> user_row \<Rightarrow> string \<Rightarrow> instant \<Rightarrow> session_receipt" where
  "session_receipt_of s0 principal0 full_name now =
     (let s = redact_session s0; f = ss_facts s; t = sf_trace f; repository = safe_authority_text full_name
      in \<lparr>sc_contract_revision = sf_contract_revision f, sc_id = sf_id f,
          sc_principal = (ur_id principal0, safe_authority_text (ur_login principal0)), sc_binding_id = sf_binding_id f,
          sc_team_identity_id = sf_team_identity_id f, sc_team_binding_revision = sf_team_binding_revision f,
          sc_policy_class = sf_policy_class f, sc_membership_epoch = sf_membership_epoch f, sc_credential_mode = sf_credential_mode f,
          sc_actor = [(''provider'', ''multica''), (''workspace_id'', sf_issuer_workspace_id f), (''workspace'', tr_workspace t),
            (''agent_id'', sf_external_agent_id f), (''agent_name'', tr_agent_name t), (''task_id'', sf_external_task_id f),
            (''run_id'', sf_external_run_id f), (''issue_id'', tr_issue_id t), (''issue_key'', tr_issue_key t)],
          sc_workload_context = [(''schema'', sf_workload_context_schema f), (''issuer_instance_id'', sf_issuer_instance_id f),
            (''subject'', sf_issuer_subject f), (''correlation_id'', sf_correlation_id f), (''workspace_id'', sf_issuer_workspace_id f),
            (''agent_id'', sf_external_agent_id f), (''squad_id'', tr_squad_id t), (''issue_id'', tr_issue_id t), (''issue_key'', tr_issue_key t),
            (''task_id'', sf_external_task_id f), (''run_id'', sf_external_run_id f), (''trigger_id'', tr_trigger_id t),
            (''runtime_id'', tr_runtime_id t), (''role'', tr_role t)],
          sc_trace_quality = tr_quality t, sc_missing_fields = tr_missing_fields t, sc_target = (sf_target_instance f, repository),
          sc_resource = (sf_resource_service f, repository), sc_operation = (sf_operation_name f, sf_operation_constraints f),
          sc_effective_ttl = sf_expires_at f - sf_created_at f,
          sc_authorization_basis = [(''trust_revision'', sf_trust_revision f), (''native_grant_revision'', sf_native_grant_revision f),
            (''resource_policy_revision'', sf_resource_policy_revision f), (''policy_class_revision'', sf_policy_version f),
            (''requested_operation_scope'', sf_operation_name f @ '':'' @ repository)],
          sc_granted_capabilities = sf_granted_capabilities f, sc_policy_version = sf_policy_version f, sc_state = session_state s now,
          sc_created_at = sf_created_at f, sc_expires_at = sf_expires_at f, sc_last_used_at = ss_last_used_at s,
          sc_revoked_at = ss_revoked_at s, sc_revoked_by_user_id = ss_revoked_by_user_id s, sc_revocation_reason = ss_revocation_reason s\<rparr>)"

text \<open>
  \<open>LogCurrentDelegatedSessionAudit\<close> within a transaction: the entry needs the principal, unless it is
  the user of the request, and the repository. No caller here gives a pull request number.
\<close>

definition audit_details_of :: "session_row \<Rightarrow> user_row \<Rightarrow> string \<Rightarrow> string \<Rightarrow> string \<Rightarrow> audit_details" where
  "audit_details_of s principal0 operation outcome reason =
     (let f = ss_facts s; t = sf_trace f; named = trim_space (sf_principal_login f)
      in \<lparr>ad_contract_revision = sf_contract_revision f, ad_session_id = sf_id f,
          ad_principal = (sf_principal_user_id f, safe_authority_text (if named = [] then ur_login principal0 else named)),
          ad_binding = (sf_binding_id f, sf_binding_revision f), ad_team = (sf_team_identity_id f, sf_team_binding_revision f),
          ad_policy_class = sf_policy_class f, ad_membership_epoch = sf_membership_epoch f, ad_issuer_instance_id = sf_issuer_instance_id f,
          ad_trust_revision = sf_trust_revision f, ad_assertion_key_id = sf_assertion_key_id f, ad_issuer_subject = sf_issuer_subject f,
          ad_correlation_id = sf_correlation_id f,
          ad_delegated_by = (tr_delegated_by_user_id t, tr_delegated_by_login t, tr_delegated_by_source t),
          ad_workspace = (sf_issuer_workspace_id f, tr_workspace t), ad_agent = (sf_external_agent_id f, tr_agent_name t),
          ad_squad_id = tr_squad_id t, ad_task_id = sf_external_task_id f, ad_run_id = sf_external_run_id f,
          ad_issue = (tr_issue_id t, tr_issue_key t), ad_trigger_id = tr_trigger_id t, ad_runtime_id = tr_runtime_id t, ad_role = tr_role t,
          ad_trace_quality = tr_quality t, ad_missing_fields = tr_missing_fields t, ad_target_instance = sf_target_instance f,
          ad_resource_service = sf_resource_service f, ad_repository_id = sf_repository_id f, ad_session_operation = sf_operation_name f,
          ad_constraints = sf_operation_constraints f,
          ad_merge = (md_id (sf_merge f), md_revision (sf_merge f), md_facts_digest (sf_merge f)),
          ad_capabilities = sf_granted_capabilities f, ad_native_grant_revision = sf_native_grant_revision f,
          ad_resource_policy_revision = sf_resource_policy_revision f, ad_policy_version = sf_policy_version f,
          ad_expires_at = sf_expires_at f, ad_revoked_at = ss_revoked_at s, ad_operation = trim_space operation,
          ad_outcome = trim_space outcome, ad_reason = safe_audit_text reason\<rparr>)"

definition log_session_audit :: "user_row option \<Rightarrow> session_row \<Rightarrow> string \<Rightarrow> string \<Rightarrow> string \<Rightarrow> string \<Rightarrow> grant_store \<Rightarrow> store_error + grant_store" where
  "log_session_audit viewer s0 action operation outcome reason st =
     (let s = redact_session s0; pid = sf_principal_user_id (ss_facts s)
      in rbind (case viewer of
                  Some u \<Rightarrow> if ur_id u \<noteq> 0 \<and> ur_id u = pid then Inr u else first_row (\<lambda>r. ur_id r = pid) (db_users (gs_db st))
                | None \<Rightarrow> first_row (\<lambda>r. ur_id r = pid) (db_users (gs_db st))) (\<lambda>principal.
         rbind (if sf_repository_id (ss_facts s) = 0 then Inr []
                else rbind (first_row (\<lambda>r. re_id r = sf_repository_id (ss_facts s)) (db_repositories (gs_db st))) (\<lambda>r. Inr (re_full_name r))) (\<lambda>name.
         Inr (st\<lparr>gs_audit := gs_audit st @ [\<lparr>au_user_id = pid,
           au_actor = (case viewer of Some u \<Rightarrow> if ur_id u \<noteq> 0 then Some (ur_id u, ur_login u) else None | None \<Rightarrow> None),
           au_action = action, au_repository = safe_authority_text name, au_target_login = tr_agent_name (sf_trace (ss_facts s)),
           au_details = audit_details_of s principal operation outcome reason\<rparr>]\<rparr>))))"

section \<open>Issuing a session\<close>

definition session_token_prefix :: string where "session_token_prefix = ''ags_sess_''"
definition session_capabilities :: "string list" where "session_capabilities = [''repo:read'', ''repo:write'', ''pr:create'']"
definition maximum_transport_ttl :: duration where "maximum_transport_ttl = 15 * minute"

definition low_risk_capabilities :: "string \<Rightarrow> string list" where
  "low_risk_capabilities raw =
     (let operation = to_lower (trim_space raw)
      in if operation \<in> {''repo.read'', ''git.read'', ''pr.read'', ''review.read'', ''ci.read''} then [''repo:read'']
         else if operation \<in> {''git.push'', ''pr.rebase''} then [''repo:read'', ''repo:write'']
         else if operation = ''pr.create'' then [''repo:read'', ''pr:create'']
         else [''repo:read''])"

definition operation_capabilities :: "string list \<Rightarrow> string list \<Rightarrow> string list option" where
  "operation_capabilities requested available =
     (let allowed = set (map fold_key available);
          granted = map fold_key (if requested = [] then available else requested)
      in if list_all (\<lambda>c. c \<in> set session_capabilities \<and> c \<in> allowed) granted \<and> granted \<noteq> [] then Some (sort granted) else None)"

definition new_session_credential :: "grant_env \<Rightarrow> (string \<times> string \<times> string) option" where
  "new_session_credential env =
     map_option (\<lambda>r. let raw = session_token_prefix @ r; hash = ev_sha env raw in (raw, hash, ''sha256:'' @ take 16 hash)) (ev_secret env)"

definition bound_human :: "database \<Rightarrow> nat \<Rightarrow> nat option" where
  "bound_human d agent = (case db_agent_bindings d of None \<Rightarrow> None
     | Some bindings \<Rightarrow> map_option snd (find (\<lambda>b. fst b = agent) bindings))"

definition delegator_snapshot :: "database \<Rightarrow> user_row \<Rightarrow> store_error + (nat \<times> string) option" where
  "delegator_snapshot d p =
     (if ur_kind p = ''human'' then Inr (Some (ur_id p, ur_login p))
      else case bound_human d (ur_id p) of
        None \<Rightarrow> Inr None
      | Some h \<Rightarrow> rbind (first_row (\<lambda>u. ur_id u = h) (db_users d)) (\<lambda>u. Inr (Some (ur_id u, ur_login u))))"

definition present :: "string option \<Rightarrow> bool" where
  "present v = (case v of None \<Rightarrow> False | Some s \<Rightarrow> trim_space s \<noteq> [])"

definition transport_trace :: "context_facts \<Rightarrow> string list \<times> string" where
  "transport_trace cx =
     (let missing = (if present (cx_squad_id cx) then [] else [''squad_id''])
            @ (if present (map_option fst (cx_issue cx)) then [] else [''issue_id''])
            @ (if present (map_option snd (cx_issue cx)) then [] else [''issue_key''])
            @ (if present (cx_trigger_id cx) then [] else [''trigger_id''])
            @ (if present (cx_runtime_id cx) then [] else [''runtime_id''])
      in if missing = [] then ([], ''complete'') else (missing, ''trace_degraded''))"

definition not_generic_transport :: "string list" where
  "not_generic_transport = [''pr.merge'', ''repo.create'', ''repo.admin'', ''repo.delete'', ''review.dismiss'', ''git.force_push'',
     ''protected_ref.write'', ''ref.delete'', ''branch_protection.write'', ''webhook.write'']"

text \<open>The team binding and class the session runs under.\<close>

definition transport_authority :: "grant_env \<Rightarrow> grant_facts \<Rightarrow> source_ref \<Rightarrow> nat \<Rightarrow> bool \<Rightarrow> grant_error + team_binding \<times> policy_class" where
  "transport_authority env f source executor_id low_risk =
     (if gf_elevated_binding_revision f \<noteq> [] \<and> (gf_policy_class_outcome f \<noteq> ''accepted'' \<or> gf_requested_policy_class f = []) then Inl GrantConflict
      else (let elevated = gf_elevated_binding_revision f \<noteq> [];
                cls = (if elevated then gf_requested_policy_class f else gf_default_policy_class f);
                revision = (if elevated then gf_elevated_binding_revision f else gf_default_binding_revision f)
            in case resolve_runtime_policy_authority (ev_auth env) (sr_source_instance_id source) (sr_workspace_id source) cls of
                 Inl _ \<Rightarrow> Inl GrantConflict
               | Inr a \<Rightarrow> if tb_principal_id (fst a) \<noteq> executor_id then Inl GrantConflict
                   else if \<not> low_risk \<and> tb_binding_revision (fst a) \<noteq> revision then Inl GrantConflict
                   else Inr a))"

text \<open>The operation with its resource policy, which a standard operation may lack.\<close>

definition transport_operation :: "grant_env \<Rightarrow> grant_facts \<Rightarrow> string \<Rightarrow> bool \<Rightarrow> grant_error + duration \<times> operation" where
  "transport_operation env f operation low_risk =
     (case resolve_resource_operation (ev_order env) (ev_auth env)
        \<lparr>rr_target = gf_target_instance f, rr_service = ''ags'', rr_repository = gf_repository_full_name f, rr_operation = operation, rr_policy_class = []\<rparr> of
        Inr (resource, oper) \<Rightarrow> Inr (max_session_duration resource, oper)
      | Inl _ \<Rightarrow> if low_risk then Inr (0, \<lparr>op_name = operation, op_required = PermissionWrite, op_capabilities = low_risk_capabilities operation\<rparr>)
                 else Inl GrantConflict)"

definition transport_session_row ::
  "grant_env \<Rightarrow> grant_facts \<Rightarrow> user_row \<Rightarrow> user_row \<Rightarrow> source_ref \<Rightarrow> context_facts \<Rightarrow> team_binding \<times> policy_class \<Rightarrow> repo_permission
     \<Rightarrow> (nat \<times> string) option \<Rightarrow> string \<Rightarrow> vals \<Rightarrow> string list \<Rightarrow> string \<times> string \<Rightarrow> instant \<Rightarrow> instant \<Rightarrow> session_row" where
  "transport_session_row env f actor executor source current authority permission delegator operation constraints capabilities credential now expires =
     \<lparr>ss_facts = \<lparr>sf_id = ev_uuid env 1, sf_credential_hash = fst credential, sf_credential_prefix = snd credential,
        sf_principal_user_id = ur_id executor, sf_principal_login = ur_login executor,
        sf_access_grant_id = gf_id f, sf_access_grant_revision = gf_authority_revision f, sf_actor_user_id = ur_id actor,
        sf_issuer = ''ags.access-grant'', sf_assertion_version = 1, sf_assertion_purpose = ''access_grant_transport'',
        sf_assertion_jti = ev_uuid env 0, sf_assertion_audience = ''ags:internal:transport-session:v1'', sf_assertion_key_id = [],
        sf_contract_revision = contract_revision, sf_credential_mode = transport_mode, sf_binding_id = [], sf_binding_revision = [],
        sf_team_identity_id = tb_team_identity_id (fst authority), sf_team_binding_revision = tb_binding_revision (fst authority),
        sf_policy_class = pc_id (snd authority), sf_membership_epoch = max 1 (tb_epoch_floor (fst authority)),
        sf_issuer_instance_id = sr_source_instance_id source, sf_trust_revision = gf_authority_revision f,
        sf_issuer_subject = ''urn:multica:agent:'' @ sr_agent_id source, sf_correlation_id = gf_id f,
        sf_issuer_workspace_id = sr_workspace_id source, sf_external_agent_id = sr_agent_id source,
        sf_external_task_id = sr_task_id source, sf_external_run_id = sr_run_id source, sf_workload_context_schema = ''workload.context.v1'',
        sf_target_instance = gf_target_instance f, sf_resource_service = ''ags'', sf_repository_id = gf_repository_id f,
        sf_operation_name = operation, sf_operation_constraints = constraints,
        sf_merge = \<lparr>md_id = [], md_revision = [], md_not_after = None, md_facts_digest = [], md_target_instance = [], md_canonical_repository_id = [],
          md_provider = [], md_provider_binding_id = [], md_provider_binding_revision = [], md_provider_repository = [], md_ags_pr_number = 0,
          md_provider_pr_number = 0, md_expected_head_sha = [], md_expected_base_sha = [], md_base_ref = [], md_method = [], md_projection_revision = []\<rparr>,
        sf_granted_capabilities = capabilities, sf_policy_version = pc_policy_revision (snd authority),
        sf_policy_snapshot_hash = trim_prefix ''sha256:'' (gf_authority_revision f),
        sf_native_grant_revision = native_grant_revision (ev_sha env) (ur_id executor) (gf_repository_id f) permission,
        sf_resource_policy_revision = gf_resource_policy_revision f,
        sf_trace = \<lparr>tr_workspace = cx_workspace_slug current, tr_agent_name = cx_agent_name current,
          tr_squad_id = (case cx_squad_id current of None \<Rightarrow> [] | Some i \<Rightarrow> i),
          tr_issue_id = (case cx_issue current of None \<Rightarrow> [] | Some (i, _) \<Rightarrow> i), tr_issue_key = (case cx_issue current of None \<Rightarrow> [] | Some (_, k) \<Rightarrow> k),
          tr_trigger_id = (case cx_trigger_id current of None \<Rightarrow> [] | Some i \<Rightarrow> i), tr_runtime_id = (case cx_runtime_id current of None \<Rightarrow> [] | Some i \<Rightarrow> i),
          tr_role = [], tr_quality = snd (transport_trace current), tr_missing_fields = fst (transport_trace current),
          tr_delegated_by_user_id = map_option fst delegator, tr_delegated_by_login = (case delegator of None \<Rightarrow> [] | Some (_, l) \<Rightarrow> l),
          tr_delegated_by_source = (if delegator = None then ''principal_only'' else ''session_snapshot'')\<rparr>,
        sf_created_at = now, sf_expires_at = expires\<rparr>,
       ss_expiry_audited_at = None, ss_last_used_at = None, ss_revoked_at = None, ss_revoked_by_user_id = None, ss_revocation_reason = []\<rparr>"

definition insert_session :: "session_row \<Rightarrow> grant_store \<Rightarrow> grant_store option" where
  "insert_session s st =
     (let f = ss_facts s
      in if list_ex (\<lambda>r. let g = ss_facts r in sf_id g = sf_id f \<or> sf_credential_hash g = sf_credential_hash f
              \<or> (sf_issuer g = sf_issuer f \<and> sf_assertion_purpose g = sf_assertion_purpose f \<and> sf_assertion_jti g = sf_assertion_jti f)) (gs_sessions st)
         then None else Some (st\<lparr>gs_sessions := gs_sessions st @ [s]\<rparr>))"

definition transport_transaction ::
  "instant \<Rightarrow> grant_facts \<Rightarrow> user_row \<Rightarrow> invocation_row \<Rightarrow> session_row \<Rightarrow> grant_store \<Rightarrow> grant_error + grant_store" where
  "transport_transaction boundary f executor invocation session st =
     (case grant_by_id st (gf_id f) of
        None \<Rightarrow> Inl GrantCredentialInvalid
      | Some locked \<Rightarrow>
          if \<not> grant_live locked boundary \<or> gf_authority_revision (gr_facts locked) \<noteq> gf_authority_revision f then Inl GrantConflict
          else (case insert_invocation invocation st of
            None \<Rightarrow> Inl GrantUnavailable
          | Some st1 \<Rightarrow> (case insert_session session st1 of
              None \<Rightarrow> Inl GrantUnavailable
            | Some st2 \<Rightarrow>
                (case log_session_audit (Some executor) session ''access_grant.transport_session'' (sf_operation_name (ss_facts session)) ''success'' []
                        (update_grants (\<lambda>r. gf_id (gr_facts r) = gf_id f) (\<lambda>r. r\<lparr>gr_last_used_at := Some boundary\<rparr>) st2) of
                   Inl _ \<Rightarrow> Inl GrantUnavailable
                 | Inr st3 \<Rightarrow> Inr st3))))"

record transport_result =
  tp_token :: string
  tp_session :: session_receipt
  tp_invocation :: invocation_receipt

text \<open>What follows the revalidation of the grant.\<close>

definition derive_transport ::
  "grant_env \<Rightarrow> grant_row \<Rightarrow> user_row \<Rightarrow> user_row \<Rightarrow> string \<Rightarrow> bool \<Rightarrow> vals \<Rightarrow> grant_store \<Rightarrow> (grant_error + transport_result) \<times> grant_store" where
  "derive_transport env g actor executor operation low_risk constraints st =
     (let f = gr_facts g
      in case get_snapshot st (gf_snapshot_id f) of
           Inl _ \<Rightarrow> (Inl GrantUnavailable, st)
         | Inr (_, source, current) \<Rightarrow>
             if sr_source_instance_id source \<noteq> sr_source_instance_id (gf_source f) \<or> sr_workspace_id source \<noteq> sr_workspace_id (gf_source f)
                \<or> sr_agent_id source \<noteq> sr_agent_id (gf_source f) \<or> sr_task_id source \<noteq> sr_task_id (gf_source f)
             then (Inl GrantConflict, st)
             else if ev_auth env = None then (Inl GrantUnavailable, st)
             else case transport_authority env f source (ur_id executor) low_risk of
               Inl e \<Rightarrow> (Inl e, st)
             | Inr authority \<Rightarrow>
                 (case transport_operation env f operation low_risk of
                    Inl e \<Rightarrow> (Inl e, st)
                  | Inr (resource_ttl, oper) \<Rightarrow>
                      (case has_repo_access (ev_fresh_team env) (ev_ctx env) (gs_db st) (gf_repository_id f) (ur_id executor) of
                         (Inl _, d) \<Rightarrow> (Inl GrantUnavailable, st\<lparr>gs_db := d\<rparr>)
                       | (Inr permission, d) \<Rightarrow>
                           (let st1 = st\<lparr>gs_db := d\<rparr>; now = ev_clock env 2;
                                ttl0 = (if resource_ttl \<le> 0 \<or> resource_ttl > maximum_transport_ttl then maximum_transport_ttl else resource_ttl);
                                remaining = sub_time (gf_expires_at f) now; ttl = min ttl0 remaining
                            in if \<not> at_least permission (repo_permission_for (op_required oper)) \<and> (\<not> low_risk \<or> \<not> at_least permission RepoPermissionRead)
                               then (Inl GrantConflict, st1)
                               else case operation_capabilities [] (op_capabilities oper) of
                                 None \<Rightarrow> (Inl GrantConflict, st1)
                               | Some capabilities \<Rightarrow>
                                   if remaining \<le> 0 then (Inl GrantCredentialInvalid, st1)
                                   else (case new_session_credential env of
                                     None \<Rightarrow> (Inl GrantUnavailable, st1)
                                   | Some (token, hash, shown) \<Rightarrow>
                                       (case delegator_snapshot d actor of
                                          Inl _ \<Rightarrow> (Inl GrantUnavailable, st1)
                                        | Inr delegator \<Rightarrow>
                                            (let invocation = (new_invocation (ev_uuid env 0) f operation constraints now)
                                                   \<lparr>iv_actor_user_id := ur_id actor, iv_executor_user_id := ur_id executor\<rparr>;
                                                 session = transport_session_row env f actor executor source current authority permission delegator
                                                   operation constraints capabilities (hash, shown) now (now + ttl)
                                             in case transport_transaction (ev_clock env 3) f executor invocation session st1 of
                                                  Inl e \<Rightarrow> (Inl e, st1)
                                                | Inr st2 \<Rightarrow>
                                                    (Inr \<lparr>tp_token = token,
                                                       tp_session = session_receipt_of session executor (gf_repository_full_name f) (ev_clock env 3),
                                                       tp_invocation = invocation_receipt_of invocation\<rparr>, st2))))))))"

definition issue_transport_session ::
  "grant_env \<Rightarrow> string \<Rightarrow> string \<Rightarrow> (string \<times> json_value) list \<Rightarrow> grant_store \<Rightarrow> (grant_error + transport_result) \<times> grant_store" where
  "issue_transport_session env raw raw_operation input st =
     (case resolve_active_grant env (ev_clock env 0) raw st of
        Inl e \<Rightarrow> (Inl e, st)
      | Inr (g, actor, executor) \<Rightarrow>
          (let f = gr_facts g; name = to_lower (trim_space raw_operation)
           in if name \<in> set not_generic_transport then (Inl GrantDenied, st)
              else (let operation = canonical_name name; low_risk = is_standard operation
                    in if \<not> contains_operation (gf_effective_operations f) operation \<and> \<not> low_risk then (Inl GrantDenied, st)
                       else case normalize_json operation input of
                         None \<Rightarrow> (Inl GrantValidation, st)
                       | Some constraints \<Rightarrow>
                           (case revalidate_access_grant env (ev_clock env 1) g st of
                              (Inl e, st1) \<Rightarrow> (Inl e, st1)
                            | (Inr _, st1) \<Rightarrow> derive_transport env g actor executor operation low_risk constraints st1))))"

section \<open>Use of a session\<close>

datatype denial =
  SessionMissing | SessionRevoked | SessionExpired | CredentialModeInvalid | PrincipalMismatch | PrincipalInactive
  | RepositoryMismatch | RepositoryUnavailable | OperationMismatch | CapabilityMismatch | ConstraintMismatch
  | AuthorityUnavailable | AuthoritySnapshotChanged | NativeGrantRevisionChanged

record fresh_authority =
  fr_session :: session_row
  fr_principal :: user_row
  fr_repository :: repo_row
  fr_permission :: repo_permission

definition session_by_id :: "grant_store \<Rightarrow> string \<Rightarrow> session_row option" where
  "session_by_id st i = find (\<lambda>s. sf_id (ss_facts s) = i) (gs_sessions st)"

definition has_capability :: "session_facts \<Rightarrow> string \<Rightarrow> bool" where
  "has_capability f capability \<longleftrightarrow> fold_key capability \<in> set (map fold_key (sf_granted_capabilities f))"

definition constraints_valid :: "string \<Rightarrow> vals \<Rightarrow> bool" where
  "constraints_valid operation expected =
     (if is_default_operation operation then normalize_stored operation expected \<noteq> None else expected = [])"

definition constraints_match :: "string \<Rightarrow> vals \<Rightarrow> vals \<Rightarrow> bool" where
  "constraints_match operation expected actual =
     (if is_default_operation operation then match_constraints operation expected actual else expected = [] \<and> actual = [])"

definition merge_fields_empty :: "merge_delegation \<Rightarrow> bool" where
  "merge_fields_empty m \<longleftrightarrow> md_id m = [] \<and> md_revision m = [] \<and> md_not_after m = None \<and> md_facts_digest m = [] \<and> md_target_instance m = []
     \<and> md_canonical_repository_id m = [] \<and> md_provider m = [] \<and> md_provider_binding_id m = [] \<and> md_provider_binding_revision m = []
     \<and> md_provider_repository m = [] \<and> md_ags_pr_number m = 0 \<and> md_provider_pr_number m = 0 \<and> md_expected_head_sha m = []
     \<and> md_expected_base_sha m = [] \<and> md_base_ref m = [] \<and> md_method m = [] \<and> md_projection_revision m = []"

text \<open>The columns that must still agree at the commit boundary.\<close>

definition same_authority :: "session_facts \<Rightarrow> session_facts \<Rightarrow> bool" where
  "same_authority a b \<longleftrightarrow>
     sf_principal_user_id a = sf_principal_user_id b \<and> sf_repository_id a = sf_repository_id b \<and> sf_access_grant_id a = sf_access_grant_id b
     \<and> sf_access_grant_revision a = sf_access_grant_revision b \<and> sf_actor_user_id a = sf_actor_user_id b \<and> sf_credential_mode a = sf_credential_mode b
     \<and> sf_contract_revision a = sf_contract_revision b \<and> sf_operation_name a = sf_operation_name b \<and> sf_binding_id a = sf_binding_id b
     \<and> sf_binding_revision a = sf_binding_revision b \<and> sf_team_identity_id a = sf_team_identity_id b
     \<and> sf_team_binding_revision a = sf_team_binding_revision b \<and> sf_policy_class a = sf_policy_class b \<and> sf_membership_epoch a = sf_membership_epoch b
     \<and> sf_policy_version a = sf_policy_version b \<and> sf_policy_snapshot_hash a = sf_policy_snapshot_hash b
     \<and> sf_resource_policy_revision a = sf_resource_policy_revision b \<and> merge_fields_empty (sf_merge a) \<and> merge_fields_empty (sf_merge b)"

definition confirm_commit_boundary ::
  "grant_env \<Rightarrow> instant \<Rightarrow> session_row \<Rightarrow> repo_permission \<Rightarrow> bool \<Rightarrow> grant_store \<Rightarrow> denial + repo_permission" where
  "confirm_commit_boundary env boundary initial required compare_stored st =
     (let f = ss_facts initial
      in case session_by_id st (sf_id f) of
           None \<Rightarrow> Inl SessionMissing
         | Some current \<Rightarrow>
             if ss_revoked_at current \<noteq> None then Inl SessionRevoked
             else if \<not> boundary < sf_expires_at (ss_facts current) then Inl SessionExpired
             else if \<not> same_authority (ss_facts current) f then Inl AuthoritySnapshotChanged
             else case current_repo_access (gs_db st) (sf_repository_id f) (sf_principal_user_id f) of
               Inl _ \<Rightarrow> Inl AuthorityUnavailable
             | Inr permission \<Rightarrow>
                 if \<not> at_least permission required then Inl NativeGrantRevisionChanged
                 else if compare_stored \<and> (sf_native_grant_revision (ss_facts current) \<noteq> sf_native_grant_revision f
                        \<or> native_grant_revision (ev_sha env) (sf_principal_user_id f) (sf_repository_id f) permission \<noteq> sf_native_grant_revision f)
                 then Inl NativeGrantRevisionChanged
                 else Inr permission)"

definition session_fits_grant :: "session_facts \<Rightarrow> string \<Rightarrow> grant_facts \<Rightarrow> user_row \<Rightarrow> user_row \<Rightarrow> repo_row \<Rightarrow> string \<Rightarrow> bool" where
  "session_fits_grant f full_name g actor executor repository operation \<longleftrightarrow>
     ur_id actor = sf_actor_user_id f \<and> ur_id executor = sf_principal_user_id f \<and> re_id repository = sf_repository_id f
     \<and> gf_repository_full_name g = full_name \<and> gf_target_instance g = sf_target_instance f
     \<and> sr_workspace_id (gf_source g) = sf_issuer_workspace_id f \<and> sr_agent_id (gf_source g) = sf_external_agent_id f
     \<and> sr_task_id (gf_source g) = sf_external_task_id f \<and> sr_run_id (gf_source g) = sf_external_run_id f
     \<and> gf_authority_revision g = sf_access_grant_revision f \<and> gf_authority_revision g = sf_trust_revision f
     \<and> gf_resource_policy_revision g = sf_resource_policy_revision f \<and> contains_operation (gf_effective_operations g) operation
     \<and> \<not> gf_expires_at g < sf_expires_at f"

text \<open>
  \<open>full_name\<close> is the name of the preloaded repository; \<open>meanwhile\<close> is what others commit until the
  commit boundary is confirmed.
\<close>

definition revalidate_transport_session ::
  "grant_env \<Rightarrow> (grant_store \<Rightarrow> grant_store) \<Rightarrow> session_row \<Rightarrow> string \<Rightarrow> string \<Rightarrow> grant_store \<Rightarrow> (denial + fresh_authority) \<times> grant_store" where
  "revalidate_transport_session env meanwhile session full_name operation st =
     (let f = ss_facts session
      in if sf_access_grant_id f = [] \<or> sf_access_grant_revision f = [] \<or> sf_actor_user_id f = 0 \<or> sf_credential_mode f \<noteq> transport_mode
         then (Inl AuthoritySnapshotChanged, st)
         else case grant_by_id st (sf_access_grant_id f) of
           None \<Rightarrow> (Inl AuthorityUnavailable, st)
         | Some g \<Rightarrow>
             (case revalidate_access_grant env (ev_clock env 1) g st of
                (Inl _, st1) \<Rightarrow> (Inl AuthoritySnapshotChanged, st1)
              | (Inr (actor, executor, repository), st1) \<Rightarrow>
                  if \<not> session_fits_grant f full_name (gr_facts g) actor executor repository operation then (Inl AuthoritySnapshotChanged, st1)
                  else case lookup_operation operation of
                    None \<Rightarrow> (Inl OperationMismatch, st1)
                  | Some oper \<Rightarrow>
                      (let required = repo_permission_for (op_required oper)
                       in case current_repo_access (gs_db st1) (sf_repository_id f) (sf_principal_user_id f) of
                            Inl _ \<Rightarrow> (Inl NativeGrantRevisionChanged, st1)
                          | Inr permission \<Rightarrow>
                              if \<not> at_least permission required then (Inl NativeGrantRevisionChanged, st1)
                              else if native_grant_revision (ev_sha env) (sf_principal_user_id f) (sf_repository_id f) permission
                                     \<noteq> sf_native_grant_revision f then (Inl NativeGrantRevisionChanged, st1)
                              else (let st2 = meanwhile st1
                                    in case confirm_commit_boundary env (ev_clock env 2) session required True st2 of
                                         Inl e \<Rightarrow> (Inl e, st2)
                                       | Inr final \<Rightarrow>
                                           (Inr \<lparr>fr_session = session, fr_principal = executor, fr_repository = repository, fr_permission = final\<rparr>, st2)))))"

text \<open>The marker of the request context, if any, and its user.\<close>

definition revalidate_delegated_session ::
  "grant_env \<Rightarrow> (grant_store \<Rightarrow> grant_store) \<Rightarrow> string option \<Rightarrow> nat option \<Rightarrow> nat \<Rightarrow> string \<Rightarrow> string \<Rightarrow> vals option \<Rightarrow> grant_store
     \<Rightarrow> (denial + fresh_authority) \<times> grant_store" where
  "revalidate_delegated_session env meanwhile marker viewer repository_id raw_operation raw_capability actual st =
     (case map_option trim_space marker of
        None \<Rightarrow> (Inl SessionMissing, st)
      | Some session_id \<Rightarrow>
          if session_id = [] then (Inl SessionMissing, st)
          else (case viewer of None \<Rightarrow> (Inl PrincipalMismatch, st) | Some viewer_id \<Rightarrow>
            if viewer_id = 0 then (Inl PrincipalMismatch, st)
            else if db_users (gs_db st) = None \<or> db_repositories (gs_db st) = None then (Inl SessionMissing, st)
            else (case session_by_id st session_id of
               None \<Rightarrow> (Inl SessionMissing, st)
             | Some session \<Rightarrow>
                 (let f = ss_facts session;
                      puser = first_row (\<lambda>u. ur_id u = sf_principal_user_id f) (db_users (gs_db st));
                      repository = first_row (\<lambda>r. re_id r = sf_repository_id f) (db_repositories (gs_db st));
                      operation = to_lower (trim_space raw_operation); stored = to_lower (trim_space (sf_operation_name f));
                      capability = to_lower (trim_space raw_capability)
                  in if trim_space (sf_credential_mode f) \<noteq> transport_mode then (Inl CredentialModeInvalid, st)
                     else if ss_revoked_at session \<noteq> None then (Inl SessionRevoked, st)
                     else if \<not> ev_clock env 0 < sf_expires_at f then (Inl SessionExpired, st)
                     else if viewer_id \<noteq> sf_principal_user_id f then (Inl PrincipalMismatch, st)
                     else case puser of Inl _ \<Rightarrow> (Inl PrincipalMismatch, st) | Inr p \<Rightarrow>
                     if \<not> is_user_status_active (ur_status p) then (Inl PrincipalInactive, st)
                     else if repository_id = 0 \<or> sf_repository_id f \<noteq> repository_id then (Inl RepositoryMismatch, st)
                     else case repository of Inl _ \<Rightarrow> (Inl RepositoryUnavailable, st) | Inr r \<Rightarrow>
                     if re_disabled r then (Inl RepositoryUnavailable, st)
                     else if operation = [] \<or> stored \<noteq> operation then (Inl OperationMismatch, st)
                     else if \<not> merge_fields_empty (sf_merge f) then (Inl AuthoritySnapshotChanged, st)
                     else if capability \<noteq> [] \<and> \<not> has_capability f capability then (Inl CapabilityMismatch, st)
                     else if \<not> constraints_valid stored (sf_operation_constraints f) then (Inl ConstraintMismatch, st)
                     else if (case actual of None \<Rightarrow> False | Some v \<Rightarrow> \<not> constraints_match stored (sf_operation_constraints f) v)
                     then (Inl ConstraintMismatch, st)
                     else revalidate_transport_session env meanwhile session (re_full_name r) operation st))))"

definition resolve_session_credential :: "grant_env \<Rightarrow> (grant_store \<Rightarrow> grant_store) \<Rightarrow> string \<Rightarrow> grant_store \<Rightarrow> (user_row \<times> session_row) option \<times> grant_store" where
  "resolve_session_credential env meanwhile raw0 st =
     (let raw = trim_space raw0
      in if \<not> prefix session_token_prefix raw then (None, st)
         else case find (\<lambda>s. sf_credential_hash (ss_facts s) = ev_sha env raw) (gs_sessions st) of
           None \<Rightarrow> (None, st)
         | Some identified \<Rightarrow>
             (let f = ss_facts identified
              in case first_row (\<lambda>u. ur_id u = sf_principal_user_id f) (db_users (gs_db st)) of
                   Inl _ \<Rightarrow> (None, st)
                 | Inr puser \<Rightarrow>
                     if trim_space (sf_operation_name f) = [] then (None, st)
                     else (case revalidate_delegated_session env meanwhile (Some (sf_id f)) (Some (ur_id puser)) (sf_repository_id f)
                                  (trim_space (sf_operation_name f)) [] None st of
                             (Inl _, st1) \<Rightarrow> (None, st1)
                           | (Inr fresh, st1) \<Rightarrow>
                               (let now = ev_clock env 3; live = (\<lambda>s. sf_id (ss_facts s) = sf_id (ss_facts (fr_session fresh))
                                      \<and> ss_revoked_at s = None \<and> now < sf_expires_at (ss_facts s))
                                in if length (filter live (gs_sessions st1)) \<noteq> 1 then (None, st1)
                                   else (Some (fr_principal fresh, (fr_session fresh)\<lparr>ss_last_used_at := Some now\<rparr>),
                                     st1\<lparr>gs_sessions := map (\<lambda>s. if live s then s\<lparr>ss_last_used_at := Some now\<rparr> else s) (gs_sessions st1)\<rparr>)))))"

end
