(* ===== verification/Session_Lifecycle.thy ===== *)
theory Session_Lifecycle
  imports Transport_Session
begin

text \<open>
  The sweep of expired sessions, \<open>delegated_session_expiry.go\<close>, and the validated readback of one
  session, \<open>delegated_session_lifecycle.go\<close>. Whether a text is a canonical UUID is a parameter.
\<close>

section \<open>The sweep\<close>

definition expiry_batch :: nat where "expiry_batch = 100"

definition expiry_due :: "instant \<Rightarrow> session_row \<Rightarrow> bool" where
  "expiry_due now s \<longleftrightarrow> sf_expires_at (ss_facts s) \<le> now \<and> ss_revoked_at s = None \<and> ss_expiry_audited_at s = None"

text \<open>\<open>ORDER BY expires_at ASC, id ASC LIMIT\<close>.\<close>

definition expiry_candidates :: "instant \<Rightarrow> nat \<Rightarrow> grant_store \<Rightarrow> session_row list" where
  "expiry_candidates now limit st =
     take limit (sort_key (sf_expires_at \<circ> ss_facts) (sort_key (sf_id \<circ> ss_facts) (filter (expiry_due now) (gs_sessions st))))"

text \<open>One claim: the marker and the entry of the audit log, or neither. The flag tells whether a row was claimed.\<close>

definition claim_expiry :: "user_row option \<Rightarrow> instant \<Rightarrow> session_row \<Rightarrow> grant_store \<Rightarrow> store_error + bool \<times> grant_store" where
  "claim_expiry viewer now candidate st =
     (let hit = (\<lambda>s. sf_id (ss_facts s) = sf_id (ss_facts candidate) \<and> ss_revoked_at s = None \<and> ss_expiry_audited_at s = None)
      in if \<not> list_ex hit (gs_sessions st) then Inr (False, st)
         else rbind (log_session_audit viewer (candidate\<lparr>ss_expiry_audited_at := Some now\<rparr>) ''agent_session.expiry'' ''session.expire'' ''success'' ''ttl_elapsed''
                (st\<lparr>gs_sessions := map (\<lambda>s. if hit s then s\<lparr>ss_expiry_audited_at := Some now\<rparr> else s) (gs_sessions st)\<rparr>))
              (\<lambda>st1. Inr (True, st1)))"

fun claim_all :: "user_row option \<Rightarrow> instant \<Rightarrow> session_row list \<Rightarrow> nat \<Rightarrow> grant_store \<Rightarrow> nat \<times> store_error option \<times> grant_store" where
  "claim_all viewer now [] audited st = (audited, None, st)"
| "claim_all viewer now (s # ss) audited st =
     (case claim_expiry viewer now s st of
        Inl e \<Rightarrow> (audited, Some e, st)
      | Inr (claimed, st1) \<Rightarrow> claim_all viewer now ss (if claimed then Suc audited else audited) st1)"

definition audit_expired_sessions :: "user_row option \<Rightarrow> instant \<Rightarrow> instant \<Rightarrow> int \<Rightarrow> grant_store \<Rightarrow> nat \<times> store_error option \<times> grant_store" where
  "audit_expired_sessions viewer clock now0 limit0 st =
     (let now = (if is_zero_time now0 then clock else now0); limit = (if limit0 \<le> 0 then expiry_batch else nat limit0)
      in claim_all viewer now (expiry_candidates now limit st) 0 st)"

section \<open>The readback\<close>

definition upper_byte :: "char \<Rightarrow> bool" where "upper_byte = char_between CHR ''A'' CHR ''Z''"
definition digit_byte :: "char \<Rightarrow> bool" where "digit_byte = char_between CHR ''0'' CHR ''9''"
definition token_byte :: "char \<Rightarrow> bool" where "token_byte c \<longleftrightarrow> alnum c \<or> c = CHR ''_'' \<or> c = CHR ''-''"

text \<open>The regular expressions; what follows a greedy run cannot belong to it.\<close>

definition issue_key_matches :: "string \<Rightarrow> bool" where
  "issue_key_matches s =
     (case s of [] \<Rightarrow> False
      | c # cs \<Rightarrow> upper_byte c \<and>
          (case dropWhile (\<lambda>x. upper_byte x \<or> digit_byte x) cs of
             d # n # ns \<Rightarrow> d = CHR ''-'' \<and> char_between CHR ''1'' CHR ''9'' n \<and> list_all digit_byte ns
           | _ \<Rightarrow> False))"

definition hex64_after :: "string \<Rightarrow> string \<Rightarrow> bool" where
  "hex64_after p s \<longleftrightarrow> prefix p s \<and> length s = length p + 64 \<and> list_all lower_hex (drop (length p) s)"

definition repository_byte :: "char \<Rightarrow> bool" where
  "repository_byte c \<longleftrightarrow> alnum c \<or> c = CHR ''_'' \<or> c = CHR ''.'' \<or> c = CHR ''-''"

definition repository_matches :: "string \<Rightarrow> bool" where
  "repository_matches s =
     (let owner = takeWhile repository_byte s; rest = dropWhile repository_byte s
      in owner \<noteq> [] \<and> (case rest of c # cs \<Rightarrow> c = CHR ''/'' \<and> cs \<noteq> [] \<and> list_all repository_byte cs | [] \<Rightarrow> False))"

definition secret_starts :: "string \<Rightarrow> bool" where
  "secret_starts s \<longleftrightarrow>
     (prefix ''mat_'' s \<and> (case drop 4 s of c # _ \<Rightarrow> token_byte c | [] \<Rightarrow> False))
     \<or> (prefix ''ags_sess_'' s \<and> (case drop 9 s of c # _ \<Rightarrow> token_byte c | [] \<Rightarrow> False))
     \<or> (prefix ''eyJ'' s \<and> (case dropWhile token_byte (drop 3 s) of
           a # b # rest \<Rightarrow> a = CHR ''.'' \<and> token_byte b
             \<and> (case dropWhile token_byte rest of c # d # _ \<Rightarrow> c = CHR ''.'' \<and> token_byte d | _ \<Rightarrow> False)
         | _ \<Rightarrow> False))
     \<or> (prefix ''-----BEGIN '' s \<and> (let run = takeWhile (\<lambda>c. upper_byte c \<or> c = CHR '' '') (drop 11 s)
           in suffix ''PRIVATE KEY'' run \<and> prefix ''-----'' (drop (11 + length run) s)))"

fun secret_inside :: "string \<Rightarrow> bool" where
  "secret_inside [] = False"
| "secret_inside (c # cs) = (secret_starts (c # cs) \<or> secret_inside cs)"

definition canonical_text :: "string \<Rightarrow> bool" where
  "canonical_text s \<longleftrightarrow> s \<noteq> [] \<and> s = trim_space s \<and> \<not> contains_any s [CHR 0x0D, CHR 0x0A, CHR 0x00] \<and> \<not> is_secret_shaped s \<and> \<not> secret_inside s"

definition canonical_identity :: "(string \<Rightarrow> bool) \<Rightarrow> session_facts \<Rightarrow> user_row \<Rightarrow> repo_row \<Rightarrow> bool" where
  "canonical_identity uuid f principal0 repository \<longleftrightarrow>
     sf_contract_revision f = contract_revision
     \<and> (sf_credential_mode f = ''delegated_session'' \<or> sf_credential_mode f = transport_mode)
     \<and> (sf_credential_mode f = transport_mode \<longrightarrow> uuid (sf_access_grant_id f) \<and> hex64_after ''sha256:'' (sf_access_grant_revision f)
          \<and> 0 < sf_actor_user_id f \<and> int (sf_actor_user_id f) \<le> max_json_safe)
     \<and> uuid (sf_id f) \<and> ur_id principal0 \<noteq> 0 \<and> int (ur_id principal0) \<le> max_json_safe \<and> canonical_text (ur_login principal0)
     \<and> uuid (sf_team_identity_id f) \<and> canonical_text (sf_team_binding_revision f) \<and> canonical_text (sf_policy_class f)
     \<and> 0 < sf_membership_epoch f \<and> sf_membership_epoch f \<le> max_json_safe \<and> canonical_text (sf_issuer_instance_id f)
     \<and> canonical_text (sf_trust_revision f) \<and> uuid (sf_issuer_workspace_id f) \<and> uuid (sf_external_agent_id f) \<and> uuid (sf_external_task_id f)
     \<and> uuid (sf_external_run_id f) \<and> uuid (sf_correlation_id f) \<and> sf_workload_context_schema f = ''workload.context.v1''
     \<and> canonical_text (sf_target_instance f) \<and> sf_resource_service f = ''ags'' \<and> canonical_text (re_full_name repository)
     \<and> repository_matches (re_full_name repository) \<and> is_default_operation (sf_operation_name f) \<and> canonical_text (sf_resource_policy_revision f)
     \<and> canonical_text (sf_policy_version f) \<and> hex64_after ''grant-rev:'' (sf_native_grant_revision f)
     \<and> normalize_stored (sf_operation_name f) (sf_operation_constraints f) \<noteq> None"

definition canonical_trace :: "(string \<Rightarrow> bool) \<Rightarrow> session_trace \<Rightarrow> bool" where
  "canonical_trace uuid t \<longleftrightarrow>
     (\<forall>i\<in>{tr_squad_id t, tr_trigger_id t, tr_runtime_id t}. i \<noteq> [] \<longrightarrow> uuid i)
     \<and> (tr_issue_id t = [] \<longleftrightarrow> tr_issue_key t = [])
     \<and> (tr_issue_id t \<noteq> [] \<longrightarrow> uuid (tr_issue_id t) \<and> issue_key_matches (tr_issue_key t))"

definition canonical_times :: "session_row \<Rightarrow> instant \<Rightarrow> bool" where
  "canonical_times s now \<longleftrightarrow>
     (let created = sf_created_at (ss_facts s); expires = sf_expires_at (ss_facts s); state = session_state s now
      in \<not> is_zero_time created \<and> \<not> is_zero_time expires \<and> created < expires
        \<and> (case ss_revoked_at s of None \<Rightarrow> True | Some r \<Rightarrow> \<not> r < created)
        \<and> (case ss_expiry_audited_at s of None \<Rightarrow> True | Some a \<Rightarrow> \<not> a < expires)
        \<and> \<not> (state = ''active'' \<and> ss_expiry_audited_at s \<noteq> None) \<and> \<not> (state = ''expired'' \<and> ss_revoked_at s \<noteq> None))"

definition validate_lifecycle :: "(string \<Rightarrow> bool) \<Rightarrow> session_row \<Rightarrow> user_row \<Rightarrow> repo_row \<Rightarrow> instant \<Rightarrow> bool" where
  "validate_lifecycle uuid s principal0 repository now \<longleftrightarrow>
     canonical_identity uuid (ss_facts s) principal0 repository \<and> canonical_trace uuid (sf_trace (ss_facts s)) \<and> canonical_times s now"

datatype lifecycle_error = LifecycleForbidden | LifecycleNotFound | LifecycleInvalid | LifecycleStore store_error

text \<open>The readback: the session without credential and constraints, and what is computed from it.\<close>

record lifecycle_readback =
  lb_session_id :: string
  lb_state :: string
  lb_created_at :: instant
  lb_expires_at :: instant
  lb_revoked_at :: "instant option"
  lb_expiry_audited_at :: "instant option"
  lb_contract_revision :: string
  lb_principal :: "nat \<times> string"
  lb_team_identity_id :: string
  lb_team_binding_revision :: string
  lb_policy_class :: string
  lb_membership_epoch :: int
  lb_issuer_instance_id :: string
  lb_target_instance :: string
  lb_repository :: string
  lb_resource_service :: string
  lb_operation :: string
  lb_trust_revision :: string
  lb_native_grant_revision :: string
  lb_resource_policy_revision :: string
  lb_policy_version :: string
  lb_requested_scope :: string
  lb_provenance :: "(string \<times> string) list"

definition lifecycle_readback_of :: "session_row \<Rightarrow> user_row \<Rightarrow> repo_row \<Rightarrow> instant \<Rightarrow> lifecycle_readback" where
  "lifecycle_readback_of s principal0 repository now =
     (let f = ss_facts s; t = sf_trace f
      in \<lparr>lb_session_id = sf_id f, lb_state = session_state s now, lb_created_at = sf_created_at f, lb_expires_at = sf_expires_at f,
          lb_revoked_at = ss_revoked_at s, lb_expiry_audited_at = ss_expiry_audited_at s, lb_contract_revision = sf_contract_revision f,
          lb_principal = (ur_id principal0, ur_login principal0), lb_team_identity_id = sf_team_identity_id f,
          lb_team_binding_revision = sf_team_binding_revision f, lb_policy_class = sf_policy_class f, lb_membership_epoch = sf_membership_epoch f,
          lb_issuer_instance_id = sf_issuer_instance_id f, lb_target_instance = sf_target_instance f, lb_repository = re_full_name repository,
          lb_resource_service = sf_resource_service f, lb_operation = sf_operation_name f, lb_trust_revision = sf_trust_revision f,
          lb_native_grant_revision = sf_native_grant_revision f, lb_resource_policy_revision = sf_resource_policy_revision f,
          lb_policy_version = sf_policy_version f, lb_requested_scope = sf_operation_name f @ '':'' @ re_full_name repository,
          lb_provenance = [(''schema'', sf_workload_context_schema f), (''workspace_id'', sf_issuer_workspace_id f), (''agent_id'', sf_external_agent_id f),
            (''squad_id'', tr_squad_id t), (''issue_id'', tr_issue_id t), (''issue_key'', tr_issue_key t), (''task_id'', sf_external_task_id f),
            (''run_id'', sf_external_run_id f), (''correlation_id'', sf_correlation_id f), (''trigger_id'', tr_trigger_id t), (''runtime_id'', tr_runtime_id t)]\<rparr>)"

definition get_session_lifecycle ::
  "(string \<Rightarrow> bool) \<Rightarrow> bool \<Rightarrow> nat option \<Rightarrow> instant \<Rightarrow> string \<Rightarrow> grant_store \<Rightarrow> lifecycle_error + lifecycle_readback" where
  "get_session_lifecycle uuid delegated viewer now raw_id st =
     (if delegated then Inl LifecycleForbidden
      else case viewer of None \<Rightarrow> Inl LifecycleForbidden | Some viewer_id \<Rightarrow>
      if viewer_id = 0 then Inl LifecycleForbidden
      else case first_row (\<lambda>u. ur_id u = viewer_id) (db_users (gs_db st)) of Inl _ \<Rightarrow> Inl LifecycleForbidden | Inr v \<Rightarrow>
      if ur_type v \<noteq> ''User'' \<or> \<not> ur_site_admin v \<or> \<not> is_user_status_active (ur_status v) then Inl LifecycleForbidden
      else (let session_id = trim_space raw_id
            in if session_id = [] then Inl LifecycleNotFound
               else case session_by_id st session_id of None \<Rightarrow> Inl LifecycleNotFound | Some s \<Rightarrow>
               (case first_row (\<lambda>u. ur_id u = sf_principal_user_id (ss_facts s)) (db_users (gs_db st)) of
                  Inl NotFound \<Rightarrow> Inl LifecycleInvalid
                | Inl e \<Rightarrow> Inl (LifecycleStore e)
                | Inr p \<Rightarrow>
                    (case first_row (\<lambda>r. re_id r = sf_repository_id (ss_facts s)) (db_repositories (gs_db st)) of
                       Inl NotFound \<Rightarrow> Inl LifecycleInvalid
                     | Inl e \<Rightarrow> Inl (LifecycleStore e)
                     | Inr r \<Rightarrow> if \<not> validate_lifecycle uuid s p r now then Inl LifecycleInvalid
                               else Inr (lifecycle_readback_of s p r now)))))"

end
