(* ===== verification/Grant_Machine.thy ===== *)
theory Grant_Machine
  imports Session_Lifecycle
begin

text \<open>
  The operations on grants and transport sessions refine a small machine, \<open>table_step\<close>, that appends
  grants and sessions and revokes them: everything else they do leaves these rows alone or only
  marks that they were used.
\<close>

section \<open>What the operations leave alone\<close>

definition same_tables :: "grant_store \<Rightarrow> grant_store \<Rightarrow> bool" where
  "same_tables a b \<longleftrightarrow> gs_grants a = gs_grants b \<and> gs_sessions a = gs_sessions b \<and> gs_invocations a = gs_invocations b"

lemma same_tables_refl [simp]: "same_tables a a"
  by (simp add: same_tables_def)

lemma same_tables_trans: "same_tables a b \<Longrightarrow> same_tables b c \<Longrightarrow> same_tables a c"
  by (simp add: same_tables_def)

lemma same_tables_db [simp]: "same_tables a (b\<lparr>gs_db := d\<rparr>) \<longleftrightarrow> same_tables a b"
  by (simp add: same_tables_def)

lemma same_tables_grant [simp]: "same_tables a b \<Longrightarrow> grant_by_id b i = grant_by_id a i"
  by (simp add: same_tables_def grant_by_id_def)

lemma intake_frame: "intake_execution_context env now input st = (r, st') \<Longrightarrow> same_tables st st'"
  by (auto simp: intake_execution_context_def same_tables_def split: option.splits sum.splits if_splits)

lemma intake_for_frame: "intake_for_access_grant env now input st = (r, st') \<Longrightarrow> same_tables st st'"
  by (auto simp: intake_for_access_grant_def provisional_intake_from_locator_def Let_def same_tables_def
      split: prod.splits sum.splits if_splits dest!: intake_frame)

lemma renewal_intake_frame: "renewal_intake env input old st = (r, st') \<Longrightarrow> same_tables st st'"
  by (auto simp: renewal_intake_def split: prod.splits sum.splits if_splits dest!: intake_frame)

lemma actor_frame: "actor_transaction env source current st = (r, st') \<Longrightarrow> same_tables st st'"
  by (auto simp: actor_transaction_def create_actor_def Let_def same_tables_def
      split: option.splits sum.splits store_error.splits if_splits)

lemma attempts_frame: "actor_attempts n env source current st = (r, st') \<Longrightarrow> same_tables st st'"
proof (induction n arbitrary: st)
  case (Suc n)
  obtain a st1 where t: "actor_transaction env source current st = (a, st1)" by fastforce
  from actor_frame [OF t] have "same_tables st st1" .
  moreover have "same_tables st1 st'"
    using Suc.prems t by (auto split: sum.splits grant_error.splits dest: Suc.IH)
  ultimately show ?case by (rule same_tables_trans)
qed simp

lemma build_frame: "build_access_grant env now intake repository sel cls role ops from st = (r, st') \<Longrightarrow> same_tables st st'"
proof -
  assume b: "build_access_grant env now intake repository sel cls role ops from st = (r, st')"
  obtain a st1 where t: "resolve_or_create_actor env (in_source intake) (in_context intake) st = (a, st1)" by fastforce
  then have "same_tables st st1" unfolding resolve_or_create_actor_def by (rule attempts_frame)
  then show ?thesis using b t unfolding build_access_grant_def
    by (auto simp: Let_def split: sum.splits prod.splits option.splits if_splits)
qed

lemma revalidate_frame: "revalidate_access_grant env now g st = (r, st') \<Longrightarrow> same_tables st st'"
  unfolding revalidate_access_grant_def Let_def by (auto split: sum.splits prod.splits if_splits)

section \<open>The machine\<close>

text \<open>Rows up to the marks of their use.\<close>

definition same_grant :: "grant_row \<Rightarrow> grant_row \<Rightarrow> bool" where
  "same_grant a b \<longleftrightarrow> gr_facts a = gr_facts b \<and> gr_revoked_at a = gr_revoked_at b \<and> gr_revocation_reason a = gr_revocation_reason b"

definition same_session :: "session_row \<Rightarrow> session_row \<Rightarrow> bool" where
  "same_session a b \<longleftrightarrow> ss_facts a = ss_facts b \<and> ss_revoked_at a = ss_revoked_at b \<and> ss_revocation_reason a = ss_revocation_reason b"

definition grant_born :: "instant \<Rightarrow> instant \<Rightarrow> grant_row \<Rightarrow> bool" where
  "grant_born lo hi g \<longleftrightarrow>
     (let f = gr_facts g
      in lo \<le> gf_created_at f \<and> gf_created_at f \<le> hi \<and> gf_created_at f < gf_expires_at f \<and> gf_expires_at f \<le> gf_created_at f + maximum_grant_ttl
        \<and> gr_revoked_at g = None \<and> (\<exists>e l. gf_effective_operations f = grant_envelope e l) \<and> gf_elevated_binding_revision f = [] \<and> gf_id f \<noteq> [])"

definition revoked_grant :: "instant \<Rightarrow> string \<Rightarrow> grant_row \<Rightarrow> grant_row" where
  "revoked_grant now reason g = g\<lparr>gr_revoked_at := Some now, gr_revocation_reason := reason\<rparr>"

definition revoke_one :: "string \<Rightarrow> instant \<Rightarrow> string \<Rightarrow> grant_row list \<Rightarrow> grant_row list" where
  "revoke_one i now reason = map (\<lambda>g. if gf_id (gr_facts g) = i \<and> gr_revoked_at g = None then revoked_grant now reason g else g)"

definition revoke_sessions :: "string \<Rightarrow> instant \<Rightarrow> string \<Rightarrow> session_row list \<Rightarrow> session_row list" where
  "revoke_sessions i now reason = map (\<lambda>s. if sf_access_grant_id (ss_facts s) = i \<and> sf_credential_mode (ss_facts s) = transport_mode \<and> ss_revoked_at s = None
     then s\<lparr>ss_revoked_at := Some now, ss_revocation_reason := reason\<rparr> else s)"

definition fresh_grant :: "grant_row \<Rightarrow> grant_row list \<Rightarrow> bool" where
  "fresh_grant g gs \<longleftrightarrow> (\<forall>h\<in>set gs. gf_id (gr_facts h) \<noteq> gf_id (gr_facts g) \<and> gf_credential_hash (gr_facts h) \<noteq> gf_credential_hash (gr_facts g))"

definition session_born :: "instant \<Rightarrow> instant \<Rightarrow> grant_facts \<Rightarrow> session_row \<Rightarrow> bool" where
  "session_born lo hi g s \<longleftrightarrow>
     (let f = ss_facts s
      in sf_access_grant_id f = gf_id g \<and> sf_credential_mode f = transport_mode \<and> sf_access_grant_revision f = gf_authority_revision g
        \<and> sf_trust_revision f = gf_authority_revision g \<and> sf_actor_user_id f = gf_actor_user_id g \<and> sf_principal_user_id f = gf_executor_user_id g
        \<and> sf_repository_id f = gf_repository_id g \<and> sf_target_instance f = gf_target_instance g
        \<and> lo \<le> sf_created_at f \<and> sf_created_at f \<le> hi \<and> sf_created_at f < sf_expires_at f
        \<and> sf_expires_at f \<le> sf_created_at f + maximum_transport_ttl \<and> sf_expires_at f \<le> gf_expires_at g
        \<and> sf_operation_name f \<notin> set not_generic_transport \<and> canonical_name (sf_operation_name f) = sf_operation_name f
        \<and> (is_standard (sf_operation_name f) \<or> contains_operation (gf_effective_operations g) (sf_operation_name f))
        \<and> set (sf_granted_capabilities f) \<subseteq> set session_capabilities \<and> sf_granted_capabilities f \<noteq> []
        \<and> normalize_stored (sf_operation_name f) (sf_operation_constraints f) = Some (sf_operation_constraints f)
        \<and> merge_fields_empty (sf_merge f) \<and> ss_revoked_at s = None)"

inductive table_step :: "instant \<Rightarrow> instant \<Rightarrow> grant_store \<Rightarrow> grant_store \<Rightarrow> bool" for lo hi where
  keep: "list_all2 same_grant (gs_grants st) (gs_grants st') \<Longrightarrow> list_all2 same_session (gs_sessions st) (gs_sessions st') \<Longrightarrow> table_step lo hi st st'"
| grant: "fresh_grant g (gs_grants st) \<Longrightarrow> grant_born lo hi g \<Longrightarrow> gf_renewed_from (gr_facts g) = [] \<Longrightarrow>
    gs_grants st' = gs_grants st @ [g] \<Longrightarrow> gs_sessions st' = gs_sessions st \<Longrightarrow> table_step lo hi st st'"
| renew: "fresh_grant g (gs_grants st) \<Longrightarrow> grant_born lo hi g \<Longrightarrow> old \<in> set (gs_grants st) \<Longrightarrow> grant_live old now \<Longrightarrow> lo \<le> now \<Longrightarrow> now \<le> hi \<Longrightarrow>
    renewal_agrees (gr_facts g) (gr_facts old) \<Longrightarrow> gf_renewed_from (gr_facts g) = gf_id (gr_facts old) \<Longrightarrow>
    gs_grants st' = revoke_one (gf_id (gr_facts old)) now ''renewed'' (gs_grants st) @ [g] \<Longrightarrow>
    gs_sessions st' = revoke_sessions (gf_id (gr_facts old)) now ''access_grant_renewed'' (gs_sessions st) \<Longrightarrow> table_step lo hi st st'"
| revoke: "g \<in> set (gs_grants st) \<Longrightarrow> gr_revoked_at g = None \<Longrightarrow> lo \<le> now \<Longrightarrow> now \<le> hi \<Longrightarrow>
    gs_grants st' = revoke_one (gf_id (gr_facts g)) now reason (gs_grants st) \<Longrightarrow>
    gs_sessions st' = revoke_sessions (gf_id (gr_facts g)) now ''access_grant_revoked'' (gs_sessions st) \<Longrightarrow> table_step lo hi st st'"
| again: "g \<in> set (gs_grants st) \<Longrightarrow> gr_revoked_at g = Some first \<Longrightarrow> gs_grants st' = gs_grants st \<Longrightarrow>
    gs_sessions st' = revoke_sessions (gf_id (gr_facts g)) first ''access_grant_revoked'' (gs_sessions st) \<Longrightarrow> table_step lo hi st st'"
| session: "g \<in> set (gs_grants st) \<Longrightarrow> grant_live g now \<Longrightarrow> lo \<le> now \<Longrightarrow> now \<le> hi \<Longrightarrow> session_born lo hi (gr_facts g) s \<Longrightarrow>
    sf_id (ss_facts s) \<notin> (sf_id \<circ> ss_facts) ` set (gs_sessions st) \<Longrightarrow>
    list_all2 same_grant (gs_grants st) (gs_grants st') \<Longrightarrow> gs_sessions st' = gs_sessions st @ [s] \<Longrightarrow> table_step lo hi st st'"

lemma same_row [simp]: "same_grant g g" "same_session s s"
  by (simp_all add: same_grant_def same_session_def)

lemma touch_sessions: "(\<And>s. same_session s (f s)) \<Longrightarrow> list_all2 same_session ss (map f ss)"
  by (simp add: list_all2_map2 list_all2_same)

lemma same_grant_refl: "list_all2 same_grant gs gs" "list_all2 same_session ss ss"
  by (simp_all add: list_all2_same same_grant_def same_session_def)

lemma keep_same: "same_tables st st' \<Longrightarrow> table_step lo hi st st'"
  by (rule table_step.keep) (simp_all add: same_tables_def same_grant_refl)

section \<open>The operations refine the machine\<close>

definition env_ok :: "grant_env \<Rightarrow> bool" where
  "env_ok env \<longleftrightarrow> map_order (ev_order env) \<and> mono (ev_clock env) \<and> (\<forall>n. ev_uuid env n \<noteq> [])"

lemma clock_order: "env_ok env \<Longrightarrow> m \<le> n \<Longrightarrow> ev_clock env m \<le> ev_clock env n"
  by (simp add: env_ok_def monoD)

lemma build_parts:
  assumes "build_access_grant env now intake repository sel cls role ops renewed st = (Inr (g, raw, actor, executor), st')"
  obtains a d d' where
    "evaluate_grant (ev_order env) (ev_revision env) (ev_fresh_team env) (ev_ctx env) (ev_auth env) d actor (in_source intake) repository sel cls role ops = (Inr a, d')"
    "gr_revoked_at g = None" "gf_effective_operations (gr_facts g) = ga_effective_operations a" "gf_renewed_from (gr_facts g) = renewed"
    "gf_created_at (gr_facts g) = now" "gf_id (gr_facts g) = ev_uuid env 1" "gf_source (gr_facts g) = in_source intake"
    "gf_elevated_binding_revision (gr_facts g) = (case ga_elevated a of None \<Rightarrow> [] | Some (b, _) \<Rightarrow> tb_binding_revision b)"
    "0 < gf_expires_at (gr_facts g) - now" "gf_expires_at (gr_facts g) - now \<le> maximum_grant_ttl" "executor = ga_executor a"
    "gf_actor_user_id (gr_facts g) = ur_id actor" "gf_executor_user_id (gr_facts g) = ur_id executor" "gs_db st' = d'"
    "gf_warnings (gr_facts g) = ga_warnings a"
proof -
  obtain actor1 st1 where t: "resolve_or_create_actor env (in_source intake) (in_context intake) st = (Inr actor1, st1)"
    using assms by (auto simp: build_access_grant_def split: prod.splits sum.splits if_splits)
  obtain a d' where e: "evaluate_grant (ev_order env) (ev_revision env) (ev_fresh_team env) (ev_ctx env) (ev_auth env) (gs_db st1) actor1
      (in_source intake) repository sel cls role ops = (Inr a, d')"
    using assms t by (auto simp: build_access_grant_def split: prod.splits sum.splits if_splits)
  have m: "maximum_grant_ttl > 0" by (simp add: maximum_grant_ttl_def minute_def second_def)
  have "actor1 = actor" using assms t e by (auto simp: build_access_grant_def Let_def split: option.splits if_splits)
  with assms t e m show ?thesis
    by (intro that [of "gs_db st1" a d']) (auto simp: build_access_grant_def Let_def split: option.splits if_splits)
qed

lemma build_born:
  assumes "build_access_grant env now intake repository sel cls role ops renewed st = (Inr (g, raw, actor, executor), st')"
    "env_ok env" "lo \<le> now" "now \<le> hi"
  shows "grant_born lo hi g"
proof -
  obtain a d d' where b: "evaluate_grant (ev_order env) (ev_revision env) (ev_fresh_team env) (ev_ctx env) (ev_auth env) d actor (in_source intake) repository sel cls role ops = (Inr a, d')"
    "gr_revoked_at g = None" "gf_effective_operations (gr_facts g) = ga_effective_operations a" 
    "gf_created_at (gr_facts g) = now"
    "gf_elevated_binding_revision (gr_facts g) = (case ga_elevated a of None \<Rightarrow> [] | Some (b, _) \<Rightarrow> tb_binding_revision b)"
    "gf_id (gr_facts g) = ev_uuid env 1" "0 < gf_expires_at (gr_facts g) - now" "gf_expires_at (gr_facts g) - now \<le> maximum_grant_ttl"
    by (rule build_parts [OF assms(1)])
  obtain dflt executor0 p where "grant_scope (ev_order env) (ev_revision env) (ev_auth env) actor executor0 (in_source intake) repository dflt sel cls role ops = Inr a"
    by (rule evaluate_grant_parts [OF b(1)])
  from grant_scope_parts(6,9) [OF this] b assms(2-4) show ?thesis by (auto simp: grant_born_def Let_def env_ok_def)
qed

lemma mark_facts [simp]:
  "gr_revoked_at (mark_provisional p g) = gr_revoked_at g" "gf_id (gr_facts (mark_provisional p g)) = gf_id (gr_facts g)"
  "gf_renewed_from (gr_facts (mark_provisional p g)) = gf_renewed_from (gr_facts g)"
  "grant_born lo hi (mark_provisional p g) = grant_born lo hi g"
  by (simp_all add: mark_provisional_def grant_born_def Let_def)

lemma insert_grant_some: "insert_grant g st = Some st' \<longleftrightarrow> fresh_grant g (gs_grants st) \<and> st' = st\<lparr>gs_grants := gs_grants st @ [g]\<rparr>"
  by (auto simp: insert_grant_def fresh_grant_def image_iff)

lemma revoke_sessions_store: "revoke_transport_sessions i now reason st = st\<lparr>gs_sessions := revoke_sessions i now reason (gs_sessions st)\<rparr>"
  by (simp add: revoke_transport_sessions_def revoke_sessions_def)

lemma update_grants_revoke:
  "update_grants (\<lambda>r. gf_id (gr_facts r) = i \<and> gr_revoked_at r = None) (\<lambda>r. r\<lparr>gr_revoked_at := Some now, gr_revocation_reason := reason\<rparr>) st
    = st\<lparr>gs_grants := revoke_one i now reason (gs_grants st)\<rparr>"
  by (simp add: update_grants_def revoke_one_def revoked_grant_def)

lemma touch_grants: "list_all2 same_grant (gs_grants st) (gs_grants (update_grants P (\<lambda>r. r\<lparr>gr_last_used_at := t\<rparr>) st))"
  by (auto simp: update_grants_def list_all2_map2 list_all2_same same_grant_def)

lemma issue_refines:
  assumes "env_ok env"
  shows "table_step (ev_clock env 0) (ev_clock env 3) st (snd (issue_access_grant env input st))"
proof -
  obtain r st' where i: "issue_access_grant env input st = (r, st')" by fastforce
  show ?thesis
  proof (cases "same_tables st st'")
    case True
    then show ?thesis using i by (simp add: keep_same)
  next
    case False
    obtain repository where r: "lookup_repo st (trim_char (CHR ''/'') (trim_space (is_repository input))) = Inr repository" "\<not> re_disabled repository"
      using i False by (auto simp: issue_access_grant_def Let_def split: if_splits sum.splits)
    obtain intake st1 where n: "intake_for_access_grant env (ev_clock env 0) (is_context input) st = (Inr intake, st1)"
      using i False r by (auto simp: issue_access_grant_def Let_def split: if_splits sum.splits prod.splits dest: intake_for_frame)
    have s1: "same_tables st st1" by (rule intake_for_frame [OF n])
    obtain g0 raw actor executor st2 where b: "build_access_grant env (ev_clock env 1) intake repository (is_agent_selector input) (is_policy_class input)
        (is_access_role input) (is_additional_operations input) [] st1 = (Inr (g0, raw, actor, executor), st2)"
      using i False r n s1 by (auto simp: issue_access_grant_def Let_def split: if_splits sum.splits prod.splits dest!: build_frame dest: same_tables_trans)
    have s2: "same_tables st st2" by (rule same_tables_trans [OF s1 build_frame [OF b]])
    define g where "g = mark_provisional (in_provisional intake) g0"
    have st': "insert_grant g st2 = Some st'"
      using i False r n b s2 by (auto simp: issue_access_grant_def Let_def g_def split: if_splits option.splits)
    obtain "gf_renewed_from (gr_facts g0) = []" by (rule build_parts [OF b])
    moreover have "grant_born (ev_clock env 0) (ev_clock env 3) g"
      unfolding g_def using build_born [OF b assms] clock_order [OF assms] by simp
    ultimately show ?thesis using st' s2 i
      by (auto simp: insert_grant_some same_tables_def g_def intro!: table_step.grant)
  qed
qed

definition distinct_grants :: "grant_store \<Rightarrow> bool" where
  "distinct_grants st \<longleftrightarrow> distinct (map (gf_id \<circ> gr_facts) (gs_grants st))"

lemma grant_by_id_some: "grant_by_id st i = Some g \<Longrightarrow> g \<in> set (gs_grants st) \<and> gf_id (gr_facts g) = i"
  by (auto simp: grant_by_id_def find_Some_iff)

lemma grant_by_id_eq: "distinct_grants st \<Longrightarrow> g \<in> set (gs_grants st) \<Longrightarrow> grant_by_id st (gf_id (gr_facts g)) = Some g"
proof -
  assume d: "distinct_grants st" "g \<in> set (gs_grants st)"
  then have "grant_by_id st (gf_id (gr_facts g)) \<noteq> None" by (auto simp: grant_by_id_def find_None_iff)
  then obtain h where h: "grant_by_id st (gf_id (gr_facts g)) = Some h" by blast
  then have "h = g" using d grant_by_id_some [OF h] unfolding distinct_grants_def distinct_map by (metis comp_apply inj_onD)
  then show ?thesis using h by simp
qed

lemma load_grant: "load_grant_credential env raw st = Inr (g, u, v) \<Longrightarrow> g \<in> set (gs_grants st) \<and> ur_id u = gf_actor_user_id (gr_facts g)
    \<and> ur_id v = gf_executor_user_id (gr_facts g) \<and> gf_credential_hash (gr_facts g) = ev_sha env raw"
  by (auto simp: load_grant_credential_def first_row_def find_Some_iff split: if_splits option.splits sum.splits)

lemma resolve_active: "resolve_active_grant env now raw st = Inr (g, u, v) \<Longrightarrow> load_grant_credential env raw st = Inr (g, u, v) \<and> grant_live g now"
  by (auto simp: resolve_active_grant_def rbind_def split: sum.splits if_splits)

lemma renew_refines:
  assumes "env_ok env" "distinct_grants st"
  shows "table_step (ev_clock env 0) (ev_clock env 3) st (snd (renew_access_grant env raw input st))"
proof -
  obtain r st' where i: "renew_access_grant env raw input st = (r, st')" by fastforce
  show ?thesis
  proof (cases "same_tables st st'")
    case True
    then show ?thesis using i by (simp add: keep_same)
  next
    case False
    obtain old_row u v where o: "resolve_active_grant env (ev_clock env 0) raw st = Inr (old_row, u, v)"
      using i False by (auto simp: renew_access_grant_def split: sum.splits)
    define old where "old = gr_facts old_row"
    obtain intake st1 where n: "renewal_intake env input old st = (Inr intake, st1)"
      using i False o by (auto simp: renew_access_grant_def Let_def old_def split: sum.splits prod.splits dest: renewal_intake_frame)
    have s1: "same_tables st st1" by (rule renewal_intake_frame [OF n])
    obtain repository where r: "lookup_repo st1 (gf_repository_full_name old) = Inr repository" "re_id repository = gf_repository_id old" "\<not> re_disabled repository"
      using i False o n s1 by (auto simp: renew_access_grant_def Let_def simp flip: old_def split: sum.splits if_splits)
    obtain g0 token actor executor st2 where b: "build_access_grant env (ev_clock env 2) intake repository (gf_agent_selector old) (gf_requested_policy_class old)
        (grant_renewal_role old) (gf_requested_operations old) (gf_id old) st1 = (Inr (g0, token, actor, executor), st2)"
      using i False o n s1 r by (auto simp: renew_access_grant_def Let_def simp flip: old_def split: sum.splits if_splits prod.splits dest!: build_frame dest: same_tables_trans)
    have s2: "same_tables st st2" by (rule same_tables_trans [OF s1 build_frame [OF b]])
    define g where "g = mark_provisional (in_provisional intake) g0"
    have t: "renewal_agrees (gr_facts g) old" "renewal_transaction (ev_clock env 3) g old st2 = Inr st'"
      using i False o n s1 s2 r b by (auto simp: renew_access_grant_def Let_def g_def simp flip: old_def split: sum.splits if_splits)
    obtain current where c: "grant_by_id st2 (gf_id old) = Some current" "grant_live current (ev_clock env 3)"
      "fresh_grant g (gs_grants st2)"
      "st' = st2\<lparr>gs_grants := revoke_one (gf_id old) (ev_clock env 3) ''renewed'' (gs_grants st2 @ [g]),
         gs_sessions := revoke_sessions (gf_id old) (ev_clock env 3) ''access_grant_renewed'' (gs_sessions st2)\<rparr>"
      using t(2) by (auto simp: renewal_transaction_def insert_grant_some update_grants_revoke revoke_sessions_store split: option.splits if_splits)
    have row: "old_row \<in> set (gs_grants st)" using o load_grant resolve_active by blast
    then have current: "current = old_row" using c(1) s2 grant_by_id_eq [OF assms(2)] by (auto simp: old_def)
    obtain renewed: "gf_renewed_from (gr_facts g0) = gf_id old" by (rule build_parts [OF b])
    have born: "grant_born (ev_clock env 0) (ev_clock env 3) g"
      unfolding g_def using build_born [OF b assms(1)] clock_order [OF assms(1)] by simp
    have other: "gf_id (gr_facts g) \<noteq> gf_id old" using c(3) row s2 by (auto simp: fresh_grant_def same_tables_def old_def)
    have tables: "gs_grants st2 = gs_grants st" "gs_sessions st2 = gs_sessions st" using s2 by (simp_all add: same_tables_def)
    have "table_step (ev_clock env 0) (ev_clock env 3) st st'"
    proof (rule table_step.renew [OF _ born row])
      show "fresh_grant g (gs_grants st)" using c(3) tables by simp
      show "grant_live old_row (ev_clock env 3)" using c(2) current by simp
      show "ev_clock env 0 \<le> ev_clock env 3" using clock_order [OF assms(1)] by simp
      show "gs_grants st' = revoke_one (gf_id (gr_facts old_row)) (ev_clock env 3) ''renewed'' (gs_grants st) @ [g]"
        using other unfolding c(4) old_def by (simp add: tables revoke_one_def)
      show "gs_sessions st' = revoke_sessions (gf_id (gr_facts old_row)) (ev_clock env 3) ''access_grant_renewed'' (gs_sessions st)"
        unfolding c(4) old_def by (simp add: tables)
      show "renewal_agrees (gr_facts g) (gr_facts old_row)" using t(1) by (simp add: old_def)
      show "gf_renewed_from (gr_facts g) = gf_id (gr_facts old_row)" using renewed by (simp add: g_def old_def)
    qed simp
    then show ?thesis using i by simp
  qed
qed

lemma revoke_refines:
  assumes "env_ok env" "distinct_grants st"
  shows "table_step (ev_clock env 0) (ev_clock env 3) st (snd (revoke_access_grant env raw reason st))"
proof -
  obtain r st' where i: "revoke_access_grant env raw reason st = (r, st')" by fastforce
  show ?thesis
  proof (cases "same_tables st st'")
    case True
    then show ?thesis using i by (simp add: keep_same)
  next
    case False
    obtain g u v why current st1 where o: "load_grant_credential env raw st = Inr (g, u, v)" "revocation_reason reason = Some why"
      "revocation_transaction (ev_clock env 0) why (gf_id (gr_facts g)) st = Inr (current, st1)" "st' = st1"
      using i False by (auto simp: revoke_access_grant_def split: sum.splits option.splits)
    have row: "g \<in> set (gs_grants st)" using o(1) load_grant by blast
    then have "grant_by_id st (gf_id (gr_facts g)) = Some g" by (rule grant_by_id_eq [OF assms(2)])
    with o(3,4) row clock_order [OF assms(1), of 0 3]
    have "table_step (ev_clock env 0) (ev_clock env 3) st st'"
      by (auto simp: revocation_transaction_def update_grants_revoke revoke_sessions_store split: option.splits
          intro: table_step.revoke [of g _ _ "ev_clock env 0" _ _ why] table_step.again [of g])
    then show ?thesis using i by simp
  qed
qed

lemma touch_keep: "same_tables st st1 \<Longrightarrow> gs_sessions st2 = gs_sessions st1 \<Longrightarrow> gs_grants st2 = gs_grants st1 \<Longrightarrow>
    table_step lo hi st (update_grants P (\<lambda>r. r\<lparr>gr_last_used_at := t\<rparr>) st2)"
  by (rule table_step.keep) (use touch_grants [of st2 P t] in \<open>simp_all add: same_tables_def update_grants_def same_grant_refl\<close>)

lemma authorize_refines: "table_step lo hi st (snd (authorize_grant_operation env raw operation input st))"
proof -
  obtain r st' where i: "authorize_grant_operation env raw operation input st = (r, st')" by fastforce
  show ?thesis
  proof (cases "same_tables st st'")
    case True
    then show ?thesis using i by (simp add: keep_same)
  next
    case False
    obtain g u v where o: "resolve_active_grant env (ev_clock env 0) raw st = Inr (g, u, v)"
      using i False by (auto simp: authorize_grant_operation_def split: sum.splits)
    obtain x st1 where v: "revalidate_access_grant env (ev_clock env 1) g st = (Inr x, st1)"
      using i False o by (auto simp: authorize_grant_operation_def Let_def split: option.splits prod.splits sum.splits if_splits dest: revalidate_frame)
    obtain inv st2 where n: "insert_invocation inv st1 = Some st2"
      "st' = update_grants (\<lambda>r. gf_id (gr_facts r) = gf_id (gr_facts g)) (\<lambda>r. r\<lparr>gr_last_used_at := Some (ev_clock env 2)\<rparr>) st2"
      using i False o v revalidate_frame [OF v] by (auto simp: authorize_grant_operation_def Let_def split: option.splits if_splits)
    show ?thesis using i n touch_keep [OF revalidate_frame [OF v]] by (auto simp: insert_invocation_def split: if_splits)
  qed
qed

lemma sub_time_le: "0 < sub_time a b \<Longrightarrow> sub_time a b \<le> a - b"
  by (auto simp: sub_time_def Let_def split: if_splits)

lemma audit_frame: "log_session_audit viewer s action operation outcome reason st = Inr st' \<Longrightarrow> same_tables st st'"
  by (auto simp: log_session_audit_def Let_def rbind_def same_tables_def split: sum.splits if_splits)

lemma capabilities_known: "operation_capabilities requested available = Some granted \<Longrightarrow> set granted \<subseteq> set session_capabilities \<and> granted \<noteq> []"
  by (auto simp: operation_capabilities_def Let_def list_all_iff simp flip: set_empty split: if_splits)

lemma derive_parts:
  assumes "derive_transport env g actor executor operation low_risk constraints st = (r, st')" "\<not> same_tables st st'"
  obtains source current authority permission delegator capabilities credential ttl invocation d available where
    "transport_transaction (ev_clock env 3) (gr_facts g) executor invocation
       (transport_session_row env (gr_facts g) actor executor source current authority permission delegator operation constraints capabilities
          credential (ev_clock env 2) (ev_clock env 2 + ttl)) (st\<lparr>gs_db := d\<rparr>) = Inr st'"
    "operation_capabilities [] available = Some capabilities" "0 < ttl" "ttl \<le> maximum_transport_ttl"
    "ttl \<le> gf_expires_at (gr_facts g) - ev_clock env 2"
proof -
  define f where "f = gr_facts g"
  note derive = assms(1) [unfolded derive_transport_def Let_def, folded f_def]
  obtain sn source current where n: "get_snapshot st (gf_snapshot_id f) = Inr (sn, source, current)"
    using derive assms(2) by (auto split: sum.splits)
  obtain authority where a: "transport_authority env f source (ur_id executor) low_risk = Inr authority"
    using derive assms(2) n by (auto split: sum.splits if_splits)
  obtain resource_ttl oper where o: "transport_operation env f operation low_risk = Inr (resource_ttl, oper)"
    using derive assms(2) n a by (auto split: sum.splits if_splits)
  obtain permission d where p: "has_repo_access (ev_fresh_team env) (ev_ctx env) (gs_db st) (gf_repository_id f) (ur_id executor) = (Inr permission, d)"
    using derive assms(2) n a o by (auto split: sum.splits if_splits prod.splits)
  define ttl where "ttl = min (if resource_ttl \<le> 0 \<or> resource_ttl > maximum_transport_ttl then maximum_transport_ttl else resource_ttl)
    (sub_time (gf_expires_at f) (ev_clock env 2))"
  obtain capabilities token hash shown delegator where q: "operation_capabilities [] (op_capabilities oper) = Some capabilities"
    "0 < sub_time (gf_expires_at f) (ev_clock env 2)" "new_session_credential env = Some (token, hash, shown)"
    "delegator_snapshot d actor = Inr delegator"
    using derive assms(2) n a o p by (auto split: sum.splits if_splits option.splits)
  have t: "transport_transaction (ev_clock env 3) f executor
      ((new_invocation (ev_uuid env 0) f operation constraints (ev_clock env 2))\<lparr>iv_actor_user_id := ur_id actor, iv_executor_user_id := ur_id executor\<rparr>)
      (transport_session_row env f actor executor source current authority permission delegator operation constraints capabilities
         (hash, shown) (ev_clock env 2) (ev_clock env 2 + ttl)) (st\<lparr>gs_db := d\<rparr>) = Inr st'"
    using derive assms(2) n a o p q unfolding ttl_def by (auto split: sum.splits if_splits)
  have "0 < ttl" "ttl \<le> maximum_transport_ttl" "ttl \<le> gf_expires_at f - ev_clock env 2"
    using q(2) sub_time_le [OF q(2)] by (auto simp: ttl_def maximum_transport_ttl_def minute_def second_def)
  then show ?thesis using that t q(1) unfolding f_def by blast
qed

lemma canonical_name_generic: "canonical_name (to_lower (trim_space x)) \<in> set not_generic_transport \<Longrightarrow> to_lower (trim_space x) \<in> set not_generic_transport"
proof -
  have "trim_space (to_lower (trim_space x)) = to_lower (trim_space x)" using trim_fold_key by (simp add: fold_key_def)
  moreover have "''review.write'' \<notin> set not_generic_transport" by (simp add: not_generic_transport_def)
  ultimately show "canonical_name (to_lower (trim_space x)) \<in> set not_generic_transport \<Longrightarrow> to_lower (trim_space x) \<in> set not_generic_transport"
    by (auto simp: canonical_name_def Let_def split: if_splits)
qed

lemma json_scalar_ok: "json_scalar k raw = Some s \<Longrightarrow> canonical_scalar s"
proof -
  have n: "canonical_scalar (format_int n)" if "0 < n" "n \<le> max_json_safe" for n
    using that canonical_number_scalar by (auto simp: canonical_number_def)
  have f: "canonical_scalar (format_int \<lfloor>r\<rfloor>)" if "of_int \<lfloor>r\<rfloor> = r" "0 < r" "r \<le> of_int max_json_safe" for r :: rat
    using that by (intro n) (metis of_int_0_less_iff, metis of_int_le_iff)
  show "json_scalar k raw = Some s \<Longrightarrow> canonical_scalar s"
    using n f positive_json_number_range
    by (auto simp: json_scalar_def json_int_def split: json_value.splits go_float.splits if_splits)
qed

lemma json_entries_ok: "json_entries j = Some e \<Longrightarrow> list_all stored_entry_ok e"
  by (induction j arbitrary: e rule: json_entries.induct)
    (auto simp: stored_entry_ok_def json_scalar_ok split: if_splits option.splits)

lemma normalize_json_stored:
  assumes "normalize_json op j = Some w"
  shows "normalize_stored op w = Some w"
proof -
  obtain e where e: "json_entries j = Some e" "normalize_constraints op e = Some w"
    using assms by (auto simp: normalize_json_def Option.bind_eq_Some_conv)
  then have "normalize_stored op e = Some w" using json_entries_ok by (simp add: normalize_stored_def)
  then show ?thesis by (rule normalize_stored_Some(4))
qed

lemma canonical_again: "canonical_name (canonical_name x) = canonical_name x"
  using trim_canonical [of x] canonical_name_not_alias [of x] by (simp add: canonical_name_def [of "canonical_name x"])

lemma transport_refines:
  assumes "env_ok env" "distinct_grants st"
  shows "table_step (ev_clock env 0) (ev_clock env 3) st (snd (issue_transport_session env raw operation input st))"
proof -
  obtain r st' where i: "issue_transport_session env raw operation input st = (r, st')" by fastforce
  show ?thesis
  proof (cases "same_tables st st'")
    case True
    then show ?thesis using i by (simp add: keep_same)
  next
    case False
    obtain g actor executor where o: "resolve_active_grant env (ev_clock env 0) raw st = Inr (g, actor, executor)"
      using i False by (auto simp: issue_transport_session_def split: sum.splits)
    define name where "name = to_lower (trim_space operation)"
    obtain x st1 constraints where v: "name \<notin> set not_generic_transport" "revalidate_access_grant env (ev_clock env 1) g st = (Inr x, st1)"
      "contains_operation (gf_effective_operations (gr_facts g)) (canonical_name name) \<or> is_standard (canonical_name name)"
      "derive_transport env g actor executor (canonical_name name) (is_standard (canonical_name name)) constraints st1 = (r, st')"
      "normalize_json (canonical_name name) input = Some constraints"
      using i False o by (auto simp: issue_transport_session_def Let_def simp flip: name_def
          split: option.splits prod.splits sum.splits if_splits dest: revalidate_frame)
    have s1: "same_tables st st1" by (rule revalidate_frame [OF v(2)])
    show ?thesis
    proof (cases "same_tables st1 st'")
      case True
      then show ?thesis using i s1 False same_tables_trans by blast
    next
      case changed: False
      define f where "f = gr_facts g"
      obtain source current authority permission delegator capabilities credential ttl invocation d available where t:
        "transport_transaction (ev_clock env 3) f executor invocation
           (transport_session_row env f actor executor source current authority permission delegator (canonical_name name) constraints capabilities
              credential (ev_clock env 2) (ev_clock env 2 + ttl)) (st1\<lparr>gs_db := d\<rparr>) = Inr st'"
        "operation_capabilities [] available = Some capabilities" "0 < ttl" "ttl \<le> maximum_transport_ttl"
        "ttl \<le> gf_expires_at f - ev_clock env 2"
        using derive_parts [OF v(4) changed] unfolding f_def by metis
      define s where "s = transport_session_row env f actor executor source current authority permission delegator (canonical_name name) constraints capabilities
              credential (ev_clock env 2) (ev_clock env 2 + ttl)"
      have row: "g \<in> set (gs_grants st)" "ur_id actor = gf_actor_user_id f" "ur_id executor = gf_executor_user_id f"
        using load_grant resolve_active [OF o] by (auto simp: f_def)
      have locked: "grant_by_id (st1\<lparr>gs_db := d\<rparr>) (gf_id f) = Some g"
        using grant_by_id_eq [OF assms(2) row(1)] s1 by (simp add: grant_by_id_def same_tables_def f_def)
      obtain st2 st3 where e: "grant_live g (ev_clock env 3)" "insert_invocation invocation (st1\<lparr>gs_db := d\<rparr>) = Some st2" "insert_session s st2 = Some st3"
        "same_tables (update_grants (\<lambda>r. gf_id (gr_facts r) = gf_id f) (\<lambda>r. r\<lparr>gr_last_used_at := Some (ev_clock env 3)\<rparr>) st3) st'"
        using t(1) locked by (auto simp: transport_transaction_def simp flip: s_def split: option.splits sum.splits if_splits dest!: audit_frame)
      have name: "canonical_name name \<notin> set not_generic_transport" using v(1) by (auto simp: name_def canonical_name_generic)
      have "table_step (ev_clock env 0) (ev_clock env 3) st st'"
      proof (rule table_step.session [OF row(1) e(1)])
        show "session_born (ev_clock env 0) (ev_clock env 3) (gr_facts g) s"
          using t(2-5) row v(3) name clock_order [OF assms(1), of 0 2] clock_order [OF assms(1), of 2 3] capabilities_known [OF t(2)] normalize_json_stored [OF v(5)] canonical_again
          unfolding session_born_def s_def transport_session_row_def by (auto simp: f_def merge_fields_empty_def)
        show "sf_id (ss_facts s) \<notin> (sf_id \<circ> ss_facts) ` set (gs_sessions st)"
          using e(2,3) s1 by (auto simp: insert_session_def insert_invocation_def list_ex_iff same_tables_def Let_def split: if_splits)
        show "list_all2 same_grant (gs_grants st) (gs_grants st')"
          using e(2-4) s1 touch_grants [of st3 "\<lambda>r. gf_id (gr_facts r) = gf_id f" "Some (ev_clock env 3)"]
          by (auto simp: insert_session_def insert_invocation_def same_tables_def Let_def split: if_splits)
        show "gs_sessions st' = gs_sessions st @ [s]"
          using e(2-4) s1 by (auto simp: insert_session_def insert_invocation_def update_grants_def same_tables_def Let_def split: if_splits)
      qed (use clock_order [OF assms(1)] in auto)
      then show ?thesis using i by simp
    qed
  qed
qed

lemma use_frame: "revalidate_delegated_session env (\<lambda>s. s) marker viewer repository_id operation capability actual st = (r, st') \<Longrightarrow> same_tables st st'"
  unfolding revalidate_delegated_session_def revalidate_transport_session_def Let_def
  by (auto split: option.splits sum.splits prod.splits if_splits dest: revalidate_frame)

lemma credential_refines: "table_step lo hi st (snd (resolve_session_credential env (\<lambda>s. s) raw st))"
proof -
  obtain r st' where i: "resolve_session_credential env (\<lambda>s. s) raw st = (r, st')" by fastforce
  show ?thesis
  proof (cases "same_tables st st'")
    case True
    then show ?thesis using i by (simp add: keep_same)
  next
    case False
    obtain identified where f: "find (\<lambda>s. sf_credential_hash (ss_facts s) = ev_sha env (trim_space raw)) (gs_sessions st) = Some identified"
      using i False by (auto simp: resolve_session_credential_def Let_def split: if_splits option.splits)
    obtain u where u: "first_row (\<lambda>u. ur_id u = sf_principal_user_id (ss_facts identified)) (db_users (gs_db st)) = Inr u"
      using i False f by (auto simp: resolve_session_credential_def Let_def split: if_splits sum.splits)
    obtain x st1 where v: "revalidate_delegated_session env (\<lambda>s. s) (Some (sf_id (ss_facts identified))) (Some (ur_id u))
        (sf_repository_id (ss_facts identified)) (trim_space (sf_operation_name (ss_facts identified))) [] None st = (x, st1)" by fastforce
    obtain P where "st' = st1\<lparr>gs_sessions := map (\<lambda>s. if P s then s\<lparr>ss_last_used_at := Some (ev_clock env 3)\<rparr> else s) (gs_sessions st1)\<rparr>"
      using i False f u v use_frame [OF v] by (auto simp: resolve_session_credential_def Let_def split: if_splits sum.splits)
    then have "table_step lo hi st st'" using use_frame [OF v]
      by (intro table_step.keep) (auto simp: same_tables_def same_grant_refl list_all2_map2 list_all2_same same_session_def)
    then show ?thesis using i by simp
  qed
qed

definition same_rows :: "grant_store \<Rightarrow> grant_store \<Rightarrow> bool" where
  "same_rows a b \<longleftrightarrow> list_all2 same_grant (gs_grants a) (gs_grants b) \<and> list_all2 same_session (gs_sessions a) (gs_sessions b)"

lemma same_grants_trans: "list_all2 same_grant x y \<Longrightarrow> list_all2 same_grant y z \<Longrightarrow> list_all2 same_grant x z"
  by (rule list_all2_trans [of same_grant same_grant same_grant]) (simp_all add: same_grant_def)

lemma same_sessions_trans: "list_all2 same_session x y \<Longrightarrow> list_all2 same_session y z \<Longrightarrow> list_all2 same_session x z"
  by (rule list_all2_trans [of same_session same_session same_session]) (simp_all add: same_session_def)

lemma same_rows_trans: "same_rows a b \<Longrightarrow> same_rows b c \<Longrightarrow> same_rows a c"
  unfolding same_rows_def using same_grants_trans same_sessions_trans by blast

lemma claim_frame:
  assumes "claim_expiry viewer now s st = Inr (b, st')"
  shows "same_rows st st'"
proof -
  define f where "f = (\<lambda>r :: session_row. if sf_id (ss_facts r) = sf_id (ss_facts s) \<and> ss_revoked_at r = None \<and> ss_expiry_audited_at r = None
    then r\<lparr>ss_expiry_audited_at := Some now\<rparr> else r)"
  have "list_all2 same_session (gs_sessions st) (map f (gs_sessions st))"
    by (rule touch_sessions) (simp add: f_def same_session_def)
  moreover have "st' = st \<or> same_tables (st\<lparr>gs_sessions := map f (gs_sessions st)\<rparr>) st'"
    using assms audit_frame unfolding f_def claim_expiry_def Let_def rbind_def by (fastforce split: if_splits sum.splits)
  ultimately show ?thesis by (auto simp: same_rows_def same_tables_def same_grant_refl)
qed

lemma claim_all_frame: "claim_all viewer now ss n st = (m, e, st') \<Longrightarrow> same_rows st st'"
proof (induction ss arbitrary: n st)
  case Nil
  then show ?case by (simp add: same_rows_def same_grant_refl)
next
  case (Cons s ss)
  show ?case
  proof (cases "claim_expiry viewer now s st")
    case (Inl x)
    then show ?thesis using Cons.prems by (simp add: same_rows_def same_grant_refl)
  next
    case (Inr x)
    then show ?thesis using Cons.prems Cons.IH same_rows_trans claim_frame by (cases x) fastforce
  qed
qed

lemma sweep_refines: "table_step lo hi st (snd (snd (audit_expired_sessions viewer clock now limit st)))"
  using claim_all_frame by (cases "audit_expired_sessions viewer clock now limit st")
    (auto simp: audit_expired_sessions_def Let_def same_rows_def intro!: table_step.keep)

end
