(* ===== verification/Grant_Lifecycle.thy ===== *)
theory Grant_Lifecycle
  imports Grant_Machine
begin

text \<open>
  What stays true of grants and their transport sessions over any sequence of operations, proved on
  the machine that the operations refine.
\<close>

section \<open>Runs\<close>

inductive grant_op :: "grant_env \<Rightarrow> grant_store \<Rightarrow> grant_store \<Rightarrow> bool" for env where
  issue: "grant_op env st (snd (issue_access_grant env input st))"
| renew: "grant_op env st (snd (renew_access_grant env raw context st))"
| revoke: "grant_op env st (snd (revoke_access_grant env raw reason st))"
| authorize: "grant_op env st (snd (authorize_grant_operation env raw operation constraints st))"
| transport: "grant_op env st (snd (issue_transport_session env raw operation constraints st))"
| credential: "grant_op env st (snd (resolve_session_credential env (\<lambda>s. s) raw st))"
| sweep: "grant_op env st (snd (snd (audit_expired_sessions viewer clock now limit st)))"
| outside: "list_all2 same_grant (gs_grants st) (gs_grants st') \<Longrightarrow> gs_sessions st' = gs_sessions st \<Longrightarrow> grant_op env st st'"

text \<open>
  Others touch the rest of the store and the marks of use of grants, and \<open>DeleteRepo\<close> removes the
  sessions of a repository (\<open>internal/service/repo.go\<close>, phase 5 of its cascade).
\<close>

definition repository_deleted :: "nat \<Rightarrow> grant_store \<Rightarrow> grant_store \<Rightarrow> bool" where
  "repository_deleted r st st' \<longleftrightarrow> gs_grants st' = gs_grants st
     \<and> gs_sessions st' = filter (\<lambda>s. sf_repository_id (ss_facts s) \<noteq> r) (gs_sessions st)"

inductive reached :: "instant \<Rightarrow> grant_store \<Rightarrow> bool" where
  start: "gs_grants st = [] \<Longrightarrow> gs_sessions st = [] \<Longrightarrow> reached t st"
| deleted: "reached t st \<Longrightarrow> repository_deleted r st st' \<Longrightarrow> reached t st'"
| step: "reached t st \<Longrightarrow> env_ok env \<Longrightarrow> t \<le> ev_clock env 0 \<Longrightarrow> grant_op env st st' \<Longrightarrow> reached (ev_clock env 3) st'"

lemma grant_op_refines:
  assumes "grant_op env st st'" "env_ok env" "distinct_grants st"
  shows "table_step (ev_clock env 0) (ev_clock env 3) st st'"
  using assms
proof cases
  case (outside)
  then show ?thesis by (intro table_step.keep) (simp_all add: same_grant_refl)
qed (use issue_refines renew_refines revoke_refines authorize_refines transport_refines credential_refines sweep_refines in auto)

section \<open>The invariant\<close>

definition grant_ok :: "instant \<Rightarrow> grant_row \<Rightarrow> bool" where
  "grant_ok t g \<longleftrightarrow>
     (let f = gr_facts g
      in gf_created_at f \<le> t \<and> gf_created_at f < gf_expires_at f \<and> gf_expires_at f \<le> gf_created_at f + maximum_grant_ttl
        \<and> (\<exists>e l. gf_effective_operations f = grant_envelope e l) \<and> gf_elevated_binding_revision f = [] \<and> gf_id f \<noteq> []
        \<and> (\<forall>r. gr_revoked_at g = Some r \<longrightarrow> gf_created_at f \<le> r \<and> r \<le> t))"

definition session_ok :: "instant \<Rightarrow> grant_row list \<Rightarrow> session_row \<Rightarrow> bool" where
  "session_ok t gs s \<longleftrightarrow>
     (\<exists>g\<in>set gs. session_born (gf_created_at (gr_facts g)) t (gr_facts g) (s\<lparr>ss_revoked_at := None\<rparr>)
        \<and> (gr_revoked_at g \<noteq> None \<longrightarrow> ss_revoked_at s \<noteq> None)
        \<and> (\<forall>r. ss_revoked_at s = Some r \<longrightarrow> sf_created_at (ss_facts s) \<le> r \<and> r \<le> t))"

definition chain_ok :: "grant_row list \<Rightarrow> bool" where
  "chain_ok gs \<longleftrightarrow>
     (\<forall>g\<in>set gs. gf_renewed_from (gr_facts g) \<noteq> [] \<longrightarrow>
        (\<exists>h\<in>set gs. gf_id (gr_facts h) = gf_renewed_from (gr_facts g) \<and> gr_revoked_at h \<noteq> None \<and> renewal_agrees (gr_facts g) (gr_facts h)))
     \<and> (\<forall>g\<in>set gs. \<forall>h\<in>set gs. gf_renewed_from (gr_facts g) = gf_renewed_from (gr_facts h) \<longrightarrow> gf_renewed_from (gr_facts g) \<noteq> [] \<longrightarrow>
          gf_id (gr_facts g) = gf_id (gr_facts h))"

definition rows_ok :: "instant \<Rightarrow> grant_row list \<Rightarrow> session_row list \<Rightarrow> bool" where
  "rows_ok t gs ss \<longleftrightarrow>
     distinct (map (gf_id \<circ> gr_facts) gs) \<and> distinct (map (gf_credential_hash \<circ> gr_facts) gs) \<and> distinct (map (sf_id \<circ> ss_facts) ss)
     \<and> (\<forall>g\<in>set gs. grant_ok t g) \<and> (\<forall>s\<in>set ss. session_ok t gs s) \<and> chain_ok gs"

text \<open>The invariant does not see the marks of use.\<close>

definition plain_grant :: "grant_row \<Rightarrow> grant_row" where "plain_grant g = g\<lparr>gr_last_used_at := None\<rparr>"

definition plain_session :: "session_row \<Rightarrow> session_row" where
  "plain_session s = s\<lparr>ss_last_used_at := None, ss_expiry_audited_at := None, ss_revoked_by_user_id := None\<rparr>"

lemma plain_fields [simp]:
  "gr_facts (plain_grant g) = gr_facts g" "gr_revoked_at (plain_grant g) = gr_revoked_at g"
  "ss_facts (plain_session s) = ss_facts s" "ss_revoked_at (plain_session s) = ss_revoked_at s"
  by (simp_all add: plain_grant_def plain_session_def)

lemma same_plain: "same_grant a b \<longleftrightarrow> plain_grant a = plain_grant b" "same_session c d \<longleftrightarrow> plain_session c = plain_session d"
   apply (cases a; cases b; simp add: same_grant_def plain_grant_def)
  apply (cases c; cases d; simp add: same_session_def plain_session_def)
  done

lemma same_map_plain:
  "list_all2 same_grant gs gs' \<longleftrightarrow> map plain_grant gs = map plain_grant gs'"
  "list_all2 same_session ss ss' \<longleftrightarrow> map plain_session ss = map plain_session ss'"
  by (auto simp: same_plain list_eq_iff_nth_eq list_all2_conv_all_nth)

lemma rows_ok_plain: "rows_ok t (map plain_grant gs) (map plain_session ss) = rows_ok t gs ss"
proof -
  have "session_born lo hi f ((plain_session s)\<lparr>ss_revoked_at := None\<rparr>) = session_born lo hi f (s\<lparr>ss_revoked_at := None\<rparr>)" for lo hi f s
    by (simp add: session_born_def)
  then have "session_ok t (map plain_grant gs) (plain_session s) = session_ok t gs s" for s by (simp add: session_ok_def)
  moreover have "grant_ok t (plain_grant g) = grant_ok t g" for g by (simp add: grant_ok_def)
  moreover have "chain_ok (map plain_grant gs) = chain_ok gs" by (simp add: chain_ok_def)
  ultimately show ?thesis by (simp add: rows_ok_def comp_def)
qed

lemma rows_ok_same: "list_all2 same_grant gs gs' \<Longrightarrow> list_all2 same_session ss ss' \<Longrightarrow> rows_ok t gs ss = rows_ok t gs' ss'"
  unfolding same_map_plain using rows_ok_plain by metis

lemma grant_ok_later: "grant_ok t g \<Longrightarrow> t \<le> u \<Longrightarrow> grant_ok u g"
  by (fastforce simp: grant_ok_def Let_def)

lemma session_ok_later: "session_ok t gs s \<Longrightarrow> t \<le> u \<Longrightarrow> session_ok u gs s"
  by (fastforce simp: session_ok_def session_born_def Let_def)

lemma rows_ok_later: "rows_ok t gs ss \<Longrightarrow> t \<le> u \<Longrightarrow> rows_ok u gs ss"
  using grant_ok_later session_ok_later by (auto simp: rows_ok_def)

lemma rows_ok_unique: "rows_ok t gs ss \<Longrightarrow> g \<in> set gs \<Longrightarrow> h \<in> set gs \<Longrightarrow> gf_id (gr_facts g) = gf_id (gr_facts h) \<Longrightarrow> g = h"
  unfolding rows_ok_def distinct_map by (metis comp_apply inj_onD)

lemma revoked_fields [simp]:
  "gr_facts (revoked_grant now reason g) = gr_facts g" "gr_revoked_at (revoked_grant now reason g) = Some now"
  by (simp_all add: revoked_grant_def)

lemma revoke_one_facts [simp]: "map (\<lambda>g. f (gr_facts g)) (revoke_one i now reason gs) = map (\<lambda>g. f (gr_facts g)) gs"
  by (simp add: revoke_one_def)

lemma revoke_sessions_facts [simp]: "map (\<lambda>s. f (ss_facts s)) (revoke_sessions i now reason ss) = map (\<lambda>s. f (ss_facts s)) ss"
  by (simp add: revoke_sessions_def)

lemma in_revoke_one: "h \<in> set (revoke_one i now reason gs) \<longleftrightarrow>
    (\<exists>g\<in>set gs. h = (if gf_id (gr_facts g) = i \<and> gr_revoked_at g = None then revoked_grant now reason g else g))"
  by (simp only: revoke_one_def set_map image_iff)

lemma rows_ok_revoke:
  assumes "rows_ok t gs ss" "t \<le> now" "now \<le> u"
  shows "rows_ok u (revoke_one i now reason gs) (revoke_sessions i now why ss)"
proof -
  have ok: "rows_ok u gs ss" using rows_ok_later [OF assms(1)] assms(2,3) by simp
  have "grant_ok u h" if mem: "h \<in> set (revoke_one i now reason gs)" for h
  proof -
    obtain g where g: "g \<in> set gs" "h = (if gf_id (gr_facts g) = i \<and> gr_revoked_at g = None then revoked_grant now reason g else g)"
      using mem unfolding in_revoke_one by blast
    then have "grant_ok t g" "grant_ok u g" using assms(1) ok by (auto simp: rows_ok_def)
    then show ?thesis using g(2) assms(2,3) by (auto simp: grant_ok_def Let_def)
  qed
  moreover have "session_ok u (revoke_one i now reason gs) s'" if mem: "s' \<in> set (revoke_sessions i now why ss)" for s'
  proof -
    obtain s where s: "s \<in> set ss" "s' = (if sf_access_grant_id (ss_facts s) = i \<and> sf_credential_mode (ss_facts s) = transport_mode \<and> ss_revoked_at s = None
       then s\<lparr>ss_revoked_at := Some now, ss_revocation_reason := why\<rparr> else s)"
      using mem unfolding revoke_sessions_def set_map image_iff by blast
    then have "session_ok t gs s" using assms(1) by (auto simp: rows_ok_def)
    then obtain g where g: "g \<in> set gs" "session_born (gf_created_at (gr_facts g)) t (gr_facts g) (s\<lparr>ss_revoked_at := None\<rparr>)"
      "gr_revoked_at g \<noteq> None \<longrightarrow> ss_revoked_at s \<noteq> None" "\<forall>r. ss_revoked_at s = Some r \<longrightarrow> sf_created_at (ss_facts s) \<le> r \<and> r \<le> t"
      by (auto simp: session_ok_def)
    define h where "h = (if gf_id (gr_facts g) = i \<and> gr_revoked_at g = None then revoked_grant now reason g else g)"
    have h: "h \<in> set (revoke_one i now reason gs)" "gr_facts h = gr_facts g"
      using g(1) unfolding in_revoke_one h_def by (blast, simp)
    have b: "session_born (gf_created_at (gr_facts h)) u (gr_facts h) (s'\<lparr>ss_revoked_at := None\<rparr>)"
      using g(2) assms(2,3) h(2) s(2) by (auto simp: session_born_def Let_def)
    have k: "sf_access_grant_id (ss_facts s) = gf_id (gr_facts g)" "sf_credential_mode (ss_facts s) = transport_mode" "sf_created_at (ss_facts s) \<le> t"
      using g(2) by (auto simp: session_born_def Let_def)
    have "gr_revoked_at h \<noteq> None \<longrightarrow> ss_revoked_at s' \<noteq> None" using g(3) k s(2) by (auto simp: h_def)
    moreover have "\<forall>r. ss_revoked_at s' = Some r \<longrightarrow> sf_created_at (ss_facts s') \<le> r \<and> r \<le> u"
      using g(4) k s(2) assms(2,3) by (auto split: if_splits)
    ultimately show ?thesis using h(1) b by (auto simp: session_ok_def)
  qed
  moreover have "chain_ok (revoke_one i now reason gs)"
  proof -
    have c: "chain_ok gs" using ok by (simp add: rows_ok_def)
    show ?thesis unfolding chain_ok_def
    proof (intro conjI ballI impI)
      fix h
      assume "h \<in> set (revoke_one i now reason gs)" "gf_renewed_from (gr_facts h) \<noteq> []"
      then obtain g where g: "g \<in> set gs" "gr_facts h = gr_facts g" unfolding in_revoke_one by (metis revoked_fields(1))
      then obtain k where k: "k \<in> set gs" "gf_id (gr_facts k) = gf_renewed_from (gr_facts h)" "gr_revoked_at k \<noteq> None" "renewal_agrees (gr_facts h) (gr_facts k)"
        using c \<open>gf_renewed_from (gr_facts h) \<noteq> []\<close> unfolding chain_ok_def by metis
      then have "k \<in> set (revoke_one i now reason gs)" unfolding in_revoke_one by metis
      then show "\<exists>k\<in>set (revoke_one i now reason gs). gf_id (gr_facts k) = gf_renewed_from (gr_facts h) \<and> gr_revoked_at k \<noteq> None \<and> renewal_agrees (gr_facts h) (gr_facts k)"
        using k by blast
    next
      fix g h
      assume a: "g \<in> set (revoke_one i now reason gs)" "h \<in> set (revoke_one i now reason gs)"
        "gf_renewed_from (gr_facts g) = gf_renewed_from (gr_facts h)" "gf_renewed_from (gr_facts g) \<noteq> []"
      then obtain g1 h1 where "g1 \<in> set gs" "gr_facts g = gr_facts g1" "h1 \<in> set gs" "gr_facts h = gr_facts h1"
        unfolding in_revoke_one by (metis revoked_fields(1))
      then show "gf_id (gr_facts g) = gf_id (gr_facts h)" using c a(3,4) unfolding chain_ok_def by metis
    qed
  qed
  ultimately show ?thesis using ok by (simp add: rows_ok_def comp_def)
qed

lemma rows_ok_add_grant:
  assumes "rows_ok t gs ss" "fresh_grant g gs" "grant_ok t g"
    and "gf_renewed_from (gr_facts g) \<noteq> [] \<Longrightarrow> \<exists>h\<in>set gs. gf_id (gr_facts h) = gf_renewed_from (gr_facts g) \<and> gr_revoked_at h \<noteq> None
      \<and> renewal_agrees (gr_facts g) (gr_facts h) \<and> (\<forall>k\<in>set gs. gf_renewed_from (gr_facts k) \<noteq> gf_renewed_from (gr_facts g))"
  shows "rows_ok t (gs @ [g]) ss"
proof -
  have "session_ok t (gs @ [g]) s" if "session_ok t gs s" for s using that by (auto simp: session_ok_def)
  moreover have "chain_ok (gs @ [g])"
  proof -
    have c: "chain_ok gs" using assms(1) by (simp add: rows_ok_def)
    have "\<exists>k\<in>set (gs @ [g]). gf_id (gr_facts k) = gf_renewed_from (gr_facts h) \<and> gr_revoked_at k \<noteq> None \<and> renewal_agrees (gr_facts h) (gr_facts k)"
      if mem: "h \<in> set (gs @ [g])" "gf_renewed_from (gr_facts h) \<noteq> []" for h
    proof (cases "h = g")
      case True
      then obtain k where "k \<in> set gs" "gf_id (gr_facts k) = gf_renewed_from (gr_facts h) \<and> gr_revoked_at k \<noteq> None \<and> renewal_agrees (gr_facts h) (gr_facts k)"
        using assms(4) mem(2) by metis
      then show ?thesis by (intro bexI [of _ k]) simp_all
    next
      case False
      then have "h \<in> set gs" using mem(1) by simp
      then obtain k where "k \<in> set gs" "gf_id (gr_facts k) = gf_renewed_from (gr_facts h) \<and> gr_revoked_at k \<noteq> None \<and> renewal_agrees (gr_facts h) (gr_facts k)"
        using c mem(2) unfolding chain_ok_def by metis
      then show ?thesis by (intro bexI [of _ k]) simp_all
    qed
    moreover have alone: "gf_renewed_from (gr_facts k) \<noteq> gf_renewed_from (gr_facts g)" if "gf_renewed_from (gr_facts g) \<noteq> []" "k \<in> set gs" for k
      using assms(4) that by blast
    have "gf_id (gr_facts h) = gf_id (gr_facts k)"
      if "h \<in> set (gs @ [g])" "k \<in> set (gs @ [g])" "gf_renewed_from (gr_facts h) = gf_renewed_from (gr_facts k)" "gf_renewed_from (gr_facts h) \<noteq> []" for h k
    proof -
      have "gf_id (gr_facts h) = gf_id (gr_facts k)" if "h \<in> set gs" "k \<in> set gs"
        using c that \<open>gf_renewed_from (gr_facts h) = gf_renewed_from (gr_facts k)\<close> \<open>gf_renewed_from (gr_facts h) \<noteq> []\<close> unfolding chain_ok_def by metis
      moreover have "h = g \<Longrightarrow> k \<notin> set gs" "k = g \<Longrightarrow> h \<notin> set gs" using alone that(3,4) by metis+
      moreover have "h = g \<or> h \<in> set gs" "k = g \<or> k \<in> set gs" using that(1,2) by simp_all
      ultimately show ?thesis by metis
    qed
    ultimately show ?thesis unfolding chain_ok_def by blast
  qed
  ultimately show ?thesis using assms(1-3) by (auto simp: rows_ok_def fresh_grant_def)
qed

lemma chain_source: "chain_ok gs \<Longrightarrow> g \<in> set gs \<Longrightarrow> gf_renewed_from (gr_facts g) \<noteq> [] \<Longrightarrow>
    \<exists>h\<in>set gs. gf_id (gr_facts h) = gf_renewed_from (gr_facts g) \<and> gr_revoked_at h \<noteq> None \<and> renewal_agrees (gr_facts g) (gr_facts h)"
  by (simp add: chain_ok_def)

lemma born_ok: "grant_born lo hi g \<Longrightarrow> grant_ok hi g"
  by (auto simp: grant_born_def grant_ok_def Let_def)

lemma revoke_again:
  assumes "rows_ok t gs ss" "g \<in> set gs" "gr_revoked_at g \<noteq> None"
  shows "revoke_sessions (gf_id (gr_facts g)) first why ss = ss"
proof -
  have "ss_revoked_at s \<noteq> None" if s: "s \<in> set ss" "sf_access_grant_id (ss_facts s) = gf_id (gr_facts g)" for s
  proof -
    have "session_ok t gs s" using assms(1) s(1) by (simp add: rows_ok_def)
    then obtain h where "h \<in> set gs" "sf_access_grant_id (ss_facts s) = gf_id (gr_facts h)" "gr_revoked_at h \<noteq> None \<longrightarrow> ss_revoked_at s \<noteq> None"
      by (auto simp: session_ok_def session_born_def Let_def)
    then show ?thesis using rows_ok_unique [OF assms(1,2)] s(2) assms(3) by metis
  qed
  then have "\<not> (sf_access_grant_id (ss_facts s) = gf_id (gr_facts g) \<and> sf_credential_mode (ss_facts s) = transport_mode \<and> ss_revoked_at s = None)"
    if "s \<in> set ss" for s using that by blast
  then show ?thesis unfolding revoke_sessions_def by (intro map_idI) (simp only: if_False)
qed

lemma rows_ok_step:
  assumes "table_step lo hi st st'" "rows_ok t (gs_grants st) (gs_sessions st)" "t \<le> lo" "lo \<le> hi"
  shows "rows_ok hi (gs_grants st') (gs_sessions st')"
  using assms(1)
proof cases
  have ok: "rows_ok hi (gs_grants st) (gs_sessions st)" using rows_ok_later [OF assms(2)] assms(3,4) by simp
  {
    case keep
    then show ?thesis using rows_ok_same ok by blast
  next
    case (grant g)
    then show ?thesis using rows_ok_add_grant [OF ok grant(1) born_ok [OF grant(2)]] by simp
  next
    case (renew g old now)
    let ?gs = "revoke_one (gf_id (gr_facts old)) now ''renewed'' (gs_grants st)"
    have r: "rows_ok hi ?gs (gs_sessions st')" unfolding renew(10) using rows_ok_revoke [OF assms(2)] assms(3,4) renew(5,6) by simp
    have live: "gr_revoked_at old = None" using renew(4) by (simp add: grant_live_def)
    have "\<exists>h\<in>set (gs_grants st). gr_facts k = gr_facts h" if "k \<in> set ?gs" for k
      using that unfolding in_revoke_one by (metis revoked_fields(1))
    then have "fresh_grant g ?gs" using renew(1) unfolding fresh_grant_def by metis
    moreover have "\<exists>h\<in>set ?gs. gf_id (gr_facts h) = gf_renewed_from (gr_facts g) \<and> gr_revoked_at h \<noteq> None
      \<and> renewal_agrees (gr_facts g) (gr_facts h) \<and> (\<forall>k\<in>set ?gs. gf_renewed_from (gr_facts k) \<noteq> gf_renewed_from (gr_facts g))"
      if named: "gf_renewed_from (gr_facts g) \<noteq> []"
    proof (intro bexI conjI ballI)
      show "revoked_grant now ''renewed'' old \<in> set ?gs" using renew(3) live unfolding in_revoke_one by (intro bexI [of _ old]) simp_all
      fix k
      assume "k \<in> set ?gs"
      then obtain k1 where k: "k1 \<in> set (gs_grants st)" "gr_facts k = gr_facts k1" unfolding in_revoke_one by (metis revoked_fields(1))
      have c: "chain_ok (gs_grants st)" using assms(2) by (simp add: rows_ok_def)
      show "gf_renewed_from (gr_facts k) \<noteq> gf_renewed_from (gr_facts g)"
      proof
        assume "gf_renewed_from (gr_facts k) = gf_renewed_from (gr_facts g)"
        then obtain o1 where "o1 \<in> set (gs_grants st)" "gf_id (gr_facts o1) = gf_id (gr_facts old)" "gr_revoked_at o1 \<noteq> None"
          using chain_source [OF c k(1)] k(2) named renew(8) by auto
        then show False using rows_ok_unique [OF assms(2)] renew(3) live by metis
      qed
    qed (use renew(7,8) in simp_all)
    ultimately show ?thesis unfolding renew(9) by (intro rows_ok_add_grant [OF r _ born_ok [OF renew(2)]])
  next
    case (revoke g now reason)
    then show ?thesis using rows_ok_revoke [OF assms(2)] assms(3) by simp
  next
    case (again g first)
    then show ?thesis using ok revoke_again [OF ok] by simp
  next
    case (session g now s)
    have "session_born (gf_created_at (gr_facts g)) hi (gr_facts g) (s\<lparr>ss_revoked_at := None\<rparr>)"
    proof -
      have "gf_created_at (gr_facts g) \<le> t" using assms(2) session(1) by (auto simp: rows_ok_def grant_ok_def Let_def)
      then show ?thesis using session(5) assms(3) by (auto simp: session_born_def Let_def)
    qed
    then have "session_ok hi (gs_grants st) s"
      unfolding session_ok_def using session(1,2,5) by (intro bexI [of _ g]) (auto simp: session_born_def grant_live_def Let_def)
    then have "rows_ok hi (gs_grants st) (gs_sessions st @ [s])" using ok session(6) by (simp add: rows_ok_def)
    then show ?thesis using rows_ok_same [OF session(7)] session(8) same_grant_refl by metis
  }
qed

lemma reached_ok: "reached t st \<Longrightarrow> rows_ok t (gs_grants st) (gs_sessions st)"
proof (induction rule: reached.induct)
  case (start st t)
  then show ?case by (simp add: rows_ok_def chain_ok_def)
next
  case (deleted t st r st')
  then show ?case by (auto simp: rows_ok_def repository_deleted_def distinct_map_filter)
next
  case (step t st env st')
  then have "distinct_grants st" by (simp add: rows_ok_def distinct_grants_def)
  then show ?case using rows_ok_step [OF grant_op_refines [OF step(4,2)] step(5,3)] clock_order [OF step(2)] by simp
qed

section \<open>What never changes\<close>

text \<open>What a table promises whose rows only move on in an order and are never removed.\<close>

locale row_order =
  fixes later :: "'r \<Rightarrow> 'r \<Rightarrow> bool"
  assumes refl: "later a a" and trans: "later a b \<Longrightarrow> later b c \<Longrightarrow> later a c"
begin

lemma rows_refl: "list_all2 later xs xs"
  by (simp add: list_all2_same refl)

lemma rows_map: "(\<And>x. later x (f x)) \<Longrightarrow> list_all2 later xs (map f xs)"
  by (simp add: list_all2_map2 list_all2_same)

lemma rows_trans: "list_all2 later xs ys \<Longrightarrow> list_all2 later ys zs \<Longrightarrow> list_all2 later xs zs"
  by (rule list_all2_trans [of later later later]) (rule trans)

lemma table_trans:
  assumes "list_all2 later a ys" "b = ys @ new" "list_all2 later b zs" "c = zs @ tail"
  shows "\<exists>ws rest. c = ws @ rest \<and> list_all2 later a ws"
proof -
  obtain z1 z2 where "zs = z1 @ z2" "list_all2 later ys z1" using assms(2,3) by (auto simp: list_all2_append1)
  then have "c = z1 @ z2 @ tail" "list_all2 later a z1" using rows_trans [OF assms(1)] assms(4) by simp_all
  then show ?thesis by blast
qed

lemma table_row: "list_all2 later a ys \<Longrightarrow> x \<in> set a \<Longrightarrow> \<exists>y\<in>set (ys @ new). later x y"
  by (induction rule: list_all2_induct) auto

end

definition grant_later :: "grant_row \<Rightarrow> grant_row \<Rightarrow> bool" where
  "grant_later a b \<longleftrightarrow> gr_facts b = gr_facts a
     \<and> (gr_revoked_at a \<noteq> None \<longrightarrow> gr_revoked_at b = gr_revoked_at a \<and> gr_revocation_reason b = gr_revocation_reason a)"

definition session_later :: "session_row \<Rightarrow> session_row \<Rightarrow> bool" where
  "session_later a b \<longleftrightarrow> ss_facts b = ss_facts a
     \<and> (ss_revoked_at a \<noteq> None \<longrightarrow> ss_revoked_at b = ss_revoked_at a \<and> ss_revocation_reason b = ss_revocation_reason a)"

interpretation grants: row_order grant_later
  by unfold_locales (auto simp: grant_later_def)

interpretation sessions: row_order session_later
  by unfold_locales (auto simp: session_later_def)

text \<open>The sessions of repositories outside \<open>gone\<close>, and how tables go on over which those are deleted.\<close>

definition kept_sessions :: "nat set \<Rightarrow> grant_store \<Rightarrow> session_row list" where
  "kept_sessions gone st = filter (\<lambda>s. sf_repository_id (ss_facts s) \<notin> gone) (gs_sessions st)"

definition tables_later :: "nat set \<Rightarrow> grant_store \<Rightarrow> grant_store \<Rightarrow> bool" where
  "tables_later gone st st' \<longleftrightarrow>
     (\<exists>gs new. gs_grants st' = gs @ new \<and> list_all2 grant_later (gs_grants st) gs)
     \<and> (\<exists>ss new. kept_sessions gone st' = ss @ new \<and> list_all2 session_later (kept_sessions gone st) ss)"

lemma filter_later: "list_all2 session_later ss ts \<Longrightarrow> (\<And>s. P s \<longleftrightarrow> Q (ss_facts s)) \<Longrightarrow> list_all2 session_later (filter P ss) (filter P ts)"
  by (induction rule: list_all2_induct) (auto simp: session_later_def)

lemma tables_later_intro:
  assumes "gs_grants st' = gs @ new" "list_all2 grant_later (gs_grants st) gs" "gs_sessions st' = ss @ tail" "list_all2 session_later (gs_sessions st) ss"
  shows "tables_later gone st st'"
proof -
  let ?keep = "filter (\<lambda>s. sf_repository_id (ss_facts s) \<notin> gone)"
  have "kept_sessions gone st' = ?keep ss @ ?keep tail" by (simp add: kept_sessions_def assms(3))
  moreover have "list_all2 session_later (kept_sessions gone st) (?keep ss)"
    unfolding kept_sessions_def by (rule filter_later [OF assms(4)]) (rule refl)
  ultimately show ?thesis using assms(1,2) unfolding tables_later_def by blast
qed

lemma deleted_later: "r \<in> gone \<Longrightarrow> repository_deleted r st st' \<Longrightarrow> tables_later gone st st'"
proof -
  assume d: "r \<in> gone" "repository_deleted r st st'"
  then have "kept_sessions gone st' = kept_sessions gone st"
    by (auto simp: kept_sessions_def repository_deleted_def intro: filter_cong)
  then show ?thesis using d grants.rows_refl sessions.rows_refl unfolding tables_later_def repository_deleted_def by (metis append_Nil2)
qed

lemma same_later: "list_all2 same_grant gs hs \<Longrightarrow> list_all2 grant_later gs hs" "list_all2 same_session ss ts \<Longrightarrow> list_all2 session_later ss ts"
  by (auto elim!: list_all2_mono simp: same_grant_def grant_later_def same_session_def session_later_def)

lemma revoke_later: "list_all2 grant_later gs (revoke_one i now reason gs)" "list_all2 session_later ss (revoke_sessions i now why ss)"
  unfolding revoke_one_def revoke_sessions_def
  by (rule grants.rows_map, simp add: grant_later_def revoked_grant_def) (rule sessions.rows_map, simp add: session_later_def)

lemma step_later: "table_step lo hi st st' \<Longrightarrow> tables_later gone st st'"
proof -
  have "table_step lo hi st st' \<Longrightarrow> \<exists>gs new ss tail. gs_grants st' = gs @ new \<and> list_all2 grant_later (gs_grants st) gs
      \<and> gs_sessions st' = ss @ tail \<and> list_all2 session_later (gs_sessions st) ss"
    by (erule table_step.cases) (use same_later grants.rows_refl sessions.rows_refl revoke_later in \<open>metis append_Nil2\<close>)+
  then show "table_step lo hi st st' \<Longrightarrow> tables_later gone st st'" using tables_later_intro by metis
qed

section \<open>Runs\<close>

text \<open>Runs in which the repositories in \<open>gone\<close> may be deleted.\<close>

inductive runs :: "nat set \<Rightarrow> instant \<Rightarrow> grant_store \<Rightarrow> instant \<Rightarrow> grant_store \<Rightarrow> bool" for gone t st where
  none: "runs gone t st t st"
| delete: "runs gone t st u su \<Longrightarrow> r \<in> gone \<Longrightarrow> repository_deleted r su sv \<Longrightarrow> runs gone t st u sv"
| more: "runs gone t st u su \<Longrightarrow> env_ok env \<Longrightarrow> u \<le> ev_clock env 0 \<Longrightarrow> grant_op env su sv \<Longrightarrow> runs gone t st (ev_clock env 3) sv"

lemma runs_reached: "runs gone t st u su \<Longrightarrow> reached t st \<Longrightarrow> reached u su"
  by (induction rule: runs.induct) (auto intro: reached.step reached.deleted)

lemma reached_refines:
  assumes "reached t st" "env_ok env" "grant_op env st st'"
  shows "table_step (ev_clock env 0) (ev_clock env 3) st st'"
proof -
  have "distinct_grants st" using reached_ok [OF assms(1)] by (simp add: rows_ok_def distinct_grants_def)
  then show ?thesis by (rule grant_op_refines [OF assms(3,2)])
qed

lemma tables_later_trans:
  assumes "tables_later gone a b" "tables_later gone b c"
  shows "tables_later gone a c"
proof -
  obtain gs new ss tail where b: "gs_grants b = gs @ new" "list_all2 grant_later (gs_grants a) gs"
    "kept_sessions gone b = ss @ tail" "list_all2 session_later (kept_sessions gone a) ss"
    using assms(1) by (auto simp: tables_later_def)
  obtain hs new' ts tail' where c: "gs_grants c = hs @ new'" "list_all2 grant_later (gs_grants b) hs"
    "kept_sessions gone c = ts @ tail'" "list_all2 session_later (kept_sessions gone b) ts"
    using assms(2) by (auto simp: tables_later_def)
  show ?thesis unfolding tables_later_def
    using grants.table_trans [OF b(2,1) c(2,1)] sessions.table_trans [OF b(4,3) c(4,3)] by blast
qed

lemma tables_later_refl: "tables_later gone a a"
  using grants.rows_refl sessions.rows_refl by (auto simp: tables_later_def)

lemma runs_later:
  assumes "runs gone t st u su" "reached t st"
  shows "tables_later gone st su"
  using assms(1)
proof (induction rule: runs.induct)
  case none
  show ?case by (rule tables_later_refl)
next
  case (delete u su r sv)
  show ?case by (rule tables_later_trans [OF delete.IH deleted_later [OF delete(2,3)]])
next
  case (more u su env sv)
  have "tables_later gone su sv"
    by (rule step_later [OF reached_refines [OF runs_reached [OF more(1) assms(2)] more(2,4)]])
  with more.IH show ?case by (rule tables_later_trans)
qed

lemma later_grant:
  assumes "tables_later gone st su" "g \<in> set (gs_grants st)"
  obtains h where "h \<in> set (gs_grants su)" "gr_facts h = gr_facts g"
    "gr_revoked_at g \<noteq> None \<Longrightarrow> gr_revoked_at h = gr_revoked_at g \<and> gr_revocation_reason h = gr_revocation_reason g"
proof -
  obtain gs new where "gs_grants su = gs @ new" "list_all2 grant_later (gs_grants st) gs" using assms(1) by (auto simp: tables_later_def)
  then obtain h where "h \<in> set (gs_grants su)" "grant_later g h" using grants.table_row [OF _ assms(2)] by metis
  then show ?thesis by (intro that [of h]) (auto simp: grant_later_def)
qed

section \<open>Use of a session\<close>

text \<open>What an acceptance at use has found.\<close>

lemma use_parts:
  assumes "revalidate_delegated_session env meanwhile marker viewer repository_id raw_operation raw_capability actual st = (Inr fresh, st')"
  obtains s i r where
    "marker = Some i" "session_by_id st (trim_space i) = Some s" "fr_session fresh = s" "ss_revoked_at s = None" "ev_clock env 0 < sf_expires_at (ss_facts s)"
    "viewer = Some (sf_principal_user_id (ss_facts s))" "repository_id = sf_repository_id (ss_facts s)"
    "to_lower (trim_space (sf_operation_name (ss_facts s))) = to_lower (trim_space raw_operation)"
    "to_lower (trim_space raw_capability) = [] \<or> has_capability (ss_facts s) (to_lower (trim_space raw_capability))"
    "actual = None \<or> (\<exists>v. actual = Some v \<and> constraints_match (to_lower (trim_space raw_operation)) (sf_operation_constraints (ss_facts s)) v)"
    "first_row (\<lambda>r. re_id r = sf_repository_id (ss_facts s)) (db_repositories (gs_db st)) = Inr r" "\<not> re_disabled r"
    "revalidate_transport_session env meanwhile s (re_full_name r) (to_lower (trim_space raw_operation)) st = (Inr fresh, st')"
proof -
  note use = assms [unfolded revalidate_delegated_session_def Let_def]
  obtain i where i: "marker = Some i" "trim_space i \<noteq> []" using use by (cases marker) (auto split: if_splits)
  obtain v where v: "viewer = Some v" "v \<noteq> 0" using use i by (auto split: option.splits if_splits)
  obtain s where s: "session_by_id st (trim_space i) = Some s" using use i v by (auto split: option.splits if_splits)
  note use2 = use [unfolded i(1) v(1) option.map option.case s]
  obtain p where p: "first_row (\<lambda>u. ur_id u = sf_principal_user_id (ss_facts s)) (db_users (gs_db st)) = Inr p"
    using use2 by (cases "first_row (\<lambda>u. ur_id u = sf_principal_user_id (ss_facts s)) (db_users (gs_db st))") (auto split: if_splits)
  obtain r where r: "first_row (\<lambda>r. re_id r = sf_repository_id (ss_facts s)) (db_repositories (gs_db st)) = Inr r"
    using use2 p by (cases "first_row (\<lambda>r. re_id r = sf_repository_id (ss_facts s)) (db_repositories (gs_db st))") (auto split: if_splits)
  have t: "revalidate_transport_session env meanwhile s (re_full_name r) (to_lower (trim_space raw_operation)) st = (Inr fresh, st')"
    using use2 p r by (auto split: if_splits)
  then have f: "fr_session fresh = s"
    unfolding revalidate_transport_session_def Let_def by (auto split: option.splits sum.splits prod.splits if_splits)
  have c: "ss_revoked_at s = None" "ev_clock env 0 < sf_expires_at (ss_facts s)" "v = sf_principal_user_id (ss_facts s)"
      "repository_id = sf_repository_id (ss_facts s)" "\<not> re_disabled r"
      "to_lower (trim_space (sf_operation_name (ss_facts s))) = to_lower (trim_space raw_operation)"
      "to_lower (trim_space raw_capability) = [] \<or> has_capability (ss_facts s) (to_lower (trim_space raw_capability))"
      "actual = None \<or> (\<exists>v. actual = Some v \<and> constraints_match (to_lower (trim_space raw_operation)) (sf_operation_constraints (ss_facts s)) v)"
    using use2 p r by (auto split: if_splits option.splits)
  show ?thesis using i s f c v r t by (intro that [of i s r]) simp_all
qed

lemma transport_use_parts:
  assumes "revalidate_transport_session env meanwhile s full_name operation st = (Inr fresh, st')"
  obtains g actor executor repository st1 oper where
    "grant_by_id st (sf_access_grant_id (ss_facts s)) = Some g"
    "revalidate_access_grant env (ev_clock env 1) g st = (Inr (actor, executor, repository), st1)"
    "session_fits_grant (ss_facts s) full_name (gr_facts g) actor executor repository operation"
    "lookup_operation operation = Some oper" "st' = meanwhile st1"
    "confirm_commit_boundary env (ev_clock env 2) s (repo_permission_for (op_required oper)) True st' = Inr (fr_permission fresh)"
    "fr_principal fresh = executor" "fr_repository fresh = repository"
proof -
  note use = assms [unfolded revalidate_transport_session_def Let_def]
  obtain g where g: "grant_by_id st (sf_access_grant_id (ss_facts s)) = Some g" using use by (auto split: if_splits option.splits)
  obtain actor executor repository st1 where v: "revalidate_access_grant env (ev_clock env 1) g st = (Inr (actor, executor, repository), st1)"
    using use g by (auto split: if_splits prod.splits sum.splits)
  have fits: "session_fits_grant (ss_facts s) full_name (gr_facts g) actor executor repository operation" using use g v by (auto split: if_splits)
  obtain oper where o: "lookup_operation operation = Some oper" using use g v fits by (auto split: if_splits option.splits)
  obtain permission where p: "current_repo_access (gs_db st1) (sf_repository_id (ss_facts s)) (sf_principal_user_id (ss_facts s)) = Inr permission"
    using use g v fits o by (auto split: if_splits sum.splits)
  have "st' = meanwhile st1" "confirm_commit_boundary env (ev_clock env 2) s (repo_permission_for (op_required oper)) True st' = Inr (fr_permission fresh)"
    "fr_principal fresh = executor" "fr_repository fresh = repository"
    using use g v fits o p by (auto split: if_splits sum.splits)
  then show ?thesis using that g v fits o by blast
qed

lemma boundary_parts:
  assumes "confirm_commit_boundary env boundary s required True st = Inr p"
  obtains s' where
    "session_by_id st (sf_id (ss_facts s)) = Some s'" "ss_revoked_at s' = None" "boundary < sf_expires_at (ss_facts s')" "same_authority (ss_facts s') (ss_facts s)"
    "current_repo_access (gs_db st) (sf_repository_id (ss_facts s)) (sf_principal_user_id (ss_facts s)) = Inr p" "at_least p required"
    "native_grant_revision (ev_sha env) (sf_principal_user_id (ss_facts s)) (sf_repository_id (ss_facts s)) p = sf_native_grant_revision (ss_facts s)"
  using assms unfolding confirm_commit_boundary_def Let_def
  by (cases "session_by_id st (sf_id (ss_facts s))")
    (auto split: if_splits sum.splits)

end
