(* ===== verification/Grant_Workload.thy ===== *)
theory Grant_Workload
  imports Grant_Lifecycle
begin

text \<open>
  A workload from its first grant to the use of a transport session, run on the operations: the
  properties of the lifecycle are applied to it.
\<close>

definition workload_store :: grant_store where
  "workload_store = \<lparr>gs_db = sample_database sample_tables [], gs_redirects = [], gs_identities = [], gs_snapshots = [], gs_grants = [],
     gs_sessions = [], gs_invocations = [], gs_audit = []\<rparr>"

definition workload_locator :: intake_input where
  "workload_locator = \<lparr>ii_source_instance_id = ''multica-1'', ii_workspace_id = ''ws'', ii_agent_id = ''a7'', ii_task_id = ''t'', ii_pull = None\<rparr>"

definition workload_env :: "auth_set option \<Rightarrow> nat \<Rightarrow> string \<Rightarrow> grant_env" where
  "workload_env auth n secret = \<lparr>ev_order = (\<lambda>xs. xs), ev_revision = (\<lambda>v. ''revision''), ev_sha = (\<lambda>s. s), ev_context_digest = (\<lambda>s t. ''digest''),
     ev_auth = auth, ev_ctx = None, ev_fresh_team = 5, ev_fresh_user = 9, ev_uuid = (\<lambda>k. secret @ replicate k CHR ''x''),
     ev_secret = Some (secret @ replicate 40 CHR ''y''), ev_clock = (\<lambda>k. int (10 * n + k) * second)\<rparr>"

lemma workload_env [simp]:
  "ev_order (workload_env auth n secret) = (\<lambda>xs. xs)" "ev_revision (workload_env auth n secret) = (\<lambda>v. ''revision'')"
  "ev_sha (workload_env auth n secret) = (\<lambda>s. s)" "ev_auth (workload_env auth n secret) = auth" "ev_ctx (workload_env auth n secret) = None"
  "ev_fresh_team (workload_env auth n secret) = 5" "ev_uuid (workload_env auth n secret) k = secret @ replicate k CHR ''x''"
  "ev_secret (workload_env auth n secret) = Some (secret @ replicate 40 CHR ''y'')" "ev_clock (workload_env auth n secret) k = int (10 * n + k) * second"
  by (simp_all add: workload_env_def)

lemma workload_env_ok: "secret \<noteq> [] \<Longrightarrow> env_ok (workload_env auth n secret)"
  using map_order_id by (auto simp: env_ok_def workload_env_def mono_def second_def)

definition workload_request :: issue_input where
  "workload_request = \<lparr>is_context = workload_locator, is_repository = ''org/repo'', is_agent_selector = [], is_policy_class = [],
     is_access_role = [], is_additional_operations = [''git.push'']\<rparr>"

definition workload_raw :: string where "workload_raw = grant_token_prefix @ ''a'' @ replicate 40 CHR ''y''"
definition workload_session_raw :: string where "workload_session_raw = session_token_prefix @ ''b'' @ replicate 40 CHR ''y''"

definition workload_auth :: auth_set where "workload_auth = built workload_config"
definition workload_repo :: repo_row where "workload_repo = ts_repositories sample_tables ! 0"
definition workload_human :: user_row where "workload_human = ts_users sample_tables ! 0"

section \<open>The pieces of a run\<close>

text \<open>What does not depend on the configuration is computed without it.\<close>

definition workload_taken :: "(intake_error + intake_result) \<times> grant_store" where
  "workload_taken = intake_for_access_grant (workload_env None 1 ''a'') (10 * second) workload_locator workload_store"

definition workload_intake :: intake_result where
  "workload_intake = (case fst workload_taken of Inr i \<Rightarrow> i)"

definition workload_acted :: "(grant_error + user_row) \<times> grant_store" where
  "workload_acted = resolve_or_create_actor (workload_env None 1 ''a'') (in_source workload_intake) (in_context workload_intake) (snd workload_taken)"

definition workload_agent :: user_row where "workload_agent = (case fst workload_acted of Inr a \<Rightarrow> a)"
definition workload_db :: database where "workload_db = snd (has_repo_access 5 None (gs_db (snd workload_acted)) 7 1)"

lemma workload_taken: "intake_for_access_grant (workload_env auth 1 ''a'') (10 * second) workload_locator workload_store = (Inr workload_intake, snd workload_taken)"
  by code_simp

lemma workload_acted:
  "resolve_or_create_actor (workload_env auth 1 ''a'') (in_source workload_intake) (in_context workload_intake) (snd workload_taken) = (Inr workload_agent, snd workload_acted)"
  by code_simp

lemma workload_access:
  "fst (has_repo_access 5 None (gs_db (snd workload_acted)) 7 1) = Inr RepoPermissionWrite"
  "has_repo_access 5 None workload_db 7 1 = (Inr RepoPermissionWrite, workload_db)"
  "current_repo_access workload_db 7 1 = Inr RepoPermissionWrite"
  by code_simp+

lemma workload_rows:
  "lookup_repo workload_store ''org/repo'' = Inr workload_repo"
  "first_row (\<lambda>u. ur_id u = 1) (db_users (gs_db (snd workload_acted))) = Inr workload_human"
  "first_row (\<lambda>u. ur_id u = 1) (db_users workload_db) = Inr workload_human"
  "first_row (\<lambda>u. ur_id u = 9) (db_users workload_db) = Inr workload_agent"
  "first_row (\<lambda>r. re_id r = 7) (db_repositories workload_db) = Inr workload_repo"
  "first_row (\<lambda>r. re_full_name r = ''org/repo'') (db_repositories workload_db) = Inr workload_repo"
  "active_grant_user workload_human" "active_canonical_actor workload_agent" "ur_id workload_human = 1" "ur_id workload_agent = 9"
  "re_id workload_repo = 7" "re_full_name workload_repo = ''org/repo''" "\<not> re_disabled workload_repo"
  "gs_grants (snd workload_acted) = []" "gs_sessions (snd workload_acted) = []" "gs_invocations (snd workload_acted) = []"
  by code_simp+

lemma workload_authority:
  "\<exists>dflt resource r push oper. resolve_runtime_policy_authority (Some workload_auth) ''multica-1'' ''ws'' default_dynamic_policy_class = Inr dflt
     \<and> tb_principal_id (fst dflt) = 1 \<and> pc_id (snd dflt) = default_dynamic_policy_class
     \<and> resolve_resource_operation (\<lambda>xs. xs) (Some workload_auth)
         \<lparr>rr_target = [], rr_service = ''ags'', rr_repository = ''org/repo'', rr_operation = ''repo.read'', rr_policy_class = []\<rparr> = Inr (resource, r)
     \<and> rp_target resource = ''prod'' \<and> max_session_duration resource = 30 * minute
     \<and> resolve_resource_operation (\<lambda>xs. xs) (Some workload_auth)
         \<lparr>rr_target = ''prod'', rr_service = ''ags'', rr_repository = ''org/repo'', rr_operation = ''git.push'', rr_policy_class = []\<rparr> = Inr (push, oper)
     \<and> max_session_duration push = 30 * minute \<and> op_required oper = PermissionWrite \<and> op_capabilities oper = [''repo:read'', ''repo:write'']"
proof -
  have "case new_set workload_config of Inl _ \<Rightarrow> False
   | Inr s \<Rightarrow> map_option (\<lambda>a. (tb_principal_id (fst a), pc_id (snd a))) (case resolve_runtime_policy_authority (Some s) ''multica-1'' ''ws'' default_dynamic_policy_class of Inl _ \<Rightarrow> None | Inr x \<Rightarrow> Some x)
         = Some (1, default_dynamic_policy_class)
       \<and> (case resolve_resource_operation (\<lambda>xs. xs) (Some s) \<lparr>rr_target = [], rr_service = ''ags'', rr_repository = ''org/repo'', rr_operation = ''repo.read'', rr_policy_class = []\<rparr> of
            Inl _ \<Rightarrow> False | Inr (r, _) \<Rightarrow> rp_target r = ''prod'' \<and> max_session_duration r = 30 * minute)
       \<and> (case resolve_resource_operation (\<lambda>xs. xs) (Some s) \<lparr>rr_target = ''prod'', rr_service = ''ags'', rr_repository = ''org/repo'', rr_operation = ''git.push'', rr_policy_class = []\<rparr> of
            Inl _ \<Rightarrow> False | Inr (r, oper) \<Rightarrow> max_session_duration r = 30 * minute \<and> op_required oper = PermissionWrite \<and> op_capabilities oper = [''repo:read'', ''repo:write''])"
    by code_simp
  then show ?thesis by (auto simp: workload_auth_def built_def split: sum.splits)
qed

section \<open>The evaluation\<close>

lemma workload_evaluate:
  assumes "sr_source_instance_id source = ''multica-1''" "sr_workspace_id source = ''ws''"
    and "has_repo_access 5 None d 7 1 = (Inr RepoPermissionWrite, d2)" "first_row (\<lambda>u. ur_id u = 1) (db_users d) = Inr workload_human"
  obtains a dflt where
    "evaluate_grant (\<lambda>xs. xs) (\<lambda>v. ''revision'') 5 None (Some workload_auth) d actor source workload_repo sel cls role ops = (Inr a, d2)"
    "ga_agent_selector a = fst (select_agent source actor sel)" "ga_requested_operations a = fst (requested_operations ops [])"
    "ga_effective_operations a = grant_envelope (is_pr_merge_role role) (merge_resolves (\<lambda>xs. xs) (Some workload_auth) ''prod'' ''org/repo'')"
    "max_session_duration (ga_resource a) = 30 * minute" "rp_target (ga_resource a) = ''prod''" "ga_elevated a = None" "ga_executor a = workload_human"
    "ga_default a = dflt" "ga_authority_revision a = ''revision''" "ga_effective_policy_classes a = [default_dynamic_policy_class]" "resolve_runtime_policy_authority (Some workload_auth) ''multica-1'' ''ws'' default_dynamic_policy_class = Inr dflt"
    "pc_id (snd dflt) = default_dynamic_policy_class" "tb_principal_id (fst dflt) = 1"
proof -
  obtain dflt resource r where auth: "resolve_runtime_policy_authority (Some workload_auth) ''multica-1'' ''ws'' default_dynamic_policy_class = Inr dflt"
    "tb_principal_id (fst dflt) = 1" "pc_id (snd dflt) = default_dynamic_policy_class"
    "resolve_resource_operation (\<lambda>xs. xs) (Some workload_auth)
         \<lparr>rr_target = [], rr_service = ''ags'', rr_repository = ''org/repo'', rr_operation = ''repo.read'', rr_policy_class = []\<rparr> = Inr (resource, r)"
    "rp_target resource = ''prod''" "max_session_duration resource = 30 * minute"
    using workload_authority by metis
  have "list_all (\<lambda>n. case lookup_operation n of None \<Rightarrow> False | Some oper \<Rightarrow> at_least RepoPermissionWrite (repo_permission_for (op_required oper))) standard_operations"
    by code_simp
  then have covers: "covers_operations 5 None d 7 1 standard_operations = (True, d2)" using assms(3) by (simp add: covers_operations_def)
  have "grant_available (\<lambda>xs. xs) 5 None (Some workload_auth) d source workload_repo"
    using assms covers auth workload_rows by (simp add: grant_available_def)
  then obtain a where a: "fst (evaluate_grant (\<lambda>xs. xs) (\<lambda>v. ''revision'') 5 None (Some workload_auth) d actor source workload_repo sel cls role ops) = Inr a"
    using grant_given [OF map_order_id] by metis
  moreover have "snd (evaluate_grant (\<lambda>xs. xs) (\<lambda>v. ''revision'') 5 None (Some workload_auth) d actor source workload_repo sel cls role ops) = d2"
    using assms covers auth workload_rows by (simp add: evaluate_grant_def)
  ultimately have e: "evaluate_grant (\<lambda>xs. xs) (\<lambda>v. ''revision'') 5 None (Some workload_auth) d actor source workload_repo sel cls role ops = (Inr a, d2)"
    by (metis prod.collapse)
  have g: "grant_scope (\<lambda>xs. xs) (\<lambda>v. ''revision'') (Some workload_auth) actor workload_human source workload_repo dflt sel cls role ops = Inr a"
    using e assms covers auth workload_rows by (simp add: evaluate_grant_def)
  note parts = grant_scope_parts [OF g map_order_id]
  have "ga_resource a = resource" using parts(7) auth(4) workload_rows(12) by auto
  then show ?thesis using that [OF e] parts auth workload_rows(12) by simp
qed

lemma workload_issue_values:
  "trim_char (CHR ''/'') (trim_space (is_repository workload_request)) = ''org/repo''" "\<not> is_secret_shaped ''org/repo''"
  "sr_source_instance_id (in_source workload_intake) = ''multica-1''" "sr_workspace_id (in_source workload_intake) = ''ws''"
  "in_provisional workload_intake" "length workload_raw = 51" "prefix grant_token_prefix workload_raw" "length grant_token_prefix = 10"
  "in_snapshot_id workload_intake = ''a''" "is_context workload_request = workload_locator"
  "get_snapshot (snd workload_acted) ''a'' = Inr (hd (gs_snapshots (snd workload_acted)), in_source workload_intake, empty_context)"
  by code_simp+

text \<open>The grant of the run, and the like with the envelope of a maintainer.\<close>

definition workload_row_as :: "bool \<Rightarrow> grant_row \<Rightarrow> bool" where
  "workload_row_as e g \<longleftrightarrow> gf_id (gr_facts g) = ''ax'' \<and> gf_credential_hash (gr_facts g) = workload_raw \<and> gr_revoked_at g = None
     \<and> gf_created_at (gr_facts g) = 11 * second \<and> gf_expires_at (gr_facts g) = 11 * second + 30 * minute
     \<and> gf_actor_user_id (gr_facts g) = 9 \<and> gf_executor_user_id (gr_facts g) = 1 \<and> gf_snapshot_id (gr_facts g) = ''a''
     \<and> gf_source (gr_facts g) = in_source workload_intake \<and> gf_repository_id (gr_facts g) = 7 \<and> gf_repository_full_name (gr_facts g) = ''org/repo''
     \<and> gf_target_instance (gr_facts g) = ''prod'' \<and> gf_elevated_binding_revision (gr_facts g) = []
     \<and> gf_default_policy_class (gr_facts g) = default_dynamic_policy_class
     \<and> gf_effective_operations (gr_facts g) = grant_envelope e (merge_resolves (\<lambda>xs. xs) (Some workload_auth) ''prod'' ''org/repo'')
     \<and> gf_authority_revision (gr_facts g) = ''revision'' \<and> gf_effective_policy_classes (gr_facts g) = [default_dynamic_policy_class]"

abbreviation workload_row :: "grant_row \<Rightarrow> bool" where "workload_row \<equiv> workload_row_as False"

lemmas workload_row_def = workload_row_as_def [of False]

lemma workload_issue:
  obtains g receipt where
    "issue_access_grant (workload_env (Some workload_auth) 1 ''a'') workload_request workload_store
       = (Inr (workload_raw, receipt), (snd workload_acted)\<lparr>gs_db := workload_db, gs_grants := [g]\<rparr>)"
    "workload_row g"
proof -
  have db: "has_repo_access 5 None (gs_db (snd workload_acted)) 7 1 = (Inr RepoPermissionWrite, workload_db)"
    using workload_access(1) by (simp add: workload_db_def prod_eq_iff)
  have role: "is_access_role workload_request = []" by (simp add: workload_request_def)
  have nomerge: "\<not> is_pr_merge_role []" by code_simp
  obtain a dflt where a:
    "evaluate_grant (\<lambda>xs. xs) (\<lambda>v. ''revision'') 5 None (Some workload_auth) (gs_db (snd workload_acted)) workload_agent (in_source workload_intake) workload_repo
      (is_agent_selector workload_request) (is_policy_class workload_request) [] (is_additional_operations workload_request) = (Inr a, workload_db)"
    "ga_effective_operations a = grant_envelope (is_pr_merge_role []) (merge_resolves (\<lambda>xs. xs) (Some workload_auth) ''prod'' ''org/repo'')"
    "max_session_duration (ga_resource a) = 30 * minute" "rp_target (ga_resource a) = ''prod''" "ga_elevated a = None" "ga_executor a = workload_human"
    "ga_default a = dflt" "ga_authority_revision a = ''revision''" "ga_effective_policy_classes a = [default_dynamic_policy_class]" "pc_id (snd dflt) = default_dynamic_policy_class"
    by (rule workload_evaluate [OF workload_issue_values(3,4) db workload_rows(2)])
  have raw: "grant_token_prefix @ CHR ''a'' # replicate 40 CHR ''y'' = workload_raw" "replicate 1 CHR ''x'' = ''x''" by (simp_all add: workload_raw_def)
  have ttl: "\<not> 30 * minute \<le> 0" "\<not> maximum_grant_ttl < 30 * minute" by (simp_all add: maximum_grant_ttl_def minute_def second_def)
  obtain g0 where b: "build_access_grant (workload_env (Some workload_auth) 1 ''a'') (11 * second) workload_intake workload_repo
      (is_agent_selector workload_request) (is_policy_class workload_request) [] (is_additional_operations workload_request) [] (snd workload_taken)
      = (Inr (g0, workload_raw, workload_agent, workload_human), (snd workload_acted)\<lparr>gs_db := workload_db\<rparr>)"
    "gf_id (gr_facts g0) = ''ax''" "gf_credential_hash (gr_facts g0) = workload_raw" "gr_revoked_at g0 = None"
    "gf_created_at (gr_facts g0) = 11 * second" "gf_expires_at (gr_facts g0) = 11 * second + 30 * minute"
    "gf_actor_user_id (gr_facts g0) = 9" "gf_executor_user_id (gr_facts g0) = 1" "gf_snapshot_id (gr_facts g0) = ''a''"
    "gf_source (gr_facts g0) = in_source workload_intake" "gf_repository_id (gr_facts g0) = 7" "gf_repository_full_name (gr_facts g0) = ''org/repo''"
    "gf_target_instance (gr_facts g0) = ''prod''" "gf_elevated_binding_revision (gr_facts g0) = []" "gf_default_policy_class (gr_facts g0) = default_dynamic_policy_class"
    "gf_effective_operations (gr_facts g0) = grant_envelope False (merge_resolves (\<lambda>xs. xs) (Some workload_auth) ''prod'' ''org/repo'')"
    "gf_renewed_from (gr_facts g0) = []" "gf_authority_revision (gr_facts g0) = ''revision''"
    "gf_effective_policy_classes (gr_facts g0) = [default_dynamic_policy_class]"
    using nomerge ttl workload_issue_values(9) workload_rows(9-12)
    by (simp add: build_access_grant_def workload_acted a new_grant_credential_def raw Let_def del: One_nat_def)
  have c: "ev_clock (workload_env (Some workload_auth) 1 ''a'') 0 = 10 * second" "ev_clock (workload_env (Some workload_auth) 1 ''a'') 1 = 11 * second" by simp_all
  define g where "g = mark_provisional True g0"
  have "insert_grant g ((snd workload_acted)\<lparr>gs_db := workload_db\<rparr>) = Some ((snd workload_acted)\<lparr>gs_db := workload_db, gs_grants := [g]\<rparr>)"
    by (simp add: insert_grant_def workload_rows)
  then have "\<exists>receipt. issue_access_grant (workload_env (Some workload_auth) 1 ''a'') workload_request workload_store
       = (Inr (workload_raw, receipt), (snd workload_acted)\<lparr>gs_db := workload_db, gs_grants := [g]\<rparr>)"
    unfolding issue_access_grant_def Let_def
    by (simp add: workload_issue_values workload_rows role c workload_taken b(1) flip: g_def del: workload_env One_nat_def)
  then show ?thesis using that b(2-) by (auto simp: g_def mark_provisional_def workload_row_def)
qed

section \<open>The session\<close>

text \<open>The states of the run from the grant on, as far as the operations look at them.\<close>

definition workload_state :: "grant_row list \<Rightarrow> session_row list \<Rightarrow> grant_store \<Rightarrow> bool" where
  "workload_state gs ss st \<longleftrightarrow> gs_db st = workload_db \<and> gs_redirects st = [] \<and> gs_identities st = gs_identities (snd workload_acted)
     \<and> gs_snapshots st = gs_snapshots (snd workload_acted) \<and> gs_grants st = gs \<and> gs_sessions st = ss"

lemma workload_values2:
  "find (\<lambda>i. id_provider i = canonical_actor_provider \<and> id_subject i = canonical_actor_subject (\<lambda>s. s) (sr_source_instance_id (in_source workload_intake)) (sr_agent_id (in_source workload_intake)))
     (gs_identities (snd workload_acted)) = Some \<lparr>id_provider = canonical_actor_provider, id_subject = ''multica-1/a7'', id_user_id = 9\<rparr>"
  "case find (\<lambda>r. sn_id r = ''a'') (gs_snapshots (snd workload_acted)) of None \<Rightarrow> False
     | Some n \<Rightarrow> sn_source n = Some (in_source workload_intake) \<and> sn_context n = Some empty_context"
  "\<not> is_pr_merge_role []"
  by code_simp+

lemma envelope_merge: "contains_operation (grant_envelope e l) ''pr.merge'' \<longleftrightarrow> e \<and> l"
proof -
  have "''pr.merge'' \<notin> set standard_operations" by code_simp
  moreover have "sorted (grant_envelope e l)" unfolding grant_envelope_def by simp
  ultimately show ?thesis by (simp add: contains_operation_def sorted_member_iff grant_envelope_def)
qed

lemma workload_revalidate:
  assumes "workload_state gs ss st" "workload_row_as e g" "now < 11 * second + 30 * minute"
  shows "revalidate_access_grant (workload_env (Some workload_auth) n secret) now g st = (Inr (workload_agent, workload_human, workload_repo), st)"
proof -
  note row = assms(2) [unfolded workload_row_as_def]
  note state = assms(1) [unfolded workload_state_def]
  have live: "grant_live g now" using assms(2,3) by (simp add: grant_live_def workload_row_as_def)
  define role where "role = grant_renewal_role (gr_facts g)"
  have "is_pr_merge_role access_role_maintainer" by code_simp
  then have role: "grant_envelope (is_pr_merge_role role) listed = grant_envelope e listed"
    if "listed = merge_resolves (\<lambda>xs. xs) (Some workload_auth) ''prod'' ''org/repo''" for listed
    using row that envelope_merge [of e listed] workload_values2(3) by (auto simp: grant_renewal_role_def role_def grant_envelope_def)
  obtain sn where sn: "find (\<lambda>r. sn_id r = ''a'') (gs_snapshots (snd workload_acted)) = Some sn" "sn_source sn = Some (in_source workload_intake)" "sn_context sn = Some empty_context"
    using workload_values2(2) by (auto split: option.splits)
  obtain a where a: "evaluate_grant (\<lambda>xs. xs) (\<lambda>v. ''revision'') 5 None (Some workload_auth) workload_db workload_agent (in_source workload_intake) workload_repo
      (gf_agent_selector (gr_facts g)) (gf_requested_policy_class (gr_facts g)) role (gf_requested_operations (gr_facts g)) = (Inr a, workload_db)"
    "ga_effective_operations a = grant_envelope (is_pr_merge_role role) (merge_resolves (\<lambda>xs. xs) (Some workload_auth) ''prod'' ''org/repo'')" "ga_executor a = workload_human"
    by (rule workload_evaluate [OF workload_issue_values(3,4) workload_access(2) workload_rows(3)])
  have current: "current_actor (workload_env (Some workload_auth) n secret) (gr_facts g) st = Inr (workload_agent, workload_human)"
    using row state by (simp add: current_actor_def workload_rows workload_values2 del: One_nat_def)
  have lookup: "lookup_repo st ''org/repo'' = Inr workload_repo" using state by (simp add: lookup_repo_def workload_rows)
  have snapshot: "get_snapshot st ''a'' = Inr (sn, in_source workload_intake, empty_context)" using state sn by (simp add: get_snapshot_def)
  show ?thesis using row state live
    by (simp add: revalidate_access_grant_def current lookup snapshot role a workload_rows flip: role_def)
qed

lemma workload_transport_values:
  "to_lower (trim_space ''git.push'') = ''git.push''" "''git.push'' \<notin> set not_generic_transport" "canonical_name ''git.push'' = ''git.push''"
  "is_standard ''git.push''" "normalize_json ''git.push'' [] = Some []" "operation_capabilities [] [''repo:read'', ''repo:write''] = Some [''repo:read'', ''repo:write'']"
  "sub_time (11 * second + 30 * minute) (22 * second) = 30 * minute - 11 * second" "delegator_snapshot workload_db workload_agent = Inr None"
  "at_least RepoPermissionWrite (repo_permission_for PermissionWrite)" "default_dynamic_policy_class \<noteq> []"
  "min maximum_transport_ttl (30 * minute - 11 * second) = maximum_transport_ttl" "maximum_transport_ttl < 30 * minute" "11 * second < 30 * minute"
  "23 * second < 11 * second + 30 * minute" "21 * second < 11 * second + 30 * minute" "20 * second < 11 * second + 30 * minute"
  by code_simp+

lemma workload_active:
  assumes "workload_state [g] ss st" "workload_row_as e g" "now < 11 * second + 30 * minute"
  shows "resolve_active_grant (workload_env (Some workload_auth) n secret) now workload_raw st = Inr (g, workload_agent, workload_human)"
  using assms workload_issue_values(6-8)
  by (simp add: resolve_active_grant_def load_grant_credential_def workload_state_def workload_row_as_def workload_rows grant_live_def rbind_def del: One_nat_def)

text \<open>The session of the run.\<close>

definition workload_session :: "session_row \<Rightarrow> bool" where
  "workload_session s \<longleftrightarrow> sf_id (ss_facts s) = ''bx'' \<and> sf_credential_hash (ss_facts s) = workload_session_raw \<and> ss_revoked_at s = None \<and> ss_expiry_audited_at s = None
     \<and> sf_access_grant_id (ss_facts s) = ''ax'' \<and> sf_operation_name (ss_facts s) = ''git.push''
     \<and> sf_created_at (ss_facts s) = 22 * second \<and> sf_expires_at (ss_facts s) = 22 * second + 15 * minute
     \<and> sf_credential_mode (ss_facts s) = transport_mode \<and> sf_principal_user_id (ss_facts s) = 1 \<and> sf_repository_id (ss_facts s) = 7
     \<and> merge_fields_empty (sf_merge (ss_facts s)) \<and> sf_operation_constraints (ss_facts s) = [] \<and> sf_actor_user_id (ss_facts s) = 9
     \<and> sf_granted_capabilities (ss_facts s) = [''repo:read'', ''repo:write'']
     \<and> sf_native_grant_revision (ss_facts s) = native_grant_revision (\<lambda>s. s) 1 7 RepoPermissionWrite"

definition session_of_row :: "grant_row \<Rightarrow> session_row \<Rightarrow> bool" where
  "session_of_row g s \<longleftrightarrow> sf_target_instance (ss_facts s) = gf_target_instance (gr_facts g)
     \<and> sf_issuer_workspace_id (ss_facts s) = sr_workspace_id (gf_source (gr_facts g)) \<and> sf_external_agent_id (ss_facts s) = sr_agent_id (gf_source (gr_facts g))
     \<and> sf_external_task_id (ss_facts s) = sr_task_id (gf_source (gr_facts g)) \<and> sf_external_run_id (ss_facts s) = sr_run_id (gf_source (gr_facts g))
     \<and> sf_access_grant_revision (ss_facts s) = gf_authority_revision (gr_facts g) \<and> sf_trust_revision (ss_facts s) = gf_authority_revision (gr_facts g)
     \<and> sf_resource_policy_revision (ss_facts s) = gf_resource_policy_revision (gr_facts g)"

lemma workload_transport:
  assumes "workload_state [g] [] st" "workload_row g" "gs_invocations st = []"
  obtains result s st' where
    "issue_transport_session (workload_env (Some workload_auth) 2 ''b'') workload_raw ''git.push'' [] st = (Inr result, st')"
    "workload_state [g\<lparr>gr_last_used_at := Some (23 * second)\<rparr>] [s] st'" "workload_session s" "session_of_row g s"
proof -
  define env where "env = workload_env (Some workload_auth) 2 ''b''"
  note row = assms(2) [unfolded workload_row_def]
  note state = assms(1) [unfolded workload_state_def]
  obtain dflt push oper where auth: "resolve_runtime_policy_authority (Some workload_auth) ''multica-1'' ''ws'' default_dynamic_policy_class = Inr dflt"
    "tb_principal_id (fst dflt) = 1"
    "resolve_resource_operation (\<lambda>xs. xs) (Some workload_auth)
         \<lparr>rr_target = ''prod'', rr_service = ''ags'', rr_repository = ''org/repo'', rr_operation = ''git.push'', rr_policy_class = []\<rparr> = Inr (push, oper)"
    "max_session_duration push = 30 * minute" "op_required oper = PermissionWrite" "op_capabilities oper = [''repo:read'', ''repo:write'']"
    using workload_authority by metis
  obtain sn where sn: "find (\<lambda>r. sn_id r = ''a'') (gs_snapshots (snd workload_acted)) = Some sn" "sn_source sn = Some (in_source workload_intake)" "sn_context sn = Some empty_context"
    using workload_values2(2) by (auto split: option.splits)
  have snapshot: "get_snapshot st ''a'' = Inr (sn, in_source workload_intake, empty_context)" using state sn by (simp add: get_snapshot_def)
  have authority: "transport_authority env (gr_facts g) (in_source workload_intake) (ur_id workload_human) True = Inr dflt"
    using row auth workload_issue_values(3,4) workload_rows(9) by (simp add: transport_authority_def env_def Let_def)
  have operation: "transport_operation env (gr_facts g) ''git.push'' True = Inr (30 * minute, oper)"
    using row auth by (simp add: transport_operation_def env_def)
  define session where "session = transport_session_row env (gr_facts g) workload_agent workload_human (in_source workload_intake) empty_context dflt RepoPermissionWrite None
     ''git.push'' [] [''repo:read'', ''repo:write''] (workload_session_raw, ''sha256:'' @ take 16 workload_session_raw) (22 * second) (22 * second + maximum_transport_ttl)"
  define invocation where "invocation = (new_invocation ''b'' (gr_facts g) ''git.push'' [] (22 * second))\<lparr>iv_actor_user_id := ur_id workload_agent, iv_executor_user_id := ur_id workload_human\<rparr>"
  have now: "ev_clock env 0 = 20 * second" "ev_clock env 1 = 21 * second" "ev_clock env 2 = 22 * second" "ev_clock env 3 = 23 * second"
    "ev_uuid env 0 = ''b''" "ev_fresh_team env = 5" "ev_ctx env = None" "ev_auth env \<noteq> None"
    by (simp_all add: env_def)
  have credential: "new_session_credential env = Some (workload_session_raw, workload_session_raw, ''sha256:'' @ take 16 workload_session_raw)"
    by (simp add: new_session_credential_def env_def workload_session_raw_def Let_def)
  have redacted: "sf_principal_user_id (ss_facts (redact_session session)) = 1" "sf_repository_id (ss_facts (redact_session session)) = 7"
    using row workload_rows(9) by (simp_all add: session_def transport_session_row_def redact_session_def redact_facts_def)
  obtain st' where t: "transport_transaction (23 * second) (gr_facts g) workload_human invocation session st = Inr st'"
    "workload_state [g\<lparr>gr_last_used_at := Some (23 * second)\<rparr>] [session] st'"
    using row state assms(2,3) redacted workload_transport_values(14) workload_rows
    by (simp add: transport_transaction_def grant_by_id_def grant_live_def insert_invocation_def insert_session_def log_session_audit_def update_grants_def
        Let_def rbind_def workload_state_def)
  have stdb: "st\<lparr>gs_db := workload_db\<rparr> = st" using state by simp
  have same: "gf_source (gr_facts g) = in_source workload_intake" "gf_snapshot_id (gr_facts g) = ''a''" "gf_repository_id (gr_facts g) = 7"
    "gf_expires_at (gr_facts g) = 11 * second + 30 * minute" "gs_db st = workload_db"
    using row state by simp_all
  have access: "has_repo_access 5 None workload_db 7 (ur_id workload_human) = (Inr RepoPermissionWrite, workload_db)"
    using workload_access(2) workload_rows(9) by simp
  have ttl: "\<not> 30 * minute \<le> 0" "\<not> 30 * minute \<le> 11 * second" by (simp_all add: minute_def second_def)
  have "\<exists>result. derive_transport env g workload_agent workload_human ''git.push'' True [] st = (Inr result, st')"
    using t(1) [unfolded session_def invocation_def] unfolding derive_transport_def Let_def
    by (simp add: same snapshot now authority operation access auth credential workload_transport_values ttl stdb)
  then obtain result where r: "derive_transport env g workload_agent workload_human ''git.push'' True [] st = (Inr result, st')" by blast
  have i: "issue_transport_session env workload_raw ''git.push'' [] st = (Inr result, st')"
    using workload_active [OF assms(1,2) workload_transport_values(16), where n = 2 and secret = "''b''", folded env_def]
      workload_revalidate [OF assms(1,2) workload_transport_values(15), where n = 2 and secret = "''b''", folded env_def] r
    by (simp add: issue_transport_session_def now workload_transport_values Let_def del: One_nat_def)
  have "replicate 1 CHR ''x'' = ''x''" by simp
  then have "workload_session session"
    using row workload_rows(9,10) by (simp add: workload_session_def session_def transport_session_row_def env_def maximum_transport_ttl_def merge_fields_empty_def del: One_nat_def)
  moreover have "session_of_row g session"
    using row by (simp add: session_of_row_def session_def transport_session_row_def)
  ultimately show ?thesis using that i t(2) unfolding env_def by blast
qed

section \<open>Its use\<close>

lemma workload_use_values:
  "db_users workload_db \<noteq> None" "db_repositories workload_db \<noteq> None" "trim_space transport_mode = transport_mode"
  "trim_space ''bx'' = ''bx''" "lookup_operation ''git.push'' \<noteq> None" "constraints_valid ''git.push'' []" "to_lower [] = []" "trim_space [] = []"
  "repo_permission_for (op_required (the (lookup_operation ''git.push''))) = RepoPermissionWrite" "at_least RepoPermissionWrite RepoPermissionWrite"
  "is_user_status_active (ur_status workload_human)" "contains_operation (grant_envelope False l) ''git.push''"
proof -
  have "''git.push'' \<in> set standard_operations" by code_simp
  moreover have "sorted (grant_envelope False l)" unfolding grant_envelope_def by simp
  ultimately show "contains_operation (grant_envelope False l) ''git.push''" by (simp add: contains_operation_def sorted_member_iff grant_envelope_def)
qed code_simp+

lemma workload_use:
  assumes "workload_state [g] [s] st" "workload_row g" "workload_session s" "session_of_row g s"
  obtains fresh where
    "revalidate_delegated_session (workload_env (Some workload_auth) 3 ''c'') (\<lambda>s. s) (Some ''bx'') (Some 1) 7 ''git.push'' [] None st = (Inr fresh, st)"
    "fr_session fresh = s" "fr_permission fresh = RepoPermissionWrite"
proof -
  define env where "env = workload_env (Some workload_auth) 3 ''c''"
  note row = assms(2) [unfolded workload_row_def]
  note state = assms(1) [unfolded workload_state_def]
  note session = assms(3) [unfolded workload_session_def]
  have now: "ev_clock env 0 = 30 * second" "ev_clock env 1 = 31 * second" "ev_clock env 2 = 32 * second" "ev_sha env = (\<lambda>s. s)"
    "30 * second < 22 * second + 15 * minute" "31 * second < 11 * second + 30 * minute" "32 * second < 22 * second + 15 * minute"
    by (simp_all add: env_def second_def minute_def)
  obtain oper where oper: "lookup_operation ''git.push'' = Some oper" "repo_permission_for (op_required oper) = RepoPermissionWrite"
    using workload_use_values(5,9) by auto
  have found: "session_by_id st ''bx'' = Some s" "grant_by_id st ''ax'' = Some g"
    using row state session by (simp_all add: session_by_id_def grant_by_id_def)
  have valid: "revalidate_access_grant env (31 * second) g st = (Inr (workload_agent, workload_human, workload_repo), st)"
    using workload_revalidate [OF assms(1,2) now(6)] unfolding env_def by blast
  have fits: "session_fits_grant (ss_facts s) ''org/repo'' (gr_facts g) workload_agent workload_human workload_repo ''git.push''"
    using row session assms(4) workload_rows workload_use_values(12)
    by (simp add: session_fits_grant_def session_of_row_def second_def minute_def del: One_nat_def)
  have boundary: "confirm_commit_boundary env (32 * second) s RepoPermissionWrite True st = Inr RepoPermissionWrite"
    using session state found(1) now workload_access(3) workload_use_values(10)
    by (simp add: confirm_commit_boundary_def same_authority_def Let_def del: One_nat_def)
  have t: "revalidate_transport_session env (\<lambda>s. s) s ''org/repo'' ''git.push'' st
      = (Inr \<lparr>fr_session = s, fr_principal = workload_human, fr_repository = workload_repo, fr_permission = RepoPermissionWrite\<rparr>, st)"
    using session assms(4) row state
    by (simp add: revalidate_transport_session_def session_of_row_def found valid now fits oper boundary workload_access(3) workload_use_values(10) Let_def del: One_nat_def)
  have "revalidate_delegated_session env (\<lambda>s. s) (Some ''bx'') (Some 1) 7 ''git.push'' [] None st
      = (Inr \<lparr>fr_session = s, fr_principal = workload_human, fr_repository = workload_repo, fr_permission = RepoPermissionWrite\<rparr>, st)"
    using session state workload_rows
    by (simp add: revalidate_delegated_session_def t found now workload_use_values workload_transport_values(1) workload_rows Let_def del: One_nat_def)
  then show ?thesis using that unfolding env_def by simp
qed

section \<open>The run\<close>

definition workload_issued :: grant_store where
  "workload_issued = snd (issue_access_grant (workload_env (Some workload_auth) 1 ''a'') workload_request workload_store)"

definition workload_sessioned :: grant_store where
  "workload_sessioned = snd (issue_transport_session (workload_env (Some workload_auth) 2 ''b'') workload_raw ''git.push'' [] workload_issued)"

lemma workload_first:
  obtains g where "reached (13 * second) workload_issued" "workload_state [g] [] workload_issued" "gs_invocations workload_issued = []" "workload_row g"
proof -
  obtain g receipt where i: "issue_access_grant (workload_env (Some workload_auth) 1 ''a'') workload_request workload_store
       = (Inr (workload_raw, receipt), (snd workload_acted)\<lparr>gs_db := workload_db, gs_grants := [g]\<rparr>)" "workload_row g"
    by (rule workload_issue)
  have "gs_redirects (snd workload_acted) = []" by code_simp
  then have st: "workload_state [g] [] workload_issued" "gs_invocations workload_issued = []"
    using workload_rows(14-16) by (simp_all add: workload_state_def workload_issued_def i del: One_nat_def)
  have "reached (10 * second) workload_store" by (rule reached.start) (simp_all add: workload_store_def)
  from reached.step [OF this workload_env_ok _ grant_op.issue, of "''a''" "Some workload_auth" 1 workload_request]
  have "reached (13 * second) workload_issued" by (simp add: workload_issued_def)
  then show ?thesis by (rule that [OF _ st i(2)])
qed

lemma workload_run:
  obtains g s where "reached (23 * second) workload_sessioned" "workload_state [g] [s] workload_sessioned" "workload_row g" "workload_session s" "session_of_row g s"
proof -
  obtain g where i: "reached (13 * second) workload_issued" "workload_state [g] [] workload_issued" "gs_invocations workload_issued = []" "workload_row g"
    by (rule workload_first)
  obtain result s st' where t: "issue_transport_session (workload_env (Some workload_auth) 2 ''b'') workload_raw ''git.push'' [] workload_issued = (Inr result, st')"
    "workload_state [g\<lparr>gr_last_used_at := Some (23 * second)\<rparr>] [s] st'" "workload_session s" "session_of_row g s"
    by (rule workload_transport [OF i(2,4,3)])
  from reached.step [OF i(1) workload_env_ok _ grant_op.transport, of "''b''" "Some workload_auth" 2 workload_raw "''git.push''" "[]"]
  have "reached (23 * second) workload_sessioned" by (simp add: workload_sessioned_def second_def)
  then show ?thesis
    using t i(4) by (intro that [of "g\<lparr>gr_last_used_at := Some (23 * second)\<rparr>" s]) (simp_all add: workload_sessioned_def workload_row_def session_of_row_def del: One_nat_def)
qed

end
