(* ===== verification/Grant_Properties.thy ===== *)
theory Grant_Properties
  imports Grant_Workload
begin

text \<open>
  The properties of grants and their transport sessions, over any sequence of operations, with the
  workload of \<open>Grant_Workload\<close> as witness.
\<close>

section \<open>The lifecycle\<close>

lemma envelope_standard:
  assumes "canonical_name x = x" "is_standard x"
  shows "contains_operation (grant_envelope e l) x"
proof -
  have "x \<in> set standard_operations" using assms advertised_iff [of x RiskStandard] by (simp add: standard_operations_def is_standard_def)
  moreover have "sorted (grant_envelope e l)" unfolding grant_envelope_def by simp
  ultimately show ?thesis by (simp add: contains_operation_def sorted_member_iff grant_envelope_def)
qed

text \<open>
  C7. Every operation refines the machine: whatever it is asked, and whether it succeeds or is
  refused, an operation on a reachable store leaves the grants and transport sessions as one step
  of \<open>table_step\<close> does, which only appends a fresh grant, a renewed grant together with the
  revocation of the old one, or a session of a live grant, or revokes a grant together with its
  sessions, between the first and the last reading of the clock.
\<close>

theorem operations_refine:
  assumes "reached t st" "env_ok env" "grant_op env st st'"
  shows "table_step (ev_clock env 0) (ev_clock env 3) st st'"
  by (rule reached_refines [OF assms])

theorem operations_refine_witness:
  "table_step (40 * second) (43 * second) workload_sessioned
     (snd (revoke_access_grant (workload_env (Some workload_auth) 4 ''c'') workload_raw [] workload_sessioned))"
proof -
  obtain g s where "reached (23 * second) workload_sessioned" by (rule workload_run)
  from operations_refine [OF this workload_env_ok grant_op.revoke, of "''c''" "Some workload_auth" 4 workload_raw "[]"] show ?thesis by simp
qed

text \<open>
  C6. A transport session never exceeds its grant: in every reachable store it belongs to exactly one
  grant, has its actor, executor, repository, target and authority revision, is for one of the
  operations of the grant and never for one that must not be transported generically, ends with
  the grant and after fifteen minutes, and is revoked when the grant is, however the grant came to
  be revoked.
\<close>

theorem sessions_within_grants:
  assumes "reached t st" "s \<in> set (gs_sessions st)"
  shows "\<exists>g\<in>set (gs_grants st). (\<forall>h\<in>set (gs_grants st). gf_id (gr_facts h) = sf_access_grant_id (ss_facts s) \<longleftrightarrow> h = g)
    \<and> sf_actor_user_id (ss_facts s) = gf_actor_user_id (gr_facts g) \<and> sf_principal_user_id (ss_facts s) = gf_executor_user_id (gr_facts g)
    \<and> sf_repository_id (ss_facts s) = gf_repository_id (gr_facts g) \<and> sf_target_instance (ss_facts s) = gf_target_instance (gr_facts g)
    \<and> sf_access_grant_revision (ss_facts s) = gf_authority_revision (gr_facts g)
    \<and> contains_operation (gf_effective_operations (gr_facts g)) (sf_operation_name (ss_facts s))
    \<and> sf_operation_name (ss_facts s) \<notin> set not_generic_transport
    \<and> sf_expires_at (ss_facts s) \<le> gf_expires_at (gr_facts g) \<and> sf_expires_at (ss_facts s) \<le> sf_created_at (ss_facts s) + 15 * minute
    \<and> (gr_revoked_at g \<noteq> None \<longrightarrow> ss_revoked_at s \<noteq> None)"
proof -
  have ok: "rows_ok t (gs_grants st) (gs_sessions st)" by (rule reached_ok [OF assms(1)])
  then have "session_ok t (gs_grants st) s" using assms(2) by (simp add: rows_ok_def)
  then obtain g where g: "g \<in> set (gs_grants st)" "session_born (gf_created_at (gr_facts g)) t (gr_facts g) (s\<lparr>ss_revoked_at := None\<rparr>)"
    "gr_revoked_at g \<noteq> None \<longrightarrow> ss_revoked_at s \<noteq> None"
    by (auto simp: session_ok_def)
  then have id: "gf_id (gr_facts g) = sf_access_grant_id (ss_facts s)" by (simp add: session_born_def Let_def)
  have "(gf_id (gr_facts h) = sf_access_grant_id (ss_facts s)) = (h = g)" if "h \<in> set (gs_grants st)" for h
    using rows_ok_unique [OF ok that g(1)] id by auto
  moreover have "contains_operation (gf_effective_operations (gr_facts g)) (sf_operation_name (ss_facts s))"
  proof -
    obtain e l where e: "gf_effective_operations (gr_facts g) = grant_envelope e l" using ok g(1) by (auto simp: rows_ok_def grant_ok_def Let_def)
    have "canonical_name (sf_operation_name (ss_facts s)) = sf_operation_name (ss_facts s)"
      "is_standard (sf_operation_name (ss_facts s)) \<or> contains_operation (gf_effective_operations (gr_facts g)) (sf_operation_name (ss_facts s))"
      using g(2) by (simp_all add: session_born_def Let_def)
    then show ?thesis using envelope_standard e by metis
  qed
  ultimately show ?thesis using g by (intro bexI [OF _ g(1)]) (auto simp: session_born_def maximum_transport_ttl_def Let_def)
qed

theorem sessions_within_grants_witness:
  "\<exists>s\<in>set (gs_sessions workload_sessioned). \<exists>g\<in>set (gs_grants workload_sessioned).
     sf_operation_name (ss_facts s) = ''git.push'' \<and> sf_expires_at (ss_facts s) \<le> gf_expires_at (gr_facts g)"
proof -
  obtain g s where r: "reached (23 * second) workload_sessioned" "workload_state [g] [s] workload_sessioned" "workload_session s" by (rule workload_run)
  then have s: "s \<in> set (gs_sessions workload_sessioned)" "sf_operation_name (ss_facts s) = ''git.push''" by (simp_all add: workload_state_def workload_session_def)
  from sessions_within_grants [OF r(1) s(1)] s show ?thesis by blast
qed

text \<open>
  C22. Stored sessions are well typed: the operation of every session is one of the default
  operations, its constraints are in the normal form of that operation's schema, it has at least
  one capability and only known ones, no field of a merge delegation is set, and it was created
  before it expires.
\<close>

theorem stored_sessions_typed:
  assumes "reached t st" "s \<in> set (gs_sessions st)"
  shows "is_default_operation (sf_operation_name (ss_facts s))
    \<and> normalize_stored (sf_operation_name (ss_facts s)) (sf_operation_constraints (ss_facts s)) = Some (sf_operation_constraints (ss_facts s))
    \<and> sf_granted_capabilities (ss_facts s) \<noteq> [] \<and> set (sf_granted_capabilities (ss_facts s)) \<subseteq> set session_capabilities
    \<and> merge_fields_empty (sf_merge (ss_facts s)) \<and> sf_created_at (ss_facts s) < sf_expires_at (ss_facts s)"
proof -
  have "session_ok t (gs_grants st) s" using reached_ok [OF assms(1)] assms(2) by (simp add: rows_ok_def)
  then obtain g :: grant_row where g: "session_born (gf_created_at (gr_facts g)) t (gr_facts g) (s\<lparr>ss_revoked_at := None\<rparr>)" unfolding session_ok_def by blast
  then have n: "normalize_stored (sf_operation_name (ss_facts s)) (sf_operation_constraints (ss_facts s)) = Some (sf_operation_constraints (ss_facts s))"
    by (simp add: session_born_def Let_def)
  then have "normalize_constraints (sf_operation_name (ss_facts s)) (sf_operation_constraints (ss_facts s)) \<noteq> None"
    by (auto simp: normalize_stored_def split: if_splits)
  then have "is_default_operation (sf_operation_name (ss_facts s))"
    by (auto simp: normalize_constraints_def Let_def is_default_operation_def default_operations_def split: if_splits)
  with g n show ?thesis by (simp add: session_born_def Let_def)
qed

theorem stored_sessions_typed_witness:
  "\<exists>s\<in>set (gs_sessions workload_sessioned). is_default_operation (sf_operation_name (ss_facts s)) \<and> set (sf_granted_capabilities (ss_facts s)) \<subseteq> set session_capabilities"
proof -
  obtain g s where r: "reached (23 * second) workload_sessioned" "workload_state [g] [s] workload_sessioned" by (rule workload_run)
  then have s: "s \<in> set (gs_sessions workload_sessioned)" by (simp add: workload_state_def)
  from stored_sessions_typed [OF r(1) s] s show ?thesis by blast
qed

text \<open>
  C18. What a grant or session says never changes and a revocation is never taken back: over any run
  from a reachable store, in which repositories may be deleted, rows keep their facts, a row that was
  revoked keeps the instant and the reason, and new rows are only appended. Grants keep their place
  for good; sessions do as long as their repository is not deleted, which removes exactly its sessions.
  Others leave grants and sessions alone except for the marks of their use; migrations are not part
  of a run.
\<close>

theorem rows_frozen:
  assumes "reached t st" "runs gone t st u su"
  shows "(\<exists>gs new. gs_grants su = gs @ new \<and> list_all2 grant_later (gs_grants st) gs)
    \<and> (\<exists>ss new. filter (\<lambda>s. sf_repository_id (ss_facts s) \<notin> gone) (gs_sessions su) = ss @ new
         \<and> list_all2 session_later (filter (\<lambda>s. sf_repository_id (ss_facts s) \<notin> gone) (gs_sessions st)) ss)"
  using runs_later [OF assms(2,1)] unfolding tables_later_def kept_sessions_def .

theorem rows_frozen_witness:
  "\<exists>su. repository_deleted 8 (snd (revoke_access_grant (workload_env (Some workload_auth) 4 ''c'') workload_raw [] workload_sessioned)) su
     \<and> (\<exists>gs new. gs_grants su = gs @ new \<and> list_all2 grant_later (gs_grants workload_sessioned) gs)
     \<and> (\<exists>ss new. filter (\<lambda>s. sf_repository_id (ss_facts s) \<notin> {8}) (gs_sessions su) = ss @ new
         \<and> list_all2 session_later (filter (\<lambda>s. sf_repository_id (ss_facts s) \<notin> {8}) (gs_sessions workload_sessioned)) ss)"
proof -
  let ?sv = "snd (revoke_access_grant (workload_env (Some workload_auth) 4 ''c'') workload_raw [] workload_sessioned)"
  obtain g s where r: "reached (23 * second) workload_sessioned" by (rule workload_run)
  have op: "grant_op (workload_env (Some workload_auth) 4 ''c'') workload_sessioned ?sv" by (rule grant_op.revoke)
  have "runs {8} (23 * second) workload_sessioned (ev_clock (workload_env (Some workload_auth) 4 ''c'') 3) ?sv"
    by (rule runs.more [OF runs.none workload_env_ok _ op]) (simp_all add: workload_env_def second_def)
  then have run: "runs {8} (23 * second) workload_sessioned (43 * second) ?sv" by (simp add: workload_env_def second_def)
  obtain su where d: "repository_deleted 8 ?sv su"
    by (rule that [of "?sv\<lparr>gs_sessions := filter (\<lambda>s. sf_repository_id (ss_facts s) \<noteq> 8) (gs_sessions ?sv)\<rparr>"]) (simp add: repository_deleted_def)
  have "runs {8} (23 * second) workload_sessioned (43 * second) su" by (rule runs.delete [OF run _ d]) simp
  from rows_frozen [OF r this] d show ?thesis by blast
qed

text \<open>
  C2. Use is decided on what holds when the effect is about to happen: a session that is accepted is
  the one the request carries, of the requesting principal, for this repository and operation, with
  the capability; it is neither revoked nor expired when the check starts nor, whatever others
  commit meanwhile, at the commit boundary; its grant is live, still says the same about it and
  holds the operation; and the permission the principal has on the repository at the boundary is
  enough for the operation and the very one the session was issued under.
\<close>

theorem accepted_use_sound:
  assumes "revalidate_delegated_session env meanwhile marker viewer repository_id operation capability actual st = (Inr fresh, st')"
  shows "\<exists>s\<in>set (gs_sessions st). \<exists>g\<in>set (gs_grants st). \<exists>s'\<in>set (gs_sessions st'). \<exists>oper.
      fr_session fresh = s \<and> map_option trim_space marker = Some (sf_id (ss_facts s)) \<and> viewer = Some (sf_principal_user_id (ss_facts s))
    \<and> repository_id = sf_repository_id (ss_facts s) \<and> to_lower (trim_space operation) = to_lower (trim_space (sf_operation_name (ss_facts s)))
    \<and> (to_lower (trim_space capability) = [] \<or> has_capability (ss_facts s) (to_lower (trim_space capability)))
    \<and> ss_revoked_at s = None \<and> ev_clock env 0 < sf_expires_at (ss_facts s)
    \<and> gf_id (gr_facts g) = sf_access_grant_id (ss_facts s) \<and> gf_authority_revision (gr_facts g) = sf_access_grant_revision (ss_facts s)
    \<and> gr_revoked_at g = None \<and> ev_clock env 1 < gf_expires_at (gr_facts g)
    \<and> contains_operation (gf_effective_operations (gr_facts g)) (to_lower (trim_space operation))
    \<and> sf_id (ss_facts s') = sf_id (ss_facts s) \<and> ss_revoked_at s' = None \<and> ev_clock env 2 < sf_expires_at (ss_facts s')
    \<and> lookup_operation (to_lower (trim_space operation)) = Some oper
    \<and> current_repo_access (gs_db st') repository_id (sf_principal_user_id (ss_facts s)) = Inr (fr_permission fresh)
    \<and> at_least (fr_permission fresh) (repo_permission_for (op_required oper))
    \<and> native_grant_revision (ev_sha env) (sf_principal_user_id (ss_facts s)) repository_id (fr_permission fresh) = sf_native_grant_revision (ss_facts s)"
proof -
  obtain s i r where u: "marker = Some i" "session_by_id st (trim_space i) = Some s" "fr_session fresh = s" "ss_revoked_at s = None" "ev_clock env 0 < sf_expires_at (ss_facts s)"
    "viewer = Some (sf_principal_user_id (ss_facts s))" "repository_id = sf_repository_id (ss_facts s)"
    "to_lower (trim_space (sf_operation_name (ss_facts s))) = to_lower (trim_space operation)"
    "to_lower (trim_space capability) = [] \<or> has_capability (ss_facts s) (to_lower (trim_space capability))"
    "actual = None \<or> (\<exists>v. actual = Some v \<and> constraints_match (to_lower (trim_space operation)) (sf_operation_constraints (ss_facts s)) v)"
    "first_row (\<lambda>r. re_id r = sf_repository_id (ss_facts s)) (db_repositories (gs_db st)) = Inr r" "\<not> re_disabled r"
    "revalidate_transport_session env meanwhile s (re_full_name r) (to_lower (trim_space operation)) st = (Inr fresh, st')"
    by (rule use_parts [OF assms])
  obtain g actor executor repository st1 oper where t: "grant_by_id st (sf_access_grant_id (ss_facts s)) = Some g"
    "revalidate_access_grant env (ev_clock env 1) g st = (Inr (actor, executor, repository), st1)"
    "session_fits_grant (ss_facts s) (re_full_name r) (gr_facts g) actor executor repository (to_lower (trim_space operation))"
    "lookup_operation (to_lower (trim_space operation)) = Some oper" "st' = meanwhile st1"
    "confirm_commit_boundary env (ev_clock env 2) s (repo_permission_for (op_required oper)) True st' = Inr (fr_permission fresh)"
    "fr_principal fresh = executor" "fr_repository fresh = repository"
    by (rule transport_use_parts [OF u(13)])
  obtain s' where b: "session_by_id st' (sf_id (ss_facts s)) = Some s'" "ss_revoked_at s' = None" "ev_clock env 2 < sf_expires_at (ss_facts s')" "same_authority (ss_facts s') (ss_facts s)"
    "current_repo_access (gs_db st') (sf_repository_id (ss_facts s)) (sf_principal_user_id (ss_facts s)) = Inr (fr_permission fresh)"
    "at_least (fr_permission fresh) (repo_permission_for (op_required oper))"
    "native_grant_revision (ev_sha env) (sf_principal_user_id (ss_facts s)) (sf_repository_id (ss_facts s)) (fr_permission fresh) = sf_native_grant_revision (ss_facts s)"
    by (rule boundary_parts [OF t(6)])
  have "s \<in> set (gs_sessions st)" "sf_id (ss_facts s) = trim_space i" "g \<in> set (gs_grants st)" "gf_id (gr_facts g) = sf_access_grant_id (ss_facts s)"
    "s' \<in> set (gs_sessions st')" "sf_id (ss_facts s') = sf_id (ss_facts s)"
    using u(2) t(1) b(1) by (auto simp: session_by_id_def grant_by_id_def find_Some_iff dest: nth_mem)
  moreover have "grant_live g (ev_clock env 1)" using t(2) by (auto simp: revalidate_access_grant_def Let_def split: if_splits)
  moreover have "gf_authority_revision (gr_facts g) = sf_access_grant_revision (ss_facts s)" "contains_operation (gf_effective_operations (gr_facts g)) (to_lower (trim_space operation))"
    using t(3) by (simp_all add: session_fits_grant_def)
  ultimately show ?thesis using u t(4) b by (intro bexI [of _ s] bexI [of _ g] bexI [of _ s'] exI [of _ oper]) (simp_all add: grant_live_def)
qed

theorem accepted_use_sound_witness:
  "\<exists>fresh. fst (revalidate_delegated_session (workload_env (Some workload_auth) 3 ''c'') (\<lambda>s. s) (Some ''bx'') (Some 1) 7 ''git.push'' [] None workload_sessioned) = Inr fresh
     \<and> at_least (fr_permission fresh) RepoPermissionWrite \<and> ss_revoked_at (fr_session fresh) = None"
proof -
  obtain g s where w: "workload_state [g] [s] workload_sessioned" "workload_row g" "workload_session s" "session_of_row g s" by (rule workload_run)
  obtain fresh where f: "revalidate_delegated_session (workload_env (Some workload_auth) 3 ''c'') (\<lambda>s. s) (Some ''bx'') (Some 1) 7 ''git.push'' [] None workload_sessioned
      = (Inr fresh, workload_sessioned)" by (rule workload_use [OF w])
  have "to_lower (trim_space ''git.push'') = ''git.push''" by code_simp
  with accepted_use_sound [OF f] workload_use_values(9) f show ?thesis by auto
qed





section \<open>Logins of canonical actors\<close>

lemma slug_runs_chars: "c \<in> set (slug_runs run s) \<Longrightarrow> slug_byte c \<or> c = CHR ''-''"
  by (induction run s rule: slug_runs.induct) (auto split: if_splits)

text \<open>No two dashes in a row.\<close>

fun single_dashes :: "string \<Rightarrow> bool" where
  "single_dashes (a # b # s) = (\<not> (a = CHR ''-'' \<and> b = CHR ''-'') \<and> single_dashes (b # s))"
| "single_dashes s = True"

lemma single_dashes_append:
  "single_dashes (s @ t) \<longleftrightarrow> single_dashes s \<and> single_dashes t \<and> (s = [] \<or> t = [] \<or> \<not> (last s = CHR ''-'' \<and> hd t = CHR ''-''))"
proof (induction s)
  case Nil
  show ?case by simp
next
  case (Cons a s)
  then show ?case by (cases s; cases t) auto
qed

lemma single_dashes_Cons: "single_dashes (a # r) \<longleftrightarrow> single_dashes r \<and> (r = [] \<or> \<not> (a = CHR ''-'' \<and> hd r = CHR ''-''))"
  by (cases r) auto

lemma dash_no_slug: "\<not> slug_byte CHR ''-''"
  by code_simp

lemma slug_runs_dashes: "single_dashes (slug_runs run s) \<and> (run \<longrightarrow> slug_runs run s = [] \<or> hd (slug_runs run s) \<noteq> CHR ''-'')"
proof (induction run s rule: slug_runs.induct)
  case (2 run c cs)
  show ?case using 2 dash_no_slug by (auto simp: single_dashes_Cons)
qed simp

lemma single_dashes_part: "single_dashes s \<Longrightarrow> sublist t s \<Longrightarrow> single_dashes t"
  by (auto simp: sublist_def single_dashes_append)

lemma trim_char_facts:
  "sublist (trim_char c s) s" "trim_char c s \<noteq> [] \<Longrightarrow> hd (trim_char c s) \<noteq> c \<and> last (trim_char c s) \<noteq> c"
  "s \<noteq> [] \<Longrightarrow> hd s \<noteq> c \<Longrightarrow> trim_char c s \<noteq> []"
proof -
  define u where "u = dropWhile (\<lambda>x. x = c) s"
  define v where "v = dropWhile (\<lambda>x. x = c) (rev u)"
  have t: "trim_char c s = rev v" by (simp add: trim_char_def u_def v_def)
  have "suffix u s" "suffix v (rev u)" by (simp_all add: u_def v_def suffix_dropWhile)
  then obtain a b where ab: "s = a @ u" "rev u = b @ v" by (auto simp: suffix_def)
  then have u: "u = rev v @ rev b" by (metis rev_append rev_rev_ident)
  then show "sublist (trim_char c s) s" unfolding t using ab(1) by (auto simp: sublist_def)
  show "trim_char c s \<noteq> [] \<Longrightarrow> hd (trim_char c s) \<noteq> c \<and> last (trim_char c s) \<noteq> c"
  proof
    assume "trim_char c s \<noteq> []"
    then have v: "v \<noteq> []" by (simp add: t)
    then have "hd v \<noteq> c" using hd_dropWhile [of "\<lambda>x. x = c" "rev u"] by (simp add: v_def)
    then show "last (trim_char c s) \<noteq> c" using v by (simp add: t last_rev)
    have "u \<noteq> []" using u v by simp
    then have "hd u \<noteq> c" using hd_dropWhile [of "\<lambda>x. x = c" s] by (simp add: u_def)
    then show "hd (trim_char c s) \<noteq> c" using u v by (simp add: t)
  qed
  show "trim_char c s \<noteq> []" if "s \<noteq> []" "hd s \<noteq> c"
  proof -
    have "u = s" using that by (cases s) (simp_all add: u_def)
    then have "c \<noteq> hd (rev (rev u))" "rev u \<noteq> []" using that by simp_all
    then have "\<exists>x\<in>set (rev u). x \<noteq> c" using that \<open>u = s\<close> by (intro bexI [of _ "hd s"]) simp_all
    then have "v \<noteq> []" by (auto simp: v_def dropWhile_eq_Nil_conv)
    then show ?thesis by (simp add: t)
  qed
qed

text \<open>
  C34. The login of a canonical actor is always a valid one: whatever the name of the agent, the login
  has at most 37 bytes, all of them lower case letters, digits or dashes, it neither starts nor
  ends with a dash and has no two dashes in a row, provided that the digest is at least twelve
  hexadecimal digits long.
\<close>

theorem canonical_login_valid:
  assumes "\<And>x. 12 \<le> length (sha x)" "\<And>x. list_all lower_hex (sha x)"
  shows "length (canonical_actor_login sha source_instance agent name) \<le> 37
    \<and> list_all (\<lambda>c. slug_byte c \<or> c = CHR ''-'') (canonical_actor_login sha source_instance agent name)
    \<and> hd (canonical_actor_login sha source_instance agent name) \<noteq> CHR ''-''
    \<and> last (canonical_actor_login sha source_instance agent name) \<noteq> CHR ''-''
    \<and> \<not> sublist ''--'' (canonical_actor_login sha source_instance agent name)"
proof -
  define s0 where "s0 = trim_char (CHR ''-'') (slug_runs False (to_lower (trim_space name)))"
  define s1 where "s1 = (if s0 = [] then ''runtime'' else s0)"
  define s2 where "s2 = (if length s1 > 18 then trim_char (CHR ''-'') (take 18 s1) else s1)"
  define d where "d = take 12 (canonical_actor_digest sha source_instance agent)"
  have login: "canonical_actor_login sha source_instance agent name = ''agent-'' @ s2 @ ''-'' @ d"
    by (simp add: canonical_actor_login_def s0_def s1_def s2_def d_def Let_def)
  have runtime: "list_all (\<lambda>c. slug_byte c \<or> c = CHR ''-'') ''runtime''" "single_dashes ''runtime''" by code_simp+
  have chars0: "\<forall>c\<in>set s0. slug_byte c \<or> c = CHR ''-''"
    using set_mono_sublist [OF trim_char_facts(1)] slug_runs_chars unfolding s0_def by blast
  have "s1 \<noteq> [] \<and> hd s1 \<noteq> CHR ''-'' \<and> last s1 \<noteq> CHR ''-'' \<and> single_dashes s1 \<and> (\<forall>c\<in>set s1. slug_byte c \<or> c = CHR ''-'')"
  proof (cases "s0 = []")
    case True
    then show ?thesis using runtime by (simp add: s1_def list_all_iff)
  next
    case False
    have "single_dashes s0" unfolding s0_def using single_dashes_part [OF _ trim_char_facts(1)] slug_runs_dashes by blast
    then show ?thesis using False chars0 trim_char_facts(2) [of "CHR ''-''" "slug_runs False (to_lower (trim_space name))"] by (simp add: s1_def s0_def)
  qed
  note s1 = this
  have s2: "s2 \<noteq> [] \<and> hd s2 \<noteq> CHR ''-'' \<and> last s2 \<noteq> CHR ''-'' \<and> single_dashes s2 \<and> (\<forall>c\<in>set s2. slug_byte c \<or> c = CHR ''-'') \<and> length s2 \<le> 18"
  proof (cases "length s1 > 18")
    case True
    let ?t = "take 18 s1"
    have t: "?t \<noteq> []" "hd ?t \<noteq> CHR ''-''" "sublist ?t s1" using s1 by (auto simp: sublist_def) (metis append_Nil append_take_drop_id)
    have sub: "sublist (trim_char (CHR ''-'') ?t) s1" using trim_char_facts(1) t(3) sublist_order.order.trans by blast
    moreover have "length (trim_char (CHR ''-'') ?t) \<le> 18" using sublist_length_le [OF trim_char_facts(1), of "CHR ''-''" ?t] by simp
    ultimately show ?thesis
      using True t trim_char_facts(2,3) s1 single_dashes_part set_mono_sublist [OF sub] by (auto simp: s2_def)
  next
    case False
    then show ?thesis using s1 by (simp add: s2_def)
  qed
  have "CHR ''f'' \<le> CHR ''z''" by code_simp
  then have hex: "lower_hex c \<Longrightarrow> slug_byte c" for c
    using order.trans [of c "CHR ''f''" "CHR ''z''"] by (auto simp: lower_hex_def slug_byte_def char_between_def)
  have d: "length d = 12" "\<forall>c\<in>set d. slug_byte c"
    using assms hex by (auto simp: d_def canonical_actor_digest_def list_all_iff dest: in_set_takeD)
  have "d \<noteq> []" using d(1) by auto
  then have "last d \<in> set d" "hd d \<in> set d" by simp_all
  then have d2: "d \<noteq> []" "last d \<noteq> CHR ''-''" "hd d \<noteq> CHR ''-''" using d(2) dash_no_slug \<open>d \<noteq> []\<close> by metis+
  have sd: "single_dashes d"
  proof -
    have "\<forall>c\<in>set x. slug_byte c \<Longrightarrow> single_dashes x" for x by (induction x rule: single_dashes.induct) (auto simp: dash_no_slug)
    then show ?thesis using d(2) by blast
  qed
  have "single_dashes (''agent-'' @ s2 @ ''-'' @ d)" using s2 sd d2 by (simp add: single_dashes_append single_dashes_Cons)
  then have "\<not> sublist ''--'' (''agent-'' @ s2 @ ''-'' @ d)" using single_dashes_part by fastforce
  moreover have "list_all (\<lambda>c. slug_byte c \<or> c = CHR ''-'') ''agent-''" by code_simp
  ultimately show ?thesis unfolding login using s2 d d2 by (auto simp: list_all_iff)
qed

theorem canonical_login_valid_witness:
  "canonical_actor_login (\<lambda>x. replicate 64 CHR ''a'') ''multica-1'' ''a7'' ''The  Agent of / Everything!'' = ''agent-the-agent-of-every-aaaaaaaaaaaa''
   \<and> \<not> sublist ''--'' (canonical_actor_login (\<lambda>x. replicate 64 CHR ''a'') ''multica-1'' ''a7'' ''The  Agent of / Everything!'')"
proof -
  have hex: "12 \<le> length (replicate 64 CHR ''a'')" "list_all lower_hex (replicate 64 CHR ''a'')" by code_simp+
  have "canonical_actor_login (\<lambda>x. replicate 64 CHR ''a'') ''multica-1'' ''a7'' ''The  Agent of / Everything!'' = ''agent-the-agent-of-every-aaaaaaaaaaaa''" by code_simp
  with canonical_login_valid [of "\<lambda>x. replicate 64 CHR ''a''" "''multica-1''" "''a7''" "''The  Agent of / Everything!''", OF hex] show ?thesis by blast
qed

section \<open>The sweep of expired sessions\<close>



definition marked :: "instant \<Rightarrow> string \<Rightarrow> session_row \<Rightarrow> session_row" where
  "marked now i s = (if sf_id (ss_facts s) = i \<and> ss_revoked_at s = None \<and> ss_expiry_audited_at s = None then s\<lparr>ss_expiry_audited_at := Some now\<rparr> else s)"



lemma marked_facts [simp]: "ss_facts (marked now i s) = ss_facts s" "ss_revoked_at (marked now i s) = ss_revoked_at s"
  by (simp_all add: marked_def)







section \<open>Canonical actors\<close>

lemma actor_transaction_conflict: "actor_transaction env source cx st = (Inl e, st1) \<Longrightarrow> st1 = st"
  by (auto simp: actor_transaction_def create_actor_def Let_def split: option.splits sum.splits store_error.splits if_splits)

lemma actor_attempts_once: "actor_attempts n env source cx st = (Inr a, st1) \<Longrightarrow> actor_transaction env source cx st = (Inr a, st1)"
proof (induction n)
  case (Suc n)
  then show ?case by (auto split: prod.splits sum.splits grant_error.splits dest: actor_transaction_conflict)
qed simp

lemma first_row_append:
  "first_row P (Some us) = Inl NotFound \<Longrightarrow> P u \<Longrightarrow> first_row P (Some (us @ [u])) = Inr u"
  by (induction us) (auto simp: first_row_def split: option.splits if_splits)

lemma find_append_new: "find P xs = None \<Longrightarrow> P x \<Longrightarrow> find P (xs @ [x]) = Some x"
  by (induction xs) (auto split: if_splits)

text \<open>
  C23. A canonical actor is created once: when \<open>resolveOrCreateCanonicalActor\<close> has answered for a source
  instance and an agent, the actor is an active agent account, and asking again for the same agent,
  whatever its task, its name or the environment, answers the same actor and changes nothing,
  provided that the identifier given to a new account was not in use.
\<close>

theorem canonical_actor_stable:
  assumes "resolve_or_create_actor env source cx st = (Inr a, st1)"
    and "first_row (\<lambda>u. ur_id u = ev_fresh_user env) (db_users (gs_db st)) = Inl NotFound" "ev_fresh_user env \<noteq> 0"
    and "ev_sha env' = ev_sha env" "sr_source_instance_id source' = sr_source_instance_id source" "sr_agent_id source' = sr_agent_id source"
  shows "active_canonical_actor a \<and> resolve_or_create_actor env' source' cx' st1 = (Inr a, st1)"
proof -
  have t: "actor_transaction env source cx st = (Inr a, st1)" using actor_attempts_once assms(1) unfolding resolve_or_create_actor_def by blast
  define subject where "subject = canonical_actor_subject (ev_sha env) (sr_source_instance_id source) (sr_agent_id source)"
  obtain us where us: "db_users (gs_db st) = Some us" using assms(2) by (cases "db_users (gs_db st)") (auto simp: first_row_def)
  have created: "active_canonical_actor a \<and> actor_transaction env' source' cx' st1 = (Inr a, st1)"
    if none: "find (\<lambda>i. id_provider i = canonical_actor_provider \<and> id_subject i = subject) (gs_identities st) = None"
      and c: "create_actor env subject login name st = (Inr a, st1)" for login name
  proof -
    have a: "ur_id a = ev_fresh_user env" "active_canonical_actor a" "db_users (gs_db st1) = Some (us @ [a])"
      "gs_identities st1 = gs_identities st @ [\<lparr>id_provider = canonical_actor_provider, id_subject = subject, id_user_id = ur_id a\<rparr>]"
      using c us assms(3) by (auto simp: create_actor_def Let_def active_canonical_actor_def active_grant_user_def)
    have "first_row (\<lambda>u. ur_id u = ur_id a) (Some (us @ [a])) = Inr a" using first_row_append assms(2) a(1) us by simp
    then show ?thesis using a find_append_new [OF none] assms(4-6) by (simp add: actor_transaction_def Let_def flip: subject_def)
  qed
  have "active_canonical_actor a \<and> actor_transaction env' source' cx' st1 = (Inr a, st1)"
  proof (cases "find (\<lambda>i. id_provider i = canonical_actor_provider \<and> id_subject i = subject) (gs_identities st)")
    case None
    then obtain login name where "create_actor env subject login name st = (Inr a, st1)"
      using t by (auto simp: actor_transaction_def Let_def simp flip: subject_def split: sum.splits store_error.splits)
    then show ?thesis by (rule created [OF None])
  next
    case (Some i)
    then show ?thesis using t assms(4-6)
      by (auto simp: actor_transaction_def Let_def simp flip: subject_def split: sum.splits store_error.splits if_splits)
  qed
  then show ?thesis by (simp add: resolve_or_create_actor_def numeral_eq_Suc)
qed

theorem canonical_actor_stable_witness:
  "\<exists>a st. resolve_or_create_actor (workload_env None 1 ''a'') (in_source workload_intake) (in_context workload_intake) (snd workload_taken) = (Inr a, st)
     \<and> resolve_or_create_actor (workload_env None 7 ''b'') ((in_source workload_intake)\<lparr>sr_task_id := ''other''\<rparr>) empty_context st = (Inr a, st)"
proof -
  have f: "first_row (\<lambda>u. ur_id u = ev_fresh_user (workload_env None 1 ''a'')) (db_users (gs_db (snd workload_taken))) = Inl NotFound"
    "ev_fresh_user (workload_env None 1 ''a'') \<noteq> 0" by code_simp+
  from canonical_actor_stable [OF workload_acted f, of "workload_env None 7 ''b''" "(in_source workload_intake)\<lparr>sr_task_id := ''other''\<rparr>" empty_context]
  show ?thesis using workload_acted by simp
qed

section \<open>Redaction\<close>

lemma safe_text_again [simp]: "safe_authority_text (safe_authority_text x) = safe_authority_text x"
proof -
  have "safe_authority_text ''redacted'' = ''redacted''" by code_simp
  moreover have "safe_authority_text [] = []" by code_simp
  ultimately show ?thesis by (auto simp: safe_authority_text_def [of x] Let_def) (simp_all add: safe_authority_text_def Let_def)
qed

lemma redact_fold:
  "\<forall>(k, x)\<in>set acc. safe_authority_text k = k \<and> safe_authority_text x = x \<Longrightarrow> distinct (map fst acc) \<Longrightarrow>
    (let r = fold (\<lambda>(k, x). AList.update (safe_authority_text k) (safe_authority_text x)) v acc
     in distinct (map fst r) \<and> (\<forall>(k, x)\<in>set r. safe_authority_text k = k \<and> safe_authority_text x = x))"
proof (induction v arbitrary: acc)
  case (Cons e v)
  obtain k x where e: "e = (k, x)" by fastforce
  let ?acc = "AList.update (safe_authority_text k) (safe_authority_text x) acc"
  have "set ?acc \<subseteq> insert (safe_authority_text k, safe_authority_text x) (set acc)" by (induction acc) auto
  then have "\<forall>(k, x)\<in>set ?acc. safe_authority_text k = k \<and> safe_authority_text x = x" using Cons.prems(1) by auto
  moreover have "distinct (map fst ?acc)" using Cons.prems(2) by (rule distinct_update)
  ultimately show ?case using Cons.IH e by simp
qed simp

lemma redact_fixed:
  "\<forall>(k, x)\<in>set v. safe_authority_text k = k \<and> safe_authority_text x = x \<Longrightarrow> distinct (map fst (acc @ v)) \<Longrightarrow>
    fold (\<lambda>(k, x). AList.update (safe_authority_text k) (safe_authority_text x)) v acc = acc @ v"
proof (induction v arbitrary: acc)
  case (Cons e v)
  obtain k x where e: "e = (k, x)" by fastforce
  have "AList.update k x acc = acc @ [(k, x)]" if "k \<notin> fst ` set acc" for acc using that by (induction acc) auto
  then have "AList.update k x acc = acc @ [(k, x)]" using Cons.prems(2) e by (auto simp: image_iff)
  then show ?case using Cons.IH [of "acc @ [(k, x)]"] Cons.prems e by simp
qed simp

lemma redact_vals_again [simp]: "redact_vals (redact_vals v) = redact_vals v"
  using redact_fold [of "[]" v] redact_fixed [of "redact_vals v" "[]"] by (auto simp: redact_vals_def Let_def)


section \<open>A revocation that comes late\<close>

text \<open>
  \<open>RevokeAccessGrant\<close> reads the clock before it takes the lock on the grant. A session that is issued
  in between is revoked at an instant before its creation, and its lifecycle cannot be read back.
\<close>

lemma late_revocation_unreadable:
  assumes "revocation_transaction now reason i st = Inr (current, st')" "grant_by_id st i = Some g" "gr_revoked_at g = None"
    and "s \<in> set (gs_sessions st)" "sf_access_grant_id (ss_facts s) = i" "sf_credential_mode (ss_facts s) = transport_mode" "ss_revoked_at s = None"
    and "now < sf_created_at (ss_facts s)"
  shows "\<exists>s'\<in>set (gs_sessions st'). ss_facts s' = ss_facts s \<and> (\<forall>later. \<not> canonical_times s' later)"
proof -
  define s' where "s' = s\<lparr>ss_revoked_at := Some now, ss_revocation_reason := ''access_grant_revoked''\<rparr>"
  have "gs_sessions st' = revoke_sessions i now ''access_grant_revoked'' (gs_sessions st)"
    using assms(1-3) by (auto simp: revocation_transaction_def revoke_sessions_store update_grants_def)
  moreover have "s' \<in> set (revoke_sessions i now ''access_grant_revoked'' (gs_sessions st))"
    using assms(4-7) unfolding revoke_sessions_def set_map image_iff s'_def by (intro bexI [of _ s]) simp_all
  moreover have "\<not> canonical_times s' later" for later
    using assms(8) by (auto simp: canonical_times_def s'_def Let_def)
  ultimately show ?thesis by (intro bexI [of _ s']) (simp_all add: s'_def)
qed

section \<open>Recorded invocations\<close>

text \<open>
  Every authorized operation is recorded and nothing else is: when \<open>AuthorizeAccessGrantOperation\<close>
  succeeds, the credential is that of a live grant which holds the operation, the operation is not
  \<open>pr.merge\<close>, and exactly one invocation is appended, under a new identifier, for that grant,
  operation and the normalised constraints; when it fails, no invocation is recorded. The
  transport sessions are left alone either way.
\<close>

theorem authorization_recorded:
  assumes "authorize_grant_operation env raw operation input st = (result, st')"
  shows "gs_sessions st' = gs_sessions st \<and> (case result of
      Inl _ \<Rightarrow> gs_invocations st' = gs_invocations st \<and> gs_grants st' = gs_grants st
    | Inr receipt \<Rightarrow> gs_invocations st' = gs_invocations st @ [ir_row receipt] \<and> iv_id (ir_row receipt) \<notin> iv_id ` set (gs_invocations st)
        \<and> (\<exists>g\<in>set (gs_grants st). gf_credential_hash (gr_facts g) = ev_sha env raw \<and> grant_live g (ev_clock env 0) \<and> grant_live g (ev_clock env 1)
            \<and> iv_grant_id (ir_row receipt) = gf_id (gr_facts g) \<and> iv_authority_revision (ir_row receipt) = gf_authority_revision (gr_facts g)
            \<and> contains_operation (gf_effective_operations (gr_facts g)) (iv_operation (ir_row receipt)))
        \<and> iv_operation (ir_row receipt) = to_lower (trim_space operation) \<and> iv_operation (ir_row receipt) \<noteq> ''pr.merge''
        \<and> normalize_json (iv_operation (ir_row receipt)) input = Some (iv_constraints (ir_row receipt)))"
proof (cases "resolve_active_grant env (ev_clock env 0) raw st")
  case (Inl e)
  then show ?thesis using assms by (auto simp: authorize_grant_operation_def)
next
  case (Inr x)
  then obtain g a b where o: "resolve_active_grant env (ev_clock env 0) raw st = Inr (g, a, b)" by (cases x) auto
  note row = load_grant [OF conjunct1 [OF resolve_active [OF o]]] conjunct2 [OF resolve_active [OF o]]
  obtain r st1 where v: "revalidate_access_grant env (ev_clock env 1) g st = (r, st1)" by fastforce
  have same: "gs_invocations st1 = gs_invocations st" "gs_sessions st1 = gs_sessions st" "gs_grants st1 = gs_grants st"
    using revalidate_frame [OF v] by (simp_all add: same_tables_def)
  show ?thesis
  proof (cases result)
    case (Inl e)
    then show ?thesis using assms o v same
      by (auto simp: authorize_grant_operation_def Let_def split: if_splits option.splits sum.splits)
  next
    case (Inr receipt)
    note run = assms [unfolded Inr authorize_grant_operation_def o Let_def]
    have op: "contains_operation (gf_effective_operations (gr_facts g)) (to_lower (trim_space operation))" "to_lower (trim_space operation) \<noteq> ''pr.merge''"
      using run by (auto split: if_splits option.splits)
    obtain constraints where c: "normalize_json (to_lower (trim_space operation)) input = Some constraints" using run by (auto split: if_splits option.splits)
    obtain y where y: "r = Inr y" using run op c v by (cases r) auto
    have live: "grant_live g (ev_clock env 1)" using v y by (auto simp: revalidate_access_grant_def Let_def split: if_splits)
    obtain st2 where i: "insert_invocation (new_invocation (ev_uuid env 0) (gr_facts g) (to_lower (trim_space operation)) constraints (ev_clock env 2)) st1 = Some st2"
      "receipt = invocation_receipt_of (new_invocation (ev_uuid env 0) (gr_facts g) (to_lower (trim_space operation)) constraints (ev_clock env 2))"
      "st' = update_grants (\<lambda>r. gf_id (gr_facts r) = gf_id (gr_facts g)) (\<lambda>r. r\<lparr>gr_last_used_at := Some (ev_clock env 2)\<rparr>) st2"
      using run op c v y by (auto split: option.splits)
    have row_of: "ir_row receipt = new_invocation (ev_uuid env 0) (gr_facts g) (to_lower (trim_space operation)) constraints (ev_clock env 2)"
      by (simp add: i(2) invocation_receipt_of_def)
    have "gs_invocations st' = gs_invocations st @ [ir_row receipt]" "iv_id (ir_row receipt) \<notin> iv_id ` set (gs_invocations st)" "gs_sessions st' = gs_sessions st"
      using i(1) same unfolding row_of i(3) by (auto simp: insert_invocation_def update_grants_def split: if_splits)
    moreover have "iv_grant_id (ir_row receipt) = gf_id (gr_facts g)" "iv_authority_revision (ir_row receipt) = gf_authority_revision (gr_facts g)"
      "iv_operation (ir_row receipt) = to_lower (trim_space operation)" "iv_constraints (ir_row receipt) = constraints"
      by (simp_all add: row_of new_invocation_def)
    ultimately show ?thesis using row live op c Inr by auto
  qed
qed

theorem authorization_recorded_witness:
  "\<exists>receipt st. authorize_grant_operation (workload_env (Some workload_auth) 2 ''d'') workload_raw '' Git.Push '' [] workload_issued = (Inr receipt, st)
     \<and> gs_invocations st = [ir_row receipt]"
proof -
  obtain g where w: "workload_state [g] [] workload_issued" "gs_invocations workload_issued = []" "workload_row g" by (rule workload_first)
  have op: "to_lower (trim_space '' Git.Push '') = ''git.push''" by code_simp
  have c: "contains_operation (gf_effective_operations (gr_facts g)) ''git.push''" using w(3) workload_use_values(12) by (simp add: workload_row_def)
  have active: "resolve_active_grant (workload_env (Some workload_auth) 2 ''d'') (20 * second) workload_raw workload_issued = Inr (g, workload_agent, workload_human)"
    by (rule workload_active [OF w(1,3) workload_transport_values(16)])
  have valid: "revalidate_access_grant (workload_env (Some workload_auth) 2 ''d'') (21 * second) g workload_issued = (Inr (workload_agent, workload_human, workload_repo), workload_issued)"
    by (rule workload_revalidate [OF w(1,3) workload_transport_values(15)])
  have "\<exists>receipt st. authorize_grant_operation (workload_env (Some workload_auth) 2 ''d'') workload_raw '' Git.Push '' [] workload_issued = (Inr receipt, st)"
    using w(2) c workload_transport_values(5)
    by (simp add: authorize_grant_operation_def op active valid insert_invocation_def Let_def del: One_nat_def)
  then obtain receipt st where a: "authorize_grant_operation (workload_env (Some workload_auth) 2 ''d'') workload_raw '' Git.Push '' [] workload_issued = (Inr receipt, st)"
    by blast
  from authorization_recorded [OF a] w(2) a show ?thesis by auto
qed

section \<open>Renewals\<close>




section \<open>A session that can never be used\<close>

text \<open>
  Issuing a session for a standard operation only asks for read permission when the operation needs
  more. Such a session names the revision of that permission; its use needs the permission of the
  operation and the same revision, so it is always refused.
\<close>

lemma underpowered_session_refused:
  assumes "sf_native_grant_revision (ss_facts s) = native_grant_revision (ev_sha env) (sf_principal_user_id (ss_facts s)) (sf_repository_id (ss_facts s)) p" "inj (ev_sha env)"
    and "lookup_operation (to_lower (trim_space operation)) = Some oper" "\<not> at_least p (repo_permission_for (op_required oper))"
  shows "revalidate_delegated_session env meanwhile marker viewer repository_id operation capability actual st \<noteq> (Inr (fresh\<lparr>fr_session := s\<rparr>), st')"
proof
  assume "revalidate_delegated_session env meanwhile marker viewer repository_id operation capability actual st = (Inr (fresh\<lparr>fr_session := s\<rparr>), st')"
  then have t: "\<exists>name. revalidate_transport_session env meanwhile s name (to_lower (trim_space operation)) st = (Inr (fresh\<lparr>fr_session := s\<rparr>), st')"
    by (rule use_parts) auto
  then obtain name where t: "revalidate_transport_session env meanwhile s name (to_lower (trim_space operation)) st = (Inr (fresh\<lparr>fr_session := s\<rparr>), st')" by blast
  have "at_least (fr_permission fresh) (repo_permission_for (op_required oper))
    \<and> native_grant_revision (ev_sha env) (sf_principal_user_id (ss_facts s)) (sf_repository_id (ss_facts s)) (fr_permission fresh) = sf_native_grant_revision (ss_facts s)"
    by (rule transport_use_parts [OF t], erule boundary_parts) (use assms(3) in auto)
  moreover from this have "permission_string (effective_permission (fr_permission fresh)) = permission_string (effective_permission p)"
    using assms(1,2) by (simp add: native_grant_revision_def inj_eq)
  then have "decision_level (fr_permission fresh) = decision_level p"
    by (cases "fr_permission fresh"; cases p) (simp_all add: permission_string_def effective_permission_def decision_level_def)
  ultimately show False using assms(4) by (simp add: at_least_def)
qed

end
