(* ===== verification/Interleaving.thy ===== *)
theory Interleaving
  imports Main
begin

text \<open>
  Handlers as programs of atomic actions, and many of them at once. A program is done with an
  answer, or it does one action on the world, a statement or transaction of the database or a call of
  another service, and goes on as that action decides. A pool of programs takes actions in any
  order, requests arrive at any time, others change the world in between, and a program that is
  never chosen again is one whose process has died.
\<close>

section \<open>Programs\<close>

datatype ('w, 'a) prog = Done 'a | Atomic "'w \<Rightarrow> ('w, 'a) prog \<times> 'w"

primrec bind_prog :: "('w, 'a) prog \<Rightarrow> ('a \<Rightarrow> ('w, 'b) prog) \<Rightarrow> ('w, 'b) prog" where
  "bind_prog (Done a) f = f a"
| "bind_prog (Atomic g) f = Atomic (map_prod (\<lambda>p. bind_prog p f) id \<circ> g)"

definition act :: "('w \<Rightarrow> 'a \<times> 'w) \<Rightarrow> ('w, 'a) prog" where
  "act g = Atomic (\<lambda>w. case g w of (a, w') \<Rightarrow> (Done a, w'))"

definition see :: "('w \<Rightarrow> 'a) \<Rightarrow> ('w, 'a) prog" where
  "see g = act (\<lambda>w. (g w, w))"

text \<open>A program on its own.\<close>

primrec run :: "('w, 'a) prog \<Rightarrow> 'w \<Rightarrow> 'a \<times> 'w" where
  "run (Done a) = (\<lambda>w. (a, w))"
| "run (Atomic g) = (\<lambda>w. case map_prod run id (g w) of (r, w') \<Rightarrow> r w')"

lemma run_act [simp]: "run (act g) w = g w"
  by (simp add: act_def split: prod.split)

lemma run_see [simp]: "run (see g) w = (g w, w)"
  by (simp add: see_def)

lemma run_bind [simp]: "run (bind_prog p f) w = (case run p w of (a, w') \<Rightarrow> run (f a) w')"
proof (induction p arbitrary: w)
  case (Atomic g)
  obtain p w' where g: "g w = (p, w')" by force
  then have "run (bind_prog p f) v = (case run p v of (a, x) \<Rightarrow> run (f a) x)" for v
    using Atomic.IH [of "(p, w')" p] rangeI [of g w] g by simp
  then show ?case by (simp add: g)
qed simp

section \<open>Pools\<close>

text \<open>The reachable pools, with the worlds passed through, the first one first.\<close>

inductive pool :: "('w, 'a) prog set \<Rightarrow> ('w \<Rightarrow> 'w \<Rightarrow> bool) \<Rightarrow> 'w \<Rightarrow> 'w list \<Rightarrow> ('w, 'a) prog list \<Rightarrow> 'w \<Rightarrow> bool"
  for requests outside start where
  start: "pool requests outside start [] [] start"
| arrive: "pool requests outside start ws ps w \<Longrightarrow> p \<in> requests \<Longrightarrow> pool requests outside start ws (ps @ [p]) w"
| outside: "pool requests outside start ws ps w \<Longrightarrow> outside w w' \<Longrightarrow> pool requests outside start (ws @ [w]) ps w'"
| action: "pool requests outside start ws ps w \<Longrightarrow> i < length ps \<Longrightarrow> ps ! i = Atomic g \<Longrightarrow> g w = (p, w') \<Longrightarrow>
    pool requests outside start (ws @ [w]) (ps[i := p]) w'"

text \<open>A program run alone is one of them.\<close>

lemma run_in_pool:
  "pool requests outside start ws [p] w \<Longrightarrow> \<exists>vs. pool requests outside start (ws @ vs) [Done (fst (run p w))] (snd (run p w))"
proof (induction p arbitrary: ws w)
  case (Done a)
  then show ?case by (intro exI [of _ "[]"]) simp
next
  case (Atomic g)
  obtain p w' where g: "g w = (p, w')" by force
  have "pool requests outside start (ws @ [w]) ([Atomic g][0 := p]) w'" by (rule pool.action [OF Atomic.prems, where g = g]) (simp_all add: g)
  then have "pool requests outside start (ws @ [w]) [p] w'" by simp
  then obtain vs where "pool requests outside start ((ws @ [w]) @ vs) [Done (fst (run p w'))] (snd (run p w'))"
    using Atomic.IH [of "(p, w')" p "ws @ [w]" w'] rangeI [of g w] g by auto
  then show ?case using g by (intro exI [of _ "w # vs"]) simp
qed

text \<open>A program run alone, after nothing happened.\<close>

lemma run_pool:
  assumes "p \<in> requests" "outside start start"
  obtains ws where "start \<in> set ws" "pool requests outside start ws [Done (fst (run p start))] (snd (run p start))"
proof -
  have "pool requests outside start ([] @ [start]) [] start" by (intro pool.outside pool.start assms(2))
  then have one: "pool requests outside start [start] [p] start" using pool.arrive [OF _ assms(1)] by fastforce
  obtain vs where "pool requests outside start ([start] @ vs) [Done (fst (run p start))] (snd (run p start))" using run_in_pool [OF one] by blast
  then show ?thesis by (intro that [of "[start] @ vs"]) simp_all
qed

section \<open>Effects that are sent once\<close>

text \<open>
  The contract of an effect sent outside under a claim, on worlds that are valid. A claim is taken by an action that finds it
  open and shuts it for good, after having cleared the effect; what has been sent is a list. Every
  other action keeps to \<open>guar\<close>.
\<close>

locale single_effect =
  fixes valid :: "'w \<Rightarrow> bool"
    and guar :: "'w \<Rightarrow> 'w \<Rightarrow> bool"
    and sent :: "'w \<Rightarrow> 'k list"
    and ident :: "'k \<Rightarrow> 'i"
    and shut :: "'i \<Rightarrow> 'w \<Rightarrow> bool"
    and cleared :: "'k \<Rightarrow> 'w \<Rightarrow> bool"
  assumes guar_refl: "guar w w"
    and guar_trans: "guar u v \<Longrightarrow> guar v w \<Longrightarrow> guar u w"
    and guar_valid: "guar w w' \<Longrightarrow> valid w \<Longrightarrow> valid w'"
    and guar_shut: "guar w w' \<Longrightarrow> shut i w \<Longrightarrow> shut i w'"
begin

definition claims :: "'k option \<Rightarrow> 'w \<Rightarrow> 'k option \<Rightarrow> 'w \<Rightarrow> bool" where
  "claims c w c' w' \<longleftrightarrow> guar w w'
     \<and> ((c' = c \<or> c' = None) \<and> sent w' = sent w
        \<or> (\<exists>k. c = Some k \<and> c' = None \<and> sent w' = sent w @ [k])
        \<or> (\<exists>k. c = None \<and> c' = Some k \<and> sent w' = sent w \<and> cleared k w \<and> \<not> shut (ident k) w \<and> shut (ident k) w'))"

text \<open>
  A program that holds the claim \<open>c\<close> and last acted to leave the world \<open>v\<close> keeps the contract, and
  answers as \<open>Q\<close> says. Whatever others do meanwhile, the world it meets next is within \<open>guar\<close> of \<open>v\<close>.
\<close>

inductive careful :: "('k option \<Rightarrow> 'w \<Rightarrow> 'a \<Rightarrow> bool) \<Rightarrow> 'k option \<Rightarrow> 'w \<Rightarrow> ('w, 'a) prog \<Rightarrow> bool" for Q where
  finish: "Q c v a \<Longrightarrow> careful Q c v (Done a)"
| atomic: "(\<And>w. guar v w \<Longrightarrow> valid w \<Longrightarrow> \<exists>c'. claims c w c' (snd (g w)) \<and> careful Q c' (snd (g w)) (fst (g w))) \<Longrightarrow> careful Q c v (Atomic g)"

lemma careful_next:
  assumes "careful Q c v (Atomic g)" "guar v w" "valid w"
  shows "\<exists>c'. claims c w c' (snd (g w)) \<and> careful Q c' (snd (g w)) (fst (g w))"
  using assms(1) by cases (use assms(2,3) in auto)

lemma careful_bind:
  assumes "careful Q c v p" "\<And>c v a. Q c v a \<Longrightarrow> careful R c v (f a)"
  shows "careful R c v (bind_prog p f)"
  using assms(1)
proof (induction rule: careful.induct)
  case (finish c v a)
  then show ?case using assms(2) by simp
next
  case (atomic v c g)
  have "\<exists>c'. claims c w c' (snd (g w)) \<and> careful R c' (snd (g w)) (bind_prog (fst (g w)) f)" if "guar v w" "valid w" for w
    using atomic [OF that] by blast
  then show ?case by (auto intro: careful.atomic)
qed

lemma careful_act:
  assumes "\<And>w. guar v w \<Longrightarrow> valid w \<Longrightarrow> \<exists>c'. claims c w c' (snd (g w)) \<and> Q c' (snd (g w)) (fst (g w))"
  shows "careful Q c v (act g)"
  unfolding act_def
proof (rule careful.atomic)
  fix w
  assume "guar v w" "valid w"
  then obtain c' where "claims c w c' (snd (g w))" "Q c' (snd (g w)) (fst (g w))" using assms by blast
  then show "\<exists>c'. claims c w c' (snd (case g w of (a, w') \<Rightarrow> (Done a, w')))
      \<and> careful Q c' (snd (case g w of (a, w') \<Rightarrow> (Done a, w'))) (fst (case g w of (a, w') \<Rightarrow> (Done a, w')))"
    by (cases "g w") (auto intro: careful.finish)
qed

lemma careful_quiet:
  "(\<And>w. guar v w \<Longrightarrow> valid w \<Longrightarrow> guar w (snd (g w)) \<and> sent (snd (g w)) = sent w \<and> Q c (snd (g w)) (fst (g w))) \<Longrightarrow> careful Q c v (act g)"
  by (rule careful_act) (auto simp: claims_def)

lemma careful_see: "(\<And>w. guar v w \<Longrightarrow> valid w \<Longrightarrow> Q c w (g w)) \<Longrightarrow> careful Q c v (see g)"
  unfolding see_def by (rule careful_quiet) (simp add: guar_refl)

lemma careful_weaken: "careful Q c v p \<Longrightarrow> (\<And>c v a. Q c v a \<Longrightarrow> R c v a) \<Longrightarrow> careful R c v p"
proof (induction rule: careful.induct)
  case (atomic v c g)
  have "\<exists>c'. claims c w c' (snd (g w)) \<and> careful R c' (snd (g w)) (fst (g w))" if "guar v w" "valid w" for w
    using atomic(1) [OF that] atomic(2) by blast
  then show ?case by (rule careful.atomic)
qed (simp add: careful.finish)

lemma careful_later: "careful Q c v p \<Longrightarrow> careful (\<lambda>c w a. Q c w a \<and> guar v w) c v p"
proof (induction rule: careful.induct)
  case (atomic v c g)
  have "\<exists>c'. claims c w c' (snd (g w)) \<and> careful (\<lambda>c u a. Q c u a \<and> guar v u) c' (snd (g w)) (fst (g w))" if w: "guar v w" "valid w" for w
  proof -
    obtain c' where c': "claims c w c' (snd (g w))" "careful (\<lambda>c u a. Q c u a \<and> guar (snd (g w)) u) c' (snd (g w)) (fst (g w))"
      using atomic [OF w] by blast
    then have "guar v (snd (g w))" using guar_trans [OF w(1)] by (simp add: claims_def)
    then have "careful (\<lambda>c u a. Q c u a \<and> guar v u) c' (snd (g w)) (fst (g w))"
      by (intro careful_weaken [OF c'(2)]) (auto intro: guar_trans)
    with c'(1) show ?thesis by blast
  qed
  then show ?case by (rule careful.atomic)
qed (simp add: careful.finish guar_refl)

text \<open>What others do: they neither claim nor send.\<close>

definition inert :: "('w \<Rightarrow> 'w \<Rightarrow> bool) \<Rightarrow> bool" where
  "inert outside \<longleftrightarrow> (\<forall>w w'. outside w w' \<longrightarrow> guar w w' \<and> sent w' = sent w)"

definition careful_requests :: "('w, 'a) prog set \<Rightarrow> bool" where
  "careful_requests requests \<longleftrightarrow> (\<forall>p\<in>requests. \<forall>v. careful (\<lambda>_ _ _. True) None v p)"

text \<open>
  The invariant of a pool, with the claim that each program holds: all claims are of different
  effects, none of which has been sent, and they are shut, as are those of all effects sent.
\<close>

definition accounted :: "'w list \<Rightarrow> (nat \<Rightarrow> 'k option) \<Rightarrow> 'w \<Rightarrow> bool" where
  "accounted ws cs w \<longleftrightarrow>
     distinct (map ident (sent w))
     \<and> (\<forall>i k. cs i = Some k \<longrightarrow> ident k \<notin> ident ` set (sent w))
     \<and> (\<forall>i j k l. i \<noteq> j \<longrightarrow> cs i = Some k \<longrightarrow> cs j = Some l \<longrightarrow> ident k \<noteq> ident l)
     \<and> (\<forall>k. k \<in> set (sent w) \<or> (\<exists>i. cs i = Some k) \<longrightarrow> shut (ident k) w \<and> (\<exists>v\<in>set ws. cleared k v))"

lemma accounted_guar:
  assumes "accounted ws cs w" "guar w w'" "sent w' = sent w"
  shows "accounted (ws @ [v]) cs w'"
  unfolding accounted_def assms(3)
  using assms(1) guar_shut [OF assms(2)] by (auto simp: accounted_def)

lemma accounted_drop: "accounted ws cs w \<Longrightarrow> accounted ws (cs(i := None)) w"
  by (auto simp: accounted_def)

lemma accounted_claims:
  assumes "accounted ws cs w" "claims (cs i) w c' w'"
  shows "accounted (ws @ [w]) (cs(i := c')) w'"
proof -
  have g: "guar w w'" using assms(2) by (simp add: claims_def)
  consider "c' = cs i \<or> c' = None" "sent w' = sent w" | k where "cs i = Some k" "c' = None" "sent w' = sent w @ [k]"
    | k where "cs i = None" "c' = Some k" "sent w' = sent w" "cleared k w" "\<not> shut (ident k) w" "shut (ident k) w'"
    using assms(2) by (auto simp: claims_def)
  then show ?thesis
  proof cases
    case 1
    then show ?thesis using accounted_guar [OF assms(1) g] accounted_drop by auto
  next
    case 2
    then show ?thesis using assms(1) guar_shut [OF g] by (auto simp: accounted_def)
  next
    case 3
    have fresh: "\<And>l. l \<in> set (sent w) \<or> (\<exists>j. cs j = Some l) \<Longrightarrow> ident l \<noteq> ident k"
      using assms(1) 3(5) unfolding accounted_def by metis
    then show ?thesis using assms(1) 3 guar_shut [OF g] by (auto simp: accounted_def)
  qed
qed

definition well_kept :: "'w list \<Rightarrow> ('w, 'a) prog list \<Rightarrow> 'w \<Rightarrow> (nat \<Rightarrow> 'k option) \<Rightarrow> bool" where
  "well_kept ws ps w cs \<longleftrightarrow>
     valid w \<and> (\<forall>i<length ps. \<exists>v. guar v w \<and> careful (\<lambda>_ _ _. True) (cs i) v (ps ! i)) \<and> (\<forall>i\<ge>length ps. cs i = None) \<and> accounted ws cs w"

lemma pool_kept:
  assumes "pool requests outside start ws ps w" "careful_requests requests" "inert outside" "sent start = []" "valid start"
  shows "\<exists>cs. well_kept ws ps w cs"
  using assms(1)
proof (induction rule: pool.induct)
  case start
  then show ?case using assms(4,5) by (intro exI [of _ "\<lambda>_. None"]) (simp add: well_kept_def accounted_def)
next
  case (arrive ws ps w p)
  then obtain cs where cs: "well_kept ws ps w cs" by blast
  have "careful (\<lambda>_ _ _. True) (cs (length ps)) w p" using assms(2) arrive(2) cs by (simp add: careful_requests_def well_kept_def)
  then show ?case using cs guar_refl by (intro exI [of _ cs]) (auto simp: well_kept_def nth_append less_Suc_eq)
next
  case (outside ws ps w w')
  then obtain cs where cs: "well_kept ws ps w cs" by blast
  have o: "guar w w'" "sent w' = sent w" using outside(2) assms(3) by (auto simp: inert_def)
  have "\<exists>v. guar v w' \<and> careful (\<lambda>_ _ _. True) (cs i) v (ps ! i)" if "i < length ps" for i
    using cs that guar_trans [OF _ o(1)] unfolding well_kept_def by blast
  then show ?case using cs accounted_guar [OF _ o] guar_valid [OF o(1)] unfolding well_kept_def by blast
next
  case (action ws ps w i g p w')
  then obtain cs where cs: "well_kept ws ps w cs" by blast
  then obtain v where "guar v w" "valid w" "careful (\<lambda>_ _ _. True) (cs i) v (Atomic g)" using action(2,3) unfolding well_kept_def by metis
  then obtain c' where c': "claims (cs i) w c' w'" "careful (\<lambda>_ _ _. True) c' w' p"
    using careful_next action(4) by (metis fst_conv snd_conv)
  have g: "guar w w'" using c'(1) by (simp add: claims_def)
  have "\<exists>u. guar u w' \<and> careful (\<lambda>_ _ _. True) ((cs(i := c')) j) u (ps[i := p] ! j)" if "j < length (ps[i := p])" for j
  proof (cases "j = i")
    case True
    then show ?thesis using c'(2) action(2) guar_refl by auto
  next
    case False
    then show ?thesis using cs that guar_trans [OF _ g] by (fastforce simp: well_kept_def)
  qed
  moreover have "\<forall>j\<ge>length (ps[i := p]). (cs(i := c')) j = None" using cs action(2) by (auto simp: well_kept_def)
  moreover have "accounted (ws @ [w]) (cs(i := c')) w'" using accounted_claims [of ws cs w i, OF _ c'(1)] cs by (simp add: well_kept_def)
  moreover have "valid w'" using cs guar_valid [OF g] by (simp add: well_kept_def)
  ultimately show ?case unfolding well_kept_def by blast
qed

lemma pool_guar:
  assumes "pool requests outside start ws ps w" "careful_requests requests" "inert outside" "sent start = []" "valid start"
  shows "(\<forall>v\<in>set ws. guar v w) \<and> guar start w"
  using assms(1)
proof (induction rule: pool.induct)
  case (outside ws ps w w')
  then have "guar w w'" using assms(3) by (simp add: inert_def)
  then show ?case using outside guar_trans by auto
next
  case (action ws ps w i g p w')
  obtain cs where "well_kept ws ps w cs" using pool_kept [OF action(1) assms(2-5)] by blast
  then obtain v where "guar v w" "valid w" "careful (\<lambda>_ _ _. True) (cs i) v (Atomic g)" using action(2,3) unfolding well_kept_def by metis
  then obtain c' where "claims (cs i) w c' w'" using careful_next action(4) by (metis snd_conv)
  then have "guar w w'" by (simp add: claims_def)
  then show ?case using action guar_trans by auto
qed (auto simp: guar_refl)

text \<open>In every reachable pool, effects sent are all different and each was cleared when it was claimed.\<close>

lemma sent_once:
  assumes "pool requests outside start ws ps w" "careful_requests requests" "inert outside" "sent start = []" "valid start"
  shows "distinct (map ident (sent w)) \<and> (\<forall>k\<in>set (sent w). shut (ident k) w \<and> (\<exists>v\<in>set ws. cleared k v))"
  using pool_kept [OF assms] by (auto simp: accounted_def well_kept_def)

end

end
