(* ===== verification/Merge_Policy.thy ===== *)
theory Merge_Policy
  imports Repo_Access Go_Time "HOL-Library.AList"
begin

text \<open>
  What has to hold of a pull request before it is merged: \<open>internal/service/pr_merge_policy.go\<close> and
  \<open>ci_policy.go\<close>. Reviews, workflow runs and commit statuses are rows; Go's maps are association
  lists with one entry for each key. The two JSON columns of a branch protection are decoded by
  \<open>encoding/json\<close>, so a row has what that gives, \<open>None\<close> where it fails. The selection of the CI
  backend and what a backend that is not native observes are arguments.
\<close>

section \<open>Rows\<close>

record pull_row =
  pl_id :: nat
  pl_number :: int
  pl_repository_id :: nat
  pl_head_repository_id :: nat
  pl_state :: string
  pl_merged :: bool
  pl_draft :: bool
  pl_head_ref :: string
  pl_head_sha :: string
  pl_base_ref :: string
  pl_base_sha :: string
  pl_merge_commit_sha :: string
  pl_merged_by_login :: string

record review_row =
  rw_id :: nat
  rw_pull_request_id :: nat
  rw_author_login :: string
  rw_state :: string
  rw_commit_sha :: string
  rw_created_at :: instant

record run_row =
  wr_repository_id :: nat
  wr_head_sha :: string
  wr_name :: string
  wr_status :: string
  wr_conclusion :: string
  wr_created_at :: instant
  wr_updated_at :: instant

record status_row =
  cs_repository_id :: nat
  cs_commit_sha :: string
  cs_context :: string
  cs_state :: string
  cs_created_at :: instant
  cs_updated_at :: instant

text \<open>An entry of the required checks has a context and a name; of required reviews the code reads two fields.\<close>

record required_checks =
  rk_strict :: bool
  rk_contexts :: "string list"
  rk_checks :: "(string \<times> string) list"

record required_reviews =
  rr_count :: int
  rr_bypass_users :: "string list"

record protection_row =
  bp_repository_id :: nat
  bp_branch :: string
  bp_enforce_admins :: bool
  bp_checks :: "required_checks option"
  bp_reviews :: "required_reviews option"

record ci_selection =
  ci_name :: string
  ci_required :: "string list option"

record ci_check =
  ck_name :: string
  ck_status :: string
  ck_conclusion :: string

text \<open>What the policy reads: tables, the selected backend of a repository and what it observes.\<close>

record policy_facts =
  pf_reviews :: "review_row list"
  pf_runs :: "run_row list"
  pf_statuses :: "status_row list"
  pf_protections :: "protection_row list"
  pf_selection :: "string \<Rightarrow> ci_selection option"
  pf_observed :: "pull_row \<Rightarrow> ci_check list option"

datatype policy_error = PolicyForbidden | PolicyInvalid | PolicyUnavailable

definition equal_fold :: "string \<Rightarrow> string \<Rightarrow> bool" where
  "equal_fold s t \<longleftrightarrow> to_lower s = to_lower t"

section \<open>Reviews\<close>

definition counted_review :: "string \<Rightarrow> string \<Rightarrow> review_row \<Rightarrow> bool" where
  "counted_review author head r \<longleftrightarrow>
     (let reviewer = trim_space (rw_author_login r)
      in reviewer \<noteq> [] \<and> \<not> equal_fold reviewer (trim_space author)
         \<and> trim_space (rw_commit_sha r) \<noteq> [] \<and> equal_fold (rw_commit_sha r) head)"

definition reviewer_key :: "review_row \<Rightarrow> string" where
  "reviewer_key r = to_lower (trim_space (rw_author_login r))"

definition in_review_order :: "review_row list \<Rightarrow> review_row list" where
  "in_review_order rs = sort_key rw_created_at (sort_key rw_id rs)"

fun latest_by_author :: "string \<Rightarrow> string \<Rightarrow> review_row list \<Rightarrow> (string \<times> review_row) list \<Rightarrow> (string \<times> review_row) list" where
  "latest_by_author author head [] m = m"
| "latest_by_author author head (r # rs) m =
     latest_by_author author head rs (if counted_review author head r then AList.update (reviewer_key r) r m else m)"

definition current_review_state :: "policy_facts \<Rightarrow> string \<Rightarrow> pull_row \<Rightarrow> nat \<times> bool" where
  "current_review_state e author pr =
     (let reviews = in_review_order (filter (\<lambda>r. rw_pull_request_id r = pl_id pr) (pf_reviews e));
          latest = map snd (latest_by_author author (pl_head_sha pr) reviews [])
      in (length (filter (\<lambda>r. rw_state r = ''APPROVED'') latest), list_ex (\<lambda>r. rw_state r = ''CHANGES_REQUESTED'') latest))"

definition bypass_user :: "string \<Rightarrow> string list \<Rightarrow> bool" where
  "bypass_user login users \<longleftrightarrow> list_ex (\<lambda>c. equal_fold (trim_space c) login) users"

section \<open>Checks\<close>

record check_state =
  ms_passed :: bool
  ms_completed :: bool
  ms_updated_at :: instant

type_synonym check_states = "(string \<times> check_state) list"

definition record_latest :: "string \<Rightarrow> check_state \<Rightarrow> check_states \<Rightarrow> check_states" where
  "record_latest name candidate m =
     (case map_of m name of
        Some existing \<Rightarrow> if \<not> ms_updated_at existing < ms_updated_at candidate then m else AList.update name candidate m
      | None \<Rightarrow> AList.update name candidate m)"

definition record_strictest :: "string \<Rightarrow> check_state \<Rightarrow> check_states \<Rightarrow> check_states" where
  "record_strictest name candidate m =
     (case map_of m name of
        None \<Rightarrow> AList.update name candidate m
      | Some existing \<Rightarrow> AList.update name \<lparr>ms_passed = ms_passed existing \<and> ms_passed candidate,
            ms_completed = ms_completed existing \<and> ms_completed candidate, ms_updated_at = 0\<rparr> m)"

definition check_satisfies :: "ci_check \<Rightarrow> bool" where
  "check_satisfies c \<longleftrightarrow> ck_status c = ''completed'' \<and> ck_conclusion c \<in> {''success'', ''neutral'', ''skipped''}"

definition observed_state :: "ci_check \<Rightarrow> check_state" where
  "observed_state c = \<lparr>ms_passed = check_satisfies c, ms_completed = (ck_status c = ''completed''), ms_updated_at = 0\<rparr>"

definition run_state :: "run_row \<Rightarrow> check_state" where
  "run_state r = \<lparr>ms_passed = (wr_status r = ''completed'' \<and> wr_conclusion r = ''success''),
     ms_completed = (wr_status r = ''completed''), ms_updated_at = wr_updated_at r\<rparr>"

definition status_state :: "status_row \<Rightarrow> check_state" where
  "status_state s = \<lparr>ms_passed = (cs_state s = ''success''), ms_completed = (cs_state s \<noteq> ''pending''), ms_updated_at = cs_updated_at s\<rparr>"

text \<open>The named states that the native backend folds: the runs of the head, then its statuses, newest first.\<close>

definition native_states :: "policy_facts \<Rightarrow> pull_row \<Rightarrow> (string \<times> check_state) list" where
  "native_states e pr =
     filter (\<lambda>(n, _). n \<noteq> [])
       (map (\<lambda>r. (trim_space (wr_name r), run_state r))
          (if pl_head_sha pr = [] then []
           else sort_key (\<lambda>r. - wr_created_at r) (filter (\<lambda>r. wr_repository_id r = pl_repository_id pr \<and> wr_head_sha r = pl_head_sha pr) (pf_runs e)))
        @ map (\<lambda>s. (trim_space (cs_context s), status_state s))
          (sort_key (\<lambda>s. - cs_created_at s)
             (filter (\<lambda>s. cs_repository_id s = pl_repository_id pr \<and> cs_commit_sha s = pl_head_sha pr) (pf_statuses e))))"

definition latest_status_checks :: "policy_facts \<Rightarrow> string \<Rightarrow> pull_row \<Rightarrow> policy_error + check_states" where
  "latest_status_checks e repository pr =
     (case pf_selection e repository of
        None \<Rightarrow> Inl PolicyUnavailable
      | Some sel \<Rightarrow>
          if ci_name sel \<noteq> ''native''
          then (case pf_observed e pr of
                  None \<Rightarrow> Inl PolicyUnavailable
                | Some checks \<Rightarrow> Inr (fold (\<lambda>c. record_strictest (ck_name c) (observed_state c)) checks []))
          else Inr (fold (\<lambda>(n, c). record_latest n c) (native_states e pr) []))"

fun collect_contexts :: "string list \<Rightarrow> string list \<Rightarrow> string list" where
  "collect_contexts [] contexts = contexts"
| "collect_contexts (name # names) contexts =
     (let n = trim_space name
      in collect_contexts names (if n = [] \<or> n \<in> set contexts then contexts else contexts @ [n]))"

definition required_contexts :: "required_checks \<Rightarrow> string list" where
  "required_contexts r = collect_contexts (rk_contexts r @ map (\<lambda>(c, n). if c \<noteq> [] then c else n) (rk_checks r)) []"

definition check_passed :: "check_states \<Rightarrow> string \<Rightarrow> bool" where
  "check_passed states name \<longleftrightarrow>
     (case map_of states name of None \<Rightarrow> False | Some s \<Rightarrow> ms_completed s \<and> ms_passed s)"

definition enforce_required_checks :: "policy_facts \<Rightarrow> string \<Rightarrow> pull_row \<Rightarrow> required_checks \<Rightarrow> policy_error + unit" where
  "enforce_required_checks e repository pr required =
     (let contexts = required_contexts required
      in if contexts = [] then Inr ()
         else rbind (latest_status_checks e repository pr) (\<lambda>states. check (list_all (check_passed states) contexts) PolicyInvalid))"

section \<open>The policy\<close>

definition branch_protection :: "policy_facts \<Rightarrow> nat \<Rightarrow> string \<Rightarrow> protection_row option" where
  "branch_protection e repository branch = find (\<lambda>b. bp_repository_id b = repository \<and> bp_branch b = branch) (pf_protections e)"

definition enforce_branch_protection ::
  "policy_facts \<Rightarrow> string \<Rightarrow> user_row \<Rightarrow> string \<Rightarrow> pull_row \<Rightarrow> protection_row \<Rightarrow> policy_error + unit" where
  "enforce_branch_protection e repository user author pr bp =
     (case bp_reviews bp of
        None \<Rightarrow> Inl PolicyInvalid
      | Some reviews \<Rightarrow>
          if \<not> bp_enforce_admins bp \<and> ur_site_admin user then Inr ()
          else rbind (if rr_count reviews > 0 \<and> \<not> bypass_user (ur_login user) (rr_bypass_users reviews)
                      then (case current_review_state e author pr of (approvals, changes) \<Rightarrow>
                              if changes then Inl PolicyInvalid else check (int approvals \<ge> rr_count reviews) PolicyInvalid)
                      else Inr ())
            (\<lambda>_. case bp_checks bp of
                   None \<Rightarrow> Inl PolicyInvalid
                 | Some required \<Rightarrow> if rk_strict required then Inl PolicyInvalid else enforce_required_checks e repository pr required))"

definition ci_required_checks :: "policy_facts \<Rightarrow> string \<Rightarrow> pull_row \<Rightarrow> policy_error + string list \<times> bool" where
  "ci_required_checks e repository pr =
     (case pf_selection e repository of
        None \<Rightarrow> Inl PolicyUnavailable
      | Some sel \<Rightarrow>
          (let known = (ci_name sel \<in> {''native'', ''none''} \<or> ci_required sel \<noteq> None);
               own = (case ci_required sel of None \<Rightarrow> [] | Some names \<Rightarrow> names)
           in case branch_protection e (pl_repository_id pr) (pl_base_ref pr) of
                None \<Rightarrow> Inr (own, known)
              | Some bp \<Rightarrow> (case bp_checks bp of
                    None \<Rightarrow> Inl PolicyInvalid
                  | Some policy \<Rightarrow> Inr (own @ required_contexts policy, True))))"

definition enforce_configured_ci :: "policy_facts \<Rightarrow> string \<Rightarrow> pull_row \<Rightarrow> policy_error + unit" where
  "enforce_configured_ci e repository pr =
     (case pf_selection e repository of
        None \<Rightarrow> Inl PolicyUnavailable
      | Some sel \<Rightarrow>
          if ci_name sel = ''native''
          then (case ci_required sel of
                  None \<Rightarrow> Inr ()
                | Some names \<Rightarrow>
                    if names = [] then Inr ()
                    else rbind (latest_status_checks e repository pr) (\<lambda>states. check (list_all (check_passed states) names) PolicyInvalid))
          else rbind (ci_required_checks e repository pr) (\<lambda>(required, known).
                 if \<not> known \<or> required = [] then Inr ()
                 else case pf_observed e pr of
                   None \<Rightarrow> Inl PolicyUnavailable
                 | Some checks \<Rightarrow>
                     rbind (check (list_all check_satisfies (filter (\<lambda>c. ck_name c \<in> set required) checks)) PolicyInvalid)
                       (\<lambda>_. check (list_all (\<lambda>n. n \<in> set (map ck_name checks)) required) PolicyInvalid)))"

definition enforce_merge_policy ::
  "nat \<Rightarrow> policy_facts \<Rightarrow> string \<Rightarrow> user_row \<Rightarrow> string \<Rightarrow> pull_row \<Rightarrow> database \<Rightarrow> (policy_error + unit) \<times> database" where
  "enforce_merge_policy fresh e repository user author pr d =
     (case has_repo_access fresh None d (pl_repository_id pr) (ur_id user) of
        (Inl _, d1) \<Rightarrow> (Inl PolicyUnavailable, d1)
      | (Inr permission, d1) \<Rightarrow>
          (if \<not> at_least permission RepoPermissionWrite then Inl PolicyForbidden
           else rbind (enforce_configured_ci e repository pr) (\<lambda>_.
                  case branch_protection e (pl_repository_id pr) (pl_base_ref pr) of
                    None \<Rightarrow> Inr ()
                  | Some bp \<Rightarrow> enforce_branch_protection e repository user author pr bp), d1))"

section \<open>What the folds compute\<close>

text \<open>The last review that counts of each reviewer.\<close>

definition last_review :: "string \<Rightarrow> string \<Rightarrow> review_row list \<Rightarrow> string \<Rightarrow> review_row \<Rightarrow> bool" where
  "last_review author head rs k r \<longleftrightarrow>
     (\<exists>before after. rs = before @ r # after \<and> counted_review author head r \<and> reviewer_key r = k
        \<and> (\<forall>q\<in>set after. counted_review author head q \<longrightarrow> reviewer_key q \<noteq> k))"

lemma last_review_Nil: "\<not> last_review author head [] k r"
  by (simp add: last_review_def)

lemma last_review_Cons:
  "last_review author head (q # rs) k r \<longleftrightarrow>
     last_review author head rs k r
     \<or> q = r \<and> counted_review author head q \<and> reviewer_key q = k \<and> (\<forall>x\<in>set rs. counted_review author head x \<longrightarrow> reviewer_key x \<noteq> k)"
  unfolding last_review_def by (auto simp: Cons_eq_append_conv)

lemma last_review_none: "(\<forall>r. \<not> last_review author head rs k r) \<longleftrightarrow> (\<forall>x\<in>set rs. counted_review author head x \<longrightarrow> reviewer_key x \<noteq> k)"
  by (induction rs) (auto simp: last_review_Nil last_review_Cons)

lemma latest_by_author_lookup:
  "map_of (latest_by_author author head rs m) k = Some r \<longleftrightarrow>
     last_review author head rs k r \<or> (\<nexists>q. last_review author head rs k q) \<and> map_of m k = Some r"
proof (induction rs arbitrary: m)
  case Nil
  then show ?case by (simp add: last_review_Nil)
next
  case (Cons q rs)
  have none: "(\<forall>x. \<not> last_review author head (q # rs) k x) \<longleftrightarrow> (\<forall>x. \<not> last_review author head rs k x) \<and> (counted_review author head q \<longrightarrow> reviewer_key q \<noteq> k)"
    by (auto simp: last_review_none)
  have some: "last_review author head rs k r \<Longrightarrow> \<not> (\<forall>x. \<not> last_review author head rs k x)" by blast
  show ?case
    unfolding latest_by_author.simps Cons.IH not_ex none
    unfolding last_review_Cons last_review_none [symmetric]
    using some by (auto simp: AList.update_conv')
qed

lemma latest_by_author_keys: "distinct (map fst m) \<Longrightarrow> distinct (map fst (latest_by_author author head rs m))"
  by (induction rs arbitrary: m) (simp_all add: AList.distinct_update)

lemma latest_by_author_members:
  "(k, r) \<in> set (latest_by_author author head rs []) \<longleftrightarrow> last_review author head rs k r"
  using latest_by_author_lookup [of author head rs "[]" k r] map_of_eq_Some_iff [OF latest_by_author_keys [of "[]" author head rs]] by simp

lemma count_by_key:
  assumes "distinct (map fst m)"
  shows "length (filter P (map snd m)) = card {k. \<exists>r. (k, r) \<in> set m \<and> P r}"
proof -
  have "{k. \<exists>r. (k, r) \<in> set m \<and> P r} = set (map fst (filter (\<lambda>x. P (snd x)) m))" by force
  moreover have "distinct (map fst (filter (\<lambda>x. P (snd x)) m))" by (rule distinct_map_filter [OF assms])
  ultimately have "card {k. \<exists>r. (k, r) \<in> set m \<and> P r} = length (map fst (filter (\<lambda>x. P (snd x)) m))" using distinct_card by metis
  then show ?thesis by (simp add: filter_map comp_def)
qed

definition reviews_of :: "policy_facts \<Rightarrow> pull_row \<Rightarrow> review_row list" where
  "reviews_of e pr = in_review_order (filter (\<lambda>r. rw_pull_request_id r = pl_id pr) (pf_reviews e))"

lemma review_state_exact:
  "fst (current_review_state e author pr) = card {k. \<exists>r. last_review author (pl_head_sha pr) (reviews_of e pr) k r \<and> rw_state r = ''APPROVED''}"
  "snd (current_review_state e author pr) \<longleftrightarrow> (\<exists>k r. last_review author (pl_head_sha pr) (reviews_of e pr) k r \<and> rw_state r = ''CHANGES_REQUESTED'')"
proof -
  have d: "distinct (map fst (latest_by_author author (pl_head_sha pr) (reviews_of e pr) []))" by (rule latest_by_author_keys) simp
  show "fst (current_review_state e author pr) = card {k. \<exists>r. last_review author (pl_head_sha pr) (reviews_of e pr) k r \<and> rw_state r = ''APPROVED''}"
    using count_by_key [OF d, of "\<lambda>r. rw_state r = ''APPROVED''"]
    by (simp add: current_review_state_def Let_def latest_by_author_members reviews_of_def)
  show "snd (current_review_state e author pr) \<longleftrightarrow> (\<exists>k r. last_review author (pl_head_sha pr) (reviews_of e pr) k r \<and> rw_state r = ''CHANGES_REQUESTED'')"
    unfolding latest_by_author_members [symmetric] by (force simp: current_review_state_def Let_def reviews_of_def list_ex_iff)
qed

text \<open>A name passes the strict fold when it was observed and every observation of it satisfies.\<close>

lemma observed_facts: "ms_passed (observed_state c) \<longleftrightarrow> check_satisfies c" "ms_completed (observed_state c) \<longleftrightarrow> ck_status c = ''completed''"
  by (simp_all add: observed_state_def)

lemma strictest_step:
  "map_of (record_strictest (ck_name c) (observed_state c) m) n =
     (if ck_name c \<noteq> n then map_of m n
      else case map_of m n of
        None \<Rightarrow> Some (observed_state c)
      | Some s \<Rightarrow> Some \<lparr>ms_passed = ms_passed s \<and> check_satisfies c,
          ms_completed = ms_completed s \<and> ck_status c = ''completed'', ms_updated_at = 0\<rparr>)"
  by (auto simp: record_strictest_def observed_state_def AList.update_conv' split: option.split)

lemma strictest_fold:
  "check_passed (fold (\<lambda>c. record_strictest (ck_name c) (observed_state c)) checks m) n \<longleftrightarrow>
     ((\<exists>c\<in>set checks. ck_name c = n) \<or> map_of m n \<noteq> None) \<and> (\<forall>c\<in>set checks. ck_name c = n \<longrightarrow> check_satisfies c)
     \<and> (\<forall>s. map_of m n = Some s \<longrightarrow> ms_completed s \<and> ms_passed s)"
proof (induction checks arbitrary: m)
  case Nil
  then show ?case by (auto simp: check_passed_def split: option.split)
next
  case (Cons c checks)
  have "check_satisfies c \<Longrightarrow> ck_status c = ''completed''" by (simp add: check_satisfies_def)
  then show ?case
    by (cases "ck_name c = n"; cases "map_of m n") (auto simp: Cons.IH strictest_step observed_facts)
qed

lemma strictest_exact:
  "check_passed (fold (\<lambda>c. record_strictest (ck_name c) (observed_state c)) checks []) n \<longleftrightarrow>
     (\<exists>c\<in>set checks. ck_name c = n) \<and> (\<forall>c\<in>set checks. ck_name c = n \<longrightarrow> check_satisfies c)"
  by (simp add: strictest_fold)

text \<open>A name passes the native fold when one of its newest states is complete and passed.\<close>

lemma latest_fold:
  assumes "map_of (fold (\<lambda>(n, c). record_latest n c) cs m) n = Some t"
  shows "((n, t) \<in> set cs \<or> map_of m n = Some t) \<and> (\<forall>s. (n, s) \<in> set cs \<or> map_of m n = Some s \<longrightarrow> ms_updated_at s \<le> ms_updated_at t)"
  using assms
proof (induction cs arbitrary: m)
  case (Cons x cs)
  obtain k s where x: "x = (k, s)" by force
  from Cons.IH [of "record_latest k s m"] Cons.prems x
  have *: "((n, t) \<in> set cs \<or> map_of (record_latest k s m) n = Some t)
      \<and> (\<forall>u. (n, u) \<in> set cs \<or> map_of (record_latest k s m) n = Some u \<longrightarrow> ms_updated_at u \<le> ms_updated_at t)" by simp
  show ?case
  proof (cases "k = n")
    case False
    then have "map_of (record_latest k s m) n = map_of m n" by (simp add: record_latest_def AList.update_conv' split: option.split)
    then show ?thesis using * False x by auto
  next
    case True
    show ?thesis
    proof (cases "map_of m n")
      case None
      then have "map_of (record_latest k s m) n = Some s" using True by (simp add: record_latest_def AList.update_conv')
      then show ?thesis using * True x None by auto
    next
      case (Some old)
      then have "map_of (record_latest k s m) n = Some (if ms_updated_at old < ms_updated_at s then s else old)"
        using True by (simp add: record_latest_def AList.update_conv')
      then show ?thesis using * True x Some by (auto split: if_splits)
    qed
  qed
qed simp

section \<open>What a merge that passes has\<close>

lemma collect_contexts_set: "set (collect_contexts names contexts) = set contexts \<union> (trim_space ` set names - {[]})"
  by (induction names arbitrary: contexts) (auto simp: Let_def)

text \<open>The names that a protection asks for.\<close>

definition required_names :: "required_checks \<Rightarrow> string set" where
  "required_names r = trim_space ` (set (rk_contexts r) \<union> (\<lambda>(c, n). if c \<noteq> [] then c else n) ` set (rk_checks r)) - {[]}"

lemma required_contexts_set: "set (required_contexts r) = required_names r"
  by (simp add: required_contexts_def required_names_def collect_contexts_set image_Un)

definition satisfied :: "policy_facts \<Rightarrow> string \<Rightarrow> pull_row \<Rightarrow> string \<Rightarrow> bool" where
  "satisfied e repository pr n \<longleftrightarrow>
     (\<exists>sel. pf_selection e repository = Some sel \<and>
        (if ci_name sel = ''native''
         then \<exists>t. (n, t) \<in> set (native_states e pr) \<and> ms_completed t \<and> ms_passed t
                \<and> (\<forall>s. (n, s) \<in> set (native_states e pr) \<longrightarrow> ms_updated_at s \<le> ms_updated_at t)
         else \<exists>checks. pf_observed e pr = Some checks \<and> (\<exists>c\<in>set checks. ck_name c = n)
                \<and> (\<forall>c\<in>set checks. ck_name c = n \<longrightarrow> check_satisfies c)))"

lemma status_satisfied:
  assumes "latest_status_checks e repository pr = Inr states" "check_passed states n"
  shows "satisfied e repository pr n"
proof -
  obtain sel where sel: "pf_selection e repository = Some sel"
    using assms(1) by (cases "pf_selection e repository") (auto simp: latest_status_checks_def)
  show ?thesis
  proof (cases "ci_name sel = ''native''")
    case True
    then have "states = fold (\<lambda>(n, c). record_latest n c) (native_states e pr) []"
      using assms(1) sel by (simp add: latest_status_checks_def)
    moreover obtain t where t: "map_of states n = Some t" "ms_completed t" "ms_passed t"
      using assms(2) by (auto simp: check_passed_def split: option.splits)
    ultimately show ?thesis
      using latest_fold [of "native_states e pr" "[]" n t] sel True unfolding satisfied_def by auto
  next
    case False
    then obtain checks where "pf_observed e pr = Some checks"
      "states = fold (\<lambda>c. record_strictest (ck_name c) (observed_state c)) checks []"
      using assms(1) sel by (auto simp: latest_status_checks_def split: option.splits)
    then show ?thesis using assms(2) sel False strictest_exact [of checks n] unfolding satisfied_def by auto
  qed
qed

lemma required_satisfied:
  assumes "enforce_required_checks e repository pr required = Inr ()" "n \<in> required_names required"
  shows "satisfied e repository pr n"
proof -
  have n: "n \<in> set (required_contexts required)" using assms(2) by (simp add: required_contexts_set)
  then obtain states where "latest_status_checks e repository pr = Inr states" "list_all (check_passed states) (required_contexts required)"
    using assms(1) by (cases "latest_status_checks e repository pr") (auto simp: enforce_required_checks_def Let_def check_def split: if_splits)
  then show ?thesis using n by (intro status_satisfied) (auto simp: list_all_iff)
qed

lemma configured_satisfied:
  assumes "enforce_configured_ci e repository pr = Inr ()" "pf_selection e repository = Some sel"
  shows "ci_required sel = Some names \<Longrightarrow> n \<in> set names \<Longrightarrow> satisfied e repository pr n"
    and "ci_name sel \<noteq> ''native'' \<Longrightarrow> branch_protection e (pl_repository_id pr) (pl_base_ref pr) = Some bp
      \<Longrightarrow> \<exists>rk. bp_checks bp = Some rk \<and> (\<forall>n\<in>required_names rk. satisfied e repository pr n)"
proof -
  have observed: "\<forall>n\<in>set required. satisfied e repository pr n"
    if own: "ci_name sel \<noteq> ''native''" "ci_required_checks e repository pr = Inr (required, True)" for required
  proof (cases "required = []")
    case False
    then obtain checks where c: "pf_observed e pr = Some checks"
      using assms own False by (cases "pf_observed e pr") (auto simp: enforce_configured_ci_def)
    then have "list_all check_satisfies (filter (\<lambda>c. ck_name c \<in> set required) checks)" "list_all (\<lambda>n. n \<in> set (map ck_name checks)) required"
      using assms own False
      by (auto simp: enforce_configured_ci_def check_def list_all_iff split: if_splits)
    then show ?thesis using assms(2) own(1) c unfolding satisfied_def by (auto simp: list_all_iff)
  qed simp
  show "satisfied e repository pr n" if r: "ci_required sel = Some names" "n \<in> set names"
  proof (cases "ci_name sel = ''native''")
    case True
    have "names \<noteq> []" using r(2) by auto
    then obtain states where "latest_status_checks e repository pr = Inr states" "list_all (check_passed states) names"
      using assms r True
      by (cases "latest_status_checks e repository pr") (auto simp: enforce_configured_ci_def check_def split: if_splits)
    then show ?thesis using r(2) by (intro status_satisfied) (auto simp: list_all_iff)
  next
    case False
    have "\<exists>required. ci_required_checks e repository pr = Inr (required, True) \<and> set names \<subseteq> set required"
      using assms r False
      by (auto simp: enforce_configured_ci_def ci_required_checks_def Let_def split: option.splits)
    then show ?thesis using observed [OF False] r(2) by blast
  qed
  show "\<exists>rk. bp_checks bp = Some rk \<and> (\<forall>n\<in>required_names rk. satisfied e repository pr n)"
    if other: "ci_name sel \<noteq> ''native''" and bp: "branch_protection e (pl_repository_id pr) (pl_base_ref pr) = Some bp"
  proof -
    obtain rk where rk: "bp_checks bp = Some rk"
      using assms other bp by (cases "bp_checks bp") (auto simp: enforce_configured_ci_def ci_required_checks_def Let_def split: option.splits)
    then have "\<exists>required. ci_required_checks e repository pr = Inr (required, True) \<and> set (required_contexts rk) \<subseteq> set required"
      using assms(2) other bp by (auto simp: ci_required_checks_def Let_def)
    then show ?thesis using observed [OF other] rk required_contexts_set by blast
  qed
qed

text \<open>What a protection that is not waived comes to.\<close>

definition protection_met :: "policy_facts \<Rightarrow> string \<Rightarrow> user_row \<Rightarrow> string \<Rightarrow> pull_row \<Rightarrow> protection_row \<Rightarrow> bool" where
  "protection_met e repository user author pr bp \<longleftrightarrow>
     (\<exists>rr rk. bp_reviews bp = Some rr \<and> bp_checks bp = Some rk \<and> \<not> rk_strict rk
        \<and> (rr_count rr > 0 \<longrightarrow> \<not> bypass_user (ur_login user) (rr_bypass_users rr) \<longrightarrow>
             (\<nexists>k r. last_review author (pl_head_sha pr) (reviews_of e pr) k r \<and> rw_state r = ''CHANGES_REQUESTED'')
             \<and> rr_count rr \<le> int (card {k. \<exists>r. last_review author (pl_head_sha pr) (reviews_of e pr) k r \<and> rw_state r = ''APPROVED''}))
        \<and> (\<forall>n\<in>required_names rk. satisfied e repository pr n))"

lemma branch_protection_met:
  assumes "enforce_branch_protection e repository user author pr bp = Inr ()" "bp_enforce_admins bp \<or> \<not> ur_site_admin user"
  shows "protection_met e repository user author pr bp"
proof -
  obtain rr where rr: "bp_reviews bp = Some rr"
    using assms by (cases "bp_reviews bp") (auto simp: enforce_branch_protection_def)
  have reviews: "(if rr_count rr > 0 \<and> \<not> bypass_user (ur_login user) (rr_bypass_users rr)
       then (case current_review_state e author pr of (approvals, changes) \<Rightarrow>
              if changes then Inl PolicyInvalid else check (int approvals \<ge> rr_count rr) PolicyInvalid)
       else Inr ()) = Inr ()" (is "?r = _")
    using assms rr by (cases ?r) (auto simp: enforce_branch_protection_def)
  then have rest: "(case bp_checks bp of None \<Rightarrow> Inl PolicyInvalid
      | Some required \<Rightarrow> if rk_strict required then Inl PolicyInvalid else enforce_required_checks e repository pr required) = Inr ()"
    using assms rr by (auto simp: enforce_branch_protection_def)
  then obtain rk where rk: "bp_checks bp = Some rk" "\<not> rk_strict rk" "enforce_required_checks e repository pr rk = Inr ()"
    by (auto split: option.splits if_splits)
  have "\<not> snd (current_review_state e author pr)" "rr_count rr \<le> int (fst (current_review_state e author pr))"
    if "rr_count rr > 0" "\<not> bypass_user (ur_login user) (rr_bypass_users rr)"
    using reviews that by (auto simp: check_def split: prod.splits if_splits)
  then show ?thesis
    unfolding protection_met_def using rr rk required_satisfied [OF rk(3)] by (auto simp: review_state_exact)
qed

text \<open>
  C5. A merge passes the policy only with write permission on the repository. Where the base branch
  is protected, and the merger is not a site admin or the protection is enforced on admins, it passes
  only without strict mode and with every required name satisfied; and unless the required number of
  reviews is not positive or the merger is listed to bypass reviews, only with that number of
  reviewers other than the author whose last review of the head approves, and with none whose last
  review of the head asks for changes. A name is satisfied by its newest complete state on the
  native backend and by all of its observations on another. Names configured for the CI backend hold
  in any case, and on another backend so do those of the protection, waived or not.
\<close>

theorem merge_policy_sound:
  assumes "enforce_merge_policy fresh e repository user author pr d = (Inr (), d1)"
  shows "(\<exists>permission. has_repo_access fresh None d (pl_repository_id pr) (ur_id user) = (Inr permission, d1) \<and> at_least permission RepoPermissionWrite)
    \<and> (\<forall>bp. branch_protection e (pl_repository_id pr) (pl_base_ref pr) = Some bp \<longrightarrow> bp_enforce_admins bp \<or> \<not> ur_site_admin user
        \<longrightarrow> protection_met e repository user author pr bp)
    \<and> (\<exists>sel. pf_selection e repository = Some sel
        \<and> (\<forall>names n. ci_required sel = Some names \<longrightarrow> n \<in> set names \<longrightarrow> satisfied e repository pr n)
        \<and> (ci_name sel \<noteq> ''native'' \<longrightarrow> (\<forall>bp. branch_protection e (pl_repository_id pr) (pl_base_ref pr) = Some bp
             \<longrightarrow> (\<exists>rk. bp_checks bp = Some rk \<and> (\<forall>n\<in>required_names rk. satisfied e repository pr n)))))"
proof -
  obtain permission where p: "has_repo_access fresh None d (pl_repository_id pr) (ur_id user) = (Inr permission, d1)" "at_least permission RepoPermissionWrite"
    using assms by (auto simp: enforce_merge_policy_def split: prod.splits sum.splits if_splits)
  have ci: "enforce_configured_ci e repository pr = Inr ()"
    using assms p by (cases "enforce_configured_ci e repository pr") (auto simp: enforce_merge_policy_def)
  then obtain sel where sel: "pf_selection e repository = Some sel"
    by (cases "pf_selection e repository") (auto simp: enforce_configured_ci_def)
  have "protection_met e repository user author pr bp"
    if "branch_protection e (pl_repository_id pr) (pl_base_ref pr) = Some bp" "bp_enforce_admins bp \<or> \<not> ur_site_admin user" for bp
    using assms p ci that by (intro branch_protection_met) (auto simp: enforce_merge_policy_def)
  then show ?thesis using p sel configured_satisfied [OF ci sel] by blast
qed

section \<open>A small repository\<close>

text \<open>A protected branch, a pull request opened by the second user, and reviews of both.\<close>

definition policy_head :: string where "policy_head = replicate 40 CHR ''b''"

definition policy_pull :: pull_row where
  "policy_pull = \<lparr>pl_id = 5, pl_number = 11, pl_repository_id = 7, pl_head_repository_id = 0, pl_state = ''open'', pl_merged = False, pl_draft = False,
     pl_head_ref = ''topic'', pl_head_sha = policy_head, pl_base_ref = ''main'', pl_base_sha = replicate 40 CHR ''a'', pl_merge_commit_sha = [],
     pl_merged_by_login = []\<rparr>"

definition policy_review :: "nat \<Rightarrow> string \<Rightarrow> string \<Rightarrow> review_row" where
  "policy_review i login state = \<lparr>rw_id = i, rw_pull_request_id = 5, rw_author_login = login, rw_state = state, rw_commit_sha = policy_head, rw_created_at = int i\<rparr>"

definition policy_run :: "int \<Rightarrow> string \<Rightarrow> run_row" where
  "policy_run t conclusion = \<lparr>wr_repository_id = 7, wr_head_sha = policy_head, wr_name = ''build'', wr_status = ''completed'', wr_conclusion = conclusion,
     wr_created_at = t, wr_updated_at = t\<rparr>"

definition policy_sample :: "review_row list \<Rightarrow> policy_facts" where
  "policy_sample reviews = \<lparr>pf_reviews = reviews, pf_runs = [policy_run 3 ''failure'', policy_run 8 ''success''], pf_statuses = [],
     pf_protections = [\<lparr>bp_repository_id = 7, bp_branch = ''main'', bp_enforce_admins = True,
        bp_checks = Some \<lparr>rk_strict = False, rk_contexts = ['' build ''], rk_checks = []\<rparr>,
        bp_reviews = Some \<lparr>rr_count = 1, rr_bypass_users = []\<rparr>\<rparr>],
     pf_selection = (\<lambda>_. Some \<lparr>ci_name = ''native'', ci_required = None\<rparr>), pf_observed = (\<lambda>_. None)\<rparr>"

definition policy_user :: user_row where "policy_user = ts_users sample_tables ! 0"

definition policy_of :: "review_row list \<Rightarrow> string \<Rightarrow> (policy_error + unit) \<times> database" where
  "policy_of reviews author = enforce_merge_policy 5 (policy_sample reviews) ''org/repo'' policy_user author policy_pull (sample_database sample_tables [])"

lemma policy_values:
  "fst (policy_of [policy_review 1 ''u1'' ''CHANGES_REQUESTED'', policy_review 2 ''u1'' ''APPROVED''] ''u2'') = Inr ()"
  "''build'' \<in> required_names \<lparr>rk_strict = False, rk_contexts = ['' build ''], rk_checks = []\<rparr>"
  "branch_protection (policy_sample reviews) 7 ''main'' = Some \<lparr>bp_repository_id = 7, bp_branch = ''main'', bp_enforce_admins = True,
        bp_checks = Some \<lparr>rk_strict = False, rk_contexts = ['' build ''], rk_checks = []\<rparr>,
        bp_reviews = Some \<lparr>rr_count = 1, rr_bypass_users = []\<rparr>\<rparr>"
  by code_simp+

theorem merge_policy_sound_witness:
  "\<exists>reviews. fst (policy_of reviews ''u2'') = Inr ()
     \<and> satisfied (policy_sample reviews) ''org/repo'' policy_pull ''build''
     \<and> 1 \<le> int (card {k. \<exists>r. last_review ''u2'' policy_head (reviews_of (policy_sample reviews) policy_pull) k r \<and> rw_state r = ''APPROVED''})"
proof -
  define reviews where "reviews = [policy_review 1 ''u1'' ''CHANGES_REQUESTED'', policy_review 2 ''u1'' ''APPROVED'']"
  obtain d1 where ok: "policy_of reviews ''u2'' = (Inr (), d1)"
    using policy_values(1) unfolding reviews_def by (metis prod.collapse)
  note sound = merge_policy_sound [OF ok [unfolded policy_of_def]]
  have pull: "pl_repository_id policy_pull = 7" "pl_base_ref policy_pull = ''main''" "pl_head_sha policy_pull = policy_head"
    by (simp_all add: policy_pull_def)
  have "protection_met (policy_sample reviews) ''org/repo'' policy_user ''u2'' policy_pull
      (the (branch_protection (policy_sample reviews) 7 ''main''))"
    using sound by (simp add: pull policy_values(3))
  then show ?thesis
    using ok policy_values(2) by (intro exI [of _ reviews]) (simp add: protection_met_def policy_values(3) pull bypass_user_def)
qed

text \<open>
  The preflight of a merge through an Access Grant passes pull requests that were read without their
  author, so that the approval of the author counts, which the policy itself means to leave out.
\<close>

lemma unread_author_approves:
  "fst (policy_of [policy_review 1 ''u2'' ''APPROVED''] ''u2'') = Inl PolicyInvalid"
  "fst (policy_of [policy_review 1 ''u2'' ''APPROVED''] []) = Inr ()"
  by code_simp+

end
