(* ===== verification/Merge_Intent.thy ===== *)
theory Merge_Intent
  imports Interleaving Merge_Policy Transport_Session
begin

text \<open>
  Merging a pull request of a forge under an Access Grant: \<open>internal/service/access_grant_merge.go\<close>
  and \<open>access_grant_merge_runtime.go\<close>, with \<open>provider_merge_result.go\<close> and the acknowledgement of
  \<open>provider_merge_reconcile.go\<close>. A handler is a program of atomic actions: the statements and
  transactions of the database, the reads of git and of the forge, and the one call that merges,
  which is recorded. The state outside, git repositories and the forge, is a type variable; the
  functions that read and change it are fields of \<open>merge_env\<close>.
\<close>

section \<open>The world\<close>

record projection_row =
  pj_pull_request_id :: nat
  pj_provider :: string
  pj_external_repo :: string
  pj_external_number :: int
  pj_external_url :: string
  pj_last_synced_sha :: string

text \<open>A call of \<open>MergePullRequest\<close>, with the invocation it is made for.\<close>

record merge_post =
  po_invocation :: string
  po_repository :: string
  po_provider_repo :: string
  po_number :: int
  po_method :: string
  po_head :: string

record 'p merge_world =
  mw_store :: grant_store
  mw_pulls :: "pull_row list"
  mw_projections :: "projection_row list"
  mw_policy :: policy_facts
  mw_now :: instant
  mw_outside :: 'p
  mw_posts :: "merge_post list"

record pull_snapshot =
  ps_state :: string
  ps_merged :: bool
  ps_mergeable :: bool
  ps_merge_commit_sha :: string
  ps_head_sha :: string
  ps_base_ref :: string
  ps_base_sha :: string

record merge_result =
  mr_outcome :: string
  mr_snapshot :: pull_snapshot

record merge_binding =
  mb_target_instance :: string
  mb_canonical_repository :: string
  mb_provider_repository :: string
  mb_base_ref :: string
  mb_merge_method :: string

record workflow_run =
  wf_id :: int
  wf_name :: string
  wf_workflow_id :: string
  wf_status :: string
  wf_head_sha :: string
  wf_updated_at :: string

record effect_input =
  ei_repository :: string
  ei_ags_number :: string
  ei_provider_number :: string
  ei_head :: string
  ei_method :: string

record 'p merge_env =
  me_grant :: grant_env
  me_forge :: bool
  me_git :: bool
  me_effect_digest :: "effect_input \<Rightarrow> string"
  me_requires_ci :: "string \<Rightarrow> bool"
  me_ff_ack :: "string \<Rightarrow> bool"
  me_url_ok :: "string \<Rightarrow> bool"
  me_binding :: "string \<Rightarrow> nat \<Rightarrow> string \<Rightarrow> string \<Rightarrow> merge_binding option"
  me_base :: "string \<Rightarrow> string \<Rightarrow> 'p \<Rightarrow> string option"
  me_remote_base :: "string \<Rightarrow> string \<Rightarrow> 'p \<Rightarrow> string option"
  me_ancestor :: "string \<Rightarrow> string \<Rightarrow> string \<Rightarrow> 'p \<Rightarrow> bool option"
  me_snapshot :: "string \<Rightarrow> string \<Rightarrow> int \<Rightarrow> 'p \<Rightarrow> pull_snapshot option"
  me_authority :: "string \<Rightarrow> string \<Rightarrow> 'p \<Rightarrow> bool"
  me_runs :: "string \<Rightarrow> string \<Rightarrow> int \<Rightarrow> string \<Rightarrow> string \<Rightarrow> 'p \<Rightarrow> workflow_run list option"
  me_merge :: "merge_post \<Rightarrow> 'p \<Rightarrow> merge_result option \<times> 'p"
  me_update_refs :: "string \<Rightarrow> string \<Rightarrow> string \<Rightarrow> string \<Rightarrow> string \<Rightarrow> string \<Rightarrow> 'p \<Rightarrow> 'p option"

datatype merge_error = GrantFailure grant_error | PolicyFailure policy_error | StateChanged

type_synonym ('p, 'a) merge_prog = "('p merge_world, 'a) prog"
type_synonym merge_answer = "merge_error + invocation_receipt"

section \<open>Small checks\<close>

definition exact_git_sha :: "string \<Rightarrow> string \<Rightarrow> bool" where
  "exact_git_sha a b \<longleftrightarrow> trim_space a \<noteq> [] \<and> equal_fold (trim_space a) (trim_space b)"

text \<open>A UUID that \<open>uuid.Parse\<close> accepts and \<open>String\<close> gives back unchanged.\<close>

definition canonical_uuid :: "string \<Rightarrow> bool" where
  "canonical_uuid s \<longleftrightarrow> length s = 36
     \<and> list_all (\<lambda>i. if i \<in> {8, 13, 18, 23} then s ! i = CHR ''-'' else lower_hex (s ! i)) [0..<36]"

definition pr_merge_constraints :: "int \<Rightarrow> int \<Rightarrow> string \<Rightarrow> string \<Rightarrow> vals option" where
  "pr_merge_constraints ags_number provider_number head method =
     normalize_stored ''pr.merge''
       [(''pull_request_number'', format_int ags_number), (''forgejo_pull_request_number'', format_int provider_number),
        (''expected_head_sha'', trim_space head), (''merge_method'', trim_space method)]"

definition number_or_0 :: "string \<Rightarrow> int" where
  "number_or_0 s = (case parse_int64 s of None \<Rightarrow> 0 | Some n \<Rightarrow> n)"

definition preflight_ags_number :: "vals \<Rightarrow> int" where
  "preflight_ags_number c = number_or_0 (get0 c ''pull_request_number'')"

definition preflight_pr_number :: "vals \<Rightarrow> int" where
  "preflight_pr_number c = number_or_0 (get0 c ''forgejo_pull_request_number'')"

definition merge_effect_key :: "'p merge_env \<Rightarrow> string \<Rightarrow> vals \<Rightarrow> string option" where
  "merge_effect_key env repository constraints =
     (case normalize_stored ''pr.merge'' constraints of
        None \<Rightarrow> None
      | Some c \<Rightarrow>
          if trim_char (CHR ''/'') (trim_space repository) = [] then None
          else Some (me_effect_digest env \<lparr>ei_repository = trim_char (CHR ''/'') repository,
                 ei_ags_number = get0 c ''pull_request_number'', ei_provider_number = get0 c ''forgejo_pull_request_number'',
                 ei_head = get0 c ''expected_head_sha'', ei_method = get0 c ''merge_method''\<rparr>))"

definition same_invocation :: "grant_facts \<Rightarrow> invocation_row \<Rightarrow> vals \<Rightarrow> bool" where
  "same_invocation f i c \<longleftrightarrow>
     match_constraints ''pr.merge'' (iv_constraints i) c
     \<and> iv_grant_id i = gf_id f \<and> iv_actor_user_id i = gf_actor_user_id f \<and> iv_executor_user_id i = gf_executor_user_id f
     \<and> iv_repository_id i = gf_repository_id f \<and> iv_repository i = gf_repository_full_name f \<and> iv_operation i = ''pr.merge''
     \<and> iv_authority_revision i = gf_authority_revision f \<and> ef_ags_pr_number (iv_effect i) = preflight_ags_number c
     \<and> ef_provider_pr_number (iv_effect i) = preflight_pr_number c
     \<and> exact_git_sha (ef_expected_head (iv_effect i)) (get0 c ''expected_head_sha'') \<and> ef_method (iv_effect i) = get0 c ''merge_method''"

definition locator_collision :: "grant_facts \<Rightarrow> invocation_row \<Rightarrow> merge_error" where
  "locator_collision f i = GrantFailure (if iv_grant_id i \<noteq> gf_id f then GrantDenied else GrantValidation)"

definition merge_post_of :: "invocation_row \<Rightarrow> merge_post" where
  "merge_post_of i = \<lparr>po_invocation = iv_id i, po_repository = iv_repository i, po_provider_repo = ef_provider_repo (iv_effect i),
     po_number = ef_provider_pr_number (iv_effect i), po_method = ef_method (iv_effect i), po_head = ef_expected_head (iv_effect i)\<rparr>"

section \<open>Results of the forge\<close>

definition snapshot_merge_sha :: "pull_snapshot \<Rightarrow> string \<Rightarrow> string option" where
  "snapshot_merge_sha s head =
     (if is_canonical_sha (ps_merge_commit_sha s) then Some (ps_merge_commit_sha s)
      else if ps_base_sha s = head \<and> is_canonical_sha (ps_base_sha s) then Some (ps_base_sha s) else None)"

definition canonical_merge_result :: "merge_result option \<Rightarrow> string \<Rightarrow> string option" where
  "canonical_merge_result r head =
     (case r of
        None \<Rightarrow> None
      | Some m \<Rightarrow>
          if \<not> ps_merged (mr_snapshot m) \<or> \<not> exact_git_sha (ps_head_sha (mr_snapshot m)) head
             \<or> mr_outcome m \<notin> {''confirmed'', ''reconciled_after_error''} then None
          else snapshot_merge_sha (mr_snapshot m) head)"

text \<open>The newest run of each workflow, and whether all of them succeeded.\<close>

fun latest_runs :: "workflow_run list \<Rightarrow> (string \<times> workflow_run \<times> instant) list \<Rightarrow> (string \<times> workflow_run \<times> instant) list option" where
  "latest_runs [] latest = Some latest"
| "latest_runs (r # rs) latest =
     (let workflow = trim_space (wf_workflow_id r);
          key = (if workflow = [] then trim_space (wf_name r) else workflow);
          updated = (case parse_rfc3339 (trim_space (wf_updated_at r)) of None \<Rightarrow> 0 | Some t \<Rightarrow> t)
      in if key = [] \<or> \<not> is_canonical_sha (to_lower (trim_space (wf_head_sha r))) then None
         else latest_runs rs
           (case map_of latest key of
              None \<Rightarrow> AList.update key (r, updated) latest
            | Some (current, seen) \<Rightarrow>
                if wf_id r > wf_id current \<or> wf_id r = wf_id current \<and> seen < updated then AList.update key (r, updated) latest else latest))"

definition latest_runs_pass :: "workflow_run list \<Rightarrow> bool" where
  "latest_runs_pass runs \<longleftrightarrow>
     (case latest_runs runs [] of
        None \<Rightarrow> False
      | Some latest \<Rightarrow> latest \<noteq> [] \<and> list_all (\<lambda>(_, r, _). to_lower (trim_space (wf_status r)) = ''success'') latest)"

section \<open>Statements on invocations\<close>

definition load_invocation :: "string \<Rightarrow> 'p merge_world \<Rightarrow> invocation_row option" where
  "load_invocation i w = find (\<lambda>v. iv_id v = i) (gs_invocations (mw_store w))"

definition load_by_effect_key :: "string \<Rightarrow> 'p merge_world \<Rightarrow> invocation_row option" where
  "load_by_effect_key key w = find (\<lambda>v. iv_effect_key v = Some key) (gs_invocations (mw_store w))"

definition on_store :: "(grant_store \<Rightarrow> grant_store) \<Rightarrow> 'p merge_world \<Rightarrow> 'p merge_world" where
  "on_store f w = w\<lparr>mw_store := f (mw_store w)\<rparr>"

text \<open>An update of the progress of \<open>pr.merge\<close> rows in given states, with the number of rows affected.\<close>

definition update_progress ::
  "string \<Rightarrow> intent_state list \<Rightarrow> (effect_progress \<Rightarrow> effect_progress) \<Rightarrow> 'p merge_world \<Rightarrow> nat \<times> 'p merge_world" where
  "update_progress i states f w =
     (let hit = (\<lambda>v. iv_id v = i \<and> iv_operation v = ''pr.merge'' \<and> ep_state (iv_progress v) \<in> set states)
      in (length (filter hit (gs_invocations (mw_store w))),
          on_store (\<lambda>st. st\<lparr>gs_invocations := map (\<lambda>v. if hit v then v\<lparr>iv_progress := f (iv_progress v)\<rparr> else v) (gs_invocations st)\<rparr>) w))"

definition touch_grant :: "string \<Rightarrow> ('p, unit) merge_prog" where
  "touch_grant i = act (\<lambda>w. ((), on_store (update_grants (\<lambda>g. gf_id (gr_facts g) = i) (\<lambda>g. g\<lparr>gr_last_used_at := Some (mw_now w)\<rparr>)) w))"

definition receipt :: "invocation_row \<Rightarrow> merge_answer" where
  "receipt i = Inr (invocation_receipt_of i)"

definition grant_failed :: "grant_error \<Rightarrow> ('p, merge_answer) merge_prog" where
  "grant_failed e = Done (Inl (GrantFailure e))"

text \<open>Updates and then reads the row again.\<close>

definition reload :: "string \<Rightarrow> (invocation_row \<Rightarrow> merge_answer) \<Rightarrow> ('p, merge_answer) merge_prog" where
  "reload i f = bind_prog (see (load_invocation i)) (\<lambda>r. case r of None \<Rightarrow> grant_failed (GrantStore NotFound) | Some v \<Rightarrow> Done (f v))"

section \<open>Reconciliation\<close>

definition in_flight :: "intent_state list" where "in_flight = [Dispatching, RecoveryNeeded]"

definition mark_recovery :: "string \<Rightarrow> ('p, merge_answer) merge_prog" where
  "mark_recovery i =
     bind_prog (act (\<lambda>w. update_progress i in_flight
         (\<lambda>e. e\<lparr>ep_state := RecoveryNeeded, ep_provider_attempt := ''attempted'', ep_provider_outcome := ''outcome_unknown'', ep_updated_at := mw_now w\<rparr>) w))
       (\<lambda>_. reload i receipt)"

definition complete_reconciliation :: "string \<Rightarrow> string \<Rightarrow> ('p, merge_answer) merge_prog" where
  "complete_reconciliation i sha =
     (if \<not> is_canonical_sha sha then Done (Inl StateChanged)
      else bind_prog (act (\<lambda>w. update_progress i in_flight
             (\<lambda>e. e\<lparr>ep_state := Completed, ep_authorization_outcome := ''allowed'', ep_provider_attempt := ''attempted'',
                ep_provider_outcome := ''reconciled_after_error'', ep_provider_merged := True, ep_merge_sha := sha, ep_denial_code := [],
                ep_updated_at := mw_now w, ep_finished_at := Some (mw_now w)\<rparr>) w))
           (\<lambda>_. reload i (\<lambda>v. let e = iv_progress v
              in if ep_state e \<noteq> Completed \<or> \<not> ep_provider_merged e \<or> \<not> exact_git_sha (ep_merge_sha e) sha then Inl StateChanged else receipt v)))"

definition finish_after_dispatch :: "string \<Rightarrow> string \<Rightarrow> string \<Rightarrow> ('p, merge_answer) merge_prog" where
  "finish_after_dispatch i code outcome =
     bind_prog (act (\<lambda>w. update_progress i in_flight
         (\<lambda>e. e\<lparr>ep_state := ConflictState, ep_provider_attempt := ''attempted'', ep_provider_outcome := outcome, ep_provider_merged := False,
            ep_merge_sha := [], ep_denial_code := code, ep_updated_at := mw_now w, ep_finished_at := Some (mw_now w)\<rparr>) w))
       (\<lambda>n. reload i (\<lambda>v. if n = 0 \<and> ep_state (iv_progress v) \<notin> {ConflictState, Completed} then Inl StateChanged else receipt v))"

definition reconcile :: "'p merge_env \<Rightarrow> invocation_row \<Rightarrow> ('p, merge_answer) merge_prog" where
  "reconcile env v =
     (let f = iv_effect v; s = ep_state (iv_progress v)
      in if s \<in> {Completed, DeniedState, ConflictState, Planned} then Done (receipt v)
         else if s \<notin> {Dispatching, RecoveryNeeded} then grant_failed GrantUnavailable
         else if \<not> me_forge env then Done (receipt v)
         else bind_prog (see (\<lambda>w. me_snapshot env (iv_repository v) (ef_provider_repo f) (ef_provider_pr_number f) (mw_outside w)))
           (\<lambda>r. case r of
              None \<Rightarrow> mark_recovery (iv_id v)
            | Some snapshot \<Rightarrow>
                if ps_merged snapshot
                then (case if exact_git_sha (ps_head_sha snapshot) (ef_expected_head f) then snapshot_merge_sha snapshot (ef_expected_head f) else None of
                        Some sha \<Rightarrow> complete_reconciliation (iv_id v) sha
                      | None \<Rightarrow> finish_after_dispatch (iv_id v) ''provider_merged_fact_drift'' ''merged_fact_drift'')
                else if ps_state snapshot = ''open'' \<and> exact_git_sha (ps_head_sha snapshot) (ef_expected_head f)
                       \<and> ps_base_ref snapshot = ef_base_ref f \<and> exact_git_sha (ps_base_sha snapshot) (ef_expected_base f)
                then mark_recovery (iv_id v)
                else finish_after_dispatch (iv_id v) ''provider_state_drift'' ''confirmed_not_merged''))"

section \<open>Preflight\<close>

record preflight_facts =
  mp_pull :: "pull_row option"
  mp_binding :: "merge_binding option"
  mp_provider_repo :: string
  mp_base_sha :: string
  mp_provider_base_sha :: string
  mp_base_ref :: string

definition no_preflight :: preflight_facts where
  "no_preflight = \<lparr>mp_pull = None, mp_binding = None, mp_provider_repo = [], mp_base_sha = [], mp_provider_base_sha = [], mp_base_ref = []\<rparr>"

text \<open>What was found, and the code and error of a failure.\<close>

type_synonym preflight_result = "preflight_facts \<times> (string \<times> merge_error) option"

definition preflight_fails :: "preflight_facts \<Rightarrow> string \<Rightarrow> merge_error \<Rightarrow> ('p, preflight_result) merge_prog" where
  "preflight_fails m code e = Done (m, Some (code, e))"

text \<open>The columns that the preflight selects; the others of the row are zero.\<close>

definition selected_pull :: "pull_row \<Rightarrow> pull_row" where
  "selected_pull p = p\<lparr>pl_head_repository_id := 0, pl_merge_commit_sha := [], pl_merged_by_login := []\<rparr>"

definition load_pull :: "nat \<Rightarrow> int \<Rightarrow> 'p merge_world \<Rightarrow> pull_row option" where
  "load_pull repository number w = find (\<lambda>p. pl_repository_id p = repository \<and> pl_number p = number) (mw_pulls w)"

definition display_url_ok :: "'p merge_env \<Rightarrow> string \<Rightarrow> bool" where
  "display_url_ok env raw \<longleftrightarrow>
     (let u = trim_space raw
      in u = [] \<or> \<not> (length u > 2048 \<or> safe_authority_text u = ''redacted'') \<and> me_url_ok env u)"

definition evidence_binding :: "'p merge_env \<Rightarrow> pull_row \<Rightarrow> 'p merge_world \<Rightarrow> (string \<times> int) option" where
  "evidence_binding env pr w =
     (if pl_id pr = 0 then None
      else case filter (\<lambda>j. pj_pull_request_id j = pl_id pr \<and> equal_fold (trim_space (pj_provider j)) ''forgejo'') (mw_projections w) of
        [j] \<Rightarrow> if pj_external_number j \<le> 0 \<or> trim_space (pj_external_repo j) = [] \<or> \<not> display_url_ok env (pj_external_url j) then None
               else Some (pj_external_repo j, pj_external_number j)
      | _ \<Rightarrow> None)"

definition ff_ack_eligible :: "'p merge_env \<Rightarrow> string \<Rightarrow> string \<Rightarrow> string \<Rightarrow> string \<Rightarrow> bool" where
  "ff_ack_eligible env repository method provider_base head \<longleftrightarrow>
     me_forge env \<and> equal_fold (trim_space method) ''fast-forward-only'' \<and> me_ff_ack env repository \<and> exact_git_sha provider_base head"

text \<open>The current bases on both sides.\<close>

definition merge_sides :: "'p merge_env \<Rightarrow> string \<Rightarrow> string \<Rightarrow> ('p, (string \<times> string) option) merge_prog" where
  "merge_sides env repository base_ref =
     bind_prog (see (\<lambda>w. me_base env repository (trim_space base_ref) (mw_outside w))) (\<lambda>b. case b of
        None \<Rightarrow> Done None
      | Some base \<Rightarrow>
          if \<not> is_canonical_sha base then Done None
          else bind_prog (see (\<lambda>w. me_remote_base env repository (trim_space base_ref) (mw_outside w))) (\<lambda>r. case r of
                 None \<Rightarrow> Done None
               | Some remote \<Rightarrow> if \<not> is_canonical_sha remote then Done None
                   else Done (Some (to_lower (trim_space base), to_lower (trim_space remote)))))"

text \<open>Twelve looks at the pull request of the forge, until it is mergeable.\<close>

fun provider_preflight ::
  "nat \<Rightarrow> 'p merge_env \<Rightarrow> string \<Rightarrow> string \<Rightarrow> int \<Rightarrow> string \<Rightarrow> string \<Rightarrow> string \<Rightarrow> ('p, bool) merge_prog" where
  "provider_preflight 0 env repository external number head base_ref provider_base = Done False"
| "provider_preflight (Suc n) env repository external number head base_ref provider_base =
     bind_prog (see (\<lambda>w. me_snapshot env repository external number (mw_outside w))) (\<lambda>r. case r of
        None \<Rightarrow> Done False
      | Some s \<Rightarrow>
          if ps_state s \<noteq> ''open'' \<or> ps_merged s then Done False
          else if \<not> exact_git_sha (ps_head_sha s) head \<or> ps_base_ref s \<noteq> base_ref \<or> \<not> exact_git_sha (ps_base_sha s) provider_base then Done False
          else if ps_mergeable s then Done True
          else provider_preflight n env repository external number head base_ref provider_base)"

definition preflight_ci :: "'p merge_env \<Rightarrow> preflight_facts \<Rightarrow> string \<Rightarrow> string \<Rightarrow> pull_row \<Rightarrow> int \<Rightarrow> string \<Rightarrow> ('p, preflight_result) merge_prog" where
  "preflight_ci env m repository provider_repo pr number head =
     bind_prog (see (\<lambda>w. me_authority env repository (pl_base_ref pr) (mw_outside w))) (\<lambda>ok.
       if \<not> ok then preflight_fails m ''provider_merge_authority_unavailable'' (GrantFailure GrantDenied)
       else if \<not> me_requires_ci env repository then Done (m, None)
       else bind_prog (see (\<lambda>w. me_runs env repository provider_repo number (pl_head_ref pr) head (mw_outside w))) (\<lambda>r.
         if (case r of None \<Rightarrow> False | Some runs \<Rightarrow> latest_runs_pass runs) then Done (m, None)
         else preflight_fails m ''exact_head_ci_unsuccessful'' (GrantFailure GrantDenied)))"

definition preflight_sides :: "'p merge_env \<Rightarrow> preflight_facts \<Rightarrow> repo_row \<Rightarrow> string \<Rightarrow> pull_row \<Rightarrow> int \<Rightarrow> vals \<Rightarrow> ('p, preflight_result) merge_prog" where
  "preflight_sides env m repository provider_repo pr number c =
     (let name = re_full_name repository; head = get0 c ''expected_head_sha''
      in bind_prog (merge_sides env name (pl_base_ref pr)) (\<lambda>sides. case sides of
           None \<Rightarrow> preflight_fails m ''ags_current_base_unavailable'' (GrantFailure GrantConflict)
         | Some (base, provider_base) \<Rightarrow>
             (let m1 = m\<lparr>mp_base_sha := base, mp_provider_base_sha := provider_base\<rparr>
              in if ff_ack_eligible env name (get0 c ''merge_method'') provider_base head then preflight_ci env m1 name provider_repo pr number head
                 else bind_prog (see (\<lambda>w. me_ancestor env name base (pl_head_sha pr) (mw_outside w))) (\<lambda>contained.
                   if contained \<noteq> Some True then preflight_fails m1 ''ags_head_does_not_contain_current_base'' (GrantFailure GrantConflict)
                   else bind_prog (provider_preflight 12 env name provider_repo number head (pl_base_ref pr) provider_base) (\<lambda>ok.
                     if \<not> ok then preflight_fails m1 ''provider_pr_drift'' (GrantFailure GrantConflict)
                     else preflight_ci env m1 name provider_repo pr number head)))))"

definition preflight_provider :: "'p merge_env \<Rightarrow> grant_facts \<Rightarrow> preflight_facts \<Rightarrow> repo_row \<Rightarrow> pull_row \<Rightarrow> int \<Rightarrow> vals \<Rightarrow> ('p, preflight_result) merge_prog" where
  "preflight_provider env f m repository pr number c =
     bind_prog (see (evidence_binding env pr)) (\<lambda>e.
       case e of
         None \<Rightarrow> preflight_fails m ''provider_projection_unavailable'' (GrantFailure GrantConflict)
       | Some (external, external_number) \<Rightarrow>
           if external_number \<noteq> number then preflight_fails m ''provider_projection_unavailable'' (GrantFailure GrantConflict)
           else (let m1 = m\<lparr>mp_provider_repo := external\<rparr>
                 in case me_binding env (re_full_name repository) (re_id repository) (gf_target_instance f) (pl_base_ref pr) of
                      None \<Rightarrow> preflight_fails m1 ''provider_merge_binding_unavailable'' (GrantFailure GrantConflict)
                    | Some b \<Rightarrow>
                        if mb_canonical_repository b \<noteq> re_full_name repository \<or> mb_target_instance b \<noteq> gf_target_instance f
                           \<or> mb_provider_repository b \<noteq> external
                        then preflight_fails m1 ''provider_merge_binding_unavailable'' (GrantFailure GrantConflict)
                        else if mb_base_ref b \<noteq> pl_base_ref pr \<or> mb_merge_method b \<noteq> get0 c ''merge_method''
                        then preflight_fails (m1\<lparr>mp_binding := Some b\<rparr>) ''provider_merge_method_base_drift'' (GrantFailure GrantConflict)
                        else preflight_sides env (m1\<lparr>mp_binding := Some b\<rparr>) repository (mb_provider_repository b) pr number c))"

definition preflight_pull :: "'p merge_env \<Rightarrow> grant_facts \<Rightarrow> user_row \<Rightarrow> repo_row \<Rightarrow> int \<Rightarrow> int \<Rightarrow> vals \<Rightarrow> ('p, preflight_result) merge_prog" where
  "preflight_pull env f executor repository ags_number number c =
     bind_prog (see (load_pull (re_id repository) ags_number)) (\<lambda>r. case r of
        None \<Rightarrow> preflight_fails no_preflight ''ags_pr_unavailable'' (GrantFailure GrantConflict)
      | Some row \<Rightarrow>
          (let pr = selected_pull row; m = no_preflight\<lparr>mp_pull := Some pr, mp_base_ref := pl_base_ref pr, mp_base_sha := pl_base_sha pr\<rparr>
           in if pl_state pr \<noteq> ''open'' \<or> pl_merged pr \<or> pl_draft pr \<or> \<not> exact_git_sha (pl_head_sha pr) (get0 c ''expected_head_sha'')
              then preflight_fails m ''ags_pr_head_state_drift'' (GrantFailure GrantConflict)
              else bind_prog (act (\<lambda>w. case enforce_merge_policy (ev_fresh_team (me_grant env)) (mw_policy w) (re_full_name repository) executor [] pr
                                            (gs_db (mw_store w)) of
                                     (r, d) \<Rightarrow> (r, on_store (\<lambda>st. st\<lparr>gs_db := d\<rparr>) w)))
                (\<lambda>policy. case policy of
                   Inl e \<Rightarrow> preflight_fails m ''ags_merge_policy_denied'' (PolicyFailure e)
                 | Inr _ \<Rightarrow> preflight_provider env f m repository pr number c)))"

definition merge_preflight :: "'p merge_env \<Rightarrow> grant_row \<Rightarrow> vals \<Rightarrow> ('p, preflight_result) merge_prog" where
  "merge_preflight env g c =
     (if \<not> me_forge env \<or> \<not> me_git env then preflight_fails no_preflight ''merge_executor_unavailable'' (GrantFailure GrantDenied)
      else bind_prog (act (\<lambda>w. case revalidate_access_grant (me_grant env) (mw_now w) g (mw_store w) of (r, st) \<Rightarrow> (r, w\<lparr>mw_store := st\<rparr>)))
        (\<lambda>r. case r of
           Inl e \<Rightarrow> preflight_fails no_preflight ''grant_authority_drift'' (GrantFailure e)
         | Inr (_, executor, repository) \<Rightarrow>
             (case parse_int64 (get0 c ''pull_request_number'') of
                None \<Rightarrow> preflight_fails no_preflight ''ags_pr_invalid'' (GrantFailure GrantValidation)
              | Some ags_number \<Rightarrow>
                  if ags_number \<le> 0 then preflight_fails no_preflight ''ags_pr_invalid'' (GrantFailure GrantValidation)
                  else case parse_int64 (get0 c ''forgejo_pull_request_number'') of
                    None \<Rightarrow> preflight_fails no_preflight ''provider_pr_invalid'' (GrantFailure GrantValidation)
                  | Some number \<Rightarrow>
                      if number \<le> 0 then preflight_fails no_preflight ''provider_pr_invalid'' (GrantFailure GrantValidation)
                      else preflight_pull env (gr_facts g) executor repository ags_number number c)))"

definition preflight_matches :: "preflight_facts \<Rightarrow> invocation_row \<Rightarrow> bool" where
  "preflight_matches m i \<longleftrightarrow>
     (case (mp_pull m, mp_binding m) of
        (Some pr, Some b) \<Rightarrow>
          pl_id pr \<noteq> 0 \<and> pl_number pr = ef_ags_pr_number (iv_effect i) \<and> mp_provider_repo m = ef_provider_repo (iv_effect i)
          \<and> mp_base_ref m = ef_base_ref (iv_effect i) \<and> exact_git_sha (pl_head_sha pr) (ef_expected_head (iv_effect i))
          \<and> exact_git_sha (mp_base_sha m) (ef_expected_base (iv_effect i)) \<and> mb_merge_method b = ef_method (iv_effect i)
      | _ \<Rightarrow> False)"

end
