(* ===== verification/Merge_Execute.thy ===== *)
theory Merge_Execute
  imports Merge_Intent
begin

text \<open>
  The durable intent of one merge: recording it, claiming its single dispatch, and the handlers
  \<open>ExecuteAccessGrantPRMerge\<close> and \<open>GetAccessGrantInvocation\<close> of
  \<open>internal/service/access_grant_merge.go\<close>. Each transaction is one action.
\<close>

section \<open>Recording\<close>

definition effect_of :: "int \<Rightarrow> preflight_facts \<Rightarrow> vals \<Rightarrow> effect_facts" where
  "effect_of ags_number m c =
     \<lparr>ef_ags_pr_number = ags_number, ef_provider = ''forgejo'', ef_provider_repo = mp_provider_repo m,
       ef_provider_pr_number = preflight_pr_number c, ef_expected_head = get0 c ''expected_head_sha'', ef_expected_base = mp_base_sha m,
       ef_base_ref = mp_base_ref m, ef_method = get0 c ''merge_method''\<rparr>"

definition merge_row :: "grant_facts \<Rightarrow> string \<Rightarrow> string \<Rightarrow> vals \<Rightarrow> effect_facts \<Rightarrow> effect_progress \<Rightarrow> instant \<Rightarrow> invocation_row" where
  "merge_row f i key c effect progress now =
     \<lparr>iv_id = i, iv_effect_key = Some key, iv_grant_id = gf_id f, iv_actor_user_id = gf_actor_user_id f, iv_executor_user_id = gf_executor_user_id f,
       iv_repository_id = gf_repository_id f, iv_repository = gf_repository_full_name f, iv_operation = ''pr.merge'', iv_constraints = c,
       iv_authority_revision = gf_authority_revision f, iv_effect = effect, iv_created_at = now, iv_progress = progress\<rparr>"

definition conflict_progress :: "string \<Rightarrow> instant \<Rightarrow> effect_progress" where
  "conflict_progress code now =
     \<lparr>ep_state = ConflictState, ep_authorization_outcome = ''denied'', ep_provider_attempt = ''not_attempted'',
       ep_provider_outcome = ''not_attempted'', ep_provider_merged = False, ep_merge_sha = [], ep_denial_code = code,
       ep_updated_at = now, ep_finished_at = Some now\<rparr>"

definition planned_progress :: "instant \<Rightarrow> effect_progress" where
  "planned_progress now =
     \<lparr>ep_state = Planned, ep_authorization_outcome = ''allowed'', ep_provider_attempt = ''not_attempted'',
       ep_provider_outcome = ''not_attempted'', ep_provider_merged = False, ep_merge_sha = [], ep_denial_code = [],
       ep_updated_at = now, ep_finished_at = None\<rparr>"

definition create_row :: "invocation_row \<Rightarrow> 'p merge_world \<Rightarrow> bool \<times> 'p merge_world" where
  "create_row i w = (case insert_invocation i (mw_store w) of None \<Rightarrow> (False, w) | Some st \<Rightarrow> (True, w\<lparr>mw_store := st\<rparr>))"

definition find_projection :: "nat \<Rightarrow> 'p merge_world \<Rightarrow> projection_row option" where
  "find_projection pull w = find (\<lambda>j. pj_pull_request_id j = pull \<and> pj_provider j = ''forgejo'') (mw_projections w)"

text \<open>The transaction that records an intent: the grant, the pull request and its projection are as the preflight found them.\<close>

definition record_intent :: "grant_facts \<Rightarrow> preflight_facts \<Rightarrow> invocation_row \<Rightarrow> 'p merge_world \<Rightarrow> grant_error + 'p merge_world" where
  "record_intent f m i w =
     (case grant_by_id (mw_store w) (gf_id f) of
        None \<Rightarrow> Inl (GrantStore NotFound)
      | Some current \<Rightarrow>
          if \<not> grant_live current (mw_now w) \<or> gf_authority_revision (gr_facts current) \<noteq> gf_authority_revision f then Inl GrantConflict
          else case find (\<lambda>p. Some (pl_id p) = map_option pl_id (mp_pull m)) (mw_pulls w) of
            None \<Rightarrow> Inl (GrantStore NotFound)
          | Some pr \<Rightarrow>
              if pl_repository_id pr \<noteq> gf_repository_id f \<or> pl_number pr \<noteq> ef_ags_pr_number (iv_effect i)
                 \<or> pl_state pr \<noteq> ''open'' \<or> pl_merged pr
                 \<or> \<not> exact_git_sha (pl_head_sha pr) (ef_expected_head (iv_effect i)) \<or> pl_base_ref pr \<noteq> ef_base_ref (iv_effect i)
              then Inl GrantConflict
              else case find_projection (pl_id pr) w of
                None \<Rightarrow> Inl (GrantStore NotFound)
              | Some j \<Rightarrow>
                  if pj_external_repo j \<noteq> ef_provider_repo (iv_effect i) \<or> pj_external_number j \<noteq> ef_provider_pr_number (iv_effect i)
                  then Inl GrantConflict
                  else case create_row i w of (created, w1) \<Rightarrow> if created then Inr w1 else Inl GrantDuplicate)"

text \<open>The answer is the row that now holds the effect, or an error.\<close>

definition persist_intent ::
  "grant_facts \<Rightarrow> preflight_facts \<Rightarrow> vals \<Rightarrow> string \<Rightarrow> string \<Rightarrow> ('p, merge_error + invocation_row) merge_prog" where
  "persist_intent f m c key i =
     bind_prog (act (\<lambda>w. let row = merge_row f i key c (effect_of (case mp_pull m of None \<Rightarrow> 0 | Some pr \<Rightarrow> pl_number pr) m c)
                                     (planned_progress (mw_now w)) (mw_now w)
                         in case record_intent f m row w of Inl e \<Rightarrow> (Inl e, w) | Inr w1 \<Rightarrow> (Inr row, w1)))
       (\<lambda>r. case r of
          Inr row \<Rightarrow> Done (Inr row)
        | Inl e \<Rightarrow>
            bind_prog (see (load_by_effect_key key)) (\<lambda>x. case x of
              Some existing \<Rightarrow>
                if iv_id existing \<noteq> i \<or> iv_grant_id existing \<noteq> gf_id f \<or> \<not> same_invocation f existing c
                then Done (Inl (locator_collision f existing)) else Done (Inr existing)
            | None \<Rightarrow> Done (Inl (GrantFailure e))))"

section \<open>Dispatch\<close>

text \<open>Terminal outcome without a dispatch.\<close>

definition finish_without_dispatch :: "string \<Rightarrow> string \<Rightarrow> ('p, merge_answer) merge_prog" where
  "finish_without_dispatch i code =
     bind_prog (act (\<lambda>w. update_progress i [Planned]
         (\<lambda>e. e\<lparr>ep_state := ConflictState, ep_authorization_outcome := ''denied'', ep_provider_attempt := ''not_attempted'',
            ep_provider_outcome := ''not_attempted'', ep_denial_code := code, ep_updated_at := mw_now w, ep_finished_at := Some (mw_now w)\<rparr>) w))
       (\<lambda>n. reload i (\<lambda>v. if n = 0 \<and> ep_state (iv_progress v) = Planned then Inl StateChanged else receipt v))"

definition resume_by :: "'p merge_env \<Rightarrow> ('p, merge_answer) merge_prog \<Rightarrow> grant_facts \<Rightarrow> invocation_row \<Rightarrow> vals \<Rightarrow> ('p, merge_answer) merge_prog" where
  "resume_by env planned f v c =
     (if \<not> same_invocation f v c then Done (Inl (locator_collision f v))
      else case ep_state (iv_progress v) of
        Planned \<Rightarrow> planned
      | Dispatching \<Rightarrow> reconcile env v
      | RecoveryNeeded \<Rightarrow> reconcile env v
      | Completed \<Rightarrow> Done (receipt v)
      | DeniedState \<Rightarrow> Done (receipt v)
      | ConflictState \<Rightarrow> Done (receipt v)
      | OtherState _ \<Rightarrow> grant_failed GrantUnavailable)"

text \<open>
  The acknowledgement of a fast forward: with the row of the pull request locked, the two refs are
  moved together and then the pull request is closed as merged. A failure after the refs were
  moved leaves them moved. Answers whether it succeeded.
\<close>

definition publish_refs :: "'p merge_env \<Rightarrow> string \<Rightarrow> pull_row \<Rightarrow> string \<Rightarrow> string \<Rightarrow> string \<Rightarrow> 'p \<Rightarrow> 'p option" where
  "publish_refs env repository pr base_ref base head out =
     (let new_base = (if exact_git_sha base head then Some base
                      else case me_ancestor env repository base head out of
                        None \<Rightarrow> None
                      | Some True \<Rightarrow> Some head
                      | Some False \<Rightarrow> (if me_ancestor env repository head base out = Some True then Some base else None))
      in case new_base of
           None \<Rightarrow> None
         | Some new \<Rightarrow> me_update_refs env repository (''refs/heads/'' @ pl_head_ref pr) head (''refs/heads/'' @ base_ref) new base out)"

definition mark_merged :: "'p merge_env \<Rightarrow> string \<Rightarrow> pull_row \<Rightarrow> string \<Rightarrow> string \<Rightarrow> string \<Rightarrow> 'p merge_world \<Rightarrow> bool \<times> 'p merge_world" where
  "mark_merged env repository pr base_ref base raw_head w =
     (let sha = to_lower (trim_space raw_head)
      in if pl_id pr = 0 \<or> \<not> is_canonical_sha sha then (False, w)
         else case find (\<lambda>p. pl_id p = pl_id pr) (mw_pulls w) of
           None \<Rightarrow> (False, w)
         | Some locked \<Rightarrow>
             if pl_merged locked then (exact_git_sha (pl_head_sha locked) sha \<and> exact_git_sha (pl_merge_commit_sha locked) sha, w)
             else if pl_state locked \<noteq> ''open'' \<or> \<not> exact_git_sha (pl_head_sha locked) sha then (False, w)
             else case publish_refs env repository pr base_ref base raw_head (mw_outside w) of
               None \<Rightarrow> (False, w)
             | Some out \<Rightarrow>
                 (let w1 = w\<lparr>mw_outside := out\<rparr>; hit = (\<lambda>p. pl_id p = pl_id pr \<and> \<not> pl_merged p \<and> pl_state p = ''open'' \<and> pl_head_sha p = sha)
                  in if \<not> list_ex hit (mw_pulls w1) then (False, w1)
                     else (True, w1\<lparr>
                       mw_pulls := map (\<lambda>p. if hit p then p\<lparr>pl_state := ''closed'', pl_merged := True, pl_merge_commit_sha := sha,
                                              pl_merged_by_login := ''fast-forward-ack''\<rparr> else p) (mw_pulls w1),
                       mw_projections := map (\<lambda>j. if pj_pull_request_id j = pl_id pr \<and> pj_provider j = ''forgejo''
                                              then j\<lparr>pj_last_synced_sha := sha\<rparr> else j) (mw_projections w1)\<rparr>)))"

definition acknowledge_ff :: "'p merge_env \<Rightarrow> string \<Rightarrow> pull_row \<Rightarrow> preflight_facts \<Rightarrow> string \<Rightarrow> ('p, bool) merge_prog" where
  "acknowledge_ff env repository pr m head =
     (if \<not> exact_git_sha (mp_provider_base_sha m) head then Done False
      else if pl_head_repository_id pr \<noteq> 0 \<and> pl_head_repository_id pr \<noteq> pl_repository_id pr then Done False
      else act (mark_merged env repository pr (mp_base_ref m) (mp_base_sha m) head))"

definition complete_ff_ack :: "string \<Rightarrow> string \<Rightarrow> ('p, bool) merge_prog" where
  "complete_ff_ack i sha =
     (if \<not> is_canonical_sha sha then Done False
      else bind_prog (act (\<lambda>w. update_progress i [Planned]
             (\<lambda>e. e\<lparr>ep_state := Completed, ep_authorization_outcome := ''allowed'', ep_provider_attempt := ''not_attempted'',
                ep_provider_outcome := ''source_success'', ep_provider_merged := False, ep_merge_sha := sha,
                ep_updated_at := mw_now w, ep_finished_at := Some (mw_now w)\<rparr>) w))
           (\<lambda>n. Done (n = 1)))"

text \<open>
  The transaction that claims the dispatch: grant, pull request, projection and invocation are
  locked and read again, and the state moves on only from planned.
\<close>

definition dispatch_facts :: "grant_facts \<Rightarrow> invocation_row \<Rightarrow> grant_row \<Rightarrow> pull_row \<Rightarrow> projection_row \<Rightarrow> instant \<Rightarrow> bool" where
  "dispatch_facts f v current pr j now \<longleftrightarrow>
     grant_live current now \<and> gf_authority_revision (gr_facts current) = gf_authority_revision f \<and> gf_id (gr_facts current) = iv_grant_id v
     \<and> pl_state pr = ''open'' \<and> \<not> pl_merged pr \<and> \<not> pl_draft pr
     \<and> exact_git_sha (pl_head_sha pr) (ef_expected_head (iv_effect v)) \<and> pl_base_ref pr = ef_base_ref (iv_effect v)
     \<and> pj_external_repo j = ef_provider_repo (iv_effect v) \<and> pj_external_number j = ef_provider_pr_number (iv_effect v)"

definition claim_dispatch :: "grant_facts \<Rightarrow> invocation_row \<Rightarrow> 'p merge_world \<Rightarrow> (grant_error + bool) \<times> 'p merge_world" where
  "claim_dispatch f v w =
     (case grant_by_id (mw_store w) (gf_id f) of
        None \<Rightarrow> (Inl (GrantStore NotFound), w)
      | Some current \<Rightarrow>
          (case load_pull (iv_repository_id v) (ef_ags_pr_number (iv_effect v)) w of
             None \<Rightarrow> (Inl (GrantStore NotFound), w)
           | Some pr \<Rightarrow>
               (case find_projection (pl_id pr) w of
                  None \<Rightarrow> (Inl (GrantStore NotFound), w)
                | Some j \<Rightarrow>
                    (case load_invocation (iv_id v) w of
                       None \<Rightarrow> (Inl (GrantStore NotFound), w)
                     | Some i \<Rightarrow>
                         if ep_state (iv_progress i) \<noteq> Planned then (Inr False, w)
                         else if \<not> dispatch_facts f v current pr j (mw_now w) then (Inl GrantConflict, w)
                         else (case update_progress (iv_id v) [Planned]
                                 (\<lambda>e. e\<lparr>ep_state := Dispatching, ep_provider_attempt := ''attempted'', ep_provider_outcome := ''outcome_unknown'',
                                    ep_updated_at := mw_now w\<rparr>) w of (n, w1) \<Rightarrow> (Inr (n = 1), w1))))))"

definition begin_dispatch :: "grant_facts \<Rightarrow> invocation_row \<Rightarrow> ('p, grant_error + invocation_row \<times> bool) merge_prog" where
  "begin_dispatch f v =
     bind_prog (act (claim_dispatch f v)) (\<lambda>r. case r of
        Inl e \<Rightarrow> Done (Inl e)
      | Inr dispatched \<Rightarrow> bind_prog (see (load_invocation (iv_id v))) (\<lambda>x.
          Done (case x of None \<Rightarrow> Inl (GrantStore NotFound) | Some i \<Rightarrow> Inr (i, dispatched))))"

definition send_merge :: "'p merge_env \<Rightarrow> merge_post \<Rightarrow> ('p, merge_result option) merge_prog" where
  "send_merge env p =
     act (\<lambda>w. case me_merge env p (mw_outside w) of (r, out) \<Rightarrow> (r, w\<lparr>mw_outside := out, mw_posts := mw_posts w @ [p]\<rparr>))"

text \<open>The result of the call is stored where the state is still in flight, or was already reconciled to the same.\<close>

definition complete_dispatch :: "string \<Rightarrow> intent_state \<Rightarrow> string \<Rightarrow> bool \<Rightarrow> string \<Rightarrow> ('p, merge_error option) merge_prog" where
  "complete_dispatch i state outcome merged sha =
     (if (if state = Completed
          then \<not> is_canonical_sha sha \<or> (if merged then outcome \<notin> {''confirmed'', ''reconciled_after_error''} else outcome \<noteq> ''source_success'')
          else merged \<or> sha \<noteq> [] \<or> state \<noteq> RecoveryNeeded) then Done (Some StateChanged)
      else bind_prog (act (\<lambda>w. update_progress i in_flight
             (\<lambda>e. e\<lparr>ep_state := state, ep_provider_outcome := outcome, ep_provider_merged := merged, ep_merge_sha := sha, ep_updated_at := mw_now w,
                ep_finished_at := (if state = Completed then Some (mw_now w) else ep_finished_at e)\<rparr>) w))
           (\<lambda>n. if n = 1 then Done None
                else bind_prog (see (load_invocation i)) (\<lambda>x. case x of
                  None \<Rightarrow> Done (Some (GrantFailure (GrantStore NotFound)))
                | Some v \<Rightarrow>
                    (let e = iv_progress v
                     in if ep_state e = Completed \<and> ep_provider_merged e \<and> is_canonical_sha (ep_merge_sha e)
                           \<and> ep_provider_outcome e \<in> {''confirmed'', ''reconciled_after_error''} then Done None
                        else if ep_state e = state \<and> ep_provider_outcome e = outcome \<and> ep_provider_merged e = merged \<and> ep_merge_sha e = sha then Done None
                        else Done (Some StateChanged)))))"

text \<open>After the claim: the call, then its result.\<close>

definition store_result :: "grant_facts \<Rightarrow> invocation_row \<Rightarrow> merge_result option \<Rightarrow> ('p, merge_answer) merge_prog" where
  "store_result f v r =
     bind_prog (case canonical_merge_result r (ef_expected_head (iv_effect v)) of
                  None \<Rightarrow> complete_dispatch (iv_id v) RecoveryNeeded ''outcome_unknown'' False []
                | Some sha \<Rightarrow> complete_dispatch (iv_id v) Completed (case r of None \<Rightarrow> [] | Some m \<Rightarrow> mr_outcome m) True sha)
       (\<lambda>e. case e of
          Some err \<Rightarrow> Done (Inl err)
        | None \<Rightarrow> bind_prog (see (load_invocation (iv_id v))) (\<lambda>x. case x of
            None \<Rightarrow> grant_failed (GrantStore NotFound)
          | Some current \<Rightarrow> bind_prog (touch_grant (gf_id f)) (\<lambda>_. Done (receipt current))))"

definition dispatch_claimed :: "'p merge_env \<Rightarrow> grant_facts \<Rightarrow> invocation_row \<Rightarrow> ('p, merge_answer) merge_prog" where
  "dispatch_claimed env f v = bind_prog (send_merge env (merge_post_of v)) (store_result f v)"

definition dispatch_ff :: "'p merge_env \<Rightarrow> grant_facts \<Rightarrow> invocation_row \<Rightarrow> pull_row \<Rightarrow> preflight_facts \<Rightarrow> ('p, merge_answer) merge_prog" where
  "dispatch_ff env f v pr m =
     bind_prog (acknowledge_ff env (iv_repository v) pr m (ef_expected_head (iv_effect v))) (\<lambda>ok.
       if \<not> ok then finish_without_dispatch (iv_id v) ''fast_forward_ack_conflict''
       else bind_prog (complete_ff_ack (iv_id v) (ef_expected_head (iv_effect v))) (\<lambda>done.
         if \<not> done then Done (Inl StateChanged)
         else bind_prog (see (load_invocation (iv_id v))) (\<lambda>x. case x of
           None \<Rightarrow> grant_failed (GrantStore NotFound)
         | Some current \<Rightarrow> bind_prog (touch_grant (gf_id f)) (\<lambda>_. Done (receipt current)))))"

definition after_claim ::
  "'p merge_env \<Rightarrow> grant_facts \<Rightarrow> invocation_row \<Rightarrow> grant_error + invocation_row \<times> bool \<Rightarrow> ('p, merge_answer) merge_prog" where
  "after_claim env f v r =
     (case r of
        Inl e \<Rightarrow> if e = GrantConflict then finish_without_dispatch (iv_id v) ''final_dispatch_fact_drift'' else grant_failed e
      | Inr (current, dispatched) \<Rightarrow>
          if \<not> dispatched
          then (if ep_state (iv_progress current) \<in> {Dispatching, RecoveryNeeded} then reconcile env current else Done (receipt current))
          else dispatch_claimed env f v)"

definition dispatch_provider :: "'p merge_env \<Rightarrow> grant_facts \<Rightarrow> invocation_row \<Rightarrow> ('p, merge_answer) merge_prog" where
  "dispatch_provider env f v = bind_prog (begin_dispatch f v) (after_claim env f v)"

text \<open>
  \<open>dispatchAccessGrantPRMerge\<close>: what follows a preflight that failed or found other facts than those
  recorded, and what follows one that agrees. A row that is no longer planned is resumed, which
  cannot come back here.
\<close>

definition dispatch_drifted :: "'p merge_env \<Rightarrow> grant_facts \<Rightarrow> string \<Rightarrow> vals \<Rightarrow> ('p, merge_answer) merge_prog" where
  "dispatch_drifted env f i c =
     bind_prog (see (load_invocation i)) (\<lambda>y. case y of
        Some current \<Rightarrow>
          if ep_state (iv_progress current) \<noteq> Planned then resume_by env (grant_failed GrantUnavailable) f current c
          else finish_without_dispatch i ''use_time_fact_drift''
      | None \<Rightarrow> finish_without_dispatch i ''use_time_fact_drift'')"

definition dispatch_checked :: "'p merge_env \<Rightarrow> grant_facts \<Rightarrow> invocation_row \<Rightarrow> preflight_facts \<Rightarrow> ('p, merge_answer) merge_prog" where
  "dispatch_checked env f v m =
     (case mp_pull m of
        None \<Rightarrow> grant_failed GrantUnavailable
      | Some pr \<Rightarrow>
          if ff_ack_eligible env (iv_repository v) (ef_method (iv_effect v)) (mp_provider_base_sha m) (ef_expected_head (iv_effect v))
          then dispatch_ff env f v pr m
          else dispatch_provider env f v)"

definition dispatch_planned :: "'p merge_env \<Rightarrow> grant_row \<Rightarrow> invocation_row \<Rightarrow> vals \<Rightarrow> ('p, merge_answer) merge_prog" where
  "dispatch_planned env g v c =
     bind_prog (merge_preflight env g c) (\<lambda>(m, failure).
       if failure \<noteq> None \<or> \<not> preflight_matches m v then dispatch_drifted env (gr_facts g) (iv_id v) c
       else dispatch_checked env (gr_facts g) v m)"

definition dispatch :: "'p merge_env \<Rightarrow> grant_row \<Rightarrow> string \<Rightarrow> vals \<Rightarrow> ('p, merge_answer) merge_prog" where
  "dispatch env g i c =
     bind_prog (see (load_invocation i)) (\<lambda>x. case x of
        None \<Rightarrow> grant_failed (GrantStore NotFound)
      | Some v \<Rightarrow>
          if ep_state (iv_progress v) \<noteq> Planned then resume_by env (grant_failed GrantUnavailable) (gr_facts g) v c
          else dispatch_planned env g v c)"

definition resume :: "'p merge_env \<Rightarrow> grant_row \<Rightarrow> invocation_row \<Rightarrow> vals \<Rightarrow> ('p, merge_answer) merge_prog" where
  "resume env g v c = resume_by env (dispatch env g (iv_id v) c) (gr_facts g) v c"

section \<open>Handlers\<close>

definition persist_conflict ::
  "'p merge_env \<Rightarrow> grant_row \<Rightarrow> preflight_facts \<Rightarrow> vals \<Rightarrow> string \<Rightarrow> string \<Rightarrow> string \<Rightarrow> ('p, merge_answer) merge_prog" where
  "persist_conflict env g m c key i code =
     (let f = gr_facts g
      in bind_prog (act (\<lambda>w. let row = merge_row f i key c (effect_of (preflight_ags_number c) m c) (conflict_progress code (mw_now w)) (mw_now w)
                             in case create_row row w of (created, w1) \<Rightarrow> ((created, row), w1)))
           (\<lambda>(created, row).
              if created then Done (receipt row)
              else bind_prog (see (load_invocation i)) (\<lambda>x. case x of
                Some existing \<Rightarrow> if same_invocation f existing c then resume env g existing c else Done (Inl (locator_collision f existing))
              | None \<Rightarrow> bind_prog (see (load_by_effect_key key)) (\<lambda>y. case y of
                  Some existing \<Rightarrow>
                    if iv_id existing = i \<and> iv_grant_id existing = gf_id f \<and> same_invocation f existing c
                    then resume env g existing c else Done (Inl (locator_collision f existing))
                | None \<Rightarrow> grant_failed GrantUnavailable))))"

text \<open>What is done when the preflight of a new effect failed.\<close>

definition after_failed_preflight ::
  "'p merge_env \<Rightarrow> grant_row \<Rightarrow> preflight_facts \<Rightarrow> vals \<Rightarrow> string \<Rightarrow> string \<Rightarrow> string \<times> merge_error \<Rightarrow> ('p, merge_answer) merge_prog" where
  "after_failed_preflight env g m c key i failure =
     (let f = gr_facts g;
          finish = (if snd failure = GrantFailure GrantConflict then persist_conflict env g m c key i (fst failure) else Done (Inl (snd failure)))
      in bind_prog (see (load_invocation i)) (\<lambda>x. case x of
           Some existing \<Rightarrow> if same_invocation f existing c then resume env g existing c else Done (Inl (locator_collision f existing))
         | None \<Rightarrow> bind_prog (see (load_by_effect_key key)) (\<lambda>y. case y of
             Some existing \<Rightarrow>
               if iv_id existing \<noteq> i \<or> iv_grant_id existing \<noteq> gf_id f then Done (Inl (locator_collision f existing))
               else if same_invocation f existing c then resume env g existing c else finish
           | None \<Rightarrow> finish)))"

definition record_and_dispatch ::
  "'p merge_env \<Rightarrow> grant_row \<Rightarrow> preflight_facts \<Rightarrow> vals \<Rightarrow> string \<Rightarrow> string \<Rightarrow> ('p, merge_answer) merge_prog" where
  "record_and_dispatch env g m c key i =
     (let f = gr_facts g
      in bind_prog (persist_intent f m c key i) (\<lambda>r. case r of
           Inl e \<Rightarrow> bind_prog (see (load_by_effect_key key)) (\<lambda>y. case y of
             Some existing \<Rightarrow>
               if iv_id existing = i \<and> iv_grant_id existing = gf_id f \<and> same_invocation f existing c
               then resume env g existing c else Done (Inl (locator_collision f existing))
           | None \<Rightarrow> if e = GrantFailure GrantConflict then persist_conflict env g m c key i ''intent_fact_drift'' else Done (Inl e))
         | Inr row \<Rightarrow> if \<not> same_invocation f row c then grant_failed GrantUnavailable else dispatch env g (iv_id row) c))"

record merge_input =
  mi_invocation_id :: string
  mi_ags_number :: int
  mi_provider_number :: int
  mi_head :: string
  mi_method :: string

definition execute_merge :: "'p merge_env \<Rightarrow> string \<Rightarrow> merge_input \<Rightarrow> ('p, merge_answer) merge_prog" where
  "execute_merge env raw input =
     (let i = trim_space (mi_invocation_id input)
      in if \<not> canonical_uuid i then grant_failed GrantValidation
         else bind_prog (see (\<lambda>w. resolve_active_grant (me_grant env) (mw_now w) raw (mw_store w))) (\<lambda>r. case r of
           Inl e \<Rightarrow> grant_failed e
         | Inr (g, _, _) \<Rightarrow>
             (let f = gr_facts g
              in if \<not> contains_operation (gf_effective_operations f) ''pr.merge'' then grant_failed GrantDenied
                 else case pr_merge_constraints (mi_ags_number input) (mi_provider_number input) (mi_head input) (mi_method input) of
                   None \<Rightarrow> grant_failed GrantValidation
                 | Some c \<Rightarrow>
                     (case merge_effect_key env (gf_repository_full_name f) c of
                        None \<Rightarrow> grant_failed GrantUnavailable
                      | Some key \<Rightarrow>
                          bind_prog (see (load_invocation i)) (\<lambda>x. case x of
                            Some existing \<Rightarrow>
                              if iv_effect_key existing \<noteq> Some key \<or> \<not> same_invocation f existing c
                              then Done (Inl (locator_collision f existing)) else resume env g existing c
                          | None \<Rightarrow> bind_prog (see (load_by_effect_key key)) (\<lambda>y. case y of
                              Some existing \<Rightarrow>
                                if iv_id existing \<noteq> i \<or> iv_grant_id existing \<noteq> gf_id f
                                then Done (Inl (locator_collision f existing)) else resume env g existing c
                            | None \<Rightarrow> bind_prog (merge_preflight env g c) (\<lambda>(m, failure). case failure of
                                Some e \<Rightarrow> after_failed_preflight env g m c key i e
                              | None \<Rightarrow> record_and_dispatch env g m c key i)))))))"

text \<open>The chain of renewals is followed at most 64 times.\<close>

fun lineage_from :: "nat \<Rightarrow> string \<Rightarrow> string \<Rightarrow> ('p, bool option) merge_prog" where
  "lineage_from 0 cursor ancestor = Done (Some False)"
| "lineage_from (Suc n) cursor ancestor =
     (if cursor = [] then Done (Some False)
      else if cursor = ancestor then Done (Some True)
      else bind_prog (see (\<lambda>w. grant_by_id (mw_store w) cursor)) (\<lambda>x. case x of
        None \<Rightarrow> Done None
      | Some parent \<Rightarrow> lineage_from n (trim_space (gf_renewed_from (gr_facts parent))) ancestor))"

definition lineage_contains :: "grant_facts \<Rightarrow> string \<Rightarrow> ('p, bool option) merge_prog" where
  "lineage_contains f ancestor = (if gf_id f = ancestor then Done (Some True) else lineage_from 64 (trim_space (gf_renewed_from f)) ancestor)"

definition get_invocation :: "'p merge_env \<Rightarrow> string \<Rightarrow> string \<Rightarrow> ('p, merge_answer) merge_prog" where
  "get_invocation env raw raw_id =
     bind_prog (see (\<lambda>w. load_grant_credential (me_grant env) raw (mw_store w))) (\<lambda>r. case r of
        Inl e \<Rightarrow> grant_failed e
      | Inr (g, _, _) \<Rightarrow>
          (let i = trim_space raw_id
           in if \<not> canonical_uuid i then grant_failed GrantDenied
              else bind_prog (see (load_invocation i)) (\<lambda>x. case x of
                None \<Rightarrow> grant_failed GrantDenied
              | Some v \<Rightarrow> bind_prog (lineage_contains (gr_facts g) (iv_grant_id v)) (\<lambda>allowed.
                  if allowed \<noteq> Some True then grant_failed GrantDenied
                  else if iv_operation v = ''pr.merge'' \<and> ep_state (iv_progress v) \<in> {Dispatching, RecoveryNeeded} then reconcile env v
                  else Done (receipt v)))))"

end
