(* ===== verification/Merge_Safety.thy ===== *)
theory Merge_Safety
  imports Merge_Execute Grant_Lifecycle
begin

text \<open>
  What holds of merges through Access Grants whatever the interleaving of handlers: how rows of
  invocations move, and that the handlers keep the contract of an effect that is sent once.
\<close>

section \<open>How rows move\<close>

definition state_moves :: "intent_state \<Rightarrow> intent_state \<Rightarrow> bool" where
  "state_moves s t \<longleftrightarrow>
     s = Planned \<and> t \<in> {Dispatching, RecoveryNeeded, Completed, ConflictState}
     \<or> s \<in> {Dispatching, RecoveryNeeded} \<and> t \<in> {RecoveryNeeded, Completed, ConflictState}"

text \<open>The progress of an effect only moves on, and an attempt that was made is never forgotten.\<close>

definition progress_moves :: "effect_progress \<Rightarrow> effect_progress \<Rightarrow> bool" where
  "progress_moves p q \<longleftrightarrow> p = q \<or> state_moves (ep_state p) (ep_state q)
     \<and> (ep_state p \<noteq> Planned \<longrightarrow> ep_provider_attempt p = ''attempted'' \<longrightarrow> ep_provider_attempt q = ''attempted'')"

definition row_moves :: "invocation_row \<Rightarrow> invocation_row \<Rightarrow> bool" where
  "row_moves a b \<longleftrightarrow> (\<exists>q. b = a\<lparr>iv_progress := q\<rparr> \<and> progress_moves (iv_progress a) q)"

lemma progress_moves_trans: "progress_moves p q \<Longrightarrow> progress_moves q r \<Longrightarrow> progress_moves p r"
  by (auto simp: progress_moves_def state_moves_def)

lemma row_moves_trans: "row_moves a b \<Longrightarrow> row_moves b c \<Longrightarrow> row_moves a c"
proof -
  assume "row_moves a b" "row_moves b c"
  then obtain q r where "b = a\<lparr>iv_progress := q\<rparr>" "progress_moves (iv_progress a) q" "c = b\<lparr>iv_progress := r\<rparr>" "progress_moves (iv_progress b) r"
    unfolding row_moves_def by blast
  then have "c = a\<lparr>iv_progress := r\<rparr>" "progress_moves (iv_progress a) r" using progress_moves_trans by simp_all
  then show ?thesis unfolding row_moves_def by blast
qed

lemma row_moves_refl: "row_moves a a"
  unfolding row_moves_def by (intro exI [of _ "iv_progress a"]) (simp add: progress_moves_def)

interpretation invocations: row_order row_moves
  using row_moves_refl row_moves_trans by unfold_locales

lemma row_moves_facts [simp]:
  assumes "row_moves a b"
  shows "iv_id b = iv_id a" "iv_effect_key b = iv_effect_key a" "iv_grant_id b = iv_grant_id a" "iv_repository_id b = iv_repository_id a"
    "iv_effect b = iv_effect a" "iv_operation b = iv_operation a" "merge_post_of b = merge_post_of a"
  "progress_moves (iv_progress a) (iv_progress b)"
  using assms by (auto simp: row_moves_def merge_post_of_def)

section \<open>How the world moves\<close>

definition rows_unique :: "invocation_row list \<Rightarrow> bool" where
  "rows_unique vs \<longleftrightarrow> distinct (map iv_id vs) \<and> distinct (filter (\<lambda>k. k \<noteq> None) (map iv_effect_key vs))"

definition merge_rows :: "'p merge_world \<Rightarrow> invocation_row list" where
  "merge_rows w = gs_invocations (mw_store w)"

definition merge_guar :: "'p merge_world \<Rightarrow> 'p merge_world \<Rightarrow> bool" where
  "merge_guar w w' \<longleftrightarrow>
     (\<exists>vs new. merge_rows w' = vs @ new \<and> list_all2 row_moves (merge_rows w) vs) \<and> (rows_unique (merge_rows w) \<longrightarrow> rows_unique (merge_rows w'))"

definition effect_shut :: "string \<Rightarrow> 'p merge_world \<Rightarrow> bool" where
  "effect_shut i w \<longleftrightarrow>
     (\<exists>v. load_invocation i w = Some v \<and> ep_state (iv_progress v) \<noteq> Planned \<and> ep_provider_attempt (iv_progress v) = ''attempted'')"

text \<open>What has to hold in one state of the tables for an effect to be claimed.\<close>

definition effect_cleared :: "merge_post \<Rightarrow> 'p merge_world \<Rightarrow> bool" where
  "effect_cleared k w \<longleftrightarrow>
     (\<exists>i g pr j. load_invocation (po_invocation k) w = Some i \<and> merge_post_of i = k \<and> ep_state (iv_progress i) = Planned
        \<and> grant_by_id (mw_store w) (iv_grant_id i) = Some g \<and> grant_live g (mw_now w)
        \<and> load_pull (iv_repository_id i) (ef_ags_pr_number (iv_effect i)) w = Some pr
        \<and> pl_state pr = ''open'' \<and> \<not> pl_merged pr \<and> \<not> pl_draft pr \<and> exact_git_sha (pl_head_sha pr) (po_head k)
        \<and> pl_base_ref pr = ef_base_ref (iv_effect i)
        \<and> find_projection (pl_id pr) w = Some j \<and> pj_external_repo j = po_provider_repo k \<and> pj_external_number j = po_number k)"

lemma same_rows_guar: "merge_rows w' = merge_rows w \<Longrightarrow> merge_guar w w'"
  unfolding merge_guar_def using invocations.rows_refl by (intro conjI exI [of _ "merge_rows w"] exI [of _ "[]"]) simp_all

lemma merge_guar_refl: "merge_guar w w"
  by (rule same_rows_guar) (rule refl)

lemma merge_guar_trans:
  assumes "merge_guar u v" "merge_guar v w"
  shows "merge_guar u w"
proof -
  obtain a new b tail where m: "merge_rows v = a @ new" "list_all2 row_moves (merge_rows u) a"
    "merge_rows w = b @ tail" "list_all2 row_moves (merge_rows v) b"
    using assms unfolding merge_guar_def by blast
  obtain ws rest where "merge_rows w = ws @ rest" "list_all2 row_moves (merge_rows u) ws"
    using invocations.table_trans [OF m(2,1,4,3)] by blast
  then show ?thesis using assms unfolding merge_guar_def by blast
qed

lemma load_moves:
  assumes "merge_guar w w'" "load_invocation i w = Some v"
  obtains v' where "load_invocation i w' = Some v'" "row_moves v v'"
proof -
  obtain vs new where m: "merge_rows w' = vs @ new" "list_all2 row_moves (merge_rows w) vs" using assms(1) by (auto simp: merge_guar_def)
  have "\<exists>b. find (\<lambda>v. iv_id v = i) bs = Some b \<and> row_moves a b" if "list_all2 row_moves as bs" "find (\<lambda>v. iv_id v = i) as = Some a" for as bs a
    using that by (induction rule: list_all2_induct) (auto split: if_splits)
  then obtain b where "find (\<lambda>v. iv_id v = i) vs = Some b" "row_moves v b"
    using m(2) assms(2) unfolding load_invocation_def merge_rows_def by blast
  moreover have "find P (xs @ ys) = (case find P xs of None \<Rightarrow> find P ys | Some x \<Rightarrow> Some x)" for P and xs ys :: "invocation_row list"
    by (induction xs) auto
  ultimately show ?thesis using that m(1) by (simp add: load_invocation_def merge_rows_def)
qed

lemma effect_shut_moves: "merge_guar w w' \<Longrightarrow> effect_shut i w \<Longrightarrow> effect_shut i w'"
proof -
  assume g: "merge_guar w w'" and s: "effect_shut i w"
  then obtain v where v: "load_invocation i w = Some v" "ep_state (iv_progress v) \<noteq> Planned" "ep_provider_attempt (iv_progress v) = ''attempted''"
    by (auto simp: effect_shut_def)
  obtain v' where "load_invocation i w' = Some v'" "row_moves v v'" by (rule load_moves [OF g v(1)])
  then show ?thesis using v(2,3) row_moves_facts(8) [of v v'] by (auto simp: effect_shut_def progress_moves_def state_moves_def)
qed

interpretation merging: single_effect "\<lambda>w. rows_unique (merge_rows w)" merge_guar mw_posts po_invocation effect_shut effect_cleared
  using merge_guar_refl merge_guar_trans effect_shut_moves by unfold_locales (blast, blast, simp add: merge_guar_def, blast)

section \<open>Actions\<close>

lemma update_progress_rows:
  "merge_rows (snd (update_progress i states f w)) =
     map (\<lambda>v. if iv_id v = i \<and> iv_operation v = ''pr.merge'' \<and> ep_state (iv_progress v) \<in> set states then v\<lparr>iv_progress := f (iv_progress v)\<rparr> else v) (merge_rows w)"
  "mw_posts (snd (update_progress i states f w)) = mw_posts w"
  by (simp_all add: update_progress_def on_store_def merge_rows_def)

lemma update_guar:
  assumes "\<And>e. ep_state e \<in> set states \<Longrightarrow> progress_moves e (f e)"
  shows "merge_guar w (snd (update_progress i states f w))"
proof -
  define h :: "invocation_row \<Rightarrow> invocation_row" where "h = (\<lambda>v. if iv_id v = i \<and> iv_operation v = ''pr.merge'' \<and> ep_state (iv_progress v) \<in> set states then v\<lparr>iv_progress := f (iv_progress v)\<rparr> else v)"
  have moved: "row_moves v (h v)" for v
  proof (cases "iv_id v = i \<and> iv_operation v = ''pr.merge'' \<and> ep_state (iv_progress v) \<in> set states")
    case True
    then have "progress_moves (iv_progress v) (f (iv_progress v))" using assms by blast
    then show ?thesis unfolding row_moves_def h_def using True by (intro exI [of _ "f (iv_progress v)"]) simp
  next
    case False
    then have "h v = v" unfolding h_def by (rule if_not_P)
    then show ?thesis by (simp add: row_moves_refl)
  qed
  have ids: "iv_id (h v) = iv_id v" "iv_effect_key (h v) = iv_effect_key v" for v by (rule row_moves_facts [OF moved])+
  have "merge_rows (snd (update_progress i states f w)) = map h (merge_rows w)" by (simp add: update_progress_rows h_def)
  then show ?thesis using ids invocations.rows_map [of h, OF moved] unfolding merge_guar_def
    by (intro conjI exI [of _ "map h (merge_rows w)"] exI [of _ "[]"]) (simp_all add: rows_unique_def comp_def)
qed

lemma create_guar: "merge_guar w (snd (create_row i w)) \<and> mw_posts (snd (create_row i w)) = mw_posts w"
proof (cases "insert_invocation i (mw_store w)")
  case None
  then show ?thesis by (simp add: create_row_def merge_guar_refl)
next
  case (Some st)
  then have i: "iv_id i \<notin> iv_id ` set (merge_rows w)" "iv_effect_key i = None \<or> iv_effect_key i \<notin> iv_effect_key ` set (merge_rows w)"
    "merge_rows (snd (create_row i w)) = merge_rows w @ [i]"
    by (auto simp: insert_invocation_def merge_rows_def create_row_def split: if_splits)
  then have "rows_unique (merge_rows w @ [i])" if "rows_unique (merge_rows w)" using that by (auto simp: rows_unique_def)
  then have "merge_guar w (snd (create_row i w))" unfolding merge_guar_def i(3) using invocations.rows_refl by blast
  then show ?thesis using Some by (simp add: create_row_def)
qed

section \<open>Programs that claim nothing\<close>

definition calm :: "('p merge_world, 'a) prog \<Rightarrow> bool" where
  "calm p \<longleftrightarrow> (\<forall>v. merging.careful (\<lambda>c _ _. c = None) None v p)"

named_theorems calm_intros

lemma calm_done [calm_intros]: "calm (Done a)"
  by (simp add: calm_def merging.careful.finish)

lemma calm_bind [calm_intros]: "calm p \<Longrightarrow> (\<And>a. calm (f a)) \<Longrightarrow> calm (bind_prog p f)"
  unfolding calm_def by (blast intro: merging.careful_bind)

lemma calm_see [calm_intros]: "calm (see g)"
  by (simp add: calm_def merging.careful_see)

lemma calm_act: "(\<And>w. merge_guar w (snd (g w)) \<and> mw_posts (snd (g w)) = mw_posts w) \<Longrightarrow> calm (act g)"
  unfolding calm_def by (auto intro: merging.careful_quiet)

lemma calm_same_rows: "(\<And>w. merge_rows (snd (g w)) = merge_rows w \<and> mw_posts (snd (g w)) = mw_posts w) \<Longrightarrow> calm (act g)"
  by (rule calm_act) (simp add: same_rows_guar)

lemma calm_update:
  assumes "\<And>e w. ep_state e \<in> set states \<Longrightarrow> progress_moves e (f w e)"
  shows "calm (act (\<lambda>w. update_progress i states (f w) w))"
  using assms by (intro calm_act conjI update_guar) (auto simp: update_progress_rows)

lemma calm_cases [calm_intros]:
  "calm p \<Longrightarrow> calm q \<Longrightarrow> calm (if b then p else q)"
  "calm p \<Longrightarrow> (\<And>x. calm (f x)) \<Longrightarrow> calm (case m of None \<Rightarrow> p | Some x \<Rightarrow> f x)"
  "(\<And>x. calm (g x)) \<Longrightarrow> (\<And>x. calm (h x)) \<Longrightarrow> calm (case r of Inl x \<Rightarrow> g x | Inr x \<Rightarrow> h x)"
  "(\<And>x y. calm (k x y)) \<Longrightarrow> calm (case z of (x, y) \<Rightarrow> k x y)"
  by (simp_all split: option.split sum.split prod.split)

lemma calm_touch [calm_intros]: "calm (touch_grant i)"
  unfolding touch_grant_def by (rule calm_same_rows) (simp add: on_store_def update_grants_def merge_rows_def)

lemma calm_failed [calm_intros]: "calm (grant_failed e)" "calm (reload i f)"
  by (auto simp: grant_failed_def reload_def intro!: calm_intros)

lemma calm_reconcile [calm_intros]: "calm (reconcile env v)"
proof -
  have "calm (mark_recovery i)" "calm (complete_reconciliation i sha)" "calm (finish_after_dispatch i code outcome)" for i sha code outcome
    unfolding mark_recovery_def complete_reconciliation_def finish_after_dispatch_def
    by (intro calm_intros calm_update; auto simp: in_flight_def progress_moves_def state_moves_def)+
  then show ?thesis unfolding reconcile_def Let_def by (intro calm_intros)
qed

lemma calm_finish [calm_intros]: "calm (finish_without_dispatch i code)" "calm (complete_ff_ack i sha)"
  unfolding finish_without_dispatch_def complete_ff_ack_def
  by (intro calm_intros calm_update; auto simp: progress_moves_def state_moves_def)+

lemma calm_complete [calm_intros]: "calm (complete_dispatch i state outcome merged sha)"
proof (cases "state = Completed \<or> state = RecoveryNeeded")
  case True
  then show ?thesis unfolding complete_dispatch_def Let_def
    by (intro calm_intros calm_update) (auto simp: in_flight_def progress_moves_def state_moves_def)
qed (simp add: complete_dispatch_def calm_done)

lemma mark_merged_rows:
  "merge_rows (snd (mark_merged env repository pr base_ref base head w)) = merge_rows w"
  "mw_posts (snd (mark_merged env repository pr base_ref base head w)) = mw_posts w"
  by (auto simp: mark_merged_def Let_def merge_rows_def split: option.splits)

lemma calm_ack [calm_intros]: "calm (acknowledge_ff env repository pr m head)"
  unfolding acknowledge_ff_def by (intro calm_intros calm_same_rows) (simp add: mark_merged_rows)

lemma calm_dispatch_ff [calm_intros]: "calm (dispatch_ff env f v pr m)"
  unfolding dispatch_ff_def by (intro calm_intros)

lemma calm_provider_preflight [calm_intros]: "calm (provider_preflight n env repository external number head base_ref provider_base)"
  by (induction n) (auto intro!: calm_intros)

lemma revalidate_rows: "revalidate_access_grant env now g st = (r, st') \<Longrightarrow> gs_invocations st' = gs_invocations st"
  using revalidate_frame by (fastforce simp: same_tables_def)

lemma calm_preflight [calm_intros]: "calm (merge_preflight env g c)"
  unfolding merge_preflight_def preflight_pull_def preflight_provider_def preflight_sides_def preflight_ci_def preflight_fails_def merge_sides_def Let_def
  by (intro calm_intros calm_same_rows) (auto simp: on_store_def merge_rows_def split: prod.split dest: revalidate_rows)

lemma calm_create [calm_intros]: "calm (act (create_row i))"
  by (rule calm_act) (rule create_guar)

section \<open>The claim\<close>

lemma found_row: "load_invocation i w = Some v \<Longrightarrow> v \<in> set (merge_rows w) \<and> iv_id v = i"
  unfolding load_invocation_def merge_rows_def by (auto simp: find_Some_iff)

lemma unique_row: "rows_unique (merge_rows w) \<Longrightarrow> u \<in> set (merge_rows w) \<Longrightarrow> v \<in> set (merge_rows w) \<Longrightarrow> iv_id u = iv_id v \<Longrightarrow> u = v"
  unfolding rows_unique_def distinct_map by (meson inj_onD)

lemma unique_effect_key:
  assumes "rows_unique vs" "u \<in> set vs" "v \<in> set vs" "iv_effect_key u = Some k" "iv_effect_key v = Some k"
  shows "u = v"
proof -
  have "distinct (map iv_effect_key (filter (\<lambda>v. iv_effect_key v \<noteq> None) vs))"
    using assms(1) by (simp add: rows_unique_def filter_map comp_def)
  then show ?thesis using assms(2-5) by (auto simp: distinct_map inj_on_def)
qed

lemma load_unique:
  assumes "rows_unique (merge_rows w)" "v \<in> set (merge_rows w)"
  shows "load_invocation (iv_id v) w = Some v"
proof -
  obtain u where u: "load_invocation (iv_id v) w = Some u"
    using assms(2) unfolding load_invocation_def merge_rows_def by (cases "find (\<lambda>u. iv_id u = iv_id v) (gs_invocations (mw_store w))") (auto simp: find_None_iff)
  then have "u = v" using found_row [OF u] unique_row [OF assms(1) _ assms(2)] by blast
  then show ?thesis using u by simp
qed

lemma update_found:
  assumes "rows_unique (merge_rows w)" "load_invocation i w = Some v" "update_progress i states f w = (n, w')" "n \<noteq> 0"
    "\<And>e. ep_state e \<in> set states \<Longrightarrow> progress_moves e (f e)"
  shows "ep_state (iv_progress v) \<in> set states" "load_invocation i w' = Some (v\<lparr>iv_progress := f (iv_progress v)\<rparr>)"
proof -
  define hit :: "invocation_row \<Rightarrow> bool" where "hit = (\<lambda>v. iv_id v = i \<and> iv_operation v = ''pr.merge'' \<and> ep_state (iv_progress v) \<in> set states)"
  have "filter hit (merge_rows w) \<noteq> []" using assms(3,4) by (auto simp: update_progress_def hit_def merge_rows_def)
  then obtain u where u: "u \<in> set (merge_rows w)" "hit u" by (auto simp: filter_empty_conv)
  have v: "v \<in> set (merge_rows w)" "iv_id v = i" using found_row [OF assms(2)] by simp_all
  have "u = v" by (rule unique_row [OF assms(1) u(1) v(1)]) (use u(2) v(2) in \<open>simp add: hit_def\<close>)
  then have h: "hit v" using u by simp
  then show "ep_state (iv_progress v) \<in> set states" by (simp add: hit_def)
  have w': "merge_rows w' = map (\<lambda>v. if hit v then v\<lparr>iv_progress := f (iv_progress v)\<rparr> else v) (merge_rows w)"
    using update_progress_rows(1) [of i states f w] assms(3) by (simp add: hit_def)
  have "rows_unique (merge_rows w')" using update_guar [of states f w i] assms(1,3,5) by (simp add: merge_guar_def)
  moreover have "v\<lparr>iv_progress := f (iv_progress v)\<rparr> \<in> set (merge_rows w')" using h found_row [OF assms(2)] unfolding w' by force
  ultimately have "load_invocation (iv_id (v\<lparr>iv_progress := f (iv_progress v)\<rparr>)) w' = Some (v\<lparr>iv_progress := f (iv_progress v)\<rparr>)" by (rule load_unique)
  then show "load_invocation i w' = Some (v\<lparr>iv_progress := f (iv_progress v)\<rparr>)" using found_row [OF assms(2)] by simp
qed

lemma dispatching_moves: "ep_state e \<in> set [Planned] \<Longrightarrow>
    progress_moves e (e\<lparr>ep_state := Dispatching, ep_provider_attempt := ''attempted'', ep_provider_outcome := outcome, ep_updated_at := now\<rparr>)"
  by (auto simp: progress_moves_def state_moves_def)

lemma claim_cases:
  assumes "claim_dispatch f v w = (r, w')"
  obtains "w' = w" "r \<noteq> Inr True"
  | current pr j i n where "grant_by_id (mw_store w) (gf_id f) = Some current" "load_pull (iv_repository_id v) (ef_ags_pr_number (iv_effect v)) w = Some pr"
      "find_projection (pl_id pr) w = Some j" "load_invocation (iv_id v) w = Some i" "ep_state (iv_progress i) = Planned"
      "dispatch_facts f v current pr j (mw_now w)" "r = Inr (n = 1)"
      "update_progress (iv_id v) [Planned]
         (\<lambda>e. e\<lparr>ep_state := Dispatching, ep_provider_attempt := ''attempted'', ep_provider_outcome := ''outcome_unknown'', ep_updated_at := mw_now w\<rparr>) w = (n, w')"
  using assms unfolding claim_dispatch_def by (auto split: option.splits if_splits prod.splits)

lemma claim_guar:
  assumes "claim_dispatch f v w = (r, w')"
  shows "merge_guar w w' \<and> mw_posts w' = mw_posts w"
  using assms
proof (cases rule: claim_cases)
  case 1
  then show ?thesis by (simp add: merge_guar_refl)
next
  case (2 current pr j i n)
  have w': "w' = snd (update_progress (iv_id v) [Planned]
      (\<lambda>e. e\<lparr>ep_state := Dispatching, ep_provider_attempt := ''attempted'', ep_provider_outcome := ''outcome_unknown'', ep_updated_at := mw_now w\<rparr>) w)"
    using 2(8) by simp
  show ?thesis unfolding w' by (intro conjI update_guar dispatching_moves update_progress_rows(2))
qed

text \<open>A claim that succeeds found everything in order for the row that is going to be sent.\<close>

lemma claim_cleared:
  assumes "claim_dispatch f v w = (Inr True, w')" "rows_unique (merge_rows w)" "merge_guar u w" "load_invocation (iv_id v) u = Some v"
  shows "effect_cleared (merge_post_of v) w \<and> \<not> effect_shut (iv_id v) w \<and> effect_shut (iv_id v) w'"
  using assms(1)
proof (cases rule: claim_cases)
  case (2 current pr j i n)
  obtain i' where "load_invocation (iv_id v) w = Some i'" "row_moves v i'" by (rule load_moves [OF assms(3,4)])
  then have m: "row_moves v i" using 2(4) by simp
  note same = row_moves_facts [OF m]
  have n: "n \<noteq> 0" using 2(7) by auto
  note after = update_found(2) [OF assms(2) 2(4) 2(8) n dispatching_moves]
  have "gf_id (gr_facts current) = gf_id f" using 2(1) by (auto simp: grant_by_id_def find_Some_iff)
  then have "grant_by_id (mw_store w) (iv_grant_id i) = Some current" using 2(1,6) same(3) by (simp add: dispatch_facts_def)
  then have "effect_cleared (merge_post_of v) w"
    unfolding effect_cleared_def using 2 same by (intro exI [of _ i] exI [of _ current] exI [of _ pr] exI [of _ j])
      (auto simp: dispatch_facts_def merge_post_of_def)
  moreover have "\<not> effect_shut (iv_id v) w" using 2(4,5) by (simp add: effect_shut_def)
  moreover have "effect_shut (iv_id v) w'" using after by (simp add: effect_shut_def)
  ultimately show ?thesis by simp
qed simp

definition claimed :: "invocation_row \<Rightarrow> merge_post option \<Rightarrow> 'p merge_world \<Rightarrow> grant_error + invocation_row \<times> bool \<Rightarrow> bool" where
  "claimed v c w r \<longleftrightarrow> c = (case r of Inr (_, True) \<Rightarrow> Some (merge_post_of v) | _ \<Rightarrow> None)"

lemma begin_careful:
  assumes "merge_guar u w0" "load_invocation (iv_id v) u = Some v"
  shows "merging.careful (claimed v) None w0 (begin_dispatch f v)"
  unfolding begin_dispatch_def
proof (rule merging.careful_bind)
  show "merging.careful (\<lambda>c w r. c = (if r = Inr True then Some (merge_post_of v) else None)) None w0 (act (claim_dispatch f v))"
  proof (rule merging.careful_act)
    fix w
    assume g: "merge_guar w0 w" and ok: "rows_unique (merge_rows w)"
    obtain r w' where c: "claim_dispatch f v w = (r, w')" by force
    have m: "merge_guar u w" by (rule merge_guar_trans [OF assms(1) g])
    have "merging.claims None w (if r = Inr True then Some (merge_post_of v) else None) w'"
      using claim_guar [OF c] claim_cleared [OF _ ok m assms(2)] c by (auto simp: merging.claims_def merge_post_of_def)
    then show "\<exists>c'. merging.claims None w c' (snd (claim_dispatch f v w))
        \<and> c' = (if fst (claim_dispatch f v w) = Inr True then Some (merge_post_of v) else None)" using c by simp
  qed
next
  fix c :: "merge_post option" and w1 :: "'p merge_world" and r :: "grant_error + bool"
  assume c: "c = (if r = Inr True then Some (merge_post_of v) else None)"
  show "merging.careful (claimed v) c w1 (case r of Inl e \<Rightarrow> Done (Inl e)
      | Inr dispatched \<Rightarrow> bind_prog (see (load_invocation (iv_id v))) (\<lambda>x.
          Done (case x of None \<Rightarrow> Inl (GrantStore NotFound) | Some i \<Rightarrow> Inr (i, dispatched))))"
  proof (cases r)
    case (Inl e)
    then show ?thesis using c by (auto simp: claimed_def intro: merging.careful.finish)
  next
    case (Inr dispatched)
    have "merging.careful (\<lambda>c' _ x. c' = (if x = None then None else c)) c w1 (see (load_invocation (iv_id v)))"
      unfolding see_def
      by (rule merging.careful_act) (auto simp: merging.claims_def merge_guar_refl)
    then have "merging.careful (claimed v) c w1 (bind_prog (see (load_invocation (iv_id v))) (\<lambda>x.
          Done (case x of None \<Rightarrow> Inl (GrantStore NotFound) | Some i \<Rightarrow> Inr (i, dispatched))))"
      by (rule merging.careful_bind)
        (use c Inr in \<open>auto intro!: merging.careful.finish simp: claimed_def split: option.split bool.split\<close>)
    then show ?thesis using Inr by simp
  qed
qed

section \<open>Handlers keep the contract\<close>

definition sound :: "('p merge_world, 'a) prog \<Rightarrow> bool" where
  "sound p \<longleftrightarrow> (\<forall>v. merging.careful (\<lambda>_ _ _. True) None v p)"

named_theorems sound_intros

lemma sound_calm: "calm p \<Longrightarrow> sound p"
  unfolding sound_def calm_def by (blast intro: merging.careful_weaken)

lemma sound_done [sound_intros]: "sound (Done a)" "sound (grant_failed e)"
  by (rule sound_calm, intro calm_intros)+

lemma sound_bind [sound_intros]: "calm p \<Longrightarrow> (\<And>a. sound (f a)) \<Longrightarrow> sound (bind_prog p f)"
  unfolding calm_def sound_def by (blast intro: merging.careful_bind)

lemma sound_cases [sound_intros]:
  "sound p \<Longrightarrow> sound q \<Longrightarrow> sound (if b then p else q)"
  "sound p \<Longrightarrow> (\<And>x. sound (f x)) \<Longrightarrow> sound (case m of None \<Rightarrow> p | Some x \<Rightarrow> f x)"
  "(\<And>x. sound (g x)) \<Longrightarrow> (\<And>x. sound (h x)) \<Longrightarrow> sound (case r of Inl x \<Rightarrow> g x | Inr x \<Rightarrow> h x)"
  "(\<And>x y. sound (k x y)) \<Longrightarrow> sound (case z of (x, y) \<Rightarrow> k x y)"
  by (simp_all split: option.split sum.split prod.split)

lemma careful_sound: "sound p \<Longrightarrow> merging.careful (\<lambda>_ _ _. True) None v p"
  by (simp add: sound_def)

lemma send_careful: "merging.careful (\<lambda>c _ _. c = None) (Some k) v (send_merge env k)"
  unfolding send_merge_def
  by (rule merging.careful_act)
    (auto simp: merging.claims_def merge_rows_def intro!: same_rows_guar split: prod.split)

lemma calm_store_result [calm_intros]: "calm (store_result f v r)"
  unfolding store_result_def by (intro calm_intros)

lemma claimed_careful: "merging.careful (\<lambda>_ _ _. True) (Some (merge_post_of v)) w (dispatch_claimed env f v)"
  unfolding dispatch_claimed_def
  by (rule merging.careful_bind [OF send_careful]) (simp add: careful_sound [OF sound_calm [OF calm_store_result]])

lemma provider_careful:
  assumes "merge_guar u w" "load_invocation (iv_id v) u = Some v"
  shows "merging.careful (\<lambda>_ _ _. True) None w (dispatch_provider env f v)"
  unfolding dispatch_provider_def
proof (rule merging.careful_bind [OF begin_careful [OF assms]])
  fix c and w :: "'a merge_world" and r :: "grant_error + invocation_row \<times> bool"
  assume c: "claimed v c w r"
  show "merging.careful (\<lambda>_ _ _. True) c w (after_claim env f v r)"
  proof (cases "\<exists>i. r = Inr (i, True)")
    case True
    then show ?thesis using c claimed_careful by (auto simp: claimed_def after_claim_def)
  next
    case False
    then have "c = None" using c by (auto simp: claimed_def split: sum.splits prod.splits bool.splits)
    moreover have "calm (after_claim env f v r)"
    proof (cases r)
      case (Inl e)
      then show ?thesis by (simp add: after_claim_def calm_intros)
    next
      case (Inr x)
      then obtain current where "r = Inr (current, False)" using False by (cases x) auto
      then have "after_claim env f v r =
          (if ep_state (iv_progress current) \<in> {Dispatching, RecoveryNeeded} then reconcile env current else Done (receipt current))"
        by (simp add: after_claim_def)
      then show ?thesis by (simp only: calm_cases(1) calm_reconcile calm_done)
    qed
    ultimately show ?thesis using careful_sound [OF sound_calm] by simp
  qed
qed

lemma calm_resume_by: "calm p \<Longrightarrow> calm (resume_by env p f v c)"
  unfolding resume_by_def by (auto intro!: calm_intros split: intent_state.split)

lemma calm_drifted [calm_intros]: "calm (dispatch_drifted env f i c)"
  unfolding dispatch_drifted_def by (intro calm_intros calm_resume_by)

lemma planned_careful:
  assumes "load_invocation (iv_id v) w = Some v"
  shows "merging.careful (\<lambda>_ _ _. True) None w (dispatch_planned env g v c)"
  unfolding dispatch_planned_def
proof (rule merging.careful_bind)
  have "merging.careful (\<lambda>c _ _. c = None) None w (merge_preflight env g c)" using calm_preflight by (auto simp: calm_def)
  then show "merging.careful (\<lambda>c w' _. c = None \<and> merge_guar w w') None w (merge_preflight env g c)" by (rule merging.careful_later)
next
  fix c' :: "merge_post option" and w' :: "'a merge_world" and r :: preflight_result
  assume c': "c' = None \<and> merge_guar w w'"
  have "merging.careful (\<lambda>_ _ _. True) None w' (dispatch_provider env (gr_facts g) v)"
    by (rule provider_careful) (use c' assms in auto)
  moreover have "merging.careful (\<lambda>_ _ _. True) None w' (dispatch_drifted env (gr_facts g) (iv_id v) c)"
    "merging.careful (\<lambda>_ _ _. True) None w' (grant_failed GrantUnavailable :: ('a, merge_answer) merge_prog)"
    "\<And>pr m. merging.careful (\<lambda>_ _ _. True) None w' (dispatch_ff env (gr_facts g) v pr m)"
    by (intro careful_sound sound_calm calm_intros)+
  ultimately show "merging.careful (\<lambda>_ _ _. True) c' w' (case r of (m, failure) \<Rightarrow>
      if failure \<noteq> None \<or> \<not> preflight_matches m v then dispatch_drifted env (gr_facts g) (iv_id v) c
      else dispatch_checked env (gr_facts g) v m)"
    using c' by (simp add: dispatch_checked_def split: prod.split option.split)
qed

lemma sound_dispatch [sound_intros]: "sound (dispatch env g i c)"
  unfolding sound_def
proof
  fix w0 :: "'a merge_world"
  have load: "merging.careful (\<lambda>c w x. c = None \<and> x = load_invocation i w) None w0 (see (load_invocation i))"
    by (rule merging.careful_see) simp
  have "merging.careful (\<lambda>_ _ _. True) None w (dispatch_planned env g v c)" if "load_invocation i w = Some v" for v and w :: "'a merge_world"
    using planned_careful that found_row [OF that] by metis
  moreover have "merging.careful (\<lambda>_ _ _. True) None w (resume_by env (grant_failed GrantUnavailable) (gr_facts g) v c)"
    "merging.careful (\<lambda>_ _ _. True) None w (grant_failed (GrantStore NotFound) :: ('a, merge_answer) merge_prog)" for v and w :: "'a merge_world"
    by (intro careful_sound sound_calm calm_resume_by calm_intros)+
  ultimately show "merging.careful (\<lambda>_ _ _. True) None w0 (dispatch env g i c)"
    unfolding dispatch_def by (intro merging.careful_bind [OF load]) (auto split: option.split)
qed

lemma sound_resume [sound_intros]: "sound (resume env g v c)"
  unfolding resume_def resume_by_def
  by (auto intro!: sound_intros split: intent_state.split) (auto intro!: sound_calm calm_intros)

lemma calm_persist [calm_intros]: "calm (persist_intent f m c key i)"
proof -
  have "merge_guar w (snd (let row = R w in case record_intent f m row w of Inl e \<Rightarrow> (Inl e, w) | Inr w1 \<Rightarrow> (Inr row, w1)))
      \<and> mw_posts (snd (let row = R w in case record_intent f m row w of Inl e \<Rightarrow> (Inl e, w) | Inr w1 \<Rightarrow> (Inr row, w1))) = mw_posts w"
    for w :: "'p merge_world" and R :: "'p merge_world \<Rightarrow> invocation_row"
    using create_guar [of w "R w"] merge_guar_refl [of w]
    by (auto simp: record_intent_def Let_def split: option.splits sum.splits prod.splits if_splits)
  then show ?thesis unfolding persist_intent_def by (intro calm_intros calm_act)
qed

lemma sound_conflict [sound_intros]: "sound (persist_conflict env g m c key i code)"
proof -
  have [calm_intros]: "calm (act (\<lambda>w. case create_row (R w) w of (created, w1) \<Rightarrow> ((created, R w), w1)))" for R :: "'a merge_world \<Rightarrow> invocation_row"
  proof (rule calm_act)
    show "merge_guar w (snd (case create_row (R w) w of (created, w1) \<Rightarrow> ((created, R w), w1)))
        \<and> mw_posts (snd (case create_row (R w) w of (created, w1) \<Rightarrow> ((created, R w), w1))) = mw_posts w" for w :: "'a merge_world"
      using create_guar [of w "R w"] by (cases "create_row (R w) w") simp
  qed
  show ?thesis unfolding persist_conflict_def Let_def by (intro sound_intros calm_intros)
qed

lemma sound_execute: "sound (execute_merge env raw input)"
  unfolding execute_merge_def after_failed_preflight_def record_and_dispatch_def Let_def
  by (intro sound_intros calm_intros)

lemma calm_lineage [calm_intros]: "calm (lineage_from n cursor ancestor)"
  by (induction n arbitrary: cursor) (auto intro!: calm_intros)

lemma sound_get: "sound (get_invocation env raw raw_id)"
  unfolding get_invocation_def lineage_contains_def Let_def
  by (intro sound_calm calm_intros)

end
