(* ===== verification/Merge_Properties.thy ===== *)
theory Merge_Properties
  imports Merge_Safety
begin

section \<open>One attempt\<close>

definition merge_requests :: "('p, merge_answer) merge_prog set" where
  "merge_requests = {execute_merge env raw input | env raw input. True} \<union> {get_invocation env raw i | env raw i. True}"

text \<open>
  What others may do between the actions of the handlers: anything to the other tables, the clock,
  git and the forge, and adding receipts of other operations, which have no effect key.
\<close>

definition others_act :: "'p merge_world \<Rightarrow> 'p merge_world \<Rightarrow> bool" where
  "others_act w w' \<longleftrightarrow> mw_posts w' = mw_posts w
     \<and> (\<exists>new. merge_rows w' = merge_rows w @ new \<and> list_all (\<lambda>v. iv_effect_key v = None) new
          \<and> distinct (map iv_id new) \<and> set (map iv_id new) \<inter> set (map iv_id (merge_rows w)) = {})"

lemma others_inert: "merging.inert others_act"
proof -
  have "merge_guar w w'" if "others_act w w'" for w w' :: "'a merge_world"
  proof -
    obtain new where new: "merge_rows w' = merge_rows w @ new" "list_all (\<lambda>v. iv_effect_key v = None) new"
      "distinct (map iv_id new)" "set (map iv_id new) \<inter> set (map iv_id (merge_rows w)) = {}"
      using \<open>others_act w w'\<close> unfolding others_act_def by blast
    have "filter (\<lambda>k. k \<noteq> None) (map iv_effect_key new) = []" using new(2) by (auto simp: filter_empty_conv list_all_iff)
    then have "rows_unique (merge_rows w) \<longrightarrow> rows_unique (merge_rows w')" using new by (auto simp: rows_unique_def)
    then show ?thesis unfolding merge_guar_def using new(1) invocations.rows_refl by blast
  qed
  then show ?thesis by (auto simp: merging.inert_def others_act_def)
qed

lemma requests_careful: "merging.careful_requests merge_requests"
  by (auto simp: merging.careful_requests_def merge_requests_def intro!: careful_sound sound_execute sound_get)

text \<open>
  C4. One provider attempt: however requests are interleaved with each other, with crashes and with
  anything others do, \<open>MergePullRequest\<close> is called at most once for an invocation, and at most once for
  the exact effect. Every call was preceded by a state of the tables in which the invocation was
  still planned, its grant live, the pull request open, ready and at the expected head, and the
  projection as requested. The call is the one the stored row describes, and the row tells for
  good that an attempt was made.
\<close>

theorem single_provider_attempt:
  assumes "pool merge_requests others_act start ws ps w" "mw_posts start = []" "rows_unique (merge_rows start)"
  shows "distinct (map po_invocation (mw_posts w))
    \<and> (\<forall>k\<in>set (mw_posts w). (\<exists>v\<in>set ws. effect_cleared k v)
        \<and> (\<exists>i. load_invocation (po_invocation k) w = Some i \<and> merge_post_of i = k \<and> ep_state (iv_progress i) \<noteq> Planned
             \<and> ep_provider_attempt (iv_progress i) = ''attempted''))
    \<and> (\<forall>k\<in>set (mw_posts w). \<forall>l\<in>set (mw_posts w). \<forall>i j key.
        load_invocation (po_invocation k) w = Some i \<longrightarrow> load_invocation (po_invocation l) w = Some j
        \<longrightarrow> iv_effect_key i = Some key \<longrightarrow> iv_effect_key j = Some key \<longrightarrow> k = l)"
proof -
  note once = merging.sent_once [OF assms(1) requests_careful others_inert assms(2,3)]
  note past = merging.pool_guar [OF assms(1) requests_careful others_inert assms(2,3)]
  have rows: "(\<exists>v\<in>set ws. effect_cleared k v) \<and> (\<exists>i. load_invocation (po_invocation k) w = Some i \<and> merge_post_of i = k
      \<and> ep_state (iv_progress i) \<noteq> Planned \<and> ep_provider_attempt (iv_progress i) = ''attempted'')"
    if k: "k \<in> set (mw_posts w)" for k
  proof -
    obtain v where v: "v \<in> set ws" "effect_cleared k v" using once k by blast
    then obtain i where i: "load_invocation (po_invocation k) v = Some i" "merge_post_of i = k" by (auto simp: effect_cleared_def)
    obtain i' where "load_invocation (po_invocation k) w = Some i'" "row_moves i i'" using load_moves [OF _ i(1)] past v(1) by blast
    moreover have "effect_shut (po_invocation k) w" using once k by simp
    ultimately show ?thesis using v row_moves_facts(7) [of i i'] i(2) by (auto simp: effect_shut_def)
  qed
  have unique: "rows_unique (merge_rows w)" using past assms(3) by (simp add: merge_guar_def)
  have "i = j"
    if "load_invocation a w = Some i" "load_invocation b w = Some j" "iv_effect_key i = Some key" "iv_effect_key j = Some key" for a b i j key
    using found_row [OF that(1)] found_row [OF that(2)] unique_effect_key [OF unique _ _ that(3,4)] by blast
  then have "k = l" if "k \<in> set (mw_posts w)" "l \<in> set (mw_posts w)" "load_invocation (po_invocation k) w = Some i"
      "load_invocation (po_invocation l) w = Some j" "iv_effect_key i = Some key" "iv_effect_key j = Some key" for k l i j key
    using rows [OF that(1)] rows [OF that(2)] that(3-6) by (metis option.inject)
  then show ?thesis using once rows by blast
qed

text \<open>
  C10. Merge receipts only move on: over any run of requests and outside actions, rows of invocations
  are never removed and keep what they are about, identifiers and effect keys stay unique, the
  state follows planned, dispatching, recovery to completed or conflict, and a row in a terminal
  state never changes again.
\<close>

theorem merge_receipts_final:
  assumes "pool merge_requests others_act start ws ps w" "mw_posts start = []" "rows_unique (merge_rows start)"
    and "u \<in> set ws" "load_invocation i u = Some v"
  shows "\<exists>q. load_invocation i w = Some (v\<lparr>iv_progress := q\<rparr>)
     \<and> (q = iv_progress v \<or> state_moves (ep_state (iv_progress v)) (ep_state q))
     \<and> (ep_state (iv_progress v) \<notin> {Planned, Dispatching, RecoveryNeeded} \<longrightarrow> q = iv_progress v)
     \<and> rows_unique (merge_rows w)"
proof -
  have past: "merge_guar u w" "merge_guar start w"
    using merging.pool_guar [OF assms(1) requests_careful others_inert assms(2,3)] assms(4) by simp_all
  obtain v' where "load_invocation i w = Some v'" "row_moves v v'" by (rule load_moves [OF past(1) assms(5)])
  then obtain q where q: "load_invocation i w = Some (v\<lparr>iv_progress := q\<rparr>)" "progress_moves (iv_progress v) q"
    unfolding row_moves_def by blast
  moreover have "rows_unique (merge_rows w)" using past(2) assms(3) by (simp add: merge_guar_def)
  ultimately show ?thesis by (intro exI [of _ q]) (auto simp: progress_moves_def state_moves_def)
qed

section \<open>Asking again\<close>

text \<open>
  C12. A repeated request for an effect that has come to an end answers its stored receipt and does
  nothing: no call, no change of any table.
\<close>

theorem repeated_merge_answers_receipt:
  assumes "resolve_active_grant (me_grant env) (mw_now w) raw (mw_store w) = Inr (g, actor, executor)"
    and "contains_operation (gf_effective_operations (gr_facts g)) ''pr.merge''"
    and "pr_merge_constraints (mi_ags_number input) (mi_provider_number input) (mi_head input) (mi_method input) = Some c"
    and "merge_effect_key env (gf_repository_full_name (gr_facts g)) c = Some key"
    and "canonical_uuid (trim_space (mi_invocation_id input))"
    and "load_invocation (trim_space (mi_invocation_id input)) w = Some v" "iv_effect_key v = Some key" "same_invocation (gr_facts g) v c"
    and "ep_state (iv_progress v) \<in> {Completed, DeniedState, ConflictState}"
  shows "run (execute_merge env raw input) w = (receipt v, w)"
  using assms by (auto simp: execute_merge_def resume_def resume_by_def Let_def)

section \<open>Reconciliation\<close>

definition reconciled :: "'p merge_env \<Rightarrow> invocation_row \<Rightarrow> 'p merge_world \<Rightarrow> effect_progress" where
  "reconciled env v w =
     (let e = iv_progress v; f = iv_effect v;
          unknown = e\<lparr>ep_state := RecoveryNeeded, ep_provider_attempt := ''attempted'', ep_provider_outcome := ''outcome_unknown'', ep_updated_at := mw_now w\<rparr>;
          over = (\<lambda>code outcome. e\<lparr>ep_state := ConflictState, ep_provider_attempt := ''attempted'', ep_provider_outcome := outcome, ep_provider_merged := False,
                    ep_merge_sha := [], ep_denial_code := code, ep_updated_at := mw_now w, ep_finished_at := Some (mw_now w)\<rparr>)
      in case me_snapshot env (iv_repository v) (ef_provider_repo f) (ef_provider_pr_number f) (mw_outside w) of
           None \<Rightarrow> unknown
         | Some s \<Rightarrow>
             if ps_merged s
             then (case if exact_git_sha (ps_head_sha s) (ef_expected_head f) then snapshot_merge_sha s (ef_expected_head f) else None of
                     Some sha \<Rightarrow> e\<lparr>ep_state := Completed, ep_authorization_outcome := ''allowed'', ep_provider_attempt := ''attempted'',
                        ep_provider_outcome := ''reconciled_after_error'', ep_provider_merged := True, ep_merge_sha := sha, ep_denial_code := [],
                        ep_updated_at := mw_now w, ep_finished_at := Some (mw_now w)\<rparr>
                   | None \<Rightarrow> over ''provider_merged_fact_drift'' ''merged_fact_drift'')
             else if ps_state s = ''open'' \<and> exact_git_sha (ps_head_sha s) (ef_expected_head f)
                     \<and> ps_base_ref s = ef_base_ref f \<and> exact_git_sha (ps_base_sha s) (ef_expected_base f) then unknown
             else over ''provider_state_drift'' ''confirmed_not_merged'')"

lemma load_update:
  "load_invocation j (snd (update_progress i states f w)) =
     map_option (\<lambda>v. if iv_id v = i \<and> iv_operation v = ''pr.merge'' \<and> ep_state (iv_progress v) \<in> set states
        then v\<lparr>iv_progress := f (iv_progress v)\<rparr> else v) (load_invocation j w)"
proof -
  have "find (\<lambda>v. iv_id v = j) (map h vs) = map_option h (find (\<lambda>v. iv_id v = j) vs)"
    if "\<And>v. iv_id (h v) = iv_id v" for h :: "invocation_row \<Rightarrow> invocation_row" and vs
    using that by (induction vs) auto
  then show ?thesis by (simp add: load_invocation_def update_progress_def on_store_def Let_def)
qed

lemma update_rest:
  "mw_posts (snd (update_progress i states f w)) = mw_posts w" "mw_outside (snd (update_progress i states f w)) = mw_outside w"
  "mw_pulls (snd (update_progress i states f w)) = mw_pulls w"
  by (simp_all add: update_progress_def on_store_def)

lemma run_reload: "run (reload i f) w = (case load_invocation i w of None \<Rightarrow> Inl (GrantFailure (GrantStore NotFound)) | Some v \<Rightarrow> f v, w)"
  by (simp add: reload_def grant_failed_def split: option.split)

lemma hex_no_space: "\<forall>r\<in>set space_runes. \<forall>b\<in>set r. \<not> lower_hex b"
  by code_simp

lemma canonical_sha_exact:
  assumes "is_canonical_sha s"
  shows "exact_git_sha s s"
proof -
  have hex: "\<And>b. b \<in> set s \<Longrightarrow> lower_hex b" "s \<noteq> []" using assms by (auto simp: is_canonical_sha_def list_all_iff)
  have "\<not> prefix r s" "\<not> suffix r s" if "r \<in> set space_runes" "r \<noteq> []" for r
    using that hex(1) hex_no_space hd_in_set set_mono_prefix set_mono_suffix by (metis subsetD)+
  then have "trim_space s = s" by (simp add: trim_space_fixed_iff trim_left_fixed_iff trim_right_fixed_iff)
  then show ?thesis using hex(2) by (simp add: exact_git_sha_def equal_fold_def)
qed

lemma snapshot_sha_canonical: "snapshot_merge_sha s head = Some sha \<Longrightarrow> is_canonical_sha sha"
  by (auto simp: snapshot_merge_sha_def split: if_splits)

text \<open>
  C11. Reconciling a row in flight decides by what the forge shows and calls nothing: merged at the
  expected head with a canonical merge commit, or a base that is the head, completes it with that
  commit; merged otherwise, closed, or open with another head or base ends it as a conflict; a
  forge that cannot be read, and a pull request still open as expected, leave it to be recovered.
  The answer is the receipt of the row as stored then, and no other row changes.
\<close>

theorem reconcile_decides:
  assumes "load_invocation (iv_id v) w = Some v" "iv_operation v = ''pr.merge''" "ep_state (iv_progress v) \<in> {Dispatching, RecoveryNeeded}" "me_forge env"
  shows "\<exists>w'. run (reconcile env v) w = (receipt (v\<lparr>iv_progress := reconciled env v w\<rparr>), w')
    \<and> load_invocation (iv_id v) w' = Some (v\<lparr>iv_progress := reconciled env v w\<rparr>)
    \<and> (\<forall>j. j \<noteq> iv_id v \<longrightarrow> load_invocation j w' = load_invocation j w)
    \<and> mw_posts w' = mw_posts w \<and> mw_outside w' = mw_outside w \<and> mw_pulls w' = mw_pulls w"
proof -
  have stored: "\<exists>w'. run p w = (receipt (v\<lparr>iv_progress := q\<rparr>), w') \<and> load_invocation (iv_id v) w' = Some (v\<lparr>iv_progress := q\<rparr>)
      \<and> (\<forall>j. j \<noteq> iv_id v \<longrightarrow> load_invocation j w' = load_invocation j w)
      \<and> mw_posts w' = mw_posts w \<and> mw_outside w' = mw_outside w \<and> mw_pulls w' = mw_pulls w"
    if "run p w = (receipt (v\<lparr>iv_progress := q\<rparr>), snd (update_progress (iv_id v) in_flight f w))" "f (iv_progress v) = q" for p q f
  proof -
    have "load_invocation j (snd (update_progress (iv_id v) in_flight f w)) = load_invocation j w" if "j \<noteq> iv_id v" for j
    proof (cases "load_invocation j w")
      case (Some u)
      then have "iv_id u \<noteq> iv_id v" using found_row [OF Some] that by simp
      then show ?thesis using Some by (simp add: load_update)
    qed (simp add: load_update)
    moreover have "load_invocation (iv_id v) (snd (update_progress (iv_id v) in_flight f w)) = Some (v\<lparr>iv_progress := q\<rparr>)"
      using assms that(2) by (auto simp: load_update in_flight_def)
    ultimately show ?thesis using that(1) update_rest [of "iv_id v" in_flight f w] by blast
  qed
  have here: "load_invocation (iv_id v) (snd (update_progress (iv_id v) in_flight f w)) = Some (v\<lparr>iv_progress := f (iv_progress v)\<rparr>)" for f
    using assms by (auto simp: load_update in_flight_def)
  note actions = mark_recovery_def complete_reconciliation_def finish_after_dispatch_def
  show ?thesis
  proof (cases "me_snapshot env (iv_repository v) (ef_provider_repo (iv_effect v)) (ef_provider_pr_number (iv_effect v)) (mw_outside w)")
    case None
    show ?thesis
      by (rule stored) (use None assms(3,4) in \<open>auto simp: reconcile_def reconciled_def actions run_reload here Let_def case_prod_beta\<close>)
  next
    case (Some s)
    note read = Some
    show ?thesis
    proof (cases "if ps_merged s \<and> exact_git_sha (ps_head_sha s) (ef_expected_head (iv_effect v)) then snapshot_merge_sha s (ef_expected_head (iv_effect v)) else None")
      case None
      show ?thesis
        by (rule stored) (use read None assms(3,4) in \<open>auto simp: reconcile_def reconciled_def actions run_reload here Let_def case_prod_beta split: if_splits\<close>)
    next
      case (Some sha)
      then have sha: "is_canonical_sha sha" "exact_git_sha sha sha" using snapshot_sha_canonical canonical_sha_exact by (auto split: if_splits)
      show ?thesis
        by (rule stored) (use read Some sha assms(3,4) in \<open>auto simp: reconcile_def reconciled_def actions run_reload here Let_def case_prod_beta split: if_splits\<close>)
    qed
  qed
qed

section \<open>Reading a receipt\<close>

definition renewed_in :: "grant_store \<Rightarrow> string \<Rightarrow> string \<Rightarrow> bool" where
  "renewed_in st a b \<longleftrightarrow> (\<exists>g. grant_by_id st a = Some g \<and> trim_space (gf_renewed_from (gr_facts g)) = b) \<and> b \<noteq> []"

lemma run_lineage:
  "snd (run (lineage_from n cursor a) w) = w \<and> (fst (run (lineage_from n cursor a) w) = Some True \<longrightarrow> (\<exists>k<n. (renewed_in (mw_store w) ^^ k) cursor a))"
proof (induction n arbitrary: cursor)
  case (Suc n)
  show ?case
  proof (cases "cursor = [] \<or> cursor = a")
    case False
    show ?thesis
    proof (cases "grant_by_id (mw_store w) cursor")
      case (Some g)
      define up where "up = trim_space (gf_renewed_from (gr_facts g))"
      have step: "run (lineage_from (Suc n) cursor a) w = run (lineage_from n up a) w" using False Some by (simp add: up_def)
      have "(\<exists>k<Suc n. (renewed_in (mw_store w) ^^ k) cursor a)" if yes: "fst (run (lineage_from n up a) w) = Some True"
      proof -
        have "up \<noteq> []" using yes by (cases n) auto
        then have "renewed_in (mw_store w) cursor up" using Some by (auto simp: renewed_in_def up_def)
        moreover obtain k where "k < n" "(renewed_in (mw_store w) ^^ k) up a" using Suc yes by blast
        ultimately have "Suc k < Suc n" "(renewed_in (mw_store w) ^^ Suc k) cursor a" by (simp, blast intro: relpowp_Suc_I2)
        then show ?thesis by blast
      qed
      then show ?thesis using Suc [of up] step by simp
    qed (use False in simp)
  qed (auto intro: exI [of _ 0])
qed simp

lemma run_reconcile_rest: "mw_posts (snd (run (reconcile env v) w)) = mw_posts w"
  by (simp add: reconcile_def mark_recovery_def complete_reconciliation_def finish_after_dispatch_def run_reload grant_failed_def update_rest Let_def case_prod_beta
      split: option.split)

text \<open>
  C13. A receipt is read only with the credential of the grant that the effect was recorded for or of one
  that descends from it by at most 64 renewals, and reading calls nothing.
\<close>

theorem receipts_follow_renewals:
  assumes "run (get_invocation env raw raw_id) w = (answer, w')"
  shows "mw_posts w' = mw_posts w
    \<and> (\<forall>r. answer = Inr r \<longrightarrow> (\<exists>g actor executor v.
         load_grant_credential (me_grant env) raw (mw_store w) = Inr (g, actor, executor)
         \<and> load_invocation (trim_space raw_id) w = Some v \<and> canonical_uuid (trim_space raw_id)
         \<and> (iv_grant_id v = gf_id (gr_facts g)
             \<or> (\<exists>k<64. (renewed_in (mw_store w) ^^ k) (trim_space (gf_renewed_from (gr_facts g))) (iv_grant_id v)))))"
proof (cases "load_grant_credential (me_grant env) raw (mw_store w)")
  case (Inl e)
  then show ?thesis using assms by (auto simp: get_invocation_def grant_failed_def)
next
  case (Inr x)
  obtain g actor executor where x: "x = (g, actor, executor)" by (rule prod_cases3)
  show ?thesis
  proof (cases "load_invocation (trim_space raw_id) w")
    case None
    then show ?thesis using assms Inr x by (auto simp: get_invocation_def grant_failed_def Let_def split: if_splits)
  next
    case (Some v)
    have still: "snd (run (lineage_contains (gr_facts g) (iv_grant_id v)) w) = w"
      using run_lineage [of 64 "trim_space (gf_renewed_from (gr_facts g))" "iv_grant_id v" w]
      by (simp add: lineage_contains_def del: lineage_from.simps)
    have chain: "iv_grant_id v = gf_id (gr_facts g) \<or> (\<exists>k<64. (renewed_in (mw_store w) ^^ k) (trim_space (gf_renewed_from (gr_facts g))) (iv_grant_id v))"
      if "fst (run (lineage_contains (gr_facts g) (iv_grant_id v)) w) = Some True"
      using that run_lineage [of 64 "trim_space (gf_renewed_from (gr_facts g))" "iv_grant_id v" w]
      by (auto simp: lineage_contains_def simp del: lineage_from.simps split: if_splits)
    show ?thesis
    proof (cases "canonical_uuid (trim_space raw_id) \<and> fst (run (lineage_contains (gr_facts g) (iv_grant_id v)) w) = Some True")
      case True
      have "mw_posts w' = mw_posts w"
        using assms Inr x Some True still run_reconcile_rest [of env v w]
        by (auto simp: get_invocation_def grant_failed_def Let_def case_prod_beta split: if_splits)
      then show ?thesis using Inr x Some True chain by simp
    next
      case False
      then have "answer = Inl (GrantFailure GrantDenied)" "w' = w"
        using assms Inr x Some still by (auto simp: get_invocation_def grant_failed_def Let_def case_prod_beta split: if_splits)
      then show ?thesis by simp
    qed
  qed
qed

section \<open>What the code does not mean\<close>

text \<open>
  The base that reconciliation compares with is that of this service, where the preflight compares with
  that of the forge: where the two differ, an effect in flight whose pull request is still open
  ends as confirmed not to have merged.
\<close>

lemma other_base_ends_effect:
  assumes "me_snapshot env (iv_repository v) (ef_provider_repo (iv_effect v)) (ef_provider_pr_number (iv_effect v)) (mw_outside w) = Some s"
    and "\<not> ps_merged s" "\<not> exact_git_sha (ps_base_sha s) (ef_expected_base (iv_effect v))"
  shows "ep_state (reconciled env v w) = ConflictState" "ep_provider_outcome (reconciled env v w) = ''confirmed_not_merged''"
  using assms by (simp_all add: reconciled_def Let_def)

text \<open>The check for a head in another repository reads a column that the preflight does not select.\<close>

lemma head_repository_unchecked:
  "acknowledge_ff env repository (selected_pull pr) m head =
     (if \<not> exact_git_sha (mp_provider_base_sha m) head then Done False
      else act (mark_merged env repository (selected_pull pr) (mp_base_ref m) (mp_base_sha m) head))"
  by (simp add: acknowledge_ff_def selected_pull_def)

end
