(* ===== verification/Merge_Workload.thy ===== *)
theory Merge_Workload
  imports Merge_Properties Grant_Workload
begin

text \<open>
  A merge run on the operations: the workload of \<open>Grant_Workload\<close> with the envelope of a maintainer
  merges the pull request of \<open>Merge_Policy\<close>. The properties of merges are applied to it.
\<close>

section \<open>The surroundings\<close>

text \<open>The state outside is whether the forge has merged.\<close>

definition merger_snapshot :: "bool \<Rightarrow> pull_snapshot" where
  "merger_snapshot merged = \<lparr>ps_state = (if merged then ''closed'' else ''open''), ps_merged = merged, ps_mergeable = True,
     ps_merge_commit_sha = (if merged then replicate 40 CHR ''c'' else []), ps_head_sha = policy_head, ps_base_ref = ''main'',
     ps_base_sha = replicate 40 CHR ''a''\<rparr>"

definition merger_binding :: merge_binding where
  "merger_binding = \<lparr>mb_target_instance = ''prod'', mb_canonical_repository = ''org/repo'', mb_provider_repository = ''forge/repo'',
     mb_base_ref = ''main'', mb_merge_method = ''squash''\<rparr>"

definition merger_env :: "bool merge_env" where
  "merger_env = \<lparr>me_grant = workload_env (Some workload_auth) 2 ''b'', me_forge = True, me_git = True,
     me_effect_digest = (\<lambda>e. ei_repository e @ ei_ags_number e), me_requires_ci = (\<lambda>_. False), me_ff_ack = (\<lambda>_. False), me_url_ok = (\<lambda>_. True),
     me_binding = (\<lambda>_ _ _ _. Some merger_binding), me_base = (\<lambda>_ _ _. Some (replicate 40 CHR ''a'')),
     me_remote_base = (\<lambda>_ _ _. Some (replicate 40 CHR ''a'')), me_ancestor = (\<lambda>_ _ _ _. Some True),
     me_snapshot = (\<lambda>_ _ _ merged. Some (merger_snapshot merged)), me_authority = (\<lambda>_ _ _. True), me_runs = (\<lambda>_ _ _ _ _ _. None),
     me_merge = (\<lambda>_ _. (Some \<lparr>mr_outcome = ''confirmed'', mr_snapshot = merger_snapshot True\<rparr>, True)), me_update_refs = (\<lambda>_ _ _ _ _ _ _. None)\<rparr>"

lemma merger_env [simp]:
  "me_grant merger_env = workload_env (Some workload_auth) 2 ''b''" "me_forge merger_env" "me_git merger_env"
  "me_effect_digest merger_env e = ei_repository e @ ei_ags_number e" "\<not> me_requires_ci merger_env r" "\<not> me_ff_ack merger_env r" "me_url_ok merger_env r"
  "me_binding merger_env r i t b = Some merger_binding" "me_base merger_env r b out = Some (replicate 40 CHR ''a'')"
  "me_remote_base merger_env r b out = Some (replicate 40 CHR ''a'')" "me_ancestor merger_env r a b out = Some True"
  "me_snapshot merger_env r x n out = Some (merger_snapshot out)" "me_authority merger_env r b out"
  "me_merge merger_env p out = (Some \<lparr>mr_outcome = ''confirmed'', mr_snapshot = merger_snapshot True\<rparr>, True)"
  by (simp_all add: merger_env_def)

definition merger_grant :: grant_row where
  "merger_grant = \<lparr>gr_facts = \<lparr>gf_id = ''ax'', gf_credential_hash = workload_raw, gf_credential_prefix = [], gf_actor_user_id = 9, gf_executor_user_id = 1,
       gf_snapshot_id = ''a'', gf_source = in_source workload_intake, gf_repository_id = 7, gf_repository_full_name = ''org/repo'', gf_target_instance = ''prod'',
       gf_agent_selector = [], gf_agent_selector_outcome = [], gf_default_policy_class = default_dynamic_policy_class, gf_requested_policy_class = [],
       gf_policy_class_outcome = [], gf_effective_policy_classes = [default_dynamic_policy_class], gf_requested_operations = [],
       gf_effective_operations = grant_envelope True (merge_resolves (\<lambda>xs. xs) (Some workload_auth) ''prod'' ''org/repo''), gf_warnings = [],
       gf_default_binding_revision = [], gf_elevated_binding_revision = [], gf_resource_policy_revision = [], gf_authority_revision = ''revision'',
       gf_renewed_from = [], gf_created_at = 11 * second, gf_expires_at = 11 * second + 30 * minute\<rparr>,
     gr_last_used_at = None, gr_revoked_at = None, gr_revocation_reason = []\<rparr>"

lemma merger_grant_row: "workload_row_as True merger_grant"
  by (simp add: workload_row_as_def merger_grant_def)

definition merger_projection :: projection_row where
  "merger_projection = \<lparr>pj_pull_request_id = 5, pj_provider = ''forgejo'', pj_external_repo = ''forge/repo'', pj_external_number = 21, pj_external_url = [],
     pj_last_synced_sha = []\<rparr>"

definition merger_policy :: policy_facts where
  "merger_policy = \<lparr>pf_reviews = [], pf_runs = [], pf_statuses = [], pf_protections = [],
     pf_selection = (\<lambda>_. Some \<lparr>ci_name = ''native'', ci_required = None\<rparr>), pf_observed = (\<lambda>_. None)\<rparr>"

definition merger_store :: "grant_row \<Rightarrow> invocation_row list \<Rightarrow> grant_store" where
  "merger_store g vs = (snd workload_acted)\<lparr>gs_db := workload_db, gs_grants := [g], gs_invocations := vs\<rparr>"

definition merger_world :: "grant_row \<Rightarrow> invocation_row list \<Rightarrow> bool \<Rightarrow> merge_post list \<Rightarrow> bool merge_world" where
  "merger_world g vs merged posts = \<lparr>mw_store = merger_store g vs, mw_pulls = [policy_pull], mw_projections = [merger_projection],
     mw_policy = merger_policy, mw_now = 30 * second, mw_outside = merged, mw_posts = posts\<rparr>"

definition merger_id :: string where "merger_id = ''0000000a-0000-0000-0000-000000000001''"

definition merger_input :: merge_input where
  "merger_input = \<lparr>mi_invocation_id = merger_id, mi_ags_number = 11, mi_provider_number = 21, mi_head = policy_head, mi_method = ''squash''\<rparr>"

definition merger_constraints :: vals where
  "merger_constraints = (case pr_merge_constraints 11 21 policy_head ''squash'' of Some c \<Rightarrow> c)"

section \<open>Values\<close>

lemma merger_constraint_values:
  "pr_merge_constraints 11 21 policy_head ''squash'' = Some merger_constraints" "normalize_stored ''pr.merge'' merger_constraints = Some merger_constraints"
  "get0 merger_constraints ''pull_request_number'' = ''11''" "get0 merger_constraints ''forgejo_pull_request_number'' = ''21''"
  "get0 merger_constraints ''expected_head_sha'' = policy_head" "get0 merger_constraints ''merge_method'' = ''squash''"
  by code_simp+

lemma merger_text_values:
  "parse_int64 ''11'' = Some 11" "parse_int64 ''21'' = Some 21" "match_constraints ''pr.merge'' merger_constraints merger_constraints"
  "trim_char (CHR ''/'') (trim_space ''org/repo'') = ''org/repo''" "trim_char (CHR ''/'') ''org/repo'' = ''org/repo''"
  "trim_space merger_id = merger_id" "canonical_uuid merger_id" "exact_git_sha policy_head policy_head"
  "is_canonical_sha (replicate 40 CHR ''a'')" "to_lower (trim_space (replicate 40 CHR ''a'')) = replicate 40 CHR ''a''"
  "is_canonical_sha (replicate 40 CHR ''c'')" "exact_git_sha (replicate 40 CHR ''a'') (replicate 40 CHR ''a'')"
  "\<not> equal_fold ''squash'' ''fast-forward-only''" "trim_space ''squash'' = ''squash''" "equal_fold (trim_space ''forgejo'') ''forgejo''"
  "trim_space ''forge/repo'' = ''forge/repo''"
  by code_simp+

lemmas merger_values = merger_constraint_values merger_text_values

lemma merger_resolves: "merge_resolves (\<lambda>xs. xs) (Some workload_auth) ''prod'' ''org/repo''"
proof -
  have "case new_set workload_config of Inl _ \<Rightarrow> False | Inr s \<Rightarrow> merge_resolves (\<lambda>xs. xs) (Some s) ''prod'' ''org/repo''" by code_simp
  then show ?thesis by (auto simp: workload_auth_def built_def split: sum.splits)
qed

lemma merger_may: "contains_operation (gf_effective_operations (gr_facts merger_grant)) ''pr.merge''"
  by (simp add: merger_grant_def envelope_merge merger_resolves)

lemma merger_state: "gs_redirects (snd workload_acted) = [] \<Longrightarrow> workload_state [g] [] (merger_store g vs)"
  by (simp add: workload_state_def merger_store_def workload_rows del: One_nat_def)

lemma merger_redirects: "gs_redirects (snd workload_acted) = []"
  by code_simp

section \<open>The run\<close>

definition merger_found :: preflight_facts where
  "merger_found = \<lparr>mp_pull = Some (selected_pull policy_pull), mp_binding = Some merger_binding, mp_provider_repo = ''forge/repo'',
     mp_base_sha = replicate 40 CHR ''a'', mp_provider_base_sha = replicate 40 CHR ''a'', mp_base_ref = ''main''\<rparr>"

lemma merger_pull [simp]:
  "pl_id (selected_pull policy_pull) = 5" "pl_number (selected_pull policy_pull) = 11" "pl_repository_id (selected_pull policy_pull) = 7"
  "pl_state (selected_pull policy_pull) = ''open''" "\<not> pl_merged (selected_pull policy_pull)" "\<not> pl_draft (selected_pull policy_pull)"
  "pl_head_ref (selected_pull policy_pull) = ''topic''" "pl_head_sha (selected_pull policy_pull) = policy_head" "pl_base_ref (selected_pull policy_pull) = ''main''"
  "pl_base_sha (selected_pull policy_pull) = replicate 40 CHR ''a''"
  "pl_id policy_pull = 5" "pl_number policy_pull = 11" "pl_repository_id policy_pull = 7"
  "pl_state policy_pull = ''open''" "\<not> pl_merged policy_pull" "\<not> pl_draft policy_pull" "pl_head_sha policy_pull = policy_head" "pl_base_ref policy_pull = ''main''"
  by (simp_all add: selected_pull_def policy_pull_def)

lemma merger_world [simp]:
  "mw_store (merger_world g vs m ps) = merger_store g vs" "mw_pulls (merger_world g vs m ps) = [policy_pull]"
  "mw_projections (merger_world g vs m ps) = [merger_projection]" "mw_policy (merger_world g vs m ps) = merger_policy"
  "mw_now (merger_world g vs m ps) = 30 * second" "mw_outside (merger_world g vs m ps) = m" "mw_posts (merger_world g vs m ps) = ps"
  by (simp_all add: merger_world_def)

lemma merger_policy_passes: "enforce_merge_policy 5 merger_policy ''org/repo'' workload_human [] (selected_pull policy_pull) workload_db = (Inr (), workload_db)"
  using workload_access(2) workload_rows(9)
  by (simp add: enforce_merge_policy_def enforce_configured_ci_def branch_protection_def merger_policy_def workload_use_values(10))

lemma merger_looks: "run (provider_preflight 12 merger_env ''org/repo'' ''forge/repo'' 21 policy_head ''main'' (replicate 40 CHR ''a'')) (merger_world g vs False ps)
   = (True, merger_world g vs False ps)"
proof -
  have twelve: "(12::nat) = Suc 11" by simp
  show ?thesis unfolding twelve provider_preflight.simps by (simp add: merger_snapshot_def merger_values)
qed

lemma merger_same:
  "merger_world g vs m ps\<lparr>mw_store := merger_store g vs\<rparr> = merger_world g vs m ps"
  "on_store (\<lambda>st. st\<lparr>gs_db := workload_db\<rparr>) (merger_world g vs m ps) = merger_world g vs m ps"
  "gs_db (merger_store g vs) = workload_db"
  by (simp_all add: merger_world_def merger_store_def on_store_def)

lemma merger_evidence: "evidence_binding merger_env (selected_pull policy_pull) (merger_world g vs m ps) = Some (''forge/repo'', 21)"
proof -
  have "trim_space ''forge/repo'' \<noteq> []" "equal_fold (trim_space ''forgejo'') ''forgejo''" by (simp_all add: merger_values)
  then show ?thesis by (simp add: evidence_binding_def merger_projection_def display_url_ok_def)
qed

lemma merger_preflight:
  "run (merge_preflight merger_env merger_grant merger_constraints) (merger_world g vs False ps) = ((merger_found, None), merger_world g vs False ps)"
proof -
  have "30 * second < 11 * second + 30 * minute" by (simp add: second_def minute_def)
  then have valid: "revalidate_access_grant (workload_env (Some workload_auth) 2 ''b'') (30 * second) merger_grant (merger_store g vs)
      = (Inr (workload_agent, workload_human, workload_repo), merger_store g vs)"
    by (rule workload_revalidate [OF merger_state [OF merger_redirects] merger_grant_row])
  have sides: "run (merge_sides merger_env ''org/repo'' ''main'') (merger_world g vs False ps) = (Some (replicate 40 CHR ''a'', replicate 40 CHR ''a''), merger_world g vs False ps)"
    by (simp add: merge_sides_def merger_values)
  have target: "gf_target_instance (gr_facts merger_grant) = ''prod''" by (simp add: merger_grant_def)
  have load: "load_pull 7 11 (merger_world g vs False ps) = Some policy_pull" by (simp add: load_pull_def)
  have binding: "mb_canonical_repository merger_binding = ''org/repo''" "mb_target_instance merger_binding = ''prod''"
    "mb_provider_repository merger_binding = ''forge/repo''" "mb_base_ref merger_binding = ''main''" "mb_merge_method merger_binding = ''squash''"
    by (simp_all add: merger_binding_def)
  have ci: "run (preflight_ci merger_env m ''org/repo'' x pr n h) w = ((m, None), w)" for m x pr n h w
    by (simp add: preflight_ci_def)
  have s: "run (preflight_sides merger_env m workload_repo ''forge/repo'' (selected_pull policy_pull) 21 merger_constraints) (merger_world g vs False ps)
      = ((m\<lparr>mp_base_sha := replicate 40 CHR ''a'', mp_provider_base_sha := replicate 40 CHR ''a''\<rparr>, None), merger_world g vs False ps)" for m
    by (simp add: preflight_sides_def workload_rows sides ff_ack_eligible_def merger_values ci merger_looks Let_def)
  have p: "run (preflight_provider merger_env (gr_facts merger_grant) m workload_repo (selected_pull policy_pull) 21 merger_constraints) (merger_world g vs False ps)
      = ((m\<lparr>mp_provider_repo := ''forge/repo'', mp_binding := Some merger_binding, mp_base_sha := replicate 40 CHR ''a'',
           mp_provider_base_sha := replicate 40 CHR ''a''\<rparr>, None), merger_world g vs False ps)" for m
    by (simp add: preflight_provider_def merger_evidence workload_rows target binding merger_values s Let_def)
  have "run (preflight_pull merger_env (gr_facts merger_grant) workload_human workload_repo 11 21 merger_constraints) (merger_world g vs False ps)
      = ((merger_found, None), merger_world g vs False ps)"
    by (simp add: preflight_pull_def workload_rows load merger_values merger_policy_passes merger_same p merger_found_def no_preflight_def Let_def)
  then show ?thesis by (simp add: merge_preflight_def valid merger_values merger_same)
qed

definition merger_row :: "effect_progress \<Rightarrow> invocation_row" where
  "merger_row p = merge_row (gr_facts merger_grant) merger_id ''org/repo11'' merger_constraints
     (effect_of 11 merger_found merger_constraints) p (30 * second)"

definition merger_sent :: effect_progress where
  "merger_sent = (planned_progress (30 * second))\<lparr>ep_state := Dispatching, ep_provider_attempt := ''attempted'', ep_provider_outcome := ''outcome_unknown''\<rparr>"

definition merger_done :: effect_progress where
  "merger_done = merger_sent\<lparr>ep_state := Completed, ep_provider_outcome := ''confirmed'', ep_provider_merged := True,
     ep_merge_sha := replicate 40 CHR ''c'', ep_finished_at := Some (30 * second)\<rparr>"

lemma merger_row [simp]:
  "iv_id (merger_row p) = merger_id" "iv_effect_key (merger_row p) = Some ''org/repo11''" "iv_grant_id (merger_row p) = ''ax''"
  "iv_actor_user_id (merger_row p) = 9" "iv_executor_user_id (merger_row p) = 1"
  "iv_repository_id (merger_row p) = 7" "iv_repository (merger_row p) = ''org/repo''" "iv_operation (merger_row p) = ''pr.merge''"
  "iv_constraints (merger_row p) = merger_constraints" "iv_authority_revision (merger_row p) = ''revision''" "iv_progress (merger_row p) = p"
  "ef_ags_pr_number (iv_effect (merger_row p)) = 11" "ef_provider_repo (iv_effect (merger_row p)) = ''forge/repo''"
  "ef_provider_pr_number (iv_effect (merger_row p)) = 21" "ef_expected_head (iv_effect (merger_row p)) = policy_head"
  "ef_expected_base (iv_effect (merger_row p)) = replicate 40 CHR ''a''" "ef_base_ref (iv_effect (merger_row p)) = ''main''"
  "ef_method (iv_effect (merger_row p)) = ''squash''" "merger_row p\<lparr>iv_progress := q\<rparr> = merger_row q"
  by (simp_all add: merger_row_def merge_row_def merger_grant_def effect_of_def merger_found_def preflight_pr_number_def number_or_0_def merger_values)

lemma merger_facts [simp]:
  "gf_id (gr_facts merger_grant) = ''ax''" "gf_repository_full_name (gr_facts merger_grant) = ''org/repo''" "gf_repository_id (gr_facts merger_grant) = 7"
  "gf_authority_revision (gr_facts merger_grant) = ''revision''" "gf_actor_user_id (gr_facts merger_grant) = 9" "gf_executor_user_id (gr_facts merger_grant) = 1"
  "gf_expires_at (gr_facts merger_grant) = 11 * second + 30 * minute" "gr_revoked_at merger_grant = None" "gf_renewed_from (gr_facts merger_grant) = []"
  by (simp_all add: merger_grant_def)

lemma merger_live: "grant_live merger_grant (30 * second)"
  by (simp add: grant_live_def second_def minute_def)

lemma merger_invocation: "same_invocation (gr_facts merger_grant) (merger_row p) merger_constraints"
  by (simp add: same_invocation_def preflight_ags_number_def preflight_pr_number_def number_or_0_def merger_values)

lemma merger_matches: "preflight_matches merger_found (merger_row p)"
  by (simp add: preflight_matches_def merger_found_def merger_values merger_binding_def)

lemma merger_rows [simp]:
  "gs_invocations (merger_store g vs) = vs" "gs_grants (merger_store g vs) = [g]"
  "load_invocation merger_id (merger_world g [merger_row p] m ps) = Some (merger_row p)" "load_invocation i (merger_world g [] m ps) = None"
  "load_by_effect_key key (merger_world g [] m ps) = None"
  "grant_by_id (merger_store merger_grant vs) ''ax'' = Some merger_grant"
  by (simp_all add: merger_store_def load_invocation_def load_by_effect_key_def grant_by_id_def)

lemma merger_update:
  "update_progress merger_id states f (merger_world g [merger_row p] m ps) =
     (if ep_state p \<in> set states then (1, merger_world g [merger_row (f p)] m ps) else (0, merger_world g [merger_row p] m ps))"
  by (simp add: update_progress_def on_store_def merger_world_def merger_store_def)

lemma merger_find: "find_projection 5 (merger_world g vs m ps) = Some merger_projection" "pj_external_repo merger_projection = ''forge/repo''"
  "pj_external_number merger_projection = 21" "load_pull 7 11 (merger_world g vs m ps) = Some policy_pull"
  by (simp_all add: find_projection_def merger_projection_def load_pull_def)

lemma merger_persists:
  "run (persist_intent (gr_facts merger_grant) merger_found merger_constraints ''org/repo11'' merger_id) (merger_world merger_grant [] False []) =
     (Inr (merger_row (planned_progress (30 * second))), merger_world merger_grant [merger_row (planned_progress (30 * second))] False [])"
proof -
  have create: "create_row (merger_row p) (merger_world merger_grant [] False []) = (True, merger_world merger_grant [merger_row p] False [])" for p
    by (simp add: create_row_def insert_invocation_def merger_world_def merger_store_def)
  have found: "mp_pull merger_found = Some (selected_pull policy_pull)" by (simp add: merger_found_def)
  have recorded: "record_intent (gr_facts merger_grant) merger_found (merger_row p) (merger_world merger_grant [] False [])
      = Inr (merger_world merger_grant [merger_row p] False [])" for p
    by (simp add: record_intent_def merger_live found merger_values merger_find create)
  have row: "merge_row (gr_facts merger_grant) merger_id ''org/repo11'' merger_constraints (effect_of 11 merger_found merger_constraints) p (30 * second) = merger_row p" for p
    by (simp add: merger_row_def)
  show ?thesis by (simp add: persist_intent_def found row recorded Let_def)
qed

lemma merger_claims:
  "run (begin_dispatch (gr_facts merger_grant) (merger_row (planned_progress (30 * second)))) (merger_world merger_grant [merger_row (planned_progress (30 * second))] False []) =
     (Inr (merger_row merger_sent, True), merger_world merger_grant [merger_row merger_sent] False [])"
proof -
  have planned: "ep_state (planned_progress t) = Planned" "ep_updated_at (planned_progress t) = t" for t by (simp_all add: planned_progress_def)
  have facts: "dispatch_facts (gr_facts merger_grant) (merger_row p) merger_grant policy_pull merger_projection (30 * second)" for p
    by (simp add: dispatch_facts_def merger_live merger_values merger_find)
  have moved: "(planned_progress (30 * second))\<lparr>ep_state := Dispatching, ep_provider_attempt := ''attempted'', ep_provider_outcome := ''outcome_unknown'',
      ep_updated_at := 30 * second\<rparr> = merger_sent" by (simp add: merger_sent_def planned_progress_def)
  show ?thesis by (simp add: begin_dispatch_def claim_dispatch_def merger_find merger_update planned facts moved)
qed

definition merger_used :: grant_row where "merger_used = merger_grant\<lparr>gr_last_used_at := Some (30 * second)\<rparr>"

lemma merger_sends:
  "run (dispatch_claimed merger_env (gr_facts merger_grant) (merger_row (planned_progress (30 * second)))) (merger_world merger_grant [merger_row merger_sent] False []) =
     (receipt (merger_row merger_done), merger_world merger_used [merger_row merger_done] True [merge_post_of (merger_row (planned_progress (30 * second)))])"
proof -
  have result: "canonical_merge_result (Some \<lparr>mr_outcome = ''confirmed'', mr_snapshot = merger_snapshot True\<rparr>) policy_head = Some (replicate 40 CHR ''c'')"
    by (simp add: canonical_merge_result_def merger_snapshot_def merger_values snapshot_merge_sha_def)
  have sent: "ep_state merger_sent = Dispatching" "merger_sent\<lparr>ep_state := Completed, ep_provider_outcome := ''confirmed'', ep_provider_merged := True,
      ep_merge_sha := replicate 40 CHR ''c'', ep_updated_at := 30 * second, ep_finished_at := Some (30 * second)\<rparr> = merger_done"
    by (simp_all add: merger_sent_def merger_done_def planned_progress_def)
  have post: "(merger_world g vs m ps)\<lparr>mw_outside := True, mw_posts := qs\<rparr> = merger_world g vs True qs" for g vs m ps qs
    by (simp add: merger_world_def)
  have touch: "on_store (update_grants (\<lambda>g. gf_id (gr_facts g) = ''ax'') (\<lambda>g. g\<lparr>gr_last_used_at := Some (30 * second)\<rparr>)) (merger_world merger_grant vs m ps)
      = merger_world merger_used vs m ps" for vs m ps
    by (simp add: on_store_def update_grants_def merger_world_def merger_store_def merger_used_def)
  show ?thesis
    by (simp add: dispatch_claimed_def send_merge_def store_result_def complete_dispatch_def post result merger_values merger_update in_flight_def sent
        touch_grant_def touch)
qed

text \<open>The world after the merge, and the answer.\<close>

definition merger_post :: merge_post where "merger_post = merge_post_of (merger_row (planned_progress (30 * second)))"

definition merger_end :: "bool merge_world" where "merger_end = merger_world merger_used [merger_row merger_done] True [merger_post]"

lemma merger_dispatches:
  "run (dispatch merger_env merger_grant merger_id merger_constraints) (merger_world merger_grant [merger_row (planned_progress (30 * second))] False [])
     = (receipt (merger_row merger_done), merger_end)"
proof -
  have planned: "ep_state (planned_progress t) = Planned" for t by (simp add: planned_progress_def)
  have ack: "\<not> ff_ack_eligible merger_env r m b h" for r m b h by (simp add: ff_ack_eligible_def)
  have found: "mp_pull merger_found = Some (selected_pull policy_pull)" by (simp add: merger_found_def)
  show ?thesis
    using merger_sends
    by (simp add: dispatch_def planned dispatch_planned_def merger_preflight merger_matches dispatch_checked_def found ack dispatch_provider_def merger_claims
        after_claim_def merger_end_def merger_post_def)
qed

lemma merger_input [simp]:
  "mi_invocation_id merger_input = merger_id" "mi_ags_number merger_input = 11" "mi_provider_number merger_input = 21"
  "mi_head merger_input = policy_head" "mi_method merger_input = ''squash''"
  by (simp_all add: merger_input_def)

lemma merger_key: "merge_effect_key merger_env ''org/repo'' merger_constraints = Some ''org/repo11''"
  by (simp add: merge_effect_key_def merger_values)

lemma merger_active:
  assumes "workload_row_as True g"
  shows "resolve_active_grant (workload_env (Some workload_auth) 2 ''b'') (30 * second) workload_raw (merger_store g vs) = Inr (g, workload_agent, workload_human)"
proof -
  have "30 * second < 11 * second + 30 * minute" by (simp add: second_def minute_def)
  then show ?thesis by (rule workload_active [OF merger_state [OF merger_redirects] assms])
qed

text \<open>From nothing, and from an intent that was left planned.\<close>

lemma merger_executes:
  "run (execute_merge merger_env workload_raw merger_input) (merger_world merger_grant [] False []) = (receipt (merger_row merger_done), merger_end)"
proof -
  have "run (record_and_dispatch merger_env merger_grant merger_found merger_constraints ''org/repo11'' merger_id) (merger_world merger_grant [] False [])
      = (receipt (merger_row merger_done), merger_end)"
    using merger_persists merger_dispatches by (simp add: record_and_dispatch_def merger_invocation Let_def)
  then show ?thesis
    by (simp add: execute_merge_def merger_key merger_values merger_active [OF merger_grant_row] merger_may merger_preflight Let_def)
qed

lemma merger_resumes:
  "run (execute_merge merger_env workload_raw merger_input) (merger_world merger_grant [merger_row (planned_progress (30 * second))] False [])
     = (receipt (merger_row merger_done), merger_end)"
proof -
  have planned: "ep_state (planned_progress t) = Planned" for t by (simp add: planned_progress_def)
  show ?thesis
    using merger_dispatches
    by (simp add: execute_merge_def merger_key merger_values merger_active [OF merger_grant_row] merger_may merger_invocation resume_def resume_by_def planned Let_def)
qed

section \<open>The properties on it\<close>

lemma merger_request: "execute_merge merger_env workload_raw merger_input \<in> merge_requests"
  by (auto simp: merge_requests_def)

lemma others_idle: "others_act w w"
  unfolding others_act_def by (intro conjI exI [of _ "[]"]) simp_all

lemma merger_unique: "rows_unique (merge_rows (merger_world g [merger_row p] m ps))" "rows_unique (merge_rows (merger_world g [] m ps))"
  by (simp_all add: rows_unique_def merge_rows_def)

theorem single_provider_attempt_witness:
  "\<exists>ws. pool merge_requests others_act (merger_world merger_grant [] False []) ws [Done (receipt (merger_row merger_done))] merger_end
     \<and> mw_posts merger_end = [merger_post] \<and> (\<exists>v\<in>set ws. effect_cleared merger_post v)
     \<and> (\<exists>i. load_invocation merger_id merger_end = Some i \<and> merge_post_of i = merger_post \<and> ep_state (iv_progress i) \<noteq> Planned)"
proof -
  obtain ws where ws: "pool merge_requests others_act (merger_world merger_grant [] False []) ws [Done (receipt (merger_row merger_done))] merger_end"
    by (rule run_pool [where start = "merger_world merger_grant [] False []", OF merger_request others_idle]) (auto simp: merger_executes)
  have post: "mw_posts merger_end = [merger_post]" "po_invocation merger_post = merger_id" by (simp_all add: merger_end_def merger_post_def merge_post_of_def)
  have "mw_posts (merger_world merger_grant [] False []) = []" by simp
  from single_provider_attempt [OF ws this merger_unique(2)] show ?thesis using ws post by auto
qed

theorem merge_receipts_final_witness:
  "\<exists>q. load_invocation merger_id merger_end = Some (merger_row q) \<and> (q = planned_progress (30 * second) \<or> state_moves Planned (ep_state q))"
proof -
  define start where "start = merger_world merger_grant [merger_row (planned_progress (30 * second))] False []"
  obtain ws where ws: "start \<in> set ws" "pool merge_requests others_act start ws [Done (receipt (merger_row merger_done))] merger_end"
    by (rule run_pool [where start = start, OF merger_request others_idle]) (auto simp: merger_resumes start_def)
  have "mw_posts start = []" "rows_unique (merge_rows start)" "load_invocation merger_id start = Some (merger_row (planned_progress (30 * second)))"
    using merger_unique by (simp_all add: start_def)
  from merge_receipts_final [OF ws(2) this(1,2) ws(1) this(3)] show ?thesis by (auto simp: planned_progress_def)
qed

lemma merger_used_row: "workload_row_as True merger_used" "gr_facts merger_used = gr_facts merger_grant"
  by (simp_all add: workload_row_as_def merger_used_def merger_grant_def)

theorem repeated_merge_answers_receipt_witness:
  "run (execute_merge merger_env workload_raw merger_input) merger_end = (receipt (merger_row merger_done), merger_end)"
proof (rule repeated_merge_answers_receipt [where g = merger_used and c = merger_constraints and key = "''org/repo11''"])
  show "resolve_active_grant (me_grant merger_env) (mw_now merger_end) workload_raw (mw_store merger_end) = Inr (merger_used, workload_agent, workload_human)"
    by (simp add: merger_end_def merger_active [OF merger_used_row(1)])
qed (simp_all add: merger_used_row merger_may merger_values merger_key merger_end_def merger_invocation merger_done_def)

theorem reconcile_decides_witness:
  "\<exists>w'. run (reconcile merger_env (merger_row merger_sent)) (merger_world merger_grant [merger_row merger_sent] True [merger_post])
       = (receipt (merger_row (merger_done\<lparr>ep_provider_outcome := ''reconciled_after_error''\<rparr>)), w')
     \<and> mw_posts w' = [merger_post]"
proof -
  have "reconciled merger_env (merger_row merger_sent) (merger_world merger_grant [merger_row merger_sent] True [merger_post])
      = merger_done\<lparr>ep_provider_outcome := ''reconciled_after_error''\<rparr>"
    by (simp add: reconciled_def merger_snapshot_def snapshot_merge_sha_def merger_values merger_done_def merger_sent_def planned_progress_def Let_def)
  moreover have "ep_state merger_sent = Dispatching" by (simp add: merger_sent_def)
  ultimately show ?thesis
    using reconcile_decides [of "merger_row merger_sent" "merger_world merger_grant [merger_row merger_sent] True [merger_post]" merger_env] by auto
qed

theorem receipts_follow_renewals_witness:
  "\<exists>g actor executor v. load_grant_credential (me_grant merger_env) workload_raw (mw_store merger_end) = Inr (g, actor, executor)
     \<and> load_invocation merger_id merger_end = Some v
     \<and> (iv_grant_id v = gf_id (gr_facts g) \<or> (\<exists>k<64. (renewed_in (mw_store merger_end) ^^ k) (trim_space (gf_renewed_from (gr_facts g))) (iv_grant_id v)))"
proof -
  have "load_grant_credential (workload_env (Some workload_auth) 2 ''b'') workload_raw (merger_store merger_used [merger_row merger_done])
      = Inr (merger_used, workload_agent, workload_human)"
    using merger_active [OF merger_used_row(1), of "[merger_row merger_done]"] unfolding resolve_active_grant_def rbind_def
    by (auto split: sum.splits if_splits)
  then have "run (get_invocation merger_env workload_raw merger_id) merger_end = (Inr (invocation_receipt_of (merger_row merger_done)), merger_end)"
    by (simp add: get_invocation_def merger_end_def merger_values lineage_contains_def merger_used_row merger_done_def receipt_def Let_def)
  from receipts_follow_renewals [OF this] show ?thesis by (auto simp: merger_values)
qed

end
