(* ===== verification/Spec2Isabelle.thy ===== *)
theory Spec2Isabelle
  imports Operation_Catalog Authority_Properties Operation_Constraints Config_Yaml Delegation_Policy
    Legacy_Migration Rate_Limiter Rate_Window Repo_Access Durable_Authorize Edge_Manifest Snapshot_Store
    Search_Query Access_Grant Grant_Store Transport_Session Session_Lifecycle Grant_Machine Grant_Lifecycle
    Grant_Workload Grant_Properties Interleaving Merge_Policy Merge_Intent Merge_Execute Merge_Safety
    Merge_Properties Merge_Workload
begin

text \<open>
  The authority core of agent-git-service, a GitHub compatible git service for agents and people.
  Requests pass a rate limiter (\<open>internal/ratelimit\<close>, \<open>internal/middleware\<close>), are authenticated,
  and are then authorized: by native repository permissions in the database (\<open>internal/service\<close>),
  and for agents also by immutable snapshots of configuration, the session authority
  (\<open>internal/sessionauthority\<close>) and the older delegation policy (\<open>internal/delegationpolicy\<close>). Which
  operations exist and which constraints they take is the business of \<open>internal/operationcatalog\<close>
  and \<open>internal/operationconstraints\<close>. Edges serve reads from published snapshots of repositories
  that \<open>internal/edgeprotocol\<close> describes and \<open>internal/snapshotstore\<close> keeps. A run of an agent exchanges
  its bearer for an access grant on one repository (\<open>access_grant.go\<close>), derives short transport
  sessions of one operation from it (\<open>access_grant_transport.go\<close>), and each session is checked again
  when its effect is about to be committed (\<open>delegated_session_use_time.go\<close>). The one effect on a remote
  forge that a grant may have is the merge of a pull request (\<open>access_grant_merge.go\<close>): an intent is
  recorded first, its dispatch is claimed once, and what became of it is read back.

  \<^bold>\<open>Theories.\<close>

  \<^item> \<open>Go_Prelude\<close>: results as \<open>'e + 'a\<close> with \<open>rbind\<close> and the loop \<open>rfold\<close>, package strings (bytes; ASCII
    case and space), decimal numbers, maps with an iteration order, rows with a key. \<open>Go_Time\<close>:
    instants as nanoseconds since year 1, durations, RFC 3339. \<open>Yaml_Node\<close>: the trees of yaml.v3.
  \<^item> \<open>Operation_Catalog\<close> (\<open>catalog.go\<close>): the classification of operations and the advertised lists.
  \<^item> \<open>Authority_Model\<close>, \<open>Authority_Set\<close>, \<open>Authority_Resolve\<close> (\<open>authority.go\<close>): rows and their normalisers, the
    construction \<open>new_set\<close> of a snapshot with its indexes, and resolution of requests.
    \<open>Authority_Facts\<close>: the invariant of constructed snapshots and an interface for lookups,
    interpreted on the indexes. \<open>Authority_Properties\<close>: what a grant implies, ambiguity, order.
  \<^item> \<open>Operation_Constraints\<close> (\<open>constraints.go\<close>): schemas, normal forms, matching, JSON.
  \<^item> \<open>Config_Yaml\<close>: the strict decoders of both configuration formats.
  \<^item> \<open>Delegation_Policy\<close> (\<open>policy.go\<close>) and \<open>Legacy_Migration\<close> (\<open>migration.go\<close>): the two generations of
    delegation rows, their resolution and the plan that moves them to the session authority.
  \<^item> \<open>Rate_Limiter\<close> (\<open>ratelimit.go\<close>, \<open>apiRateLimitHeaders\<close>) and \<open>Rate_Window\<close> (\<open>RateLimit\<close>): the two limiters. The
    locale \<open>admission\<close> states what an admission rule by key has to promise; isolation of keys is
    proved in it once and both limiters interpret it.
  \<^item> \<open>Repo_Access\<close> (\<open>permission.go\<close>, \<open>repo_access.go\<close>, \<open>team_admins.go\<close>): tables as lists of rows, the SQL
    query as joins and groups, the fallback, the repair of administrators.
  \<^item> \<open>Access_Grant\<close> (\<open>evaluateAccessGrantAuthority\<close>): the authority a grant gives, a pure function of
    the tables, the session authority and what is asked for. \<open>Grant_Store\<close> (\<open>access_grant.go\<close>,
    \<open>execution_context.go\<close>): the tables, the intake of execution contexts, canonical actors, and the
    operations on grants. \<open>Transport_Session\<close> (\<open>access_grant_transport.go\<close>, \<open>delegated_session.go\<close>,
    \<open>delegated_session_use_time.go\<close>): derivation and use of sessions, audit, redaction.
    \<open>Session_Lifecycle\<close> (\<open>delegated_session_expiry.go\<close>, \<open>delegated_session_lifecycle.go\<close>): the sweep of
    expired sessions and the readback.
  \<^item> \<open>Grant_Machine\<close>: an abstract machine on the tables of grants and sessions, and that every
    operation is one of its steps. \<open>Grant_Lifecycle\<close>: what its runs preserve; the locale \<open>row_order\<close>
    is interpreted on both tables. \<open>Grant_Workload\<close>: reachable stores under interleaved operations.
    \<open>Grant_Properties\<close>: the theorems on grants and sessions.
  \<^item> \<open>Interleaving\<close>: programs of atomic actions and pools of them; the locale \<open>single_effect\<close> is the
    contract of an effect that is sent once under a claim. \<open>Merge_Policy\<close> (\<open>pr_merge_policy.go\<close>,
    \<open>ci_policy.go\<close>): reviews, checks and branch protection. \<open>Merge_Intent\<close>
    (\<open>access_grant_merge_runtime.go\<close>, \<open>provider_merge_result.go\<close>): the preflight and the reconciliation.
    \<open>Merge_Execute\<close> (\<open>access_grant_merge.go\<close>, \<open>provider_merge_reconcile.go\<close>): recording, claiming, the call,
    the acknowledgement of a fast forward and the two handlers. \<open>Merge_Safety\<close> interprets
    \<open>single_effect\<close> on them, \<open>Merge_Properties\<close> has the theorems and \<open>Merge_Workload\<close> a merge that is run.
  \<^item> \<open>Durable_Authorize\<close> (\<open>durable_authorize.go\<close>): the composition of tables, snapshot and constraints.
  \<^item> \<open>Edge_Manifest\<close> (\<open>read.go\<close>, \<open>manifest.go\<close>): snapshot descriptors and manifests.
  \<^item> \<open>Snapshot_Store\<close> (\<open>store.go\<close>, \<open>retention.go\<close>, \<open>retention_restart.go\<close>): leases, publication, removal and
    retention as a step relation over critical sections.
  \<^item> \<open>Search_Query\<close> (\<open>search/parser.go\<close>): tokens and qualifiers of search, commit and code queries.

  \<^bold>\<open>State and effects.\<close> Snapshots, limiters, databases and stores are records, operations return them
  updated. Errors are values, one constructor for each error the code tells apart. Where Go ranges
  over a map the order is a parameter and the properties hold for every order. Pointers matter in
  the snapshot store only, where the map and the leases share entries: they are positions in a
  heap. Integers are \<open>int\<close> where the code keeps them within its checks; the sum the limiter
  forms is taken modulo 64 bits. All loops are recursions
  with a measure; the only bound that counts down is the one the code has, two attempts at creating
  a canonical actor. A database transaction is a function to an error or the next store, and an error leaves the store
  as it was. An operation that runs several transactions is their sequence, and where others may
  commit between a check and its use (\<open>RevalidateDelegatedSession\<close>) the store it meets then is an
  argument. The readings of the clock in one operation are numbered, \<open>ev_clock env 0\<close> the first. Merges
  call git and the forge between their transactions, so there a handler is a program whose actions
  are the statements, transactions and calls, and \<open>pool\<close> lets any number of handlers take actions in
  any order; a handler that is not chosen again is one that crashed. The calls that merge are kept
  in a list. The bounds of the code are kept: twelve looks at the forge before a merge, 64 renewals
  followed when a receipt is read.

  \<^bold>\<open>Parameters.\<close> Validity of a UUID, SHA-256 digests, the typed decoding of YAML, fresh identities and secrets, the
  puller of execution contexts, the clock and what
  the operating system leaves of a directory it fails to remove are arguments (the fields \<open>ev_\<dots>\<close> of
  \<open>grant_env\<close> for grants). So are, for merges, git and the forge, functions over a state outside of any type
  (the fields \<open>me_\<dots>\<close> of \<open>merge_env\<close>), and what a CI backend observes. Hypotheses about
  them are in the statements that need them.

  \<^bold>\<open>What is shown.\<close> Grants of the session authority and of the delegation policy rest on active
  rows that match the request, the resource in target, service and repository, and never exceed
  their ceilings (where the code joins names with a NUL byte, for names without one); constructed snapshots satisfy their invariant;
  answers do not depend on map order; constraints are normalised to canonical, secret free values
  that survive the way through JSON. Limiters stay within their limits on every sequence of
  requests, if windows are whole seconds, isolate their keys, and tell an honest time to wait. The access query computes the
  documented permission, the fallback agrees with it, the repair only raises. Durable
  authorization implies the native permission and, for agents, a resource and, where team bindings
  exist, a class that lists the operation. The snapshot store keeps exact reference counts in every
  reachable state, never touches a leased view, and decides retention exactly. Access grants are for the
  standard operations and pr.merge exactly under a merge role; every operation on grants and sessions
  refines the machine, in whose runs facts are frozen, revocation is final, sessions stay within
  their grants and renewals form chains. Between the operations others may mark rows as used, and
  repositories may be deleted, which removes their sessions (\<open>DeleteRepo\<close> of \<open>repo.go\<close>, of which only
  that effect is stated). A use is accepted only on what holds at the commit. Sweeps
  drain the expired sessions, redaction is a projection, and canonical actors are stable. However
  handlers of merges interleave and crash, the forge is asked at most once for an effect, after it
  was cleared; rows of merges move on only and are final in the end, a repeated request answers
  them, reconciliation decides by what the forge shows, and the policy of a merge means what it
  says about reviewers and checks, with the exemptions it makes for site admins and listed users. Splitting a search
  query undoes writing it, and the state it asks for does not depend on the order of qualifiers.

  \<^bold>\<open>Not modelled.\<close> The HTTP, GraphQL and git front ends, the remaining service layer (issues, pull
  requests, projections, wiki, execution of searches), the creation of pull requests through access grants
  (\<open>access_grant_pr.go\<close>), auto-merge and merges by people (\<open>ObserveHumanProviderMerge\<close>), replication, the edge
  server, forge integrations and login: they are transactions over a large schema or input and
  output around libraries. The vendored command line client is not part of the service. In the
  modelled parts, the carrying of a session in a request context, cancelled contexts, logging, locks and fsync are left out; strings are bytes, so
  case and space beyond ASCII are not folded.
\<close>


section \<open>The registries of operations\<close>

lemma registry_names:
  "set (map fst catalog) = set (map fst operations)" "set (map fst catalog) = set default_operations"
  by code_simp+

lemma operation_names_canonical:
  "\<forall>n\<in>set (map fst operations). normalize_operation n = n"
  by code_simp

text \<open>
  Three packages keep a list of operations: the catalog, the registry of the session authority
  and the constraint schemas. They agree: an operation is in the catalog exactly when its
  constraints have a schema, every such operation is registered under its own name, and the
  sorted list of registered operations is the sorted list of the catalog.
\<close>

theorem registries_agree:
  "(is_known n \<longleftrightarrow> is_default_operation n)
   \<and> (is_known n \<longleftrightarrow> (\<exists>oper. lookup_operation (trim_space n) = Some oper \<and> op_name oper = trim_space n))
   \<and> map op_name registered_operations = all_operations"
proof -
  have "is_known n \<longleftrightarrow> trim_space n \<in> set (map fst catalog)"
    by (simp add: is_known_def risk_of_def map_of_eq_None_iff)
  moreover have "(\<exists>oper. lookup_operation (trim_space n) = Some oper \<and> op_name oper = trim_space n)
      \<longleftrightarrow> trim_space n \<in> set (map fst operations)"
  proof -
    have "list_all (\<lambda>(k, oper). op_name oper = k) operations" "distinct (map fst operations)" by code_simp+
    then have "lookup_operation m = Some oper \<Longrightarrow> op_name oper = normalize_operation m" for m oper
      by (auto simp: lookup_operation_def list_all_iff dest!: map_of_SomeD)
    moreover have "m \<in> set (map fst operations) \<longleftrightarrow> lookup_operation m \<noteq> None \<and> normalize_operation m = m" for m
      using operation_names_canonical by (force simp: lookup_operation_def map_of_eq_None_iff)
    ultimately show ?thesis by (metis not_None_eq)
  qed
  moreover have "map op_name registered_operations = all_operations" by code_simp
  ultimately show ?thesis using registry_names by (simp add: is_default_operation_def)
qed

end
